(* ===== verification/Atpd_Prelude.thy ===== *)
theory Atpd_Prelude
  imports Main "HOL-Library.Word"
begin

text \<open>
  Shared vocabulary of the development: the names of the C types, the error
  numbers the sources test for, C strings held in fixed-size buffers, decimal
  printing, and the generic list lemmas the component theories rest on.

  A C string is a \<^typ>\<open>string\<close> (its characters up to the terminating NUL).
  A copy into a buffer of \<open>n\<close> bytes with \<open>strncpy\<close>/\<open>snprintf\<close> keeps the first
  \<open>n - 1\<close> characters: this is \<open>c_trunc\<close>.
\<close>

named_theorems atpd_simps \<open>simplification rules shared by the component proofs\<close>
named_theorems atpd_inv \<open>invariant preservation facts\<close>

type_synonym u64 = "64 word"
type_synonym u32 = "32 word"
type_synonym fd = int
type_synonym pid = int
type_synonym code_ptr = nat
type_synonym data_ptr = nat

text \<open>The values of \<open>errno\<close> the sources distinguish.  On Linux \<open>EWOULDBLOCK\<close> is
  \<open>EAGAIN\<close>; every value the sources do not name is \<open>EOther\<close>.\<close>

datatype errno = EAGAIN | EINTR | EPIPE | ENOENT | ESRCH | ECHILD | EPERM | EACCES
  | EINVAL | ENOSYS | EOPNOTSUPP | EEXIST | ECONNREFUSED | ENOMEM | EBADF | ERANGE
  | ENAMETOOLONG | ENOTDIR | EINPROGRESS | ECONNRESET | ESPIPE | EOther int

definition INT_MAX :: int where "INT_MAX = 2147483647"
definition INT_MIN :: int where "INT_MIN = - 2147483648"
definition SIZE_MAX :: nat where "SIZE_MAX = 2 ^ 64 - 1"

definition c_trunc :: "nat \<Rightarrow> string \<Rightarrow> string" where
  "c_trunc n s = take (n - 1) s"

lemma length_c_trunc [simp]: "length (c_trunc n s) \<le> n - 1"
  by (simp add: c_trunc_def)

lemma c_trunc_id [simp]: "length s < n \<Longrightarrow> c_trunc n s = s"
  by (simp add: c_trunc_def)

lemma c_trunc_idem [simp]: "c_trunc n (c_trunc n s) = c_trunc n s"
  by (simp add: c_trunc_def)

lemma c_trunc_Nil [simp]: "c_trunc n [] = []"
  by (simp add: c_trunc_def)

text \<open>Decimal printing, as the \<open>%d\<close> and \<open>%llu\<close> directives of \<open>printf\<close>.\<close>

definition digit_char :: "nat \<Rightarrow> char" where
  "digit_char d = (if d < 10 then ''0123456789'' ! d else CHR ''?'')"

fun show_nat :: "nat \<Rightarrow> string" where
  "show_nat n = (if n < 10 then [digit_char n] else show_nat (n div 10) @ [digit_char (n mod 10)])"

declare show_nat.simps [simp del]

definition show_int :: "int \<Rightarrow> string" where
  "show_int i = (if i < 0 then CHR ''-'' # show_nat (nat (- i)) else show_nat (nat i))"

text \<open>The two character classes of \<open>ctype.h\<close> (C locale) the sources use.\<close>

definition c_isspace :: "char \<Rightarrow> bool" where
  "c_isspace c \<longleftrightarrow> c = CHR '' '' \<or> (9 \<le> (of_char c :: nat) \<and> (of_char c :: nat) \<le> 13)"

definition c_isdigit :: "char \<Rightarrow> bool" where
  "c_isdigit c \<longleftrightarrow> 48 \<le> (of_char c :: nat) \<and> (of_char c :: nat) \<le> 57"

definition c_digit_val :: "char \<Rightarrow> nat" where
  "c_digit_val c = (of_char c :: nat) - 48"

text \<open>Lines a \<open>LOG_*\<close> macro writes, where a component returns them.\<close>

datatype log_line = LogInfo string | LogWarn string | LogError string

subsection \<open>Bounded logs\<close>

text \<open>The contract of a log that keeps the most recent \<open>cap\<close> items.\<close>

definition last_n :: "nat \<Rightarrow> 'a list \<Rightarrow> 'a list" where
  "last_n n xs = drop (length xs - n) xs"

lemma length_last_n [simp]: "length (last_n n xs) = min n (length xs)"
  by (simp add: last_n_def)

lemma last_n_id [simp]: "length xs \<le> n \<Longrightarrow> last_n n xs = xs"
  by (simp add: last_n_def)

lemma last_n_append_last_n: "last_n n (last_n n xs @ ys) = last_n n (xs @ ys)"
proof (cases "length xs \<le> n")
  case True
  then show ?thesis by simp
next
  case False
  then show ?thesis by (auto simp: last_n_def add.commute)
qed

locale bounded_log =
  fixes contents :: "'s \<Rightarrow> 'a list"
    and invar :: "'s \<Rightarrow> bool"
    and push :: "'a \<Rightarrow> 's \<Rightarrow> 's"
    and cap :: nat
  assumes invar_push: "invar s \<Longrightarrow> invar (push x s)"
    and contents_push: "invar s \<Longrightarrow> contents (push x s) = last_n cap (contents s @ [x])"
    and contents_cap: "invar s \<Longrightarrow> length (contents s) \<le> cap"
begin

lemma invar_fold: "invar s \<Longrightarrow> invar (fold push xs s)"
  by (induction xs arbitrary: s) (auto simp: invar_push)

lemma contents_fold: "invar s \<Longrightarrow> contents (fold push xs s) = last_n cap (contents s @ xs)"
proof (induction xs arbitrary: s)
  case Nil
  then show ?case by (simp add: contents_cap)
next
  case (Cons x xs)
  then show ?case
    using last_n_append_last_n [of cap "contents s @ [x]" xs]
    by (simp add: invar_push contents_push)
qed

lemma newest_kept: "invar s \<Longrightarrow> 0 < cap \<Longrightarrow> last (contents (push x s)) = x"
  using contents_push [of s x] by (simp add: last_n_def)

end

subsection \<open>Reading in pieces\<close>

text \<open>The answers of \<open>read\<close> or \<open>recv\<close> that deliver a text in whatever pieces, with
  interruptions between them.\<close>

definition chunk_of :: "errno + string \<Rightarrow> string" where
  "chunk_of a = (case a of Inl _ \<Rightarrow> [] | Inr c \<Rightarrow> c)"

lemma chunk_of_simps [simp]: "chunk_of (Inl e) = []" "chunk_of (Inr c) = c"
  by (simp_all add: chunk_of_def)

definition pieces :: "(errno + string) list \<Rightarrow> bool" where
  "pieces as \<longleftrightarrow> (\<forall>a\<in>set as. a = Inl EINTR \<or> (\<exists>c. a = Inr c \<and> c \<noteq> []))"

lemma pieces_Cons: "pieces (a # as) \<longleftrightarrow> (a = Inl EINTR \<or> (\<exists>c. a = Inr c \<and> c \<noteq> [])) \<and> pieces as"
  by (simp add: pieces_def)

subsection \<open>Options\<close>

lemma option_eqI: "(\<And>y. a = Some y \<longleftrightarrow> b = Some y) \<Longrightarrow> a = b"
  by (cases a; cases b) auto

lemma bind_SomeE:
  assumes "Option.bind f g = Some y"
  obtains x where "f = Some x" "g x = Some y"
  using assms by (auto simp: bind_eq_Some_conv)

subsection \<open>Words\<close>

lemma uint_u64_of_int: "0 \<le> k \<Longrightarrow> k < 2 ^ 64 \<Longrightarrow> uint (word_of_int k :: u64) = k"
  by (simp only: uint_word_of_int_eq) (simp add: take_bit_int_eq_self)

subsection \<open>Lists\<close>

lemma Ball_list_update: "\<forall>x\<in>set xs. P x \<Longrightarrow> P v \<Longrightarrow> \<forall>x\<in>set (xs[i := v]). P x"
  using set_update_subset_insert [of xs i v] by blast

lemma distinct_remove1_not_in: "distinct xs \<Longrightarrow> x \<notin> set (remove1 x xs)"
  by simp

end
