(* ===== verification/Atpd_Error.thy ===== *)
theory Atpd_Error
  imports Atpd_Prelude
begin

text \<open>
  The error ring of \<open>src/atpd_error.c\<close> and \<open>include/atpd_error.h\<close>: a ring of
  \<open>ATPD_ERROR_MAX\<close> entries with the indices \<open>head\<close> (oldest) and \<open>tail\<close> (next
  slot), a fill count and a 64-bit total.  Every operation runs under the
  ring's mutex, so an operation is one atomic step.  The ring implements a log of
  the last 128 errors: it is an instance of the locale \<open>bounded_log\<close>.
\<close>

definition ATPD_ERROR_MAX :: int where
  "ATPD_ERROR_MAX = 128"

definition ATPD_ERROR_MSG_LEN :: nat where
  "ATPD_ERROR_MSG_LEN = 256"

datatype atpd_error_code_t = ATPD_ERR_NONE | ATPD_ERR_CONFIG_LOAD | ATPD_ERR_CONFIG_RELOAD
  | ATPD_ERR_SERVICE_START | ATPD_ERR_SERVICE_STOP | ATPD_ERR_NETLINK_INIT | ATPD_ERR_IPC
  | ATPD_ERR_TIMEOUT | ATPD_ERR_MEMORY | ATPD_ERR_IO | ATPD_ERR_PERMISSION | ATPD_ERR_UNKNOWN

record atpd_error_entry_t =
  err_code :: atpd_error_code_t
  err_msg :: string
  err_file :: string
  err_line :: int
  err_func :: string
  err_timestamp :: u64

record atpd_error_ring_t =
  ring_entries :: "atpd_error_entry_t list"
  ring_count :: int
  ring_head :: int
  ring_tail :: int
  ring_total_count :: u64

definition zero_entry :: atpd_error_entry_t where
  "zero_entry = \<lparr>err_code = ATPD_ERR_NONE, err_msg = [], err_file = [], err_line = 0,
     err_func = [], err_timestamp = 0\<rparr>"

definition g_error_ring :: atpd_error_ring_t where
  "g_error_ring = \<lparr>ring_entries = replicate (nat ATPD_ERROR_MAX) zero_entry,
     ring_count = 0, ring_head = 0, ring_tail = 0, ring_total_count = 0\<rparr>"

fun atpd_error_code_string :: "atpd_error_code_t \<Rightarrow> string" where
  "atpd_error_code_string ATPD_ERR_NONE = ''NONE''"
| "atpd_error_code_string ATPD_ERR_CONFIG_LOAD = ''CONFIG_LOAD''"
| "atpd_error_code_string ATPD_ERR_CONFIG_RELOAD = ''CONFIG_RELOAD''"
| "atpd_error_code_string ATPD_ERR_SERVICE_START = ''SERVICE_START''"
| "atpd_error_code_string ATPD_ERR_SERVICE_STOP = ''SERVICE_STOP''"
| "atpd_error_code_string ATPD_ERR_NETLINK_INIT = ''NETLINK_INIT''"
| "atpd_error_code_string ATPD_ERR_IPC = ''IPC''"
| "atpd_error_code_string ATPD_ERR_TIMEOUT = ''TIMEOUT''"
| "atpd_error_code_string ATPD_ERR_MEMORY = ''MEMORY''"
| "atpd_error_code_string ATPD_ERR_IO = ''IO''"
| "atpd_error_code_string ATPD_ERR_PERMISSION = ''PERMISSION''"
| "atpd_error_code_string ATPD_ERR_UNKNOWN = ''UNKNOWN''"

definition atpd_error_init :: "atpd_error_ring_t \<Rightarrow> atpd_error_ring_t" where
  "atpd_error_init r = r\<lparr>ring_entries := replicate (nat ATPD_ERROR_MAX) zero_entry,
     ring_count := 0, ring_head := 0, ring_tail := 0, ring_total_count := 0\<rparr>"

definition mk_error_entry ::
  "atpd_error_code_t \<Rightarrow> string \<Rightarrow> string option \<Rightarrow> int \<Rightarrow> string option \<Rightarrow> u64 \<Rightarrow> atpd_error_entry_t" where
  "mk_error_entry code msg file line func now =
     \<lparr>err_code = code,
      err_msg = c_trunc ATPD_ERROR_MSG_LEN msg,
      err_file = c_trunc 64 (case file of None \<Rightarrow> [] | Some f \<Rightarrow> f),
      err_line = line,
      err_func = c_trunc 64 (case func of None \<Rightarrow> [] | Some f \<Rightarrow> f),
      err_timestamp = now\<rparr>"

text \<open>The update of the ring between the lock and the unlock of \<open>atpd_error_push\<close>.\<close>

definition ring_store :: "atpd_error_entry_t \<Rightarrow> atpd_error_ring_t \<Rightarrow> atpd_error_ring_t" where
  "ring_store e r =
     (let idx = ring_tail r;
          r1 = r\<lparr>ring_entries := (ring_entries r)[nat idx := e],
                 ring_tail := (ring_tail r + 1) mod ATPD_ERROR_MAX\<rparr>;
          r2 = (if ring_count r1 < ATPD_ERROR_MAX then r1\<lparr>ring_count := ring_count r1 + 1\<rparr>
                else r1\<lparr>ring_head := (ring_head r1 + 1) mod ATPD_ERROR_MAX\<rparr>)
      in r2\<lparr>ring_total_count := ring_total_count r2 + 1\<rparr>)"

definition error_log_line :: "atpd_error_entry_t \<Rightarrow> string" where
  "error_log_line e = ''['' @ atpd_error_code_string (err_code e) @ ''] '' @ err_msg e @ '' (''
     @ err_file e @ '':'' @ show_int (err_line e) @ '' '' @ err_func e @ '')''"

definition atpd_error_push ::
  "atpd_error_code_t \<Rightarrow> string option \<Rightarrow> string option \<Rightarrow> int \<Rightarrow> string option \<Rightarrow> u64
   \<Rightarrow> atpd_error_ring_t \<Rightarrow> atpd_error_ring_t \<times> log_line list" where
  "atpd_error_push code msg file line func now r =
     (if code = ATPD_ERR_NONE then (r, [])
      else case msg of
        None \<Rightarrow> (r, [])
      | Some m \<Rightarrow>
          (let snapshot = mk_error_entry code m file line func now
           in (ring_store snapshot r, [LogError (error_log_line snapshot)])))"

definition atpd_error_clear :: "atpd_error_ring_t \<Rightarrow> atpd_error_ring_t" where
  "atpd_error_clear r = r\<lparr>ring_entries := replicate (nat ATPD_ERROR_MAX) zero_entry,
     ring_count := 0, ring_head := 0, ring_tail := 0\<rparr>"

definition atpd_error_count :: "atpd_error_ring_t \<Rightarrow> int" where
  "atpd_error_count r = ring_count r"

text \<open>\<open>None\<close> is the result -1; \<open>out_given\<close> says that the out pointer is not NULL.\<close>

definition atpd_error_get :: "int \<Rightarrow> bool \<Rightarrow> atpd_error_ring_t \<Rightarrow> atpd_error_entry_t option" where
  "atpd_error_get index out_given r =
     (if \<not> out_given \<or> index < 0 then None
      else if ring_count r \<le> index then None
      else Some (ring_entries r ! nat ((ring_head r + index) mod ATPD_ERROR_MAX)))"

definition atpd_error_get_last :: "bool \<Rightarrow> atpd_error_ring_t \<Rightarrow> atpd_error_entry_t option" where
  "atpd_error_get_last out_given r =
     (if \<not> out_given then None
      else if ring_count r = 0 then None
      else Some (ring_entries r ! nat ((ring_tail r - 1 + ATPD_ERROR_MAX) mod ATPD_ERROR_MAX)))"

definition ring_contents :: "atpd_error_ring_t \<Rightarrow> atpd_error_entry_t list" where
  "ring_contents r =
     map (\<lambda>i. ring_entries r ! nat ((ring_head r + int i) mod ATPD_ERROR_MAX)) [0..<nat (ring_count r)]"

definition atpd_error_print_all :: "atpd_error_ring_t \<Rightarrow> log_line list" where
  "atpd_error_print_all r =
     (let entries = ring_contents r in
      if ring_count r = 0 then [LogInfo ''No errors recorded'']
      else LogInfo (''=== Error Log ('' @ show_int (ring_count r) @ '' entries, total: ''
             @ show_nat (unat (ring_total_count r)) @ '') ==='')
           # map (\<lambda>e. LogInfo (''['' @ atpd_error_code_string (err_code e) @ ''] '' @ err_msg e)) entries)"

definition atpd_error_total :: "atpd_error_ring_t \<Rightarrow> u64" where
  "atpd_error_total r = ring_total_count r"

subsection \<open>The ring invariant\<close>

definition ring_wf :: "atpd_error_ring_t \<Rightarrow> bool" where
  "ring_wf r \<longleftrightarrow> length (ring_entries r) = nat ATPD_ERROR_MAX
     \<and> 0 \<le> ring_count r \<and> ring_count r \<le> ATPD_ERROR_MAX
     \<and> 0 \<le> ring_head r \<and> ring_head r < ATPD_ERROR_MAX
     \<and> ring_tail r = (ring_head r + ring_count r) mod ATPD_ERROR_MAX"

lemma ring_wf_initial: "ring_wf g_error_ring"
  by (simp add: ring_wf_def g_error_ring_def ATPD_ERROR_MAX_def)

lemma ring_wf_init: "ring_wf (atpd_error_init r)"
  by (simp add: ring_wf_def atpd_error_init_def ATPD_ERROR_MAX_def)

lemma ring_wf_clear: "ring_wf (atpd_error_clear r)"
  by (simp add: ring_wf_def atpd_error_clear_def ATPD_ERROR_MAX_def)

lemma ring_wf_store: "ring_wf r \<Longrightarrow> ring_wf (ring_store e r)"
  unfolding ring_wf_def ring_store_def Let_def ATPD_ERROR_MAX_def
  by (auto simp: mod_simps algebra_simps)

lemma ring_tail_bounds: "ring_wf r \<Longrightarrow> 0 \<le> ring_tail r \<and> ring_tail r < ATPD_ERROR_MAX"
  by (simp add: ring_wf_def ATPD_ERROR_MAX_def)

lemma length_ring_contents: "length (ring_contents r) = nat (ring_count r)"
  by (simp add: ring_contents_def)

lemma nth_ring_contents:
  "i < nat (ring_count r) \<Longrightarrow>
   ring_contents r ! i = ring_entries r ! nat ((ring_head r + int i) mod ATPD_ERROR_MAX)"
  by (simp add: ring_contents_def)

text \<open>A slot at distance \<open>i\<close> from the head other than the tail keeps its entry.\<close>

lemma slot_inj:
  assumes "0 \<le> i" "i < 128" "0 \<le> j" "j < 128" "(h + i) mod 128 = (h + j) mod (128::int)"
  shows "i = j"
proof -
  have "(128::int) dvd (h + i) - (h + j)"
    using assms(5) by (simp add: mod_eq_dvd_iff)
  then have "(128::int) dvd i - j" by simp
  then have "i - j = 0 \<or> 128 \<le> \<bar>i - j\<bar>"
    using dvd_imp_le_int [of "i - j" 128] by fastforce
  with assms(1-4) show ?thesis by linarith
qed

lemma ring_contents_store:
  assumes "ring_wf r"
  shows "ring_contents (ring_store e r) = last_n (nat ATPD_ERROR_MAX) (ring_contents r @ [e])"
proof (rule nth_equalityI)
  note wf = assms [unfolded ring_wf_def ATPD_ERROR_MAX_def, simplified]
  show "length (ring_contents (ring_store e r)) =
      length (last_n (nat ATPD_ERROR_MAX) (ring_contents r @ [e]))"
    using wf by (auto simp: length_ring_contents ring_store_def Let_def ATPD_ERROR_MAX_def)
next
  fix i
  note wf = assms [unfolded ring_wf_def ATPD_ERROR_MAX_def, simplified]
  assume i: "i < length (ring_contents (ring_store e r))"
  show "ring_contents (ring_store e r) ! i = last_n (nat ATPD_ERROR_MAX) (ring_contents r @ [e]) ! i"
  proof (cases "ring_count r < 128")
    case True
    have len: "length (ring_contents r @ [e]) \<le> nat ATPD_ERROR_MAX"
      using True wf by (simp add: length_ring_contents ATPD_ERROR_MAX_def)
    have "i < nat (ring_count r) \<or> i = nat (ring_count r)"
      using i True wf by (auto simp: length_ring_contents ring_store_def Let_def ATPD_ERROR_MAX_def)
    then show ?thesis
    proof
      assume lt: "i < nat (ring_count r)"
      have "(ring_head r + int i) mod 128 \<noteq> (ring_head r + ring_count r) mod 128"
        using slot_inj [of "int i" "ring_count r" "ring_head r"] lt True wf by force
      then show ?thesis
        using i lt len True wf
        by (simp add: nth_ring_contents ring_store_def Let_def ATPD_ERROR_MAX_def nth_append
            length_ring_contents nth_list_update nat_eq_iff)
    next
      assume "i = nat (ring_count r)"
      then show ?thesis
        using i len True wf
        by (simp add: nth_ring_contents ring_store_def Let_def ATPD_ERROR_MAX_def nth_append
            length_ring_contents)
    qed
  next
    case False
    then have full: "ring_count r = 128" using wf by simp
    then have tail: "ring_tail r = ring_head r" using wf by simp
    have i128: "i < 128"
      using i full by (simp add: length_ring_contents ring_store_def Let_def ATPD_ERROR_MAX_def)
    have hd: "nat (ring_head r) < length (ring_entries r)" using wf by linarith
    have lhs: "ring_contents (ring_store e r) ! i =
        (ring_entries r)[nat (ring_head r) := e] ! nat ((ring_head r + (1 + int i)) mod 128)"
      using i full tail
      by (simp add: nth_ring_contents length_ring_contents ring_store_def Let_def ATPD_ERROR_MAX_def
          mod_simps algebra_simps)
    have rhs: "last_n (nat ATPD_ERROR_MAX) (ring_contents r @ [e]) ! i = (ring_contents r @ [e]) ! Suc i"
      using i128 full
      by (simp add: last_n_def length_ring_contents ATPD_ERROR_MAX_def nth_append)
    show ?thesis
    proof (cases "i = 127")
      case True
      then show ?thesis
        using lhs rhs full wf hd by (simp add: nth_append length_ring_contents)
    next
      case False
      with i128 have "int i + 1 < 128" by simp
      then have "(ring_head r + (1 + int i)) mod 128 \<noteq> (ring_head r + 0) mod 128"
        using slot_inj [of "1 + int i" 0 "ring_head r"] by auto
      then show ?thesis
        using lhs rhs full wf False i128
        by (simp add: nth_append length_ring_contents nth_ring_contents ATPD_ERROR_MAX_def nat_eq_iff
            algebra_simps)
    qed
  qed
qed

interpretation ering: bounded_log ring_contents ring_wf ring_store "nat ATPD_ERROR_MAX"
proof unfold_locales
  show "length (ring_contents s) \<le> nat ATPD_ERROR_MAX" if "ring_wf s" for s
    using that by (auto simp: length_ring_contents ring_wf_def intro: nat_mono)
qed (simp_all add: ring_wf_store ring_contents_store)

subsection \<open>Histories of pushes\<close>

type_synonym push_req =
  "atpd_error_code_t \<times> string option \<times> string option \<times> int \<times> string option \<times> u64"

text \<open>The entries the calls of \<open>atpd_error_push\<close> in a history are meant to record.\<close>

fun recorded :: "push_req list \<Rightarrow> atpd_error_entry_t list" where
  "recorded [] = []"
| "recorded ((code, msg, file, line, func, now) # qs) =
     (case msg of
        None \<Rightarrow> recorded qs
      | Some m \<Rightarrow> (if code = ATPD_ERR_NONE then recorded qs
                   else mk_error_entry code m file line func now # recorded qs))"

definition push_all :: "push_req list \<Rightarrow> atpd_error_ring_t \<Rightarrow> atpd_error_ring_t" where
  "push_all qs r =
     fold (\<lambda>(code, msg, file, line, func, now) r. fst (atpd_error_push code msg file line func now r)) qs r"

lemma push_all_store: "push_all qs r = fold ring_store (recorded qs) r"
  unfolding push_all_def
  by (induction qs arbitrary: r rule: recorded.induct)
     (auto simp: atpd_error_push_def Let_def split: option.splits)

lemma total_store: "ring_total_count (ring_store e r) = ring_total_count r + 1"
  by (simp add: ring_store_def Let_def)

lemma total_fold: "ring_total_count (fold ring_store es r) = ring_total_count r + of_nat (length es)"
  by (induction es arbitrary: r) (auto simp: total_store algebra_simps)

lemma get_contents:
  "ring_wf r \<Longrightarrow> atpd_error_get index out_given r =
     (if out_given \<and> 0 \<le> index \<and> index < int (length (ring_contents r))
      then Some (ring_contents r ! nat index) else None)"
  by (auto simp: atpd_error_get_def length_ring_contents nth_ring_contents ring_wf_def)

lemma get_last_contents:
  assumes "ring_wf r"
  shows "atpd_error_get_last out_given r =
     (if out_given \<and> ring_contents r \<noteq> [] then Some (last (ring_contents r)) else None)"
proof (cases "ring_count r = 0")
  case True
  then show ?thesis by (simp add: atpd_error_get_last_def ring_contents_def)
next
  case False
  note wf = assms [unfolded ring_wf_def ATPD_ERROR_MAX_def, simplified]
  have ne: "ring_contents r \<noteq> []"
    using False wf length_ring_contents [of r] by auto
  have "int (nat (ring_count r) - 1) = ring_count r - 1"
    using False wf by linarith
  moreover have "(ring_tail r - 1 + 128) mod 128 = (ring_head r + (ring_count r - 1)) mod 128"
    using wf mod_add_self2 [of "ring_head r + (ring_count r - 1)" 128]
    by (simp add: mod_simps algebra_simps)
  ultimately have "(ring_tail r - 1 + 128) mod 128 =
      (ring_head r + int (nat (ring_count r) - 1)) mod 128"
    by simp
  then have "last (ring_contents r) = ring_entries r ! nat ((ring_tail r - 1 + 128) mod 128)"
    using ne False wf
    by (simp add: last_conv_nth length_ring_contents nth_ring_contents ATPD_ERROR_MAX_def)
  then show ?thesis
    using False ne by (simp add: atpd_error_get_last_def ATPD_ERROR_MAX_def)
qed

text \<open>C1: after any history of calls the ring holds exactly the last 128 recorded errors in
  order (calls with code NONE or a NULL message record nothing), \<open>atpd_error_get\<close> reads
  the i-th of them and fails outside, \<open>atpd_error_get_last\<close> gives the newest one, and the
  total counts every recorded error modulo \<open>2 ^ 64\<close>.\<close>

theorem error_ring_refines_history:
  "ring_contents (push_all qs g_error_ring) = last_n 128 (recorded qs)
   \<and> atpd_error_count (push_all qs g_error_ring) = int (min 128 (length (recorded qs)))
   \<and> atpd_error_get index True (push_all qs g_error_ring) =
       (if 0 \<le> index \<and> index < int (min 128 (length (recorded qs)))
        then Some (last_n 128 (recorded qs) ! nat index) else None)
   \<and> atpd_error_get_last True (push_all qs g_error_ring) =
       (if recorded qs = [] then None else Some (last (recorded qs)))
   \<and> atpd_error_total (push_all qs g_error_ring) = of_nat (length (recorded qs))"
proof -
  let ?r = "push_all qs g_error_ring"
  have wf: "ring_wf ?r"
    unfolding push_all_store by (rule ering.invar_fold [OF ring_wf_initial])
  have empty: "ring_contents g_error_ring = []"
    by (simp add: ring_contents_def g_error_ring_def)
  have con: "ring_contents ?r = last_n 128 (recorded qs)"
    unfolding push_all_store
    using ering.contents_fold [OF ring_wf_initial, of "recorded qs"]
    by (simp add: empty ATPD_ERROR_MAX_def)
  have cnt: "ring_count ?r = int (min 128 (length (recorded qs)))"
    using length_ring_contents [of ?r] wf by (simp add: con ring_wf_def)
  have lst: "recorded qs \<noteq> [] \<Longrightarrow> last (last_n 128 (recorded qs)) = last (recorded qs)"
    by (simp add: last_n_def last_drop)
  have tot: "ring_total_count ?r = of_nat (length (recorded qs))"
    unfolding push_all_store by (simp add: total_fold g_error_ring_def)
  have ne: "last_n 128 (recorded qs) = [] \<longleftrightarrow> recorded qs = []"
    using length_last_n [of 128 "recorded qs"] by (cases "recorded qs") (auto simp: last_n_def)
  show ?thesis
    using con cnt lst tot ne get_contents [OF wf, of index True] get_last_contents [OF wf, of True]
    by (simp add: atpd_error_count_def atpd_error_total_def)
qed

text \<open>\<open>atpd_error_clear\<close> empties the log but keeps the total, and later errors are
  recorded as in a fresh ring.\<close>

theorem error_clear_keeps_total:
  "atpd_error_total (push_all qs (atpd_error_clear r)) =
     atpd_error_total r + of_nat (length (recorded qs))
   \<and> ring_contents (push_all qs (atpd_error_clear r)) = last_n 128 (recorded qs)"
  using ering.contents_fold [OF ring_wf_clear, of "recorded qs" r]
  by (simp add: atpd_error_total_def push_all_store total_fold atpd_error_clear_def
      ring_contents_def ATPD_ERROR_MAX_def)

end
