(* ===== verification/Atpd_Context.thy ===== *)
theory Atpd_Context
  imports Atpd_Prelude
begin

text \<open>
  The process-wide context of \<open>src/atpd_context.c\<close>: the daemon's lifecycle state
  machine and the observed VPN state with its two owner callbacks.  Every
  operation holds the context's mutex while it reads or writes, so it is one
  step; the callbacks are called after the unlock and are the events a step
  emits.  Enumeration arguments are the C integers, because the operations check
  their range.  The monotonic clock's reading is an argument.
\<close>

datatype vpn_state_t = VPN_STATE_IDLE | VPN_STATE_PREDICTING | VPN_STATE_READY | VPN_STATE_TEARDOWN

datatype atpd_runtime_state_t = RT_UNINITIALIZED | RT_INITIALIZING | RT_RUNNING | RT_RELOADING
  | RT_STOPPING | RT_STOPPED | RT_FAILED

record timespec =
  tv_sec :: int
  tv_nsec :: int

record atpd_vpn_snapshot_t =
  vpn_state :: vpn_state_t
  vpn_if_id :: u32
  vpn_iface :: string
  vpn_changed_at :: timespec
  vpn_transitions :: u64

record atpd_context =
  ctx_initialized :: bool
  ctx_vpn :: atpd_vpn_snapshot_t
  ctx_vpn_mode_callback :: "code_ptr option"
  ctx_vpn_mode_userdata :: "data_ptr option"
  ctx_vpn_teardown_callback :: "code_ptr option"
  ctx_runtime_state :: atpd_runtime_state_t
  ctx_started_at_mono :: timespec

datatype context_event =
    ModeCallback code_ptr vpn_state_t "string option" "data_ptr option"
  | TeardownCallback code_ptr

definition g_context :: atpd_context where
  "g_context = \<lparr>ctx_initialized = False,
     ctx_vpn = \<lparr>vpn_state = VPN_STATE_IDLE, vpn_if_id = 0, vpn_iface = [],
       vpn_changed_at = \<lparr>tv_sec = 0, tv_nsec = 0\<rparr>, vpn_transitions = 0\<rparr>,
     ctx_vpn_mode_callback = None, ctx_vpn_mode_userdata = None, ctx_vpn_teardown_callback = None,
     ctx_runtime_state = RT_UNINITIALIZED, ctx_started_at_mono = \<lparr>tv_sec = 0, tv_nsec = 0\<rparr>\<rparr>"

text \<open>The enumerations' values; \<open>None\<close> is a value outside the enumeration.\<close>

definition vpn_state_of_int :: "int \<Rightarrow> vpn_state_t option" where
  "vpn_state_of_int i =
     (if i < 0 \<or> 3 < i then None
      else Some ([VPN_STATE_IDLE, VPN_STATE_PREDICTING, VPN_STATE_READY, VPN_STATE_TEARDOWN] ! nat i))"

definition runtime_state_of_int :: "int \<Rightarrow> atpd_runtime_state_t option" where
  "runtime_state_of_int i =
     (if i < 0 \<or> 6 < i then None
      else Some ([RT_UNINITIALIZED, RT_INITIALIZING, RT_RUNNING, RT_RELOADING, RT_STOPPING,
                  RT_STOPPED, RT_FAILED] ! nat i))"

definition vpn_state_string :: "int \<Rightarrow> string" where
  "vpn_state_string i = (case vpn_state_of_int i of
       Some VPN_STATE_IDLE \<Rightarrow> ''IDLE''
     | Some VPN_STATE_PREDICTING \<Rightarrow> ''PREDICTING''
     | Some VPN_STATE_READY \<Rightarrow> ''READY''
     | Some VPN_STATE_TEARDOWN \<Rightarrow> ''TEARDOWN''
     | None \<Rightarrow> ''UNKNOWN'')"

definition runtime_state_names :: "string list" where
  "runtime_state_names = [''UNINITIALIZED'', ''INITIALIZING'', ''RUNNING'', ''RELOADING'',
     ''STOPPING'', ''STOPPED'', ''FAILED'']"

definition atpd_runtime_state_string :: "int \<Rightarrow> string" where
  "atpd_runtime_state_string i =
     (if 0 \<le> i \<and> i \<le> 6 then runtime_state_names ! nat i else ''UNKNOWN'')"

definition atpd_context_init :: "timespec \<Rightarrow> atpd_context \<Rightarrow> int \<times> atpd_context" where
  "atpd_context_init now c =
     (if ctx_initialized c then (-1, c)
      else (0, c\<lparr>ctx_initialized := True,
        ctx_vpn := (ctx_vpn c)\<lparr>vpn_state := VPN_STATE_IDLE, vpn_if_id := 0, vpn_iface := [],
          vpn_changed_at := now, vpn_transitions := 0\<rparr>,
        ctx_vpn_mode_callback := None, ctx_vpn_mode_userdata := None,
        ctx_vpn_teardown_callback := None,
        ctx_runtime_state := RT_UNINITIALIZED, ctx_started_at_mono := now\<rparr>))"

fun runtime_transition_allowed :: "atpd_runtime_state_t \<Rightarrow> atpd_runtime_state_t \<Rightarrow> bool" where
  "runtime_transition_allowed RT_UNINITIALIZED new = (new = RT_INITIALIZING)"
| "runtime_transition_allowed RT_INITIALIZING new =
     (new = RT_RUNNING \<or> new = RT_FAILED \<or> new = RT_STOPPING)"
| "runtime_transition_allowed RT_RUNNING new =
     (new = RT_RELOADING \<or> new = RT_STOPPING \<or> new = RT_FAILED)"
| "runtime_transition_allowed RT_RELOADING new = (new = RT_RUNNING \<or> new = RT_STOPPING)"
| "runtime_transition_allowed RT_STOPPING new = (new = RT_STOPPED)"
| "runtime_transition_allowed RT_FAILED new = (new = RT_STOPPING \<or> new = RT_STOPPED)"
| "runtime_transition_allowed RT_STOPPED new = False"

definition atpd_runtime_state_transition :: "int \<Rightarrow> atpd_context \<Rightarrow> int \<times> atpd_context" where
  "atpd_runtime_state_transition new_state c =
     (case runtime_state_of_int new_state of
        None \<Rightarrow> (-1, c)
      | Some new \<Rightarrow>
          (let old = ctx_runtime_state c in
           if old = new then (0, c)
           else if \<not> runtime_transition_allowed old new then (-1, c)
           else (0, c\<lparr>ctx_runtime_state := new\<rparr>)))"

definition atpd_runtime_is_running :: "atpd_context \<Rightarrow> bool" where
  "atpd_runtime_is_running c \<longleftrightarrow> ctx_runtime_state c = RT_RUNNING"

definition atpd_runtime_can_reload :: "atpd_context \<Rightarrow> bool" where
  "atpd_runtime_can_reload c \<longleftrightarrow> ctx_runtime_state c = RT_RUNNING"

definition atpd_runtime_get_uptime :: "timespec \<Rightarrow> atpd_context \<Rightarrow> u64" where
  "atpd_runtime_get_uptime now c =
     (let started = ctx_started_at_mono c in
      if tv_sec now < tv_sec started
         \<or> (tv_sec now = tv_sec started \<and> tv_nsec now < tv_nsec started)
      then 0 else word_of_int (tv_sec now - tv_sec started))"

definition atpd_vpn_state_transition ::
  "timespec \<Rightarrow> int \<Rightarrow> u32 \<Rightarrow> string option \<Rightarrow> atpd_context
   \<Rightarrow> int \<times> atpd_context \<times> context_event list" where
  "atpd_vpn_state_transition now new_state if_id iface c =
     (case vpn_state_of_int new_state of
        None \<Rightarrow> (-1, c, [])
      | Some new \<Rightarrow>
          (let callback_iface = (case iface of
                   None \<Rightarrow> []
                 | Some s \<Rightarrow> (if s = [] then [] else c_trunc 32 s));
               old = vpn_state (ctx_vpn c);
               identity_changed = (vpn_if_id (ctx_vpn c) \<noteq> if_id
                                   \<or> vpn_iface (ctx_vpn c) \<noteq> callback_iface)
           in if old = new \<and> \<not> identity_changed then (0, c, [])
              else
                (let v = (ctx_vpn c)\<lparr>vpn_state := new, vpn_if_id := if_id,
                           vpn_iface := c_trunc 32 callback_iface, vpn_changed_at := now,
                           vpn_transitions := vpn_transitions (ctx_vpn c) + 1\<rparr>;
                     teardown_edge = (old \<noteq> VPN_STATE_TEARDOWN \<and> new = VPN_STATE_TEARDOWN);
                     mode_events = (case ctx_vpn_mode_callback c of
                         None \<Rightarrow> []
                       | Some f \<Rightarrow> [ModeCallback f new
                           (if callback_iface = [] then None else Some callback_iface)
                           (ctx_vpn_mode_userdata c)]);
                     teardown_events = (case ctx_vpn_teardown_callback c of
                         None \<Rightarrow> []
                       | Some f \<Rightarrow> (if teardown_edge then [TeardownCallback f] else []))
                 in (0, c\<lparr>ctx_vpn := v\<rparr>, mode_events @ teardown_events))))"

definition atpd_vpn_get_snapshot :: "atpd_context \<Rightarrow> atpd_vpn_snapshot_t" where
  "atpd_vpn_get_snapshot c = ctx_vpn c"

definition atpd_set_vpn_mode_callback ::
  "code_ptr option \<Rightarrow> data_ptr option \<Rightarrow> atpd_context \<Rightarrow> atpd_context" where
  "atpd_set_vpn_mode_callback callback userdata c =
     c\<lparr>ctx_vpn_mode_callback := callback, ctx_vpn_mode_userdata := userdata\<rparr>"

definition atpd_set_vpn_teardown_callback :: "code_ptr option \<Rightarrow> atpd_context \<Rightarrow> atpd_context" where
  "atpd_set_vpn_teardown_callback callback c = c\<lparr>ctx_vpn_teardown_callback := callback\<rparr>"

subsection \<open>The lifecycle\<close>

text \<open>Histories of lifecycle requests.  The four phases of a run are ordered.\<close>

definition run_transitions :: "int list \<Rightarrow> atpd_context \<Rightarrow> atpd_context" where
  "run_transitions rs c = fold (\<lambda>r c. snd (atpd_runtime_state_transition r c)) rs c"

fun phase :: "atpd_runtime_state_t \<Rightarrow> nat" where
  "phase RT_UNINITIALIZED = 0"
| "phase RT_INITIALIZING = 1"
| "phase RT_RUNNING = 2"
| "phase RT_RELOADING = 2"
| "phase RT_FAILED = 3"
| "phase RT_STOPPING = 4"
| "phase RT_STOPPED = 5"

lemma allowed_phase: "runtime_transition_allowed a b \<Longrightarrow> phase a \<le> phase b"
  by (cases a) auto

lemma transition_result:
  "fst (atpd_runtime_state_transition i c) = 0 \<and>
     (\<exists>new. runtime_state_of_int i = Some new
       \<and> (ctx_runtime_state c = new \<or> runtime_transition_allowed (ctx_runtime_state c) new)
       \<and> snd (atpd_runtime_state_transition i c) = c\<lparr>ctx_runtime_state := new\<rparr>)
   \<or> fst (atpd_runtime_state_transition i c) = -1 \<and> snd (atpd_runtime_state_transition i c) = c"
  unfolding atpd_runtime_state_transition_def Let_def by (auto split: option.splits)

lemma transition_phase:
  "phase (ctx_runtime_state c) \<le> phase (ctx_runtime_state (snd (atpd_runtime_state_transition i c)))"
  using transition_result [of i c] by (auto dest: allowed_phase)

lemma run_transitions_phase:
  "phase (ctx_runtime_state c) \<le> phase (ctx_runtime_state (run_transitions rs c))"
  unfolding run_transitions_def
proof (induction rs arbitrary: c)
  case (Cons r rs)
  then show ?case
    using transition_phase [of c r] order_trans by fastforce
qed simp

lemma transition_stopped:
  "ctx_runtime_state c = RT_STOPPED \<Longrightarrow> snd (atpd_runtime_state_transition r c) = c"
  by (auto simp: atpd_runtime_state_transition_def Let_def split: option.splits)

text \<open>C6: the daemon's lifecycle never goes back: after any further sequence of requests,
  accepted or rejected, the phase has not decreased, so that from STOPPING on the daemon is
  never running, reloading or initializing again, from STOPPED it stays STOPPED, and nothing
  reaches RUNNING from a failed state.\<close>

theorem lifecycle_monotone:
  assumes "c' = run_transitions rs c"
  shows "phase (ctx_runtime_state c) \<le> phase (ctx_runtime_state c')
    \<and> (ctx_runtime_state c = RT_STOPPED \<longrightarrow> c' = c)
    \<and> (ctx_runtime_state c \<in> {RT_STOPPING, RT_FAILED, RT_STOPPED} \<longrightarrow>
         \<not> atpd_runtime_is_running c' \<and> \<not> atpd_runtime_can_reload c')"
proof (intro conjI impI)
  show mono: "phase (ctx_runtime_state c) \<le> phase (ctx_runtime_state c')"
    unfolding assms by (rule run_transitions_phase)
  show "c' = c" if "ctx_runtime_state c = RT_STOPPED"
    unfolding assms run_transitions_def using that
    by (induction rs) (auto simp: transition_stopped)
  assume "ctx_runtime_state c \<in> {RT_STOPPING, RT_FAILED, RT_STOPPED}"
  then show "\<not> atpd_runtime_is_running c'" "\<not> atpd_runtime_can_reload c'"
    using mono by (auto simp: atpd_runtime_is_running_def atpd_runtime_can_reload_def)
qed

theorem lifecycle_monotone_witness:
  "let c = g_context\<lparr>ctx_runtime_state := RT_STOPPING\<rparr>; c' = run_transitions [2, 5, 1, 2] c in
   ctx_runtime_state c' = RT_STOPPED \<and> \<not> atpd_runtime_is_running c'"
proof -
  define c where "c = g_context\<lparr>ctx_runtime_state := RT_STOPPING\<rparr>"
  have "\<not> atpd_runtime_is_running (run_transitions [2, 5, 1, 2] c)"
    using lifecycle_monotone [OF refl, of c "[2, 5, 1, 2]"] by (simp add: c_def)
  moreover have "ctx_runtime_state (run_transitions [2, 5, 1, 2] c) = RT_STOPPED"
    by (simp add: c_def run_transitions_def atpd_runtime_state_transition_def runtime_state_of_int_def)
  ultimately show ?thesis by (simp add: c_def)
qed

subsection \<open>VPN observations\<close>

type_synonym vpn_req = "timespec \<times> int \<times> u32 \<times> string option"
type_synonym vpn_obs = "vpn_state_t \<times> u32 \<times> string"

text \<open>What a request observes: nothing when the state is invalid.\<close>

definition req_obs :: "vpn_req \<Rightarrow> vpn_obs option" where
  "req_obs r = (case r of (now, st, if_id, iface) \<Rightarrow>
     (case vpn_state_of_int st of
        None \<Rightarrow> None
      | Some s \<Rightarrow> Some (s, if_id, c_trunc 32 (case iface of None \<Rightarrow> [] | Some i \<Rightarrow> i))))"

definition ctx_obs :: "atpd_context \<Rightarrow> vpn_obs" where
  "ctx_obs c = (vpn_state (ctx_vpn c), vpn_if_id (ctx_vpn c), vpn_iface (ctx_vpn c))"

fun vpn_run :: "vpn_req list \<Rightarrow> atpd_context \<Rightarrow> atpd_context \<times> context_event list" where
  "vpn_run [] c = (c, [])"
| "vpn_run ((now, st, if_id, iface) # rs) c =
     (case atpd_vpn_state_transition now st if_id iface c of
        (_, c', es) \<Rightarrow> (case vpn_run rs c' of (c'', es') \<Rightarrow> (c'', es @ es')))"

text \<open>The observer events of a sequence of distinct consecutive observations.\<close>

fun obs_events :: "code_ptr \<Rightarrow> data_ptr option \<Rightarrow> code_ptr \<Rightarrow> vpn_obs list \<Rightarrow> context_event list" where
  "obs_events f u g ((s, i, n) # (s', i', n') # os) =
     ModeCallback f s' (if n' = [] then None else Some n') u
     # (if s \<noteq> VPN_STATE_TEARDOWN \<and> s' = VPN_STATE_TEARDOWN then [TeardownCallback g] else [])
     @ obs_events f u g ((s', i', n') # os)"
| "obs_events f u g _ = []"

lemma vpn_transition_step:
  assumes "ctx_vpn_mode_callback c = Some f" "ctx_vpn_teardown_callback c = Some g"
    and "atpd_vpn_state_transition now st if_id iface c = (rc, c', es)"
  shows "ctx_vpn_mode_callback c' = Some f" "ctx_vpn_teardown_callback c' = Some g"
    and "ctx_vpn_mode_userdata c' = ctx_vpn_mode_userdata c"
    and "case req_obs (now, st, if_id, iface) of
           None \<Rightarrow> rc = -1 \<and> c' = c \<and> es = []
         | Some ob \<Rightarrow> rc = 0 \<and> ctx_obs c' = ob
             \<and> (ob = ctx_obs c \<longrightarrow> c' = c \<and> es = [])
             \<and> (ob \<noteq> ctx_obs c \<longrightarrow>
                  es = obs_events f (ctx_vpn_mode_userdata c) g [ctx_obs c, ob]
                  \<and> vpn_transitions (ctx_vpn c') = vpn_transitions (ctx_vpn c) + 1
                  \<and> vpn_changed_at (ctx_vpn c') = now)"
  using assms
  by (auto simp: atpd_vpn_state_transition_def Let_def req_obs_def ctx_obs_def
      split: option.splits if_splits)

lemma obs_events_Cons2:
  "obs_events f u g (a # b # os) = obs_events f u g [a, b] @ obs_events f u g (b # os)"
  by (cases a; cases b) simp

lemma vpn_run_events:
  assumes "ctx_vpn_mode_callback c = Some f" "ctx_vpn_teardown_callback c = Some g"
  shows "snd (vpn_run rs c) = obs_events f (ctx_vpn_mode_userdata c) g
           (remdups_adj (ctx_obs c # List.map_filter req_obs rs))
       \<and> ctx_obs (fst (vpn_run rs c)) = last (ctx_obs c # List.map_filter req_obs rs)
       \<and> vpn_transitions (ctx_vpn (fst (vpn_run rs c))) = vpn_transitions (ctx_vpn c)
           + of_nat (length (remdups_adj (ctx_obs c # List.map_filter req_obs rs)) - 1)"
  using assms
proof (induction rs arbitrary: c)
  case Nil
  then show ?case by (cases "ctx_obs c") (simp add: map_filter_simps)
next
  case (Cons r rs)
  obtain now st if_id iface where r: "r = (now, st, if_id, iface)" by (cases r)
  obtain rc c' es where tr: "atpd_vpn_state_transition now st if_id iface c = (rc, c', es)"
    by (cases "atpd_vpn_state_transition now st if_id iface c")
  note step = vpn_transition_step [OF Cons.prems tr]
  note IH = Cons.IH [OF step(1,2)]
  obtain cc ess where rec: "vpn_run rs c' = (cc, ess)" by (cases "vpn_run rs c'")
  show ?case
  proof (cases "req_obs (now, st, if_id, iface)")
    case None
    then show ?thesis using step IH rec by (simp add: r tr map_filter_simps)
  next
    case (Some ob)
    show ?thesis
    proof (cases "ob = ctx_obs c")
      case True
      then show ?thesis using step(4) IH rec Some by (simp add: r tr map_filter_simps)
    next
      case False
      let ?l = "remdups_adj (ob # List.map_filter req_obs rs)"
      obtain tl where tl: "?l = ob # tl"
        by (metis remdups_adj_Cons')
      have "length ?l \<noteq> 0" by (simp add: tl)
      then show ?thesis
        using False step IH rec Some tl obs_events_Cons2 [of f _ g "ctx_obs c" ob tl]
        by (auto simp: r tr map_filter_simps remdups_adj.simps algebra_simps)
    qed
  qed
qed

text \<open>C7: for any sequence of observations made with both observers registered, the mode
  observer is told exactly the successive distinct observations (state, truncated interface
  name), the teardown observer is called exactly at the edges into TEARDOWN and after the
  mode observer, invalid requests have no effect, the counter counts the changes modulo
  \<open>2 ^ 64\<close>, and the snapshot is the last observation.\<close>

theorem vpn_observers_see_changes:
  assumes "ctx_vpn_mode_callback c = Some f" "ctx_vpn_teardown_callback c = Some g"
    and "os = remdups_adj (ctx_obs c # List.map_filter req_obs rs)"
  shows "snd (vpn_run rs c) = obs_events f (ctx_vpn_mode_userdata c) g os
    \<and> ctx_obs (fst (vpn_run rs c)) = last os
    \<and> vpn_transitions (atpd_vpn_get_snapshot (fst (vpn_run rs c))) =
          vpn_transitions (ctx_vpn c) + of_nat (length os - 1)"
  using vpn_run_events [OF assms(1,2), of rs]
  by (simp add: assms(3) atpd_vpn_get_snapshot_def last_remdups_adj)

theorem vpn_observers_see_changes_witness:
  "let c = atpd_set_vpn_teardown_callback (Some 2) (atpd_set_vpn_mode_callback (Some 1) None g_context);
       t = \<lparr>tv_sec = 5, tv_nsec = 0\<rparr>
   in snd (vpn_run [(t, 2, 7, Some ''tun0''), (t, 2, 7, Some ''tun0''), (t, 9, 7, None),
                    (t, 3, 0, None), (t, 3, 0, Some [])] c)
      = [ModeCallback 1 VPN_STATE_READY (Some ''tun0'') None,
         ModeCallback 1 VPN_STATE_TEARDOWN None None, TeardownCallback 2]"
proof -
  define t where "t = \<lparr>tv_sec = 5, tv_nsec = 0\<rparr>"
  define c where "c = atpd_set_vpn_teardown_callback (Some 2)
      (atpd_set_vpn_mode_callback (Some 1) None g_context)"
  let ?rs = "[(t, 2, 7, Some ''tun0''), (t, 2, 7, Some ''tun0''), (t, 9, 7, None),
              (t, 3, 0, None), (t, 3, 0, Some [])]"
  have cb: "ctx_vpn_mode_callback c = Some 1" "ctx_vpn_teardown_callback c = Some 2"
      "ctx_vpn_mode_userdata c = None"
    by (simp_all add: c_def atpd_set_vpn_teardown_callback_def atpd_set_vpn_mode_callback_def)
  have os: "remdups_adj (ctx_obs c # List.map_filter req_obs ?rs) =
      [(VPN_STATE_IDLE, 0, ''''), (VPN_STATE_READY, 7, ''tun0''), (VPN_STATE_TEARDOWN, 0, '''')]"
    by (simp add: c_def atpd_set_vpn_teardown_callback_def atpd_set_vpn_mode_callback_def
        g_context_def ctx_obs_def req_obs_def vpn_state_of_int_def map_filter_simps)
  have "snd (vpn_run ?rs c) =
      obs_events 1 (ctx_vpn_mode_userdata c) 2 (remdups_adj (ctx_obs c # List.map_filter req_obs ?rs))"
    by (rule conjunct1 [OF vpn_observers_see_changes [OF cb(1,2) refl]])
  also have "\<dots> = [ModeCallback 1 VPN_STATE_READY (Some ''tun0'') None,
         ModeCallback 1 VPN_STATE_TEARDOWN None None, TeardownCallback 2]"
    unfolding os cb(3) by simp
  finally show ?thesis
    unfolding c_def t_def Let_def .
qed

text \<open>\<open>atpd_context_init\<close> succeeds once: a second call fails and changes nothing, and the
  uptime is the whole seconds since the first, never wrapping below zero.\<close>

theorem context_init_once:
  assumes "atpd_context_init t0 g_context = (0, c)"
  shows "atpd_context_init t1 c = (-1, c)
     \<and> (tv_sec t0 \<le> tv_sec t \<and> tv_sec t - tv_sec t0 < 2 ^ 63 \<longrightarrow>
          uint (atpd_runtime_get_uptime t c) = tv_sec t - tv_sec t0)
     \<and> (tv_sec t < tv_sec t0 \<longrightarrow> atpd_runtime_get_uptime t c = 0)"
proof (intro conjI impI)
  have c: "ctx_initialized c" "ctx_started_at_mono c = t0"
    using assms by (auto simp: atpd_context_init_def g_context_def)
  show "atpd_context_init t1 c = (-1, c)"
    using c by (simp add: atpd_context_init_def)
  show "atpd_runtime_get_uptime t c = 0" if "tv_sec t < tv_sec t0"
    using that c by (simp add: atpd_runtime_get_uptime_def)
  assume "tv_sec t0 \<le> tv_sec t \<and> tv_sec t - tv_sec t0 < 2 ^ 63"
  then have "uint (word_of_int (tv_sec t - tv_sec t0) :: u64) = tv_sec t - tv_sec t0"
      "\<not> tv_sec t < tv_sec t0"
    by (auto intro: uint_u64_of_int simp del: of_int_diff)
  then show "uint (atpd_runtime_get_uptime t c) = tv_sec t - tv_sec t0"
    using c by (simp add: atpd_runtime_get_uptime_def Let_def del: of_int_diff)
qed

theorem context_init_once_witness:
  "uint (atpd_runtime_get_uptime \<lparr>tv_sec = 100, tv_nsec = 1\<rparr>
     (snd (atpd_context_init \<lparr>tv_sec = 40, tv_nsec = 5\<rparr> g_context))) = 60"
proof -
  have "atpd_context_init \<lparr>tv_sec = 40, tv_nsec = 5\<rparr> g_context =
      (0, snd (atpd_context_init \<lparr>tv_sec = 40, tv_nsec = 5\<rparr> g_context))"
    by (simp add: atpd_context_init_def g_context_def)
  from context_init_once [OF this, of undefined "\<lparr>tv_sec = 100, tv_nsec = 1\<rparr>"]
  show ?thesis by simp
qed

end
