(* ===== verification/Reactor.thy ===== *)
theory Reactor
  imports Atpd_Prelude "HOL-Library.Multiset"
begin

text \<open>
  The state and the registration operations of \<open>src/reactor.c\<close>: the table of fd
  handlers mirrored into the kernel's epoll set, the ordered list of timers, the
  watched signals and the wakeup eventfd.  The event loop itself is in
  \<open>Reactor_Loop\<close>.

  Representation.  The doubly linked timer list is a list of timer records; a
  timer is \<open>linked\<close> iff it is in the list.  The internal timer and the public
  \<open>reactor_timer_t\<close> are allocated together by \<open>reactor_add_timer\<close> and share one
  number, drawn from a counter (an address that is never reused: the model of
  "do not reuse the handle"); \<open>t_public\<close> says that the public structure still
  exists.  Both places that clear \<open>internal\<close> free the public structure at once,
  so that a public structure that exists has an internal one.  While the loop
  runs a timer's callback the timer is out of the list: it is \<open>rx_popped\<close>.
  Passing a handle that was freed is undefined behaviour and has the result
  \<open>None\<close>; memory safety is therefore a theorem.

  Kernel answers (does \<open>epoll_ctl\<close>, \<open>signalfd\<close>, \<open>malloc\<close> succeed, what does the
  clock say) are arguments.  The reactor registers its own two fds with a NULL
  callback and itself as user data, which nothing reads: no user data here.  A \<open>free_cb\<close> is reported in the result, in call order.
\<close>

text \<open>The functions the daemon registers as callbacks.\<close>

datatype fn = Fn_service_monitor_cb | Fn_service_health_check_cb | Fn_service_delayed_spawn_cb
  | Fn_service_stop_wait_cb | Fn_debounce_timer_cb | Fn_session_in_cb | Fn_session_out_cb
  | Fn_session_free_cb | Fn_on_signal | Fn_on_idle | Fn_api_result_cb
  | Fn_validate_io_cb | Fn_validate_timeout_cb | Fn_netlink_handle_event | Fn_netlink_xfrm_event_cb
  | Fn_uds_accept_cb | Fn_uds_client_cb | Fn_uds_client_free | Fn_uds_idle_timer_cb | Fn_other nat

definition REACTOR_MAX_FD :: int where "REACTOR_MAX_FD = 1024"
definition REACTOR_MAX_EVENTS :: nat where "REACTOR_MAX_EVENTS = 128"
definition REACTOR_EVENT_READ :: u32 where "REACTOR_EVENT_READ = 1"
definition REACTOR_EVENT_WRITE :: u32 where "REACTOR_EVENT_WRITE = 4"
definition REACTOR_EVENT_ERROR :: u32 where "REACTOR_EVENT_ERROR = 8"
definition REACTOR_EVENT_HANGUP :: u32 where "REACTOR_EVENT_HANGUP = 16"
definition REACTOR_EVENT_EDGE :: u32 where "REACTOR_EVENT_EDGE = 2147483648"

record reactor_handler_t =
  h_events :: u32
  h_callback :: "fn option"
  h_userdata :: "data_ptr option"
  h_free_cb :: "fn option"
  h_active :: bool

record reactor_timer_internal_t =
  t_id :: nat
  t_expires :: u64
  t_interval :: u64
  t_callback :: "fn option"
  t_userdata :: "data_ptr option"
  t_public :: bool
  t_active :: bool
  t_pending_delete :: bool

record reactor_stats_t =
  loop_count :: u64
  events_processed :: u64
  timers_fired :: u64
  signals_received :: u64
  idle_calls :: u64
  active_handlers :: nat
  active_timers :: nat

record reactor_t =
  rx_epoll_fd :: fd
  rx_signal_fd :: fd
  rx_event_fd :: fd
  rx_running :: bool
  rx_in_loop :: bool
  rx_handlers :: "fd \<Rightarrow> reactor_handler_t option"
  rx_timers :: "reactor_timer_internal_t list"
  rx_popped :: "reactor_timer_internal_t option"
  rx_next_id :: nat
  rx_current_time :: u64
  rx_timer_count :: nat
  rx_signal_cb :: "fn option"
  rx_idle_cb :: "fn option"
  rx_error_cb :: "fn option"
  rx_userdata :: "data_ptr option"
  rx_stats :: reactor_stats_t
  rx_sigmask :: "int set"
  rx_epoll :: "fd \<Rightarrow> u32 option"
  rx_event_pending :: bool
  rx_sigblocked :: "int set"

text \<open>The calls of a \<open>free_cb\<close> an operation makes.\<close>

type_synonym free_call = "fn \<times> data_ptr option"

definition get_monotonic_ms :: "int \<Rightarrow> int \<Rightarrow> u64" where
  "get_monotonic_ms sec nsec = word_of_int sec * 1000 + word_of_int nsec div 1000000"

subsection \<open>The timer list\<close>

fun timer_insert :: "reactor_timer_internal_t \<Rightarrow> reactor_timer_internal_t list
    \<Rightarrow> reactor_timer_internal_t list" where
  "timer_insert timer [] = [timer]"
| "timer_insert timer (cur # rest) =
     (if t_expires cur \<le> t_expires timer then cur # timer_insert timer rest
      else timer # cur # rest)"

definition timer_list_insert :: "reactor_timer_internal_t \<Rightarrow> reactor_t \<Rightarrow> reactor_t" where
  "timer_list_insert timer r =
     r\<lparr>rx_timers := timer_insert timer (rx_timers r), rx_timer_count := rx_timer_count r + 1\<rparr>"

definition linked :: "nat \<Rightarrow> reactor_t \<Rightarrow> bool" where
  "linked i r \<longleftrightarrow> i \<in> t_id ` set (rx_timers r)"

definition timer_list_remove :: "nat \<Rightarrow> reactor_t \<Rightarrow> reactor_t" where
  "timer_list_remove i r =
     (if \<not> linked i r then r
      else r\<lparr>rx_timers := filter (\<lambda>t. t_id t \<noteq> i) (rx_timers r),
             rx_timer_count := (if 0 < rx_timer_count r then rx_timer_count r - 1
                                else rx_timer_count r)\<rparr>)"

definition next_timer_timeout_ms :: "u64 \<Rightarrow> reactor_t \<Rightarrow> int" where
  "next_timer_timeout_ms now r =
     (case rx_timers r of
        [] \<Rightarrow> -1
      | t # _ \<Rightarrow>
          (if t_expires t \<le> now then 0
           else let diff = sint (t_expires t - now) in if INT_MAX < diff then INT_MAX else diff))"

definition reactor_wakeup :: "reactor_t \<Rightarrow> reactor_t" where
  "reactor_wakeup r = (if rx_event_fd r < 0 then r else r\<lparr>rx_event_pending := True\<rparr>)"

text \<open>\<open>None\<close> as the returned handle is NULL; the two booleans say whether the
  allocations succeed.\<close>

definition reactor_add_timer ::
  "bool \<times> bool \<Rightarrow> u64 \<Rightarrow> u64 \<Rightarrow> u64 \<Rightarrow> fn option \<Rightarrow> data_ptr option \<Rightarrow> reactor_t
   \<Rightarrow> nat option \<times> reactor_t" where
  "reactor_add_timer alloc now timeout_ms interval_ms cb userdata r =
     (if \<not> fst alloc then (None, r)
      else if \<not> snd alloc then (None, r)
      else
        (let i = rx_next_id r;
             timer = \<lparr>t_id = i, t_expires = now + timeout_ms, t_interval = interval_ms,
                      t_callback = cb, t_userdata = userdata, t_public = True,
                      t_active = True, t_pending_delete = False\<rparr>;
             r1 = timer_list_insert timer (r\<lparr>rx_next_id := i + 1\<rparr>)
         in (Some i, reactor_wakeup r1)))"

text \<open>A handle is live when its public structure exists.\<close>

definition all_timers :: "reactor_t \<Rightarrow> reactor_timer_internal_t list" where
  "all_timers r = (case rx_popped r of None \<Rightarrow> [] | Some t \<Rightarrow> [t]) @ rx_timers r"

definition handle_live :: "reactor_t \<Rightarrow> nat \<Rightarrow> bool" where
  "handle_live r h \<longleftrightarrow> (\<exists>t\<in>set (all_timers r). t_id t = h \<and> t_public t)"

definition find_timer :: "nat \<Rightarrow> reactor_t \<Rightarrow> reactor_timer_internal_t option" where
  "find_timer h r = List.find (\<lambda>t. t_id t = h) (all_timers r)"

definition kill_timer :: "reactor_timer_internal_t \<Rightarrow> reactor_timer_internal_t" where
  "kill_timer t = t\<lparr>t_active := False, t_pending_delete := True, t_public := False\<rparr>"

text \<open>Result \<open>None\<close>: the handle was freed before (undefined behaviour).\<close>

definition reactor_cancel_timer :: "nat option \<Rightarrow> reactor_t \<Rightarrow> (int \<times> reactor_t) option" where
  "reactor_cancel_timer timer r =
     (case timer of
        None \<Rightarrow> Some (-1, r)
      | Some h \<Rightarrow>
          (case find_timer h r of
             None \<Rightarrow> None
           | Some internal \<Rightarrow>
               (if \<not> t_public internal then None
                else
                  (let r1 = (if linked h r
                             then timer_list_insert
                                    (kill_timer (internal\<lparr>t_expires := rx_current_time r\<rparr>))
                                    (timer_list_remove h r)
                             else r\<lparr>rx_popped := map_option kill_timer (rx_popped r)\<rparr>)
                   in Some (0, reactor_wakeup r1)))))"

subsection \<open>The handler table\<close>

definition fd_in_range :: "fd \<Rightarrow> bool" where
  "fd_in_range fd \<longleftrightarrow> 0 \<le> fd \<and> fd < REACTOR_MAX_FD"

text \<open>\<open>alloc\<close>: \<open>malloc\<close> succeeds; \<open>ctl_ok\<close>: \<open>epoll_ctl\<close> succeeds (it is called with
  \<open>EPOLL_CTL_MOD\<close> when the fd has a handler, else with \<open>EPOLL_CTL_ADD\<close>).\<close>

definition reactor_add_fd ::
  "bool \<Rightarrow> bool \<Rightarrow> fd \<Rightarrow> u32 \<Rightarrow> fn option \<Rightarrow> data_ptr option \<Rightarrow> reactor_t
   \<Rightarrow> int \<times> reactor_t \<times> free_call list" where
  "reactor_add_fd alloc ctl_ok fd events cb userdata r =
     (if \<not> fd_in_range fd then (-1, r, [])
      else
        (let old = rx_handlers r fd;
             h = \<lparr>h_events = events, h_callback = cb, h_userdata = userdata,
                  h_free_cb = None, h_active = True\<rparr>
         in if \<not> alloc then (-1, r, [])
            else if \<not> ctl_ok then (-1, r, [])
            else
              (let r1 = r\<lparr>rx_epoll := (rx_epoll r)(fd := Some events),
                          rx_handlers := (rx_handlers r)(fd := Some h)\<rparr>
               in case old of
                    Some oh \<Rightarrow> (0, r1, (case h_free_cb oh of None \<Rightarrow> []
                                        | Some f \<Rightarrow> [(f, h_userdata oh)]))
                  | None \<Rightarrow> (0, r1\<lparr>rx_stats := (rx_stats r1)
                              \<lparr>active_handlers := active_handlers (rx_stats r1) + 1\<rparr>\<rparr>, []))))"

definition reactor_add_fd_ex ::
  "bool \<Rightarrow> bool \<Rightarrow> fd \<Rightarrow> u32 \<Rightarrow> fn option \<Rightarrow> fn option \<Rightarrow> data_ptr option \<Rightarrow> reactor_t
   \<Rightarrow> int \<times> reactor_t \<times> free_call list" where
  "reactor_add_fd_ex alloc ctl_ok fd events cb free_cb userdata r =
     (case reactor_add_fd alloc ctl_ok fd events cb userdata r of
        (ret, r1, calls) \<Rightarrow>
          (if ret = 0 \<and> free_cb \<noteq> None then
             (case rx_handlers r1 fd of
                None \<Rightarrow> (ret, r1, calls)
              | Some h \<Rightarrow> (ret, r1\<lparr>rx_handlers := (rx_handlers r1)(fd := Some (h\<lparr>h_free_cb := free_cb\<rparr>))\<rparr>,
                           calls))
           else (ret, r1, calls)))"

definition reactor_modify_fd :: "bool \<Rightarrow> fd \<Rightarrow> u32 \<Rightarrow> reactor_t \<Rightarrow> int \<times> reactor_t" where
  "reactor_modify_fd ctl_ok fd events r =
     (if \<not> fd_in_range fd then (-1, r)
      else case rx_handlers r fd of
        None \<Rightarrow> (-1, r)
      | Some h \<Rightarrow>
          (if \<not> ctl_ok then (-1, r)
           else (0, r\<lparr>rx_epoll := (rx_epoll r)(fd := Some events),
                      rx_handlers := (rx_handlers r)(fd := Some (h\<lparr>h_events := events\<rparr>))\<rparr>)))"

definition reactor_remove_fd :: "fd \<Rightarrow> reactor_t \<Rightarrow> int \<times> reactor_t \<times> free_call list" where
  "reactor_remove_fd fd r =
     (if \<not> fd_in_range fd then (-1, r, [])
      else case rx_handlers r fd of
        None \<Rightarrow> (0, r, [])
      | Some h \<Rightarrow>
          (0, r\<lparr>rx_epoll := (rx_epoll r)(fd := None),
                rx_handlers := (rx_handlers r)(fd := None),
                rx_stats := (rx_stats r)\<lparr>active_handlers :=
                  (if 0 < active_handlers (rx_stats r) then active_handlers (rx_stats r) - 1
                   else active_handlers (rx_stats r))\<rparr>\<rparr>,
           (case h_free_cb h of None \<Rightarrow> [] | Some f \<Rightarrow> [(f, h_userdata h)])))"

subsection \<open>Signals, callbacks, statistics\<close>

definition reactor_set_signal_cb :: "fn option \<Rightarrow> reactor_t \<Rightarrow> int \<times> reactor_t" where
  "reactor_set_signal_cb cb r = (0, r\<lparr>rx_signal_cb := cb\<rparr>)"

definition reactor_set_idle_cb :: "fn option \<Rightarrow> reactor_t \<Rightarrow> reactor_t" where
  "reactor_set_idle_cb cb r = r\<lparr>rx_idle_cb := cb\<rparr>"

definition reactor_set_error_cb :: "fn option \<Rightarrow> reactor_t \<Rightarrow> reactor_t" where
  "reactor_set_error_cb cb r = r\<lparr>rx_error_cb := cb\<rparr>"

definition reactor_update_time :: "u64 \<Rightarrow> reactor_t \<Rightarrow> reactor_t" where
  "reactor_update_time now r = r\<lparr>rx_current_time := now\<rparr>"

text \<open>Kernel answers of \<open>reactor_watch_signal\<close>: \<open>sigaddset\<close> accepts the number, the new
  signalfd (negative when \<open>signalfd\<close> fails), the registration, \<open>sigprocmask\<close>.  The last
  component of the result lists the fds that are closed.\<close>

record watch_env =
  we_sigaddset_ok :: bool
  we_new_fd :: fd
  we_alloc :: bool
  we_ctl_ok :: bool
  we_sigprocmask_ok :: bool

definition reactor_watch_signal :: "watch_env \<Rightarrow> int \<Rightarrow> reactor_t \<Rightarrow> int \<times> reactor_t \<times> fd list" where
  "reactor_watch_signal env signo r =
     (if signo \<le> 0 then (-1, r, [])
      else if \<not> we_sigaddset_ok env then (-1, r, [])
      else
        (let new_mask = insert signo (rx_sigmask r); new_fd = we_new_fd env in
         if new_fd < 0 then (-1, r, [])
         else case reactor_add_fd (we_alloc env) (we_ctl_ok env) new_fd REACTOR_EVENT_READ None None r of
           (rc, r1, _) \<Rightarrow>
             (if rc \<noteq> 0 then (-1, r1, [new_fd])
              else if \<not> we_sigprocmask_ok env then
                (case reactor_remove_fd new_fd r1 of (_, r2, _) \<Rightarrow> (-1, r2, [new_fd]))
              else
                (let old_fd = rx_signal_fd r1;
                     r2 = r1\<lparr>rx_sigblocked := rx_sigblocked r1 \<union> new_mask,
                             rx_signal_fd := new_fd, rx_sigmask := new_mask\<rparr>
                 in if 0 \<le> old_fd then
                      (case reactor_remove_fd old_fd r2 of (_, r3, _) \<Rightarrow> (0, r3, [old_fd]))
                    else (0, r2, [])))))"

definition count_active_handlers :: "reactor_t \<Rightarrow> nat" where
  "count_active_handlers r =
     length (filter (\<lambda>fd. case rx_handlers r fd of None \<Rightarrow> False | Some h \<Rightarrow> h_active h)
               [0..REACTOR_MAX_FD - 1])"

definition reactor_get_stats :: "reactor_t \<Rightarrow> reactor_stats_t \<times> reactor_t" where
  "reactor_get_stats r =
     (let s = (rx_stats r)\<lparr>active_handlers := count_active_handlers r,
                           active_timers := rx_timer_count r\<rparr>
      in (s, r\<lparr>rx_stats := s\<rparr>))"

subsection \<open>Creation and destruction\<close>

definition reactor_zero :: reactor_t where
  "reactor_zero = \<lparr>rx_epoll_fd = -1, rx_signal_fd = -1, rx_event_fd = -1, rx_running = False,
     rx_in_loop = False, rx_handlers = (\<lambda>_. None), rx_timers = [], rx_popped = None, rx_next_id = 0,
     rx_current_time = 0, rx_timer_count = 0, rx_signal_cb = None, rx_idle_cb = None,
     rx_error_cb = None, rx_userdata = None,
     rx_stats = \<lparr>loop_count = 0, events_processed = 0, timers_fired = 0, signals_received = 0,
       idle_calls = 0, active_handlers = 0, active_timers = 0\<rparr>,
     rx_sigmask = {}, rx_epoll = (\<lambda>_. None), rx_event_pending = False, rx_sigblocked = {}\<rparr>"

text \<open>Kernel answers of \<open>reactor_create\<close>; a negative fd is a failed call.\<close>

record create_env =
  ce_alloc :: bool
  ce_epoll_fd :: fd
  ce_event_fd :: fd
  ce_signal_fd :: fd
  ce_add_signal :: "bool \<times> bool"
  ce_add_event :: "bool \<times> bool"
  ce_now :: u64

definition reactor_signal_init :: "fd \<Rightarrow> reactor_t \<Rightarrow> int \<times> reactor_t" where
  "reactor_signal_init signal_fd r =
     (let r1 = r\<lparr>rx_sigmask := {}, rx_signal_fd := signal_fd\<rparr>
      in if signal_fd < 0 then (-1, r1) else (0, r1))"

text \<open>What \<open>reactor_cleanup_internal\<close> does before it frees the reactor: the \<open>free_cb\<close>
  calls in fd order and the fds it closes.\<close>

definition cleanup_free_calls :: "reactor_t \<Rightarrow> free_call list" where
  "cleanup_free_calls r =
     concat (map (\<lambda>fd. case rx_handlers r fd of None \<Rightarrow> []
                  | Some h \<Rightarrow> (case h_free_cb h of None \<Rightarrow> [] | Some f \<Rightarrow> [(f, h_userdata h)]))
              [0..REACTOR_MAX_FD - 1])"

definition reactor_cleanup_internal :: "reactor_t \<Rightarrow> free_call list \<times> fd list" where
  "reactor_cleanup_internal r =
     (cleanup_free_calls r,
      filter (\<lambda>fd. 0 \<le> fd) [rx_signal_fd r, rx_event_fd r, rx_epoll_fd r])"

text \<open>\<open>Inl closed\<close>: NULL is returned after closing the fds in \<open>closed\<close>.\<close>

definition reactor_create :: "create_env \<Rightarrow> fd list + reactor_t" where
  "reactor_create env =
     (if \<not> ce_alloc env then Inl []
      else
        let r1 = reactor_zero\<lparr>rx_epoll_fd := ce_epoll_fd env\<rparr> in
        if rx_epoll_fd r1 < 0 then Inl (snd (reactor_cleanup_internal r1))
        else let r2 = r1\<lparr>rx_event_fd := ce_event_fd env\<rparr> in
        if rx_event_fd r2 < 0 then Inl (snd (reactor_cleanup_internal r2))
        else case reactor_signal_init (ce_signal_fd env) r2 of
          (rc, r3) \<Rightarrow>
            (if rc < 0 then Inl (snd (reactor_cleanup_internal r3))
             else case reactor_add_fd (fst (ce_add_signal env)) (snd (ce_add_signal env))
                         (rx_signal_fd r3) REACTOR_EVENT_READ None None r3 of
               (rc1, r4, _) \<Rightarrow>
                 (if rc1 \<noteq> 0 then Inl (snd (reactor_cleanup_internal r4))
                  else case reactor_add_fd (fst (ce_add_event env)) (snd (ce_add_event env))
                              (rx_event_fd r4) REACTOR_EVENT_READ None None r4 of
                    (rc2, r5, _) \<Rightarrow>
                      (if rc2 \<noteq> 0 then Inl (snd (reactor_cleanup_internal r5))
                       else Inr (r5\<lparr>rx_current_time := ce_now env\<rparr>)))))"

definition reactor_stop :: "reactor_t \<Rightarrow> reactor_t" where
  "reactor_stop r = reactor_wakeup (r\<lparr>rx_running := False\<rparr>)"

text \<open>\<open>None\<close>: refused while the loop runs; otherwise the effects of the cleanup.\<close>

definition reactor_destroy :: "reactor_t \<Rightarrow> (free_call list \<times> fd list) option" where
  "reactor_destroy r =
     (if rx_in_loop r then None else Some (reactor_cleanup_internal (reactor_stop r)))"

subsection \<open>Well-formed timers\<close>

definition timer_ok :: "reactor_timer_internal_t \<Rightarrow> bool" where
  "timer_ok t \<longleftrightarrow> t_pending_delete t = (\<not> t_active t) \<and> t_public t = t_active t"

definition rx_timers_wf :: "reactor_t \<Rightarrow> bool" where
  "rx_timers_wf r \<longleftrightarrow> sorted (map t_expires (rx_timers r))
     \<and> distinct (map t_id (all_timers r))
     \<and> (\<forall>t\<in>set (all_timers r). t_id t < rx_next_id r \<and> timer_ok t)
     \<and> rx_timer_count r = length (rx_timers r)"

text \<open>What a live handle stands for: the registered callback, user data and period.\<close>

type_synonym armed_as = "fn option \<times> data_ptr option \<times> u64"

definition armed :: "reactor_t \<Rightarrow> nat \<Rightarrow> armed_as option" where
  "armed r h = (case find_timer h r of
       None \<Rightarrow> None
     | Some t \<Rightarrow> (if t_public t then Some (t_callback t, t_userdata t, t_interval t) else None))"

lemma timer_insert_split:
  "timer_insert t ts = takeWhile (\<lambda>c. t_expires c \<le> t_expires t) ts
     @ t # dropWhile (\<lambda>c. t_expires c \<le> t_expires t) ts"
  by (induction ts) auto

lemma set_timer_insert [simp]: "set (timer_insert t ts) = insert t (set ts)"
  by (induction ts) auto

lemma length_timer_insert [simp]: "length (timer_insert t ts) = Suc (length ts)"
  by (induction ts) auto

lemma distinct_timer_insert [simp]:
  "distinct (map t_id (timer_insert t ts)) \<longleftrightarrow> t_id t \<notin> t_id ` set ts \<and> distinct (map t_id ts)"
  by (induction ts) auto

lemma sorted_timer_insert: "sorted (map t_expires ts) \<Longrightarrow> sorted (map t_expires (timer_insert t ts))"
  by (induction ts) auto

lemma sorted_timer_filter: "sorted (map t_expires ts) \<Longrightarrow> sorted (map t_expires (filter P ts))"
  by (rule sorted_filter)

lemma length_filter_id:
  "distinct (map t_id ts) \<Longrightarrow> i \<in> t_id ` set ts \<Longrightarrow>
   length (filter (\<lambda>t. t_id t \<noteq> i) ts) = length ts - 1"
proof (induction ts)
  case (Cons a ts)
  show ?case
  proof (cases "t_id a = i")
    case True
    then have "filter (\<lambda>t. t_id t \<noteq> i) ts = ts"
      using Cons.prems by (auto simp: filter_id_conv image_iff)
    with True show ?thesis by simp
  next
    case False
    then have "i \<in> t_id ` set ts" using Cons.prems by auto
    then have "0 < length ts" by (cases ts) auto
    with False \<open>i \<in> t_id ` set ts\<close> Cons show ?thesis by simp
  qed
qed simp

lemma all_timers_simps [simp]:
  "rx_popped r = None \<Longrightarrow> all_timers r = rx_timers r"
  "rx_popped r = Some t \<Longrightarrow> all_timers r = t # rx_timers r"
  by (simp_all add: all_timers_def)

lemma set_all_timers: "set (all_timers r) = set (rx_timers r) \<union> set_option (rx_popped r)"
  by (cases "rx_popped r") auto

lemma find_timer_Some:
  "rx_timers_wf r \<Longrightarrow> find_timer h r = Some t \<longleftrightarrow> t \<in> set (all_timers r) \<and> t_id t = h"
proof -
  assume "rx_timers_wf r"
  then have d: "distinct (map t_id (all_timers r))" by (simp add: rx_timers_wf_def)
  have "distinct (map t_id ts) \<Longrightarrow>
      List.find (\<lambda>t. t_id t = h) ts = Some t \<longleftrightarrow> t \<in> set ts \<and> t_id t = h" for ts
    by (induction ts) (auto simp: image_iff)
  with d show ?thesis by (simp add: find_timer_def)
qed

lemma find_timer_None: "find_timer h r = None \<longleftrightarrow> h \<notin> t_id ` set (all_timers r)"
  by (auto simp: find_timer_def find_None_iff)

lemma armed_iff:
  "rx_timers_wf r \<Longrightarrow> armed r h = Some x \<longleftrightarrow>
     (\<exists>t\<in>set (all_timers r). t_id t = h \<and> t_public t \<and> x = (t_callback t, t_userdata t, t_interval t))"
proof -
  assume wf: "rx_timers_wf r"
  show ?thesis
  proof (cases "find_timer h r")
    case None
    then show ?thesis using find_timer_None [of h r] by (auto simp: armed_def)
  next
    case (Some t)
    then have t: "t \<in> set (all_timers r)" "t_id t = h"
      using find_timer_Some [OF wf, of h] by auto
    have uniq: "u = t" if "u \<in> set (all_timers r)" "t_id u = h" for u
      using find_timer_Some [OF wf, of h u] that Some by simp
    have "(\<exists>u\<in>set (all_timers r). t_id u = h \<and> t_public u \<and> x = (t_callback u, t_userdata u, t_interval u))
        \<longleftrightarrow> t_public t \<and> x = (t_callback t, t_userdata t, t_interval t)"
      using t uniq by blast
    then show ?thesis by (auto simp: armed_def Some)
  qed
qed

lemma wakeup_simps [simp]:
  "rx_timers (reactor_wakeup r) = rx_timers r" "rx_popped (reactor_wakeup r) = rx_popped r"
  "rx_next_id (reactor_wakeup r) = rx_next_id r" "rx_timer_count (reactor_wakeup r) = rx_timer_count r"
  "rx_handlers (reactor_wakeup r) = rx_handlers r" "rx_epoll (reactor_wakeup r) = rx_epoll r"
  "rx_stats (reactor_wakeup r) = rx_stats r" "rx_current_time (reactor_wakeup r) = rx_current_time r"
  "rx_running (reactor_wakeup r) = rx_running r" "rx_in_loop (reactor_wakeup r) = rx_in_loop r"
  "all_timers (reactor_wakeup r) = all_timers r" "rx_timers_wf (reactor_wakeup r) = rx_timers_wf r"
  "armed (reactor_wakeup r) h = armed r h" "rx_signal_fd (reactor_wakeup r) = rx_signal_fd r"
  "rx_event_fd (reactor_wakeup r) = rx_event_fd r"
  by (simp_all add: reactor_wakeup_def all_timers_def rx_timers_wf_def armed_def find_timer_def)

subsection \<open>Laws of the timer operations\<close>

lemma in_all_timers: "t \<in> set (all_timers r) \<longleftrightarrow> t \<in> set (rx_timers r) \<or> rx_popped r = Some t"
  by (cases "rx_popped r") auto

lemma add_timer_wf:
  assumes "rx_timers_wf r" "reactor_add_timer alloc now timeout interval cb ud r = (h, r')"
  shows "rx_timers_wf r'"
proof (cases "fst alloc \<and> snd alloc")
  case True
  let ?t = "\<lparr>t_id = rx_next_id r, t_expires = now + timeout, t_interval = interval,
      t_callback = cb, t_userdata = ud, t_public = True, t_active = True, t_pending_delete = False\<rparr>"
  have new: "rx_next_id r \<notin> t_id ` set (all_timers r)"
    using assms(1) by (auto simp: rx_timers_wf_def)
  have r': "rx_timers r' = timer_insert ?t (rx_timers r)" "rx_popped r' = rx_popped r"
      "rx_next_id r' = rx_next_id r + 1" "rx_timer_count r' = rx_timer_count r + 1"
    using assms(2) True by (auto simp: reactor_add_timer_def Let_def timer_list_insert_def)
  show ?thesis
    using assms(1) new r' unfolding rx_timers_wf_def
    by (cases "rx_popped r") (auto simp: sorted_timer_insert timer_ok_def less_Suc_eq)
next
  case False
  then have "r' = r" using assms(2) by (auto simp: reactor_add_timer_def split: if_splits)
  then show ?thesis using assms(1) by simp
qed

lemma add_timer_armed:
  assumes "rx_timers_wf r" "reactor_add_timer alloc now timeout interval cb ud r = (Some h, r')"
  shows "armed r h = None \<and> armed r' = (armed r)(h \<mapsto> (cb, ud, interval))"
proof
  have wf': "rx_timers_wf r'" by (rule add_timer_wf [OF assms])
  define nt where "nt = \<lparr>t_id = h, t_expires = now + timeout, t_interval = interval,
      t_callback = cb, t_userdata = ud, t_public = True, t_active = True, t_pending_delete = False\<rparr>"
  have h: "h = rx_next_id r" and in_r': "set (all_timers r') = insert nt (set (all_timers r))"
    using assms(2) by (auto simp: reactor_add_timer_def Let_def timer_list_insert_def in_all_timers
        nt_def split: if_splits)
  have nt: "t_id nt = h" "t_callback nt = cb" "t_userdata nt = ud" "t_interval nt = interval" "t_public nt"
    by (simp_all add: nt_def)
  have new: "\<forall>t\<in>set (all_timers r). t_id t \<noteq> h"
    using assms(1) h by (auto simp: rx_timers_wf_def)
  show "armed r h = None"
    using new find_timer_None [of h r] by (auto simp: armed_def)
  show "armed r' = (armed r)(h \<mapsto> (cb, ud, interval))"
  proof
    fix x
    have "armed r' x = Some y \<longleftrightarrow> ((armed r)(h \<mapsto> (cb, ud, interval))) x = Some y" for y
    proof (cases "x = h")
      case True
      then show ?thesis using new nt unfolding armed_iff [OF wf'] in_r' by auto
    next
      case False
      then have "((armed r)(h \<mapsto> (cb, ud, interval))) x = armed r x" by simp
      then show ?thesis using nt(1) False unfolding armed_iff [OF wf'] in_r' bex_simps
        by (simp only: armed_iff [OF assms(1)]) blast
    qed
    then show "armed r' x = ((armed r)(h \<mapsto> (cb, ud, interval))) x"
      by (rule option_eqI)
  qed
qed

lemma add_timer_fail: "reactor_add_timer alloc now timeout interval cb ud r = (None, r') \<Longrightarrow> r' = r"
  by (auto simp: reactor_add_timer_def Let_def split: if_splits)

lemma kill_timer_simps [simp]:
  "t_id (kill_timer t) = t_id t" "t_expires (kill_timer t) = t_expires t" "\<not> t_public (kill_timer t)"
  "\<not> t_active (kill_timer t)" "timer_ok (kill_timer t)"
  by (simp_all add: kill_timer_def timer_ok_def)

text \<open>Cancelling a live handle: the timers other than the cancelled one stay as they are.\<close>

lemma cancel_timer_sets:
  assumes "rx_timers_wf r" "armed r h \<noteq> None"
  obtains r' k where "reactor_cancel_timer (Some h) r = Some (0, r')" "rx_timers_wf r'"
    "rx_next_id r' = rx_next_id r" "t_id k = h" "\<not> t_public k" "\<not> t_active k"
    "set (all_timers r') = insert k {t \<in> set (all_timers r). t_id t \<noteq> h}"
    "rx_current_time r' = rx_current_time r" "rx_popped r = None \<longrightarrow> rx_popped r' = None"
proof -
  obtain t where t: "find_timer h r = Some t" "t \<in> set (all_timers r)" "t_id t = h" "t_public t"
    using assms find_timer_Some [OF assms(1), of h]
    by (auto simp: armed_def split: option.splits if_splits)
  note wf = assms(1) [unfolded rx_timers_wf_def]
  show ?thesis
  proof (cases "linked h r")
    case True
    let ?k = "kill_timer (t\<lparr>t_expires := rx_current_time r\<rparr>)"
    let ?r = "timer_list_insert ?k (timer_list_remove h r)"
    have len: "0 < length (rx_timers r)" using True by (auto simp: linked_def)
    have pop: "\<And>p. rx_popped r = Some p \<Longrightarrow> t_id p \<noteq> h"
      using True wf by (auto simp: linked_def)
    have dt: "distinct (map t_id (rx_timers r))"
      using wf by (cases "rx_popped r") auto
    have tim: "rx_timers ?r = timer_insert ?k (filter (\<lambda>t. t_id t \<noteq> h) (rx_timers r))"
        "rx_popped ?r = rx_popped r" "rx_next_id ?r = rx_next_id r"
        "rx_timer_count ?r = length (rx_timers r)" "rx_current_time ?r = rx_current_time r"
      using True wf len by (auto simp: timer_list_insert_def timer_list_remove_def)
    have "rx_timers_wf ?r"
      unfolding rx_timers_wf_def using wf tim t len pop dt True
      by (cases "rx_popped r")
         (auto simp: sorted_timer_insert sorted_timer_filter length_filter_id linked_def
           distinct_map_filter)
    moreover have "reactor_cancel_timer (Some h) r = Some (0, reactor_wakeup ?r)"
      using t True by (simp add: reactor_cancel_timer_def)
    moreover have "set (all_timers ?r) = insert ?k {t \<in> set (all_timers r). t_id t \<noteq> h}"
      using tim pop by (auto simp: in_all_timers)
    ultimately show ?thesis using that [of "reactor_wakeup ?r" ?k] t tim by simp
  next
    case False
    then have p: "rx_popped r = Some t"
      using t by (auto simp: in_all_timers linked_def)
    let ?r = "r\<lparr>rx_popped := map_option kill_timer (rx_popped r)\<rparr>"
    have "rx_timers_wf ?r"
      using wf p False by (auto simp: rx_timers_wf_def linked_def)
    moreover have "reactor_cancel_timer (Some h) r = Some (0, reactor_wakeup ?r)"
      using t False by (simp add: reactor_cancel_timer_def)
    moreover have "set (all_timers ?r) = insert (kill_timer t) {t \<in> set (all_timers r). t_id t \<noteq> h}"
      using p t False by (auto simp: linked_def image_iff)
    ultimately show ?thesis using that [of "reactor_wakeup ?r" "kill_timer t"] t p by simp
  qed
qed

lemma cancel_timer_armed:
  assumes "rx_timers_wf r" "armed r h \<noteq> None"
  shows "\<exists>r'. reactor_cancel_timer (Some h) r = Some (0, r') \<and> rx_timers_wf r'
           \<and> armed r' = (armed r)(h := None)"
proof -
  obtain r' k where r': "reactor_cancel_timer (Some h) r = Some (0, r')" "rx_timers_wf r'"
    and k: "t_id k = h" "\<not> t_public k" "\<not> t_active k"
      "set (all_timers r') = insert k {t \<in> set (all_timers r). t_id t \<noteq> h}"
    by (rule cancel_timer_sets [OF assms])
  have "armed r' x = Some y \<longleftrightarrow> ((armed r)(h := None)) x = Some y" for x y
    using k by (auto simp: armed_iff [OF r'(2)] armed_iff [OF assms(1)])
  then have "armed r' = (armed r)(h := None)"
    by (metis (no_types, lifting) ext option.exhaust)
  with r' show ?thesis by blast
qed

subsection \<open>The timer interface\<close>

text \<open>A timer slot of a client: NULL or a live handle with the right callback.\<close>

definition slot_ok :: "('h \<Rightarrow> 'c option) \<Rightarrow> 'c \<Rightarrow> 'h option \<Rightarrow> bool" where
  "slot_ok arm c slot \<longleftrightarrow> (case slot of None \<Rightarrow> True | Some h \<Rightarrow> arm h = Some c)"

text \<open>What the rest of the daemon relies on.  A request \<open>a\<close> is passed to \<open>add\<close>; \<open>what a\<close> is
  the callback it registers; \<open>armed r h\<close> is what a valid handle stands for.\<close>

locale timer_service =
  fixes invar :: "'r \<Rightarrow> bool"
    and armed :: "'r \<Rightarrow> 'h \<Rightarrow> 'c option"
    and what :: "'a \<Rightarrow> 'c"
    and add :: "'a \<Rightarrow> 'r \<Rightarrow> 'h option \<times> 'r"
    and cancel :: "'h option \<Rightarrow> 'r \<Rightarrow> (int \<times> 'r) option"
  assumes add_invar: "invar r \<Longrightarrow> add a r = (ho, r') \<Longrightarrow> invar r'"
    and add_Some: "invar r \<Longrightarrow> add a r = (Some h, r') \<Longrightarrow>
          armed r h = None \<and> armed r' = (armed r)(h \<mapsto> what a)"
    and add_None: "add a r = (None, r') \<Longrightarrow> r' = r"
    and cancel_null: "cancel None r = Some (-1, r)"
    and cancel_live: "invar r \<Longrightarrow> armed r h \<noteq> None \<Longrightarrow>
          \<exists>r'. cancel (Some h) r = Some (0, r') \<and> invar r' \<and> armed r' = (armed r)(h := None)"
begin

lemma cancel_slot:
  assumes "invar r" "slot_ok (armed r) c slot"
  shows "\<exists>rc r'. cancel slot r = Some (rc, r') \<and> invar r' \<and>
    (\<forall>h. armed r' h = (if slot = Some h then None else armed r h))"
proof (cases slot)
  case None
  then show ?thesis using assms by (auto simp: cancel_null)
next
  case (Some h)
  then have "armed r h \<noteq> None" using assms by (simp add: slot_ok_def)
  from cancel_live [OF assms(1) this] Some show ?thesis by auto
qed

lemma slot_ok_after_cancel:
  assumes "invar r" "slot_ok (armed r) c slot" "slot_ok (armed r) d other" "c \<noteq> d" "cancel slot r = Some (rc, r')"
  shows "slot_ok (armed r') d other"
proof -
  obtain rc2 r2 where "cancel slot r = Some (rc2, r2)"
      "\<forall>h. armed r2 h = (if slot = Some h then None else armed r h)"
    using cancel_slot [OF assms(1,2)] by blast
  with assms show ?thesis
    by (auto simp: slot_ok_def split: option.splits)
qed

lemma slot_ok_after_add:
  assumes "invar r" "add a r = (h, r')"
  shows "slot_ok (armed r') (what a) h" "slot_ok (armed r) c other \<Longrightarrow> slot_ok (armed r') c other"
proof -
  show "slot_ok (armed r') (what a) h"
    using add_Some [OF assms(1)] assms(2) by (cases h) (auto simp: slot_ok_def)
  show "slot_ok (armed r) c other \<Longrightarrow> slot_ok (armed r') c other"
    using add_Some [OF assms(1)] add_None assms(2)
    by (cases h) (fastforce simp: slot_ok_def split: option.splits)+
qed

end

text \<open>A request of \<open>reactor_add_timer\<close>: allocation answers, clock, timeout, interval,
  callback, user data.\<close>

type_synonym timer_req = "(bool \<times> bool) \<times> u64 \<times> u64 \<times> u64 \<times> fn option \<times> data_ptr option"

fun add_timer_req :: "timer_req \<Rightarrow> reactor_t \<Rightarrow> nat option \<times> reactor_t" where
  "add_timer_req (alloc, now, timeout, interval, cb, ud) r =
     reactor_add_timer alloc now timeout interval cb ud r"

fun req_what :: "timer_req \<Rightarrow> armed_as" where
  "req_what (alloc, now, timeout, interval, cb, ud) = (cb, ud, interval)"

interpretation timers: timer_service rx_timers_wf armed req_what add_timer_req reactor_cancel_timer
proof (unfold_locales, goal_cases)
  case (1 r a ho r')
  then show ?case by (cases a) (auto intro: add_timer_wf)
next
  case (2 r a h r')
  then show ?case by (cases a) (simp add: add_timer_armed)
next
  case (3 a r r')
  then show ?case by (cases a) (auto dest: add_timer_fail)
next
  case (4 r)
  then show ?case by (simp add: reactor_cancel_timer_def)
next
  case (5 r h)
  then show ?case by (rule cancel_timer_armed)
qed

subsection \<open>The handler table and its owners\<close>

definition rx_fds_wf :: "reactor_t \<Rightarrow> bool" where
  "rx_fds_wf r \<longleftrightarrow> (\<forall>fd h. rx_handlers r fd = Some h \<longrightarrow> fd_in_range fd \<and> h_active h)
     \<and> rx_epoll r = (\<lambda>fd. map_option h_events (rx_handlers r fd))
     \<and> active_handlers (rx_stats r) = card (dom (rx_handlers r))"

lemma finite_dom_handlers: "rx_fds_wf r \<Longrightarrow> finite (dom (rx_handlers r))"
  by (rule finite_subset [of _ "{0..<REACTOR_MAX_FD}"]) (auto simp: rx_fds_wf_def fd_in_range_def)

lemma rx_fds_wf_zero: "rx_fds_wf reactor_zero"
  by (simp add: rx_fds_wf_def reactor_zero_def)

lemma add_fd_wf:
  assumes "rx_fds_wf r" "reactor_add_fd alloc ctl fd ev cb ud r = (rc, r', calls)"
  shows "rx_fds_wf r'"
  using assms finite_dom_handlers [OF assms(1)]
  by (auto simp: reactor_add_fd_def Let_def rx_fds_wf_def fun_eq_iff domIff insert_absorb
      split: if_splits option.splits)

lemma add_fd_ex_wf:
  assumes "rx_fds_wf r" "reactor_add_fd_ex alloc ctl fd ev cb fcb ud r = (rc, r', calls)"
  shows "rx_fds_wf r'"
proof -
  obtain rc1 r1 calls1 where add: "reactor_add_fd alloc ctl fd ev cb ud r = (rc1, r1, calls1)"
    by (cases "reactor_add_fd alloc ctl fd ev cb ud r")
  note wf1 = add_fd_wf [OF assms(1) add]
  show ?thesis
  proof (cases "rc1 = 0 \<and> fcb \<noteq> None \<and> rx_handlers r1 fd \<noteq> None")
    case True
    then obtain h where h: "rx_handlers r1 fd = Some h" by auto
    then have "dom ((rx_handlers r1)(fd \<mapsto> h\<lparr>h_free_cb := fcb\<rparr>)) = dom (rx_handlers r1)"
      by (auto simp: insert_absorb domI)
    with h True wf1 assms(2) add show ?thesis
      by (auto simp: reactor_add_fd_ex_def rx_fds_wf_def fun_eq_iff split: if_splits)
  next
    case False
    then have "r' = r1" using assms(2) add
      by (auto simp: reactor_add_fd_ex_def split: option.splits if_splits)
    with wf1 show ?thesis by simp
  qed
qed

lemma modify_fd_wf:
  assumes "rx_fds_wf r" "reactor_modify_fd ctl fd ev r = (rc, r')"
  shows "rx_fds_wf r'"
proof (cases "rx_handlers r fd")
  case None
  then show ?thesis using assms by (auto simp: reactor_modify_fd_def split: if_splits)
next
  case (Some h)
  then have "dom ((rx_handlers r)(fd \<mapsto> h\<lparr>h_events := ev\<rparr>)) = dom (rx_handlers r)"
    by (auto simp: insert_absorb domI)
  with Some assms show ?thesis
    by (auto simp: reactor_modify_fd_def rx_fds_wf_def fun_eq_iff split: if_splits)
qed

lemma remove_fd_wf:
  assumes "rx_fds_wf r" "reactor_remove_fd fd r = (rc, r', calls)"
  shows "rx_fds_wf r'"
proof (cases "rx_handlers r fd")
  case None
  then show ?thesis using assms by (auto simp: reactor_remove_fd_def split: if_splits)
next
  case (Some h)
  then have "card (dom ((rx_handlers r)(fd := None))) = card (dom (rx_handlers r)) - 1"
    using finite_dom_handlers [OF assms(1)] by (simp add: domI)
  moreover have "0 < card (dom (rx_handlers r))"
    using Some finite_dom_handlers [OF assms(1)] by (auto simp: card_gt_0_iff)
  ultimately show ?thesis
    using Some assms
    by (auto simp: reactor_remove_fd_def rx_fds_wf_def fun_eq_iff split: if_splits)
qed

lemma remove_fd_handlers:
  "reactor_remove_fd fd r = (rc, r', calls) \<Longrightarrow> fd_in_range fd \<Longrightarrow>
     rc = 0 \<and> rx_handlers r' = (rx_handlers r)(fd := None)"
  by (auto simp: reactor_remove_fd_def split: option.splits)

text \<open>Histories of registrations.  \<open>registered\<close> collects the \<open>free_cb\<close>s handed over by the
  successful registrations, \<open>freed\<close> the calls made.\<close>

datatype fd_op = AddFd bool bool fd u32 "fn option" "fn option" "data_ptr option"
  | ModifyFd bool fd u32
  | RemoveFd fd

definition owner_calls :: "reactor_handler_t option \<Rightarrow> free_call list" where
  "owner_calls h = (case h of None \<Rightarrow> []
     | Some h \<Rightarrow> (case h_free_cb h of None \<Rightarrow> [] | Some f \<Rightarrow> [(f, h_userdata h)]))"

fun fd_step :: "fd_op \<Rightarrow> reactor_t \<Rightarrow> reactor_t \<times> free_call list \<times> free_call list" where
  "fd_step (AddFd alloc ctl fd ev cb fcb ud) r =
     (case reactor_add_fd_ex alloc ctl fd ev cb fcb ud r of
        (rc, r', calls) \<Rightarrow>
          (r', (if rc = 0 then (case fcb of None \<Rightarrow> [] | Some f \<Rightarrow> [(f, ud)]) else []), calls))"
| "fd_step (ModifyFd ctl fd ev) r = (snd (reactor_modify_fd ctl fd ev r), [], [])"
| "fd_step (RemoveFd fd) r = (case reactor_remove_fd fd r of (rc, r', calls) \<Rightarrow> (r', [], calls))"

fun fd_run :: "fd_op list \<Rightarrow> reactor_t \<Rightarrow> reactor_t \<times> free_call list \<times> free_call list" where
  "fd_run [] r = (r, [], [])"
| "fd_run (op # ops) r =
     (case fd_step op r of (r', reg, fr) \<Rightarrow>
        (case fd_run ops r' of (r'', reg', fr') \<Rightarrow> (r'', reg @ reg', fr @ fr')))"

lemma mset_concat_map_upd:
  assumes "distinct xs" "x \<in> set xs" "\<And>a. a \<noteq> x \<Longrightarrow> g' a = g a"
  shows "mset (concat (map g' xs)) + mset (g x) = mset (concat (map g xs)) + mset (g' x)"
  using assms(1,2)
proof (induction xs)
  case (Cons a xs)
  show ?case
  proof (cases "a = x")
    case True
    then have "map g' xs = map g xs" using Cons.prems assms(3) by (metis (mono_tags, lifting) distinct.simps(2) map_eq_conv)
    with True show ?thesis by (simp only: list.map concat.simps mset_append ac_simps)
  next
    case False
    then have "g' a = g a" by (rule assms(3))
    with False Cons show ?thesis by (simp add: ac_simps)
  qed
qed simp

lemma cleanup_owner_calls:
  "cleanup_free_calls r = concat (map (\<lambda>fd. owner_calls (rx_handlers r fd)) [0..REACTOR_MAX_FD - 1])"
  by (simp add: cleanup_free_calls_def owner_calls_def)

lemma cleanup_update:
  assumes "fd_in_range fd" "rx_handlers r' = (rx_handlers r)(fd := v)"
  shows "mset (cleanup_free_calls r') + mset (owner_calls (rx_handlers r fd)) =
         mset (cleanup_free_calls r) + mset (owner_calls v)"
proof -
  have "distinct [0..REACTOR_MAX_FD - 1]" "fd \<in> set [0..REACTOR_MAX_FD - 1]"
    using assms(1) by (auto simp: fd_in_range_def)
  from mset_concat_map_upd [OF this, of "\<lambda>i. owner_calls (rx_handlers r' i)" "\<lambda>i. owner_calls (rx_handlers r i)"]
  show ?thesis
    unfolding cleanup_owner_calls using assms(2) by simp
qed

lemma fd_step_add_ex:
  assumes "reactor_add_fd_ex alloc ctl fd ev cb fcb ud r = (rc, r', calls)"
  shows "(rc = 0 \<and> fd_in_range fd \<and> rx_handlers r' = (rx_handlers r)(fd \<mapsto>
            \<lparr>h_events = ev, h_callback = cb, h_userdata = ud, h_free_cb = fcb, h_active = True\<rparr>)
            \<and> calls = owner_calls (rx_handlers r fd))
         \<or> (rc = -1 \<and> r' = r \<and> calls = [])"
  using assms
  by (auto simp: reactor_add_fd_ex_def reactor_add_fd_def Let_def owner_calls_def
      split: if_splits option.splits)

lemma fd_step_inv:
  assumes "rx_fds_wf r" "fd_step op r = (r', reg, fr)"
  shows "rx_fds_wf r' \<and> mset (cleanup_free_calls r) + mset reg = mset fr + mset (cleanup_free_calls r')"
proof (cases op)
  case (AddFd alloc ctl fd ev cb fcb ud)
  obtain rc r1 calls where add: "reactor_add_fd_ex alloc ctl fd ev cb fcb ud r = (rc, r1, calls)"
    by (cases "reactor_add_fd_ex alloc ctl fd ev cb fcb ud r")
  note wf = add_fd_ex_wf [OF assms(1) add]
  from fd_step_add_ex [OF add] show ?thesis
  proof
    assume a: "rc = 0 \<and> fd_in_range fd \<and> rx_handlers r1 = (rx_handlers r)(fd \<mapsto>
            \<lparr>h_events = ev, h_callback = cb, h_userdata = ud, h_free_cb = fcb, h_active = True\<rparr>)
            \<and> calls = owner_calls (rx_handlers r fd)"
    then have "reg = owner_calls (Some \<lparr>h_events = ev, h_callback = cb, h_userdata = ud,
        h_free_cb = fcb, h_active = True\<rparr>)" "r' = r1" "fr = owner_calls (rx_handlers r fd)"
      using assms(2) AddFd add by (auto simp: owner_calls_def split: option.splits)
    with a wf cleanup_update [of fd r1 r] show ?thesis by (simp add: ac_simps)
  next
    assume "rc = -1 \<and> r1 = r \<and> calls = []"
    then show ?thesis using assms AddFd add by auto
  qed
next
  case (ModifyFd ctl fd ev)
  obtain rc r1 where m: "reactor_modify_fd ctl fd ev r = (rc, r1)"
    by (cases "reactor_modify_fd ctl fd ev r")
  have "cleanup_free_calls r1 = cleanup_free_calls r"
    using m unfolding cleanup_owner_calls
    by (auto simp: reactor_modify_fd_def owner_calls_def split: if_splits option.splits
        intro!: arg_cong [where f = concat])
  with modify_fd_wf [OF assms(1) m] show ?thesis using assms ModifyFd m by auto
next
  case (RemoveFd fd)
  obtain rc r1 calls where rm: "reactor_remove_fd fd r = (rc, r1, calls)"
    by (cases "reactor_remove_fd fd r")
  note wf = remove_fd_wf [OF assms(1) rm]
  show ?thesis
  proof (cases "fd_in_range fd")
    case True
    then have "calls = owner_calls (rx_handlers r fd)"
      using rm by (auto simp: reactor_remove_fd_def owner_calls_def split: option.splits)
    with cleanup_update [OF True, of r1 r None] remove_fd_handlers [OF rm True] wf show ?thesis
      using assms(2) RemoveFd rm by (auto simp: owner_calls_def ac_simps)
  next
    case False
    then show ?thesis using assms RemoveFd rm by (auto simp: reactor_remove_fd_def)
  qed
qed

lemma fd_run_inv:
  "rx_fds_wf r \<Longrightarrow> fd_run ops r = (r', reg, fr) \<Longrightarrow>
   rx_fds_wf r' \<and> mset (cleanup_free_calls r) + mset reg = mset fr + mset (cleanup_free_calls r')"
proof (induction ops arbitrary: r r' reg fr)
  case (Cons op ops)
  obtain r1 reg1 fr1 where s: "fd_step op r = (r1, reg1, fr1)" by (cases "fd_step op r")
  obtain r2 reg2 fr2 where t: "fd_run ops r1 = (r2, reg2, fr2)" by (cases "fd_run ops r1")
  note inv1 = fd_step_inv [OF Cons.prems(1) s]
  then have "rx_fds_wf r2 \<and>
      mset (cleanup_free_calls r1) + mset reg2 = mset fr2 + mset (cleanup_free_calls r2)"
    using Cons.IH [of r1] t by simp
  then have inv2: "rx_fds_wf r2" "mset fr1 + (mset (cleanup_free_calls r1) + mset reg2) =
      mset fr1 + (mset fr2 + mset (cleanup_free_calls r2))" by simp_all
  have "mset (cleanup_free_calls r) + mset (reg1 @ reg2) =
      mset fr1 + mset (cleanup_free_calls r1) + mset reg2"
    using inv1 by (simp flip: union_assoc)
  also have "\<dots> = mset (fr1 @ fr2) + mset (cleanup_free_calls r2)"
    using inv2(2) by (simp only: union_assoc mset_append)
  finally show ?case
    using inv2(1) Cons.prems(2) s t by auto
qed simp

subsection \<open>Properties\<close>

text \<open>C3: ownership of the handlers.  For any history of registrations, replacements,
  modifications and removals on a new reactor, failed calls included, every \<open>free_cb\<close>
  handed over by a successful registration is called exactly once: at its replacement,
  at its removal, or by the final cleanup; and the kernel's epoll set is exactly the
  handler table, every handler's fd is within the table and the active counter is the
  number of handlers.\<close>

theorem fd_handlers_owned:
  "fd_run ops reactor_zero = (r, registered, freed) \<Longrightarrow>
     mset registered = mset freed + mset (fst (reactor_cleanup_internal r))
     \<and> rx_epoll r = (\<lambda>fd. map_option h_events (rx_handlers r fd))
     \<and> (\<forall>fd. rx_handlers r fd \<noteq> None \<longrightarrow> 0 \<le> fd \<and> fd < 1024)
     \<and> active_handlers (rx_stats r) = card (dom (rx_handlers r))"
proof -
  assume run: "fd_run ops reactor_zero = (r, registered, freed)"
  have "cleanup_free_calls reactor_zero = []"
    by (simp add: cleanup_owner_calls reactor_zero_def owner_calls_def)
  with fd_run_inv [OF rx_fds_wf_zero run] show ?thesis
    by (auto simp: reactor_cleanup_internal_def rx_fds_wf_def fd_in_range_def REACTOR_MAX_FD_def)
qed

theorem fd_handlers_owned_witness:
  "\<exists>r. fd_run [AddFd True True 5 1 None (Some (Fn_other 0)) (Some 7),
       AddFd True False 6 1 None (Some (Fn_other 0)) (Some 8),
       AddFd True True 5 4 None (Some (Fn_other 0)) (Some 9), RemoveFd 5] reactor_zero
     = (r, [(Fn_other 0, Some 7), (Fn_other 0, Some 9)], [(Fn_other 0, Some 7), (Fn_other 0, Some 9)])
   \<and> mset (fst (reactor_cleanup_internal r)) = {#}"
proof -
  let ?ops = "[AddFd True True 5 1 None (Some (Fn_other 0)) (Some 7),
       AddFd True False 6 1 None (Some (Fn_other 0)) (Some 8),
       AddFd True True 5 4 None (Some (Fn_other 0)) (Some 9), RemoveFd 5]"
  let ?l = "[(Fn_other 0, Some 7), (Fn_other 0, Some 9)]"
  have "\<exists>r. fd_run ?ops reactor_zero = (r, ?l, ?l)"
    by (simp add: reactor_add_fd_ex_def reactor_add_fd_def reactor_remove_fd_def reactor_zero_def
        fd_in_range_def REACTOR_MAX_FD_def Let_def)
  then obtain r where r: "fd_run ?ops reactor_zero = (r, ?l, ?l)" ..
  show ?thesis
    using fd_handlers_owned [OF r] r by auto
qed

definition signal_handler :: reactor_handler_t where
  "signal_handler = \<lparr>h_events = REACTOR_EVENT_READ, h_callback = None, h_userdata = None, h_free_cb = None, h_active = True\<rparr>"

lemma watch_new_fd_removed:
  assumes "rx_fds_wf r" "rx_handlers r fd = None" "reactor_add_fd alloc ctl fd ev cb ud r = (0, r1, calls)"
  shows "\<exists>calls. reactor_remove_fd fd r1 = (0, r, calls)"
proof -
  have "rx_epoll r fd = None"
    using assms(1,2) by (simp add: rx_fds_wf_def)
  then have "(rx_epoll r)(fd := None) = rx_epoll r" "(rx_handlers r)(fd := None) = rx_handlers r"
    using assms(2) by (simp_all add: fun_upd_idem)
  then show ?thesis
    using assms(2,3) by (auto simp: reactor_add_fd_def reactor_remove_fd_def Let_def split: if_splits)
qed

text \<open>C4: \<open>reactor_watch_signal\<close> is transactional.  A signalfd that the system hands out is new: it has
  no handler and is not the current one.  The call succeeds exactly when the signal number is valid
  and the system grants everything; then it watches exactly one signal more, blocks the watched
  signals, moves the registration from the old signalfd to the new one, leaves every other handler
  alone, and closes the old one.  Otherwise the reactor is what it was, and the new signalfd, if
  there is one, is closed.\<close>

theorem watch_signal_transactional:
  assumes "reactor_watch_signal env signo r = (rc, r', closed)" "rx_fds_wf r"
    and "rx_handlers r (we_new_fd env) = None" "0 \<le> we_new_fd env \<longrightarrow> we_new_fd env \<noteq> rx_signal_fd r"
  shows "let created = 0 < signo \<and> we_sigaddset_ok env \<and> 0 \<le> we_new_fd env;
             granted = fd_in_range (we_new_fd env) \<and> we_alloc env \<and> we_ctl_ok env \<and> we_sigprocmask_ok env
         in if created \<and> granted
            then rc = 0 \<and> rx_sigmask r' = insert signo (rx_sigmask r)
              \<and> rx_sigblocked r' = rx_sigblocked r \<union> insert signo (rx_sigmask r) \<and> rx_signal_fd r' = we_new_fd env
              \<and> rx_handlers r' = (rx_handlers r)(rx_signal_fd r := None, we_new_fd env \<mapsto> signal_handler)
              \<and> rx_fds_wf r' \<and> closed = (if 0 \<le> rx_signal_fd r then [rx_signal_fd r] else [])
            else rc = -1 \<and> r' = r \<and> closed = (if created then [we_new_fd env] else [])"
proof (cases "0 < signo \<and> we_sigaddset_ok env \<and> 0 \<le> we_new_fd env \<and> fd_in_range (we_new_fd env) \<and> we_alloc env \<and> we_ctl_ok env")
  case False
  then show ?thesis
    using assms(1) by (auto simp: reactor_watch_signal_def reactor_add_fd_def Let_def split: if_splits)
next
  case True
  obtain r1 calls where add: "reactor_add_fd (we_alloc env) (we_ctl_ok env) (we_new_fd env) REACTOR_EVENT_READ None None r = (0, r1, calls)"
      and r1: "rx_handlers r1 = (rx_handlers r)(we_new_fd env \<mapsto> signal_handler)" "rx_sigmask r1 = rx_sigmask r"
        "rx_signal_fd r1 = rx_signal_fd r" "rx_sigblocked r1 = rx_sigblocked r"
    using True assms(3) by (simp add: reactor_add_fd_def Let_def signal_handler_def)
  show ?thesis
  proof (cases "we_sigprocmask_ok env")
    case False
    then show ?thesis
      using assms(1) True add watch_new_fd_removed [OF assms(2,3) add] by (auto simp: reactor_watch_signal_def Let_def)
  next
    case granted: True
    define r2 where "r2 = r1\<lparr>rx_sigblocked := rx_sigblocked r1 \<union> insert signo (rx_sigmask r),
        rx_signal_fd := we_new_fd env, rx_sigmask := insert signo (rx_sigmask r)\<rparr>"
    obtain rc3 r3 c3 where old: "reactor_remove_fd (rx_signal_fd r) r2 = (rc3, r3, c3)"
      by (rule prod_cases3)
    have step: "reactor_watch_signal env signo r = (if 0 \<le> rx_signal_fd r
        then case reactor_remove_fd (rx_signal_fd r) r2 of (_, r3, _) \<Rightarrow> (0, r3, [rx_signal_fd r]) else (0, r2, []))"
      unfolding r2_def using True granted add r1(2-4) by (simp add: reactor_watch_signal_def Let_def)
    have "rx_fds_wf r2"
      using add_fd_wf [OF assms(2) add] by (simp add: r2_def rx_fds_wf_def)
    then have wf: "rx_fds_wf r2" "rx_fds_wf r3"
      using remove_fd_wf [OF _ old] by simp_all
    have gone: "\<not> fd_in_range (rx_signal_fd r) \<Longrightarrow> rx_handlers r (rx_signal_fd r) = None"
      using assms(2) unfolding rx_fds_wf_def by (meson not_Some_eq)
    have "rx_handlers r3 = (rx_handlers r)(rx_signal_fd r := None, we_new_fd env \<mapsto> signal_handler)"
        "rx_sigmask r3 = rx_sigmask r2" "rx_sigblocked r3 = rx_sigblocked r2" "rx_signal_fd r3 = rx_signal_fd r2"
      using old gone True assms(4) r1(1)
      by (auto simp: reactor_remove_fd_def r2_def fun_upd_twist fun_upd_idem split: if_splits option.splits)
    moreover have "\<not> 0 \<le> rx_signal_fd r \<Longrightarrow> rx_handlers r2 = (rx_handlers r)(rx_signal_fd r := None, we_new_fd env \<mapsto> signal_handler)"
      using gone r1(1) by (simp add: r2_def fun_upd_idem fd_in_range_def)
    moreover have "r' = (if 0 \<le> rx_signal_fd r then r3 else r2)" "rc = 0" "closed = (if 0 \<le> rx_signal_fd r then [rx_signal_fd r] else [])"
      using assms(1) old unfolding step by (auto split: if_splits)
    ultimately show ?thesis
      using True granted wf r1(4) by (simp add: r2_def)
  qed
qed

theorem watch_signal_transactional_witness:
  "let env = \<lparr>we_sigaddset_ok = True, we_new_fd = 9, we_alloc = True, we_ctl_ok = True,
              we_sigprocmask_ok = True\<rparr>
   in rx_sigmask (fst (snd (reactor_watch_signal env 15 reactor_zero))) = {15}
      \<and> rx_signal_fd (fst (snd (reactor_watch_signal env 15 reactor_zero))) = 9"
proof -
  define env where "env = \<lparr>we_sigaddset_ok = True, we_new_fd = 9, we_alloc = True,
      we_ctl_ok = True, we_sigprocmask_ok = True\<rparr>"
  obtain rc r' closed where w: "reactor_watch_signal env 15 reactor_zero = (rc, r', closed)"
    by (cases "reactor_watch_signal env 15 reactor_zero")
  then have rc: "rc = 0"
    by (auto simp: reactor_watch_signal_def env_def reactor_add_fd_def fd_in_range_def
        REACTOR_MAX_FD_def reactor_zero_def Let_def)
  have "rx_sigmask r' = {15} \<and> rx_signal_fd r' = 9"
    using watch_signal_transactional [OF w rx_fds_wf_zero] rc
    by (simp add: reactor_zero_def env_def Let_def split: if_splits)
  then show ?thesis using w by (simp add: env_def)
qed

text \<open>The timeout handed to \<open>epoll_wait\<close>.  It is -1 exactly when there is no timer; with
  a head due it is 0; with a head due within \<open>2 ^ 63\<close> ms it is the remaining time capped at
  \<open>INT_MAX\<close>, hence positive and representable as an int.\<close>

theorem next_timeout_bounds:
  assumes "rx_timers r = t # ts"
  shows "next_timer_timeout_ms now (r\<lparr>rx_timers := []\<rparr>) = -1
    \<and> (t_expires t \<le> now \<longrightarrow> next_timer_timeout_ms now r = 0)
    \<and> (now < t_expires t \<and> uint (t_expires t) - uint now < 2 ^ 63 \<longrightarrow>
         next_timer_timeout_ms now r = min INT_MAX (uint (t_expires t) - uint now)
         \<and> 0 < next_timer_timeout_ms now r \<and> next_timer_timeout_ms now r \<le> INT_MAX)"
proof (intro conjI impI)
  show "next_timer_timeout_ms now (r\<lparr>rx_timers := []\<rparr>) = -1"
    by (simp add: next_timer_timeout_ms_def)
  show "next_timer_timeout_ms now r = 0" if "t_expires t \<le> now"
    using that assms by (simp add: next_timer_timeout_ms_def)
  assume a: "now < t_expires t \<and> uint (t_expires t) - uint now < 2 ^ 63"
  then have lt: "uint now < uint (t_expires t)" by (simp add: word_less_def)
  have "uint (t_expires t - now) = uint (t_expires t) - uint now"
    using a uint_minus_simple_alt [of now "t_expires t"] by auto
  then have s: "sint (t_expires t - now) = uint (t_expires t) - uint now"
    using a lt by (simp add: sint_uint signed_take_bit_int_eq_self)
  show "next_timer_timeout_ms now r = min INT_MAX (uint (t_expires t) - uint now)"
    and "0 < next_timer_timeout_ms now r" and "next_timer_timeout_ms now r \<le> INT_MAX"
    using a s lt assms by (auto simp: next_timer_timeout_ms_def Let_def INT_MAX_def)
qed

theorem next_timeout_bounds_witness:
  "next_timer_timeout_ms 1000 (snd (reactor_add_timer (True, True) 1000 250 0 None None reactor_zero)) = 250"
proof -
  let ?r = "snd (reactor_add_timer (True, True) 1000 250 0 None None reactor_zero)"
  obtain t where t: "rx_timers ?r = t # []" "t_expires t = 1250"
    by (simp add: reactor_add_timer_def timer_list_insert_def reactor_zero_def Let_def)
  show ?thesis using next_timeout_bounds [OF t(1), of 1000] t(2) by (simp add: INT_MAX_def)
qed

end
