(* ===== verification/Reactor_Loop.thy ===== *)
theory Reactor_Loop
  imports Reactor
begin

text \<open>
  The event loop of \<open>src/reactor.c\<close>: \<open>process_expired_timers\<close>,
  \<open>reactor_signal_handle\<close> and \<open>reactor_run\<close>.

  The loop calls back into its clients, which call the reactor again.  A client
  callback is a parameter: a function on the pair of the reactor and the client
  state that may fail (\<open>None\<close>, undefined behaviour).  What the loop needs of
  the callbacks is the locale \<open>timer_callbacks\<close>; the theory of the service
  interprets it.  The loops that need not end are partial functions whose value
  \<open>None\<close> is "does not return"; that they return is part of the theorems.  The
  kernel's answers are lists consumed by the loop; an exhausted list is a loop
  that still waits and has the value \<open>None\<close> too.
\<close>

type_synonym 'u world = "reactor_t \<times> 'u"

record 'u callbacks =
  on_timer :: "fn \<Rightarrow> nat \<Rightarrow> data_ptr option \<Rightarrow> 'u world \<Rightarrow> 'u world option"
  on_io :: "fn \<Rightarrow> fd \<Rightarrow> u32 \<Rightarrow> data_ptr option \<Rightarrow> 'u world \<Rightarrow> 'u world option"
  on_sig :: "fn \<Rightarrow> int \<Rightarrow> data_ptr option \<Rightarrow> 'u world \<Rightarrow> 'u world option"
  on_idle_call :: "fn \<Rightarrow> data_ptr option \<Rightarrow> 'u world \<Rightarrow> 'u world option"
  on_error :: "fn \<Rightarrow> errno \<Rightarrow> data_ptr option \<Rightarrow> 'u world \<Rightarrow> 'u world option"

subsection \<open>Expired timers\<close>

text \<open>The inner loop that moves a periodic timer past \<open>now\<close>.\<close>

partial_function (option) rearm :: "u64 \<Rightarrow> u64 \<Rightarrow> u64 \<Rightarrow> u64 option" where
  "rearm now interval e = (if e \<le> now then rearm now interval (e + interval) else Some e)"

text \<open>One round of the outer loop on the due head \<open>t\<close>.  After the callback the timer is read
  back, because the callback may have cancelled it.\<close>

definition process_head ::
  "(fn \<Rightarrow> nat \<Rightarrow> data_ptr option \<Rightarrow> 'u world \<Rightarrow> 'u world option) \<Rightarrow> u64
   \<Rightarrow> reactor_timer_internal_t \<Rightarrow> 'u world \<Rightarrow> 'u world option" where
  "process_head cb now t w =
     (let r = fst w; u = snd w in
      if t_pending_delete t then Some (timer_list_remove (t_id t) r, u)
      else
        let r1 = (timer_list_remove (t_id t) r)\<lparr>rx_popped := Some t\<rparr>;
            called = (case t_callback t of
                None \<Rightarrow> Some (r1, u)
              | Some f \<Rightarrow>
                  (if t_active t \<and> t_public t then
                     cb f (t_id t) (t_userdata t)
                       (r1\<lparr>rx_stats := (rx_stats r1)\<lparr>timers_fired := timers_fired (rx_stats r1) + 1\<rparr>\<rparr>, u)
                   else Some (r1, u)))
        in Option.bind called (\<lambda>(r2, u2).
             case rx_popped r2 of
               None \<Rightarrow> None
             | Some t2 \<Rightarrow>
                 (if t_active t2 \<and> \<not> t_pending_delete t2 \<and> 0 < t_interval t2 then
                    Option.bind (rearm now (t_interval t2) (t_expires t2 + t_interval t2))
                      (\<lambda>e. Some (timer_list_insert (t2\<lparr>t_expires := e\<rparr>) (r2\<lparr>rx_popped := None\<rparr>), u2))
                  else Some (r2\<lparr>rx_popped := None\<rparr>, u2))))"

partial_function (option) process_loop ::
  "(fn \<Rightarrow> nat \<Rightarrow> data_ptr option \<Rightarrow> 'u world \<Rightarrow> 'u world option) \<Rightarrow> u64 \<Rightarrow> 'u world \<Rightarrow> 'u world option"
where
  "process_loop cb now w =
     (case rx_timers (fst w) of
        [] \<Rightarrow> Some w
      | t # ts \<Rightarrow>
          (if t_expires t \<le> now then Option.bind (process_head cb now t w) (\<lambda>w1. process_loop cb now w1)
           else Some w))"

definition process_expired_timers ::
  "(fn \<Rightarrow> nat \<Rightarrow> data_ptr option \<Rightarrow> 'u world \<Rightarrow> 'u world option) \<Rightarrow> u64 \<Rightarrow> 'u world \<Rightarrow> 'u world option"
where
  "process_expired_timers cb now w = process_loop cb now ((fst w)\<lparr>rx_current_time := now\<rparr>, snd w)"

subsection \<open>Signals and the main loop\<close>

text \<open>Answers of \<open>read\<close> on the signalfd: a whole record, an error, or another count.\<close>

datatype sig_read = SigInfo int | SigErr errno | SigCount int

definition SIGINT :: int where "SIGINT = 2"
definition SIGTERM :: int where "SIGTERM = 15"
definition SIGHUP :: int where "SIGHUP = 1"

fun reactor_signal_handle :: "'u callbacks \<Rightarrow> sig_read list \<Rightarrow> 'u world \<Rightarrow> 'u world option" where
  "reactor_signal_handle cbs [] w = None"
| "reactor_signal_handle cbs (SigInfo signo # reads) w =
     (let r = fst w;
          r1 = r\<lparr>rx_stats := (rx_stats r)\<lparr>signals_received := signals_received (rx_stats r) + 1\<rparr>\<rparr>;
          r2 = (if signo = SIGINT \<or> signo = SIGTERM then r1\<lparr>rx_running := False\<rparr> else r1)
      in Option.bind (case rx_signal_cb r2 of None \<Rightarrow> Some (r2, snd w)
                      | Some f \<Rightarrow> on_sig cbs f signo (rx_userdata r2) (r2, snd w))
           (\<lambda>w1. reactor_signal_handle cbs reads w1))"
| "reactor_signal_handle cbs (SigErr e # reads) w =
     (if e = EINTR then reactor_signal_handle cbs reads w else Some w)"
| "reactor_signal_handle cbs (SigCount n # reads) w = Some w"

text \<open>A ready fd: its epoll events and, for the signalfd, the answers to the reads.  Reading
  the eventfd clears the pending wakeup.\<close>

type_synonym ready = "fd \<times> u32 \<times> sig_read list"

definition dispatch :: "'u callbacks \<Rightarrow> ready \<Rightarrow> 'u world \<Rightarrow> 'u world option" where
  "dispatch cbs rd w = (case rd of (fd, ev, reads) \<Rightarrow>
     (let r = fst w in
      if fd = rx_signal_fd r then reactor_signal_handle cbs reads w
      else if fd = rx_event_fd r then Some (r\<lparr>rx_event_pending := False\<rparr>, snd w)
      else if fd_in_range fd then
        (case rx_handlers r fd of
           None \<Rightarrow> Some w
         | Some h \<Rightarrow>
             (case h_callback h of
                None \<Rightarrow> Some w
              | Some f \<Rightarrow>
                  (if h_active h then
                     on_io cbs f fd ev (h_userdata h)
                       (r\<lparr>rx_stats := (rx_stats r)\<lparr>events_processed := events_processed (rx_stats r) + 1\<rparr>\<rparr>,
                        snd w)
                   else Some w)))
      else Some w))"

fun dispatch_all :: "'u callbacks \<Rightarrow> ready list \<Rightarrow> 'u world \<Rightarrow> 'u world option" where
  "dispatch_all cbs [] w = Some w"
| "dispatch_all cbs (rd # rds) w = Option.bind (dispatch cbs rd w) (\<lambda>w1. dispatch_all cbs rds w1)"

datatype epoll_answer = EpollFail errno | EpollReady "ready list"

text \<open>The answers of one round: the clock at the top of the round and in
  \<open>process_expired_timers\<close>, and the result of \<open>epoll_wait\<close> (called with the timeout
  \<open>next_timer_timeout_ms\<close>; how long it waits is the kernel's).\<close>

type_synonym round_env = "u64 \<times> u64 \<times> epoll_answer"

text \<open>The part of a round before \<open>epoll_wait\<close>.\<close>

definition round_timers :: "'u callbacks \<Rightarrow> u64 \<Rightarrow> u64 \<Rightarrow> 'u world \<Rightarrow> 'u world option" where
  "round_timers cbs now0 now1 w =
     (let r = fst w;
          r1 = r\<lparr>rx_stats := (rx_stats r)\<lparr>loop_count := loop_count (rx_stats r) + 1\<rparr>,
                 rx_current_time := now0\<rparr>
      in process_expired_timers (on_timer cbs) now1 (r1, snd w))"

definition reactor_round :: "'u callbacks \<Rightarrow> round_env \<Rightarrow> 'u world \<Rightarrow> 'u world option" where
  "reactor_round cbs env w = (case env of (now0, now1, answer) \<Rightarrow>
     Option.bind (round_timers cbs now0 now1 w) (\<lambda>w2.
           case answer of
             EpollFail e \<Rightarrow>
               (if e = EINTR then Some w2
                else Option.bind
                  (case rx_error_cb (fst w2) of None \<Rightarrow> Some w2
                   | Some f \<Rightarrow> on_error cbs f e (rx_userdata (fst w2)) w2)
                  (\<lambda>w3. Some ((fst w3)\<lparr>rx_running := False\<rparr>, snd w3)))
           | EpollReady rds \<Rightarrow>
               Option.bind (dispatch_all cbs (take REACTOR_MAX_EVENTS rds) w2) (\<lambda>w3.
                 if rds = [] then
                   (case rx_idle_cb (fst w3) of
                      None \<Rightarrow> Some w3
                    | Some f \<Rightarrow>
                        on_idle_call cbs f (rx_userdata (fst w3))
                          ((fst w3)\<lparr>rx_stats := (rx_stats (fst w3))
                             \<lparr>idle_calls := idle_calls (rx_stats (fst w3)) + 1\<rparr>\<rparr>, snd w3))
                 else Some w3)))"

fun reactor_rounds :: "'u callbacks \<Rightarrow> round_env list \<Rightarrow> 'u world \<Rightarrow> 'u world option" where
  "reactor_rounds cbs envs w =
     (if \<not> rx_running (fst w) then Some ((fst w)\<lparr>rx_in_loop := False\<rparr>, snd w)
      else case envs of
        [] \<Rightarrow> None
      | env # envs' \<Rightarrow> Option.bind (reactor_round cbs env w) (\<lambda>w1. reactor_rounds cbs envs' w1))"

declare reactor_rounds.simps [simp del]

definition reactor_run :: "'u callbacks \<Rightarrow> round_env list \<Rightarrow> 'u world \<Rightarrow> (int \<times> 'u world) option" where
  "reactor_run cbs envs w =
     map_option (\<lambda>w1. (0, w1))
       (reactor_rounds cbs envs ((fst w)\<lparr>rx_running := True, rx_in_loop := True\<rparr>, snd w))"

subsection \<open>Rearming\<close>

lemma rearm_due: "e \<le> now \<Longrightarrow> rearm now interval e = rearm now interval (e + interval)"
  by (subst rearm.simps) simp

lemma rearm_later: "now < e \<Longrightarrow> rearm now interval e = Some e"
  by (subst rearm.simps) (auto dest: leD)

text \<open>When the clock is far enough from the end of its range, rearming returns the first
  deadline of the timer's grid after \<open>now\<close>.\<close>

lemma rearm_returns:
  assumes "0 < interval" "uint now + uint interval < 2 ^ 64"
  shows "\<exists>k e'. rearm now interval e = Some e' \<and> now < e' \<and> e' = e + of_nat k * interval
           \<and> uint e' = uint e + int k * uint interval
           \<and> (0 < k \<longrightarrow> uint e' \<le> uint now + uint interval)"
proof (induction "nat (uint now + 1 - uint e)" arbitrary: e rule: less_induct)
  case less
  show ?case
  proof (cases "e \<le> now")
    case True
    then have le: "uint e \<le> uint now" by (simp add: word_le_def)
    have pos: "0 < uint interval" using assms(1) by (simp add: word_less_def)
    have sum: "uint (e + interval) = uint e + uint interval"
      using le assms(2) by (simp add: uint_word_ariths)
    have "nat (uint now + 1 - uint (e + interval)) < nat (uint now + 1 - uint e)"
      using le pos sum by simp
    from less.hyps [OF this] obtain k e' where IH: "rearm now interval (e + interval) = Some e'"
        "now < e'" "e' = e + interval + of_nat k * interval"
        "uint e' = uint (e + interval) + int k * uint interval"
        "0 < k \<longrightarrow> uint e' \<le> uint now + uint interval" by blast
    have "e' = e + of_nat (Suc k) * interval" using IH(3) by (simp add: algebra_simps)
    moreover have "uint e' = uint e + int (Suc k) * uint interval"
      using IH(4) sum by (simp add: algebra_simps)
    moreover have "uint e' \<le> uint now + uint interval"
    proof (cases k)
      case 0
      then show ?thesis using IH(4) sum le by simp
    qed (use IH(5) in simp)
    ultimately show ?thesis
      using IH(1,2) rearm_due [OF True] by (intro exI [of _ "Suc k"] exI [of _ e']) simp
  next
    case False
    then show ?thesis
      using rearm_later [of now e interval] by (intro exI [of _ 0] exI [of _ e]) simp
  qed
qed

subsection \<open>What a callback may do to the reactor\<close>

text \<open>A callback uses the reactor's operations only.  The new deadlines lie after \<open>now\<close>, the
  time of the pass (a positive timeout on a clock that does not go back).\<close>

definition small_interval :: "u64 \<Rightarrow> u64 \<Rightarrow> bool" where
  "small_interval now interval \<longleftrightarrow> uint now + uint interval < 2 ^ 64"

inductive client_step :: "u64 \<Rightarrow> reactor_t \<Rightarrow> reactor_t \<Rightarrow> bool" for now where
  cs_add: "reactor_add_timer alloc t0 timeout interval cb ud r = (h, r') \<Longrightarrow>
     now < t0 + timeout \<Longrightarrow> small_interval now interval \<Longrightarrow> client_step now r r'"
| cs_cancel: "reactor_cancel_timer h r = Some (rc, r') \<Longrightarrow> client_step now r r'"
| cs_other: "rx_timers r' = rx_timers r \<Longrightarrow> rx_popped r' = rx_popped r \<Longrightarrow>
     rx_next_id r' = rx_next_id r \<Longrightarrow> rx_timer_count r' = rx_timer_count r \<Longrightarrow> client_step now r r'"

definition loop_inv :: "u64 \<Rightarrow> reactor_t \<Rightarrow> bool" where
  "loop_inv now r \<longleftrightarrow> rx_timers_wf r \<and> (\<forall>t\<in>set (all_timers r). small_interval now (t_interval t))"

text \<open>The timers that can still fire in this pass.\<close>

definition due :: "u64 \<Rightarrow> reactor_t \<Rightarrow> nat set" where
  "due now r = t_id ` {t \<in> set (rx_timers r). t_active t \<and> t_expires t \<le> now}"

lemma finite_due [simp]: "finite (due now r)"
  by (simp add: due_def)

text \<open>A handle that cannot fire any more.\<close>

definition dead :: "reactor_t \<Rightarrow> nat \<Rightarrow> bool" where
  "dead r h \<longleftrightarrow> h < rx_next_id r \<and> (\<forall>t\<in>set (all_timers r). t_id t = h \<longrightarrow> \<not> t_active t)"

definition popped_next :: "reactor_timer_internal_t option \<Rightarrow> reactor_timer_internal_t option \<Rightarrow> bool" where
  "popped_next p p' \<longleftrightarrow> p' = p \<or> p' = map_option kill_timer p"

lemma kill_timer_idem [simp]: "kill_timer (kill_timer t) = kill_timer t"
  by (simp add: kill_timer_def)

lemma popped_next_trans: "popped_next p q \<Longrightarrow> popped_next q s \<Longrightarrow> popped_next p s"
  by (cases p; cases q) (auto simp: popped_next_def)

lemma cancel_needs_live:
  "reactor_cancel_timer (Some h) r = Some (rc, r') \<Longrightarrow> armed r h \<noteq> None"
  by (auto simp: reactor_cancel_timer_def armed_def split: option.splits if_splits)

lemma cancel_popped:
  "reactor_cancel_timer h r = Some (rc, r') \<Longrightarrow> popped_next (rx_popped r) (rx_popped r')"
  by (auto simp: reactor_cancel_timer_def popped_next_def timer_list_insert_def timer_list_remove_def Let_def
      split: option.splits if_splits)

lemma find_timer_in: "find_timer h r = Some t \<Longrightarrow> t \<in> set (all_timers r) \<and> t_id t = h"
  by (auto simp: find_timer_def find_Some_iff)

lemma cancel_intervals:
  assumes "reactor_cancel_timer h r = Some (rc, r')" "t \<in> set (all_timers r')"
  shows "\<exists>t0\<in>set (all_timers r). t_interval t0 = t_interval t \<and> t_id t0 = t_id t \<and> (t_active t \<longrightarrow> t = t0)"
proof (cases h)
  case None
  then show ?thesis using assms by (auto simp: reactor_cancel_timer_def)
next
  case (Some i)
  then obtain t0 where t0: "find_timer i r = Some t0" and pub: "t_public t0"
    using assms(1) by (auto simp: reactor_cancel_timer_def split: option.splits if_splits)
  note in0 = find_timer_in [OF t0]
  have "t \<in> set (all_timers r) \<or> t = kill_timer (t0\<lparr>t_expires := rx_current_time r\<rparr>)
      \<or> (\<exists>p. rx_popped r = Some p \<and> t = kill_timer p)"
    using assms Some t0 pub
    by (auto simp: reactor_cancel_timer_def Let_def in_all_timers timer_list_insert_def
        timer_list_remove_def split: if_splits)
  then show ?thesis
    using in0 by (auto simp: kill_timer_def in_all_timers)
qed

lemma cancel_wf:
  assumes "rx_timers_wf r" "reactor_cancel_timer h r = Some (rc, r')"
  shows "rx_timers_wf r' \<and> rx_next_id r' = rx_next_id r"
proof (cases h)
  case None
  then show ?thesis using assms by (simp add: reactor_cancel_timer_def)
next
  case (Some i)
  with assms(2) have "armed r i \<noteq> None" by (auto dest: cancel_needs_live)
  from cancel_timer_sets [OF assms(1) this] show ?thesis
    using assms(2) Some by (metis option.inject prod.inject)
qed

lemma add_timer_in:
  assumes "reactor_add_timer alloc t0 timeout interval cb ud r = (h, r')"
  shows "rx_popped r' = rx_popped r" "rx_next_id r \<le> rx_next_id r'"
    and "t \<in> set (rx_timers r') \<Longrightarrow> t \<in> set (rx_timers r)
           \<or> t_id t = rx_next_id r \<and> t_expires t = t0 + timeout \<and> t_interval t = interval"
    and "t \<in> set (all_timers r') \<Longrightarrow> t \<in> set (all_timers r)
           \<or> t_id t = rx_next_id r \<and> t_interval t = interval"
  using assms
  by (auto simp: reactor_add_timer_def Let_def timer_list_insert_def in_all_timers split: if_splits)

lemma client_step_inv:
  assumes "client_step now r r'" "loop_inv now r"
  shows "loop_inv now r' \<and> popped_next (rx_popped r) (rx_popped r') \<and> rx_next_id r \<le> rx_next_id r'
     \<and> due now r' \<subseteq> due now r \<and> (\<forall>h. dead r h \<longrightarrow> dead r' h)"
  using assms
proof (induction rule: client_step.induct)
  case (cs_add alloc t0 timeout interval cb ud r h r')
  note new = add_timer_in [OF cs_add(1)]
  have wf: "rx_timers_wf r" using cs_add(4) by (simp add: loop_inv_def)
  have "loop_inv now r'"
    using cs_add(3,4) new(4) add_timer_wf [OF wf cs_add(1)] unfolding loop_inv_def by blast
  moreover have "due now r' \<subseteq> due now r"
    using cs_add(2) new(3) by (fastforce simp: due_def)
  moreover have "dead r' i" if "dead r i" for i
    using that new(2,4) by (fastforce simp: dead_def)
  ultimately show ?case using new by (simp add: popped_next_def)
next
  case (cs_cancel h r rc r')
  have wf: "rx_timers_wf r" using cs_cancel(2) by (simp add: loop_inv_def)
  note ivl = cancel_intervals [OF cs_cancel(1)] and wf' = cancel_wf [OF wf cs_cancel(1)]
  have "loop_inv now r'"
    using cs_cancel(2) ivl wf' unfolding loop_inv_def by metis
  moreover have "due now r' \<subseteq> due now r"
  proof
    fix i assume "i \<in> due now r'"
    then obtain t where t: "t \<in> set (rx_timers r')" "t_active t" "t_expires t \<le> now" "i = t_id t"
      by (auto simp: due_def)
    then have "t \<in> set (all_timers r)" using ivl [of t] by (auto simp: in_all_timers)
    moreover have "rx_popped r \<noteq> Some t"
    proof
      assume "rx_popped r = Some t"
      moreover have "popped_next (rx_popped r) (rx_popped r')" by (rule cancel_popped [OF cs_cancel(1)])
      ultimately obtain p where "rx_popped r' = Some p" "t_id p = t_id t"
        by (auto simp: popped_next_def)
      then show False using wf' t by (auto simp: rx_timers_wf_def)
    qed
    ultimately show "i \<in> due now r" using t by (auto simp: due_def in_all_timers)
  qed
  moreover have "dead r' i" if "dead r i" for i
    unfolding dead_def
  proof (intro conjI ballI impI)
    show "i < rx_next_id r'" using that wf' by (simp add: dead_def)
    fix t assume "t \<in> set (all_timers r')" "t_id t = i"
    then obtain t0 where "t0 \<in> set (all_timers r)" "t_id t0 = i" "t_active t \<longrightarrow> t = t0"
      using ivl by metis
    with that show "\<not> t_active t" by (auto simp: dead_def)
  qed
  ultimately show ?case using wf' cancel_popped [OF cs_cancel(1)] by simp
next
  case (cs_other r' r)
  then have "all_timers r' = all_timers r" by (simp add: all_timers_def)
  with cs_other show ?case
    by (simp add: loop_inv_def rx_timers_wf_def due_def dead_def popped_next_def)
qed

lemma client_steps_inv:
  assumes "(client_step now)\<^sup>*\<^sup>* r r'" "loop_inv now r"
  shows "loop_inv now r' \<and> popped_next (rx_popped r) (rx_popped r') \<and> rx_next_id r \<le> rx_next_id r'
     \<and> due now r' \<subseteq> due now r \<and> (\<forall>h. dead r h \<longrightarrow> dead r' h)"
  using assms
proof (induction rule: rtranclp_induct)
  case base
  then show ?case by (simp add: popped_next_def)
next
  case (step y z)
  then have IH: "loop_inv now y" "popped_next (rx_popped r) (rx_popped y)" "rx_next_id r \<le> rx_next_id y"
      "due now y \<subseteq> due now r" "\<forall>h. dead r h \<longrightarrow> dead y h" by auto
  from client_step_inv [OF step(2) IH(1)] IH show ?case
    by (meson order_trans popped_next_trans)
qed

subsection \<open>Popping and putting back\<close>

lemma pop_head:
  assumes "loop_inv now r" "rx_popped r = None" "rx_timers r = t # ts"
  shows "rx_timers (timer_list_remove (t_id t) r) = ts"
    and "rx_popped (timer_list_remove (t_id t) r) = None"
    and "rx_next_id (timer_list_remove (t_id t) r) = rx_next_id r"
    and "rx_timer_count (timer_list_remove (t_id t) r) = length ts"
    and "rx_stats (timer_list_remove (t_id t) r) = rx_stats r"
proof -
  have "t_id t \<notin> t_id ` set ts" "rx_timer_count r = Suc (length ts)"
    using assms by (auto simp: loop_inv_def rx_timers_wf_def)
  then have "filter (\<lambda>x. t_id x \<noteq> t_id t) ts = ts" by (metis (mono_tags, lifting) filter_True imageI)
  moreover have "linked (t_id t) r" using assms by (simp add: linked_def)
  moreover note \<open>rx_timer_count r = Suc (length ts)\<close>
  ultimately show "rx_timers (timer_list_remove (t_id t) r) = ts"
      "rx_popped (timer_list_remove (t_id t) r) = None"
      "rx_next_id (timer_list_remove (t_id t) r) = rx_next_id r"
      "rx_timer_count (timer_list_remove (t_id t) r) = length ts"
      "rx_stats (timer_list_remove (t_id t) r) = rx_stats r"
    using assms by (simp_all add: timer_list_remove_def)
qed

lemma armed_cong: "all_timers r = all_timers r' \<Longrightarrow> armed r = armed r'"
  by (simp add: armed_def find_timer_def fun_eq_iff)

lemma dead_cong:
  "all_timers r = all_timers r' \<Longrightarrow> rx_next_id r = rx_next_id r' \<Longrightarrow> dead r = dead r'"
  by (simp add: dead_def fun_eq_iff)

text \<open>The head taken out for its callback.\<close>

lemma popped_state:
  assumes "loop_inv now r" "rx_popped r = None" "rx_timers r = t # ts" "\<not> t_pending_delete t"
    and "rx_timers r1 = ts" "rx_popped r1 = Some t" "rx_next_id r1 = rx_next_id r"
    and "rx_timer_count r1 = length ts"
  shows "loop_inv now r1" "armed r1 = armed r" "dead r1 = dead r"
    and "t_expires t \<le> now \<Longrightarrow> due now r = insert (t_id t) (due now r1) \<and> t_id t \<notin> due now r1"
    and "t_active t" "t_public t"
proof -
  have all: "all_timers r1 = all_timers r" using assms by simp
  show "armed r1 = armed r" by (rule armed_cong [OF all])
  show "dead r1 = dead r" by (rule dead_cong [OF all assms(7)])
  show "loop_inv now r1" using assms all by (auto simp: loop_inv_def rx_timers_wf_def)
  have "timer_ok t" "t_id t \<notin> t_id ` set ts" using assms by (auto simp: loop_inv_def rx_timers_wf_def)
  then show act: "t_active t" "t_public t"
    using assms(4) by (simp_all add: timer_ok_def)
  show "t_expires t \<le> now \<Longrightarrow> due now r = insert (t_id t) (due now r1) \<and> t_id t \<notin> due now r1"
    using act assms(3,5) \<open>t_id t \<notin> t_id ` set ts\<close> by (auto simp: due_def)
qed

text \<open>The fired timer put back or freed.\<close>

lemma put_back:
  assumes "loop_inv now r" "rx_popped r = Some t" "now < e"
  defines "r' \<equiv> timer_list_insert (t\<lparr>t_expires := e\<rparr>) (r\<lparr>rx_popped := None\<rparr>)"
  shows "loop_inv now r'" "rx_popped r' = None" "armed r' = armed r" "due now r' = due now r"
    and "dead r h \<Longrightarrow> dead r' h"
proof -
  let ?t = "t\<lparr>t_expires := e\<rparr>"
  have r': "rx_timers r' = timer_insert ?t (rx_timers r)" "rx_popped r' = None"
      "rx_next_id r' = rx_next_id r" "rx_timer_count r' = rx_timer_count r + 1"
    by (simp_all add: r'_def timer_list_insert_def)
  show "rx_popped r' = None" by (rule r'(2))
  have wf: "rx_timers_wf r" using assms(1) by (simp add: loop_inv_def)
  have wf': "rx_timers_wf r'"
    using wf assms(2) r' by (auto simp: rx_timers_wf_def sorted_timer_insert timer_ok_def)
  then show "loop_inv now r'" using assms(1,2) r' by (auto simp: loop_inv_def)
  show "due now r' = due now r"
    using r' assms(3) by (auto simp: due_def)
  show "dead r h \<Longrightarrow> dead r' h" using r' assms(2) by (auto simp: dead_def)
  show "armed r' = armed r"
  proof
    fix h
    have "armed r' h = Some x \<longleftrightarrow> armed r h = Some x" for x
      unfolding armed_iff [OF wf] armed_iff [OF wf'] using r' assms(2) by simp
    then show "armed r' h = armed r h" by (rule option_eqI)
  qed
qed

lemma free_popped:
  assumes "loop_inv now r" "rx_popped r = Some t"
  defines "r' \<equiv> r\<lparr>rx_popped := None\<rparr>"
  shows "loop_inv now r'" "armed r' = (armed r)(t_id t := None)" "due now r' = due now r"
    and "dead r h \<Longrightarrow> dead r' h"
proof -
  have wf: "rx_timers_wf r" using assms(1) by (simp add: loop_inv_def)
  have wf': "rx_timers_wf r'" and "loop_inv now r'"
    using assms(1,2) by (auto simp: rx_timers_wf_def loop_inv_def r'_def)
  show "loop_inv now r'" by fact
  show "due now r' = due now r" by (simp add: due_def r'_def)
  show "dead r h \<Longrightarrow> dead r' h" using assms(2) by (auto simp: dead_def r'_def)
  have uniq: "\<forall>x\<in>set (rx_timers r). t_id x \<noteq> t_id t"
  proof -
    have "t_id t \<notin> t_id ` set (rx_timers r)" using wf assms(2) by (simp add: rx_timers_wf_def)
    then show ?thesis by (metis imageI)
  qed
  show "armed r' = (armed r)(t_id t := None)"
  proof
    fix h
    have "armed r' h = Some x \<longleftrightarrow> ((armed r)(t_id t := None)) h = Some x" for x
      using uniq armed_iff [OF wf, of h x] armed_iff [OF wf', of h x] assms(2)
      by (auto simp: r'_def)
    then show "armed r' h = ((armed r)(t_id t := None)) h" by (rule option_eqI)
  qed
qed

text \<open>A deleted head dropped.\<close>

lemma drop_pending:
  assumes "loop_inv now r" "rx_popped r = None" "rx_timers r = t # ts" "t_pending_delete t"
  defines "r' \<equiv> timer_list_remove (t_id t) r"
  shows "loop_inv now r'" "rx_popped r' = None" "armed r' = armed r" "due now r' = due now r"
    and "dead r h \<Longrightarrow> dead r' h" "length (rx_timers r') < length (rx_timers r)"
proof -
  note r' = pop_head [OF assms(1-3), folded r'_def]
  have wf: "rx_timers_wf r" using assms(1) by (simp add: loop_inv_def)
  have ok: "\<not> t_active t" "\<not> t_public t"
    using assms(1,3,4) assms(2) by (auto simp: loop_inv_def rx_timers_wf_def timer_ok_def)
  show "rx_popped r' = None" by (rule r'(2))
  have wf': "rx_timers_wf r'" and "loop_inv now r'"
    using assms(1-3) r' by (auto simp: rx_timers_wf_def loop_inv_def)
  show "loop_inv now r'" by fact
  show "due now r' = due now r" using r' ok assms(3) by (auto simp: due_def)
  show "dead r h \<Longrightarrow> dead r' h" using assms(2,3) r' by (auto simp: dead_def)
  show "length (rx_timers r') < length (rx_timers r)" using r' assms(3) by simp
  show "armed r' = armed r"
  proof
    fix h
    have "armed r' h = Some x \<longleftrightarrow> armed r h = Some x" for x
      using armed_iff [OF wf, of h x] armed_iff [OF wf', of h x] ok assms(2,3) r' by auto
    then show "armed r' h = armed r h" by (rule option_eqI)
  qed
qed

subsection \<open>The contract of the timer callbacks\<close>

text \<open>The loop is correct for callbacks that return, use the reactor through its operations
  and keep the clients' invariant \<open>J\<close>, a relation between what the handles stand for and
  the client state.  A one-shot timer's handle is freed after its callback, so \<open>J\<close> has to
  hold without it.\<close>

locale timer_callbacks =
  fixes now :: u64
    and J :: "(nat \<Rightarrow> armed_as option) \<Rightarrow> 'u \<Rightarrow> bool"
    and cb :: "fn \<Rightarrow> nat \<Rightarrow> data_ptr option \<Rightarrow> 'u world \<Rightarrow> 'u world option"
  assumes callback: "loop_inv now r \<Longrightarrow> rx_popped r = Some t \<Longrightarrow> t_active t \<Longrightarrow>
      t_callback t = Some f \<Longrightarrow> J (armed r) u \<Longrightarrow>
      \<exists>r' u'. cb f (t_id t) (t_userdata t) (r, u) = Some (r', u') \<and> (client_step now)\<^sup>*\<^sup>* r r'
        \<and> J (if t_interval t = 0 then (armed r')(t_id t := None) else armed r') u'"
    and no_callback: "J a u \<Longrightarrow> a h = Some (None, ud, iv) \<Longrightarrow> J (a(h := None)) u"
begin

text \<open>One round returns, keeps everything and makes progress; a dead handle is not called.\<close>

lemma process_head_total:
  assumes "loop_inv now r" "rx_popped r = None" "rx_timers r = t # ts" "t_expires t \<le> now"
    and "J (armed r) u"
  shows "\<exists>r' u'. process_head cb now t (r, u) = Some (r', u')
     \<and> loop_inv now r' \<and> rx_popped r' = None \<and> J (armed r') u'
     \<and> (card (due now r') < card (due now r)
        \<or> card (due now r') = card (due now r) \<and> length (rx_timers r') < length (rx_timers r))
     \<and> (\<forall>h. dead r h \<longrightarrow> dead r' h \<and>
          process_head (\<lambda>f i. if i = h then (\<lambda>_ _. None) else cb f i) now t (r, u) = Some (r', u'))"
proof (cases "t_pending_delete t")
  case True
  then show ?thesis
    using drop_pending [OF assms(1-3) True] assms(5) by (auto simp: process_head_def)
next
  case False
  let ?r1 = "(timer_list_remove (t_id t) r)\<lparr>rx_popped := Some t\<rparr>"
  let ?s1 = "?r1\<lparr>rx_stats := (rx_stats ?r1)\<lparr>timers_fired := timers_fired (rx_stats ?r1) + 1\<rparr>\<rparr>"
  note pop = pop_head [OF assms(1-3)]
  have r1: "rx_timers ?r1 = ts" "rx_popped ?r1 = Some t" "rx_next_id ?r1 = rx_next_id r"
      "rx_timer_count ?r1 = length ts" using pop by simp_all
  have s1: "rx_timers ?s1 = ts" "rx_popped ?s1 = Some t" "rx_next_id ?s1 = rx_next_id r"
      "rx_timer_count ?s1 = length ts" using pop by simp_all
  note st = popped_state [OF assms(1-3) False r1] and ss = popped_state [OF assms(1-3) False s1]
  define k where "k = (\<lambda>w::'u world. case rx_popped (fst w) of
       None \<Rightarrow> None
     | Some t2 \<Rightarrow>
         (if t_active t2 \<and> \<not> t_pending_delete t2 \<and> 0 < t_interval t2 then
            Option.bind (rearm now (t_interval t2) (t_expires t2 + t_interval t2))
              (\<lambda>e. Some (timer_list_insert (t2\<lparr>t_expires := e\<rparr>) ((fst w)\<lparr>rx_popped := None\<rparr>), snd w))
          else Some ((fst w)\<lparr>rx_popped := None\<rparr>, snd w)))"
  have head: "process_head c now t (r, u) = Option.bind (case t_callback t of None \<Rightarrow> Some (?r1, u)
      | Some f \<Rightarrow> c f (t_id t) (t_userdata t) (?s1, u)) k" for c
    using False st(5,6)
    by (cases "t_callback t") (auto simp: process_head_def Let_def k_def split_def)
  have not_dead: "\<not> dead r (t_id t)"
    using st(5) assms(2,3) by (auto simp: dead_def)
  have fin: "\<exists>r'. k (r2, u2) = Some (r', u2) \<and> loop_inv now r' \<and> rx_popped r' = None
      \<and> due now r' = due now r2 \<and> (\<forall>h. dead r2 h \<longrightarrow> dead r' h)
      \<and> armed r' = (if t_interval t = 0 then (armed r2)(t_id t := None) else armed r2)"
    if inv: "loop_inv now r2" and pn: "popped_next (Some t) (rx_popped r2)" for r2 u2
  proof -
    obtain t2 where t2: "rx_popped r2 = Some t2" "t2 = t \<or> t2 = kill_timer t"
      using pn by (auto simp: popped_next_def)
    have same: "t_id t2 = t_id t" "t_interval t2 = t_interval t" using t2 by (auto simp: kill_timer_def)
    show ?thesis
    proof (cases "t_active t2 \<and> 0 < t_interval t2")
      case True
      then have "t2 = t" "0 < t_interval t" using t2 by auto
      have "small_interval now (t_interval t2)" using inv t2(1) by (auto simp: loop_inv_def)
      then obtain e where e: "rearm now (t_interval t2) (t_expires t2 + t_interval t2) = Some e" "now < e"
        using rearm_returns [of "t_interval t2" now "t_expires t2 + t_interval t2"] True
        by (auto simp: small_interval_def)
      note pb = put_back [OF inv t2(1) e(2)]
      have "t_interval t \<noteq> 0" using \<open>0 < t_interval t\<close> by auto
      moreover have "k (r2, u2) = Some (timer_list_insert (t2\<lparr>t_expires := e\<rparr>) (r2\<lparr>rx_popped := None\<rparr>), u2)"
        using True \<open>t2 = t\<close> False e t2(1) by (simp add: k_def)
      ultimately show ?thesis using pb by auto
    next
      case False
      note fp = free_popped [OF inv t2(1)]
      have kk: "k (r2, u2) = Some (r2\<lparr>rx_popped := None\<rparr>, u2)"
        using False t2(1) by (auto simp: k_def)
      have "t_interval t \<noteq> 0 \<Longrightarrow> armed r2 (t_id t) = None"
      proof -
        assume "t_interval t \<noteq> 0"
        then have "t2 = kill_timer t"
          using False t2 same st(5) by (auto simp: word_gt_0)
        then show ?thesis
          using t2(1) by (simp add: armed_def find_timer_def all_timers_def)
      qed
      then have "(armed r2)(t_id t := None) = (if t_interval t = 0 then (armed r2)(t_id t := None) else armed r2)"
        by auto
      then show ?thesis using fp kk same by auto
    qed
  qed
  show ?thesis
  proof (cases "t_callback t")
    case None
    have pn: "popped_next (Some t) (rx_popped ?r1)" by (simp add: popped_next_def)
    obtain r' where r': "k (?r1, u) = Some (r', u)" "loop_inv now r'" "rx_popped r' = None"
        "due now r' = due now ?r1" "\<forall>h. dead ?r1 h \<longrightarrow> dead r' h"
        "armed r' = (if t_interval t = 0 then (armed ?r1)(t_id t := None) else armed ?r1)"
      using fin [OF st(1) pn] by blast
    have "armed r (t_id t) = Some (None, t_userdata t, t_interval t)"
      using st(6) None assms(1-3) armed_iff [of r "t_id t"] by (auto simp: loop_inv_def)
    then have "J (armed r') u" using r'(6) st(2) assms(5) no_callback by auto
    moreover have "card (due now r') < card (due now r)"
      using st(4) [OF assms(4)] r'(4) by simp
    ultimately show ?thesis
      using r' None head st(3) by auto
  next
    case (Some f)
    have "J (armed ?s1) u" using assms(5) by (simp only: ss(2))
    then obtain r2 u2 where cb2: "cb f (t_id t) (t_userdata t) (?s1, u) = Some (r2, u2)"
        "(client_step now)\<^sup>*\<^sup>* ?s1 r2"
        "J (if t_interval t = 0 then (armed r2)(t_id t := None) else armed r2) u2"
      using callback [OF ss(1) s1(2) ss(5) Some] by blast
    note c2 = client_steps_inv [OF cb2(2) ss(1)]
    have pn: "popped_next (Some t) (rx_popped r2)" using c2 s1(2) by simp
    obtain r' where r': "k (r2, u2) = Some (r', u2)" "loop_inv now r'" "rx_popped r' = None"
        "due now r' = due now r2" "\<forall>h. dead r2 h \<longrightarrow> dead r' h"
        "armed r' = (if t_interval t = 0 then (armed r2)(t_id t := None) else armed r2)"
      using fin [OF _ pn] c2 by blast
    have "card (due now r') \<le> card (due now ?s1)"
      using c2 r'(4) by (auto intro: card_mono)
    then have "card (due now r') < card (due now r)"
      using ss(4) [OF assms(4)] by simp
    moreover have "dead r' h" if "dead r h" for h
      using that c2 ss(3) r'(5) by auto
    moreover have "J (armed r') u2" using cb2(3) r'(6) by simp
    ultimately show ?thesis
      using r'(1-3) head Some cb2(1) not_dead by auto
  qed
qed

lemma process_loop_total:
  assumes "loop_inv now r" "rx_popped r = None" "J (armed r) u"
  shows "\<exists>r' u'. process_loop cb now (r, u) = Some (r', u')
     \<and> loop_inv now r' \<and> rx_popped r' = None \<and> J (armed r') u'
     \<and> (\<forall>t\<in>set (rx_timers r'). now < t_expires t)
     \<and> (\<forall>h. dead r h \<longrightarrow> dead r' h \<and>
          process_loop (\<lambda>f i. if i = h then (\<lambda>_ _. None) else cb f i) now (r, u) = Some (r', u'))"
  using assms
proof (induction "(r, u)" arbitrary: r u
    rule: wf_induct_rule [OF wf_measures, of "[\<lambda>w. card (due now (fst w)), \<lambda>w. length (rx_timers (fst w))]"])
  case 1
  show ?case
  proof (cases "rx_timers r")
    case Nil
    then show ?thesis using 1(2-4) by (auto simp: process_loop.simps)
  next
    case (Cons t ts)
    show ?thesis
    proof (cases "t_expires t \<le> now")
      case True
      obtain r1 u1 where head: "process_head cb now t (r, u) = Some (r1, u1)" "loop_inv now r1"
          "rx_popped r1 = None" "J (armed r1) u1"
        and less: "card (due now r1) < card (due now r)
          \<or> card (due now r1) = card (due now r) \<and> length (rx_timers r1) < length (rx_timers r)"
        and dead1: "\<forall>h. dead r h \<longrightarrow> dead r1 h \<and>
          process_head (\<lambda>f i. if i = h then (\<lambda>_ _. None) else cb f i) now t (r, u) = Some (r1, u1)"
        using process_head_total [OF 1(2,3) Cons True 1(4)] by blast
      have "((r1, u1), (r, u)) \<in> measures [\<lambda>w. card (due now (fst w)), \<lambda>w. length (rx_timers (fst w))]"
        using less by auto
      from 1(1) [OF this head(2-4)] obtain r' u' where
        IH: "process_loop cb now (r1, u1) = Some (r', u')" "loop_inv now r'" "rx_popped r' = None"
          "J (armed r') u'" "\<forall>t\<in>set (rx_timers r'). now < t_expires t"
          "\<forall>h. dead r1 h \<longrightarrow> dead r' h \<and>
            process_loop (\<lambda>f i. if i = h then (\<lambda>_ _. None) else cb f i) now (r1, u1) = Some (r', u')"
        by blast
      have step: "process_loop c now (r, u) = Option.bind (process_head c now t (r, u)) (process_loop c now)"
        for c :: "fn \<Rightarrow> nat \<Rightarrow> data_ptr option \<Rightarrow> 'u world \<Rightarrow> 'u world option"
        using Cons True by (subst process_loop.simps) simp
      show ?thesis
        using IH dead1 head(1) by (intro exI [of _ r'] exI [of _ u']) (auto simp: step)
    next
      case False
      have "now < x" if "x \<in> t_expires ` set (rx_timers r)" for x
        using that 1(2) Cons False
        by (auto simp: loop_inv_def rx_timers_wf_def not_le)
      then show ?thesis
        using 1(2-4) Cons False by (auto simp: process_loop.simps)
    qed
  qed
qed

lemma process_expired_total:
  assumes "loop_inv now r" "rx_popped r = None" "J (armed r) u"
  shows "\<exists>r' u'. process_expired_timers cb now (r, u) = Some (r', u')
     \<and> loop_inv now r' \<and> rx_popped r' = None \<and> J (armed r') u'
     \<and> (\<forall>t\<in>set (rx_timers r'). now < t_expires t)
     \<and> (\<forall>h. dead r h \<longrightarrow> dead r' h \<and>
          process_expired_timers (\<lambda>f i. if i = h then (\<lambda>_ _. None) else cb f i) now (r, u) = Some (r', u'))"
proof -
  let ?r = "r\<lparr>rx_current_time := now\<rparr>"
  have all: "all_timers ?r = all_timers r" by (simp add: all_timers_def)
  have "loop_inv now ?r" using assms(1) by (simp add: loop_inv_def rx_timers_wf_def all)
  moreover have "armed ?r = armed r" "dead ?r = dead r"
    by (auto intro: armed_cong [OF all] dead_cong [OF all])
  ultimately show ?thesis
    using process_loop_total [of ?r u] assms by (auto simp: process_expired_timers_def)
qed

end

subsection \<open>The order of firing\<close>

text \<open>A client that only notes which handle it was called for.\<close>

definition note_cb :: "fn \<Rightarrow> nat \<Rightarrow> data_ptr option \<Rightarrow> nat list world \<Rightarrow> nat list world option" where
  "note_cb f h ud w = Some (fst w, snd w @ [h])"

definition is_due :: "u64 \<Rightarrow> reactor_timer_internal_t \<Rightarrow> bool" where
  "is_due now t \<longleftrightarrow> t_expires t \<le> now"

definition fires :: "reactor_timer_internal_t \<Rightarrow> bool" where
  "fires t \<longleftrightarrow> t_active t \<and> t_callback t \<noteq> None"

text \<open>The state a due timer leaves behind: nothing, or itself at the next point of its grid.\<close>

definition next_shot :: "u64 \<Rightarrow> reactor_timer_internal_t \<Rightarrow> reactor_timer_internal_t \<Rightarrow> bool" where
  "next_shot now t t' \<longleftrightarrow> t_active t \<and> 0 < t_interval t \<and>
     (\<exists>k e. 0 < k \<and> t' = t\<lparr>t_expires := e\<rparr> \<and> uint now < uint e
        \<and> e = t_expires t + of_nat k * t_interval t \<and> uint e \<le> uint now + uint (t_interval t))"

lemma takeWhile_insert_later:
  "now < t_expires t \<Longrightarrow> takeWhile (is_due now) (timer_insert t ts) = takeWhile (is_due now) ts"
  by (induction ts) (auto simp: is_due_def dest: leD)

lemma due_prefix_sorted:
  "sorted (map t_expires ts) \<Longrightarrow> set (takeWhile (is_due now) ts) = {t \<in> set ts. is_due now t}"
proof (induction ts)
  case (Cons t ts)
  then have "is_due now x \<Longrightarrow> x \<in> set ts \<Longrightarrow> is_due now t" for x
    by (auto simp: is_due_def)
  with Cons show ?case by auto
qed simp

lemma sorted_map_takeWhile: "sorted (map f xs) \<Longrightarrow> sorted (map f (takeWhile P xs))"
  by (metis map_append sorted_append takeWhile_dropWhile_id)

lemma distinct_map_takeWhile: "distinct (map f xs) \<Longrightarrow> distinct (map f (takeWhile P xs))"
  by (metis distinct_append map_append takeWhile_dropWhile_id)

lemma note_head:
  assumes "loop_inv now r" "rx_popped r = None" "rx_timers r = t # ts" "is_due now t"
  shows "\<exists>r'. process_head note_cb now t (r, u) = Some (r', u @ (if fires t then [t_id t] else []))
     \<and> loop_inv now r' \<and> rx_popped r' = None
     \<and> (rx_timers r' = ts \<and> \<not> (t_active t \<and> 0 < t_interval t)
        \<or> (\<exists>t'. rx_timers r' = timer_insert t' ts \<and> now < t_expires t' \<and> next_shot now t t'))"
proof (cases "t_pending_delete t")
  case True
  moreover have "\<not> t_active t"
    using assms(1-3) True by (auto simp: loop_inv_def rx_timers_wf_def timer_ok_def)
  ultimately show ?thesis
    using drop_pending [OF assms(1-3) True] pop_head [OF assms(1-3)]
    by (auto simp: process_head_def fires_def next_shot_def)
next
  case False
  let ?r1 = "(timer_list_remove (t_id t) r)\<lparr>rx_popped := Some t\<rparr>"
  let ?s1 = "(if t_callback t = None then ?r1 else
     ?r1\<lparr>rx_stats := (rx_stats ?r1)\<lparr>timers_fired := timers_fired (rx_stats ?r1) + 1\<rparr>\<rparr>)"
  note pop = pop_head [OF assms(1-3)]
  have s1: "rx_timers ?s1 = ts" "rx_popped ?s1 = Some t" "rx_next_id ?s1 = rx_next_id r"
      "rx_timer_count ?s1 = length ts" using pop by simp_all
  note st = popped_state [OF assms(1-3) False s1]
  have head: "process_head note_cb now t (r, u) =
      (if 0 < t_interval t then
         Option.bind (rearm now (t_interval t) (t_expires t + t_interval t))
           (\<lambda>e. Some (timer_list_insert (t\<lparr>t_expires := e\<rparr>) (?s1\<lparr>rx_popped := None\<rparr>),
                       u @ (if fires t then [t_id t] else [])))
       else Some (?s1\<lparr>rx_popped := None\<rparr>, u @ (if fires t then [t_id t] else [])))"
    using False st(5,6)
    by (cases "t_callback t") (auto simp: process_head_def note_cb_def Let_def fires_def)
  show ?thesis
  proof (cases "0 < t_interval t")
    case True
    have si: "small_interval now (t_interval t)"
      using assms(1-3) by (auto simp: loop_inv_def)
    have due: "uint (t_expires t) \<le> uint now"
      using assms(4) by (simp add: is_due_def word_le_def)
    then have sum: "uint (t_expires t + t_interval t) = uint (t_expires t) + uint (t_interval t)"
      using si by (simp add: small_interval_def uint_word_ariths)
    obtain k e where e: "rearm now (t_interval t) (t_expires t + t_interval t) = Some e" "now < e"
        "e = t_expires t + t_interval t + of_nat k * t_interval t"
        "uint e = uint (t_expires t + t_interval t) + int k * uint (t_interval t)"
        "0 < k \<longrightarrow> uint e \<le> uint now + uint (t_interval t)"
      using rearm_returns [OF True, of now "t_expires t + t_interval t"] si
      by (auto simp: small_interval_def)
    have "uint e \<le> uint now + uint (t_interval t)"
      using e(4,5) sum due by (cases k) auto
    moreover have "e = t_expires t + of_nat (Suc k) * t_interval t"
      using e(3) by (simp add: algebra_simps)
    ultimately have ns: "next_shot now t (t\<lparr>t_expires := e\<rparr>)"
      using True st(5) e(2) unfolding next_shot_def word_less_def by blast
    note pb = put_back [OF st(1) s1(2) e(2)]
    have "rx_timers (timer_list_insert (t\<lparr>t_expires := e\<rparr>) (?s1\<lparr>rx_popped := None\<rparr>)) =
        timer_insert (t\<lparr>t_expires := e\<rparr>) ts"
      using s1(1) by (simp add: timer_list_insert_def)
    then show ?thesis
      using head True e(1,2) pb(1,2) ns
      by (intro exI [of _ "timer_list_insert (t\<lparr>t_expires := e\<rparr>) (?s1\<lparr>rx_popped := None\<rparr>)"] conjI)
         (auto simp del: split_paired_Ex)
  next
    case False
    note fp = free_popped [OF st(1) s1(2)]
    show ?thesis
      using head False fp(1) s1(1)
      by (intro exI [of _ "?s1\<lparr>rx_popped := None\<rparr>"] conjI) auto
  qed
qed

text \<open>What a pass leaves: the timers that were not due, and the due periodic ones rearmed.\<close>

definition pass_result :: "u64 \<Rightarrow> reactor_timer_internal_t set \<Rightarrow> reactor_timer_internal_t set \<Rightarrow> bool" where
  "pass_result now ts ts' \<longleftrightarrow>
     (\<forall>t'\<in>ts'. t' \<in> ts \<and> \<not> is_due now t' \<or> (\<exists>t\<in>ts. is_due now t \<and> next_shot now t t'))
     \<and> (\<forall>t\<in>ts. if is_due now t then t_active t \<and> 0 < t_interval t \<longrightarrow> (\<exists>t'\<in>ts'. next_shot now t t')
                else t \<in> ts')"

lemma note_loop:
  assumes "loop_inv now r" "rx_popped r = None"
  shows "\<exists>r'. process_loop note_cb now (r, u) =
        Some (r', u @ map t_id (filter fires (takeWhile (is_due now) (rx_timers r))))
     \<and> loop_inv now r' \<and> rx_popped r' = None
     \<and> pass_result now (set (rx_timers r)) (set (rx_timers r'))"
  using assms
proof (induction "length (takeWhile (is_due now) (rx_timers r))" arbitrary: r u)
  case 0
  have none: "\<forall>t\<in>set (rx_timers r). \<not> is_due now t"
    using due_prefix_sorted [of "rx_timers r" now] 0
    by (auto simp: loop_inv_def rx_timers_wf_def simp del: takeWhile_eq_Nil_iff)
  then have "process_loop note_cb now (r, u) = Some (r, u)"
    by (subst process_loop.simps) (auto simp: is_due_def split: list.splits)
  with 0 none show ?case by (auto simp: pass_result_def)
next
  case (Suc n)
  then obtain t ts where ts: "rx_timers r = t # ts" and due: "is_due now t"
      and n: "n = length (takeWhile (is_due now) ts)"
    by (cases "rx_timers r") (auto split: if_splits)
  let ?u = "u @ (if fires t then [t_id t] else [])"
  obtain r1 where r1: "process_head note_cb now t (r, u) = Some (r1, ?u)" "loop_inv now r1"
      "rx_popped r1 = None" and shape: "rx_timers r1 = ts \<and> \<not> (t_active t \<and> 0 < t_interval t)
        \<or> (\<exists>t'. rx_timers r1 = timer_insert t' ts \<and> now < t_expires t' \<and> next_shot now t t')"
    using note_head [OF Suc.prems ts due, of u] by blast
  have pre: "takeWhile (is_due now) (rx_timers r1) = takeWhile (is_due now) ts"
    using shape by (auto simp: takeWhile_insert_later)
  then obtain r' where IH: "process_loop note_cb now (r1, ?u) =
        Some (r', ?u @ map t_id (filter fires (takeWhile (is_due now) ts)))"
      "loop_inv now r'" "rx_popped r' = None" "pass_result now (set (rx_timers r1)) (set (rx_timers r'))"
    using Suc.hyps(1) [of r1 ?u] n r1(2,3) by auto
  have step: "process_loop note_cb now (r, u) = process_loop note_cb now (r1, ?u)"
    using ts due r1(1) by (subst process_loop.simps) (simp add: is_due_def)
  have "pass_result now (set (rx_timers r)) (set (rx_timers r'))"
    using shape
  proof
    assume "rx_timers r1 = ts \<and> \<not> (t_active t \<and> 0 < t_interval t)"
    then show ?thesis using IH(4) ts due by (auto simp: pass_result_def)
  next
    assume "\<exists>t'. rx_timers r1 = timer_insert t' ts \<and> now < t_expires t' \<and> next_shot now t t'"
    then obtain t' where t': "rx_timers r1 = timer_insert t' ts" "\<not> is_due now t'" "next_shot now t t'"
      by (auto simp: is_due_def dest: leD)
    then have "t' \<in> set (rx_timers r')" using IH(4) by (auto simp: pass_result_def)
    with t' IH(4) ts due show ?thesis unfolding pass_result_def by auto
  qed
  then show ?case
    using IH(1-3) step ts due by (intro exI [of _ r']) auto
qed

text \<open>C2: one pass over the timers, for a client that does not touch the reactor, returns; it
  calls every active due timer exactly once, in the order of the list (deadlines in order,
  ties in the order of registration), never a cancelled one; afterwards the timers that
  were not due are untouched, every due periodic timer is rearmed to the first point of its
  own grid after \<open>now\<close> (no drift) and the other due timers are gone.\<close>

theorem timers_fire_once_in_order:
  assumes "rx_timers_wf r" "rx_popped r = None"
    and "\<forall>t\<in>set (rx_timers r). uint now + uint (t_interval t) < 2 ^ 64"
  shows "\<exists>r'. process_expired_timers note_cb now (r, []) =
        Some (r', map t_id (filter fires (takeWhile (is_due now) (rx_timers r))))
     \<and> rx_timers_wf r' \<and> pass_result now (set (rx_timers r)) (set (rx_timers r'))
     \<and> distinct (map t_id (filter fires (takeWhile (is_due now) (rx_timers r))))
     \<and> sorted (map t_expires (takeWhile (is_due now) (rx_timers r)))
     \<and> set (takeWhile (is_due now) (rx_timers r)) = {t \<in> set (rx_timers r). t_expires t \<le> now}"
proof -
  let ?r = "r\<lparr>rx_current_time := now\<rparr>"
  have "all_timers ?r = all_timers r" by (simp add: all_timers_def)
  then have "loop_inv now ?r"
    using assms by (simp add: loop_inv_def rx_timers_wf_def small_interval_def)
  from note_loop [OF this, of "[]"] assms(2) obtain r' where
    "process_expired_timers note_cb now (r, []) =
        Some (r', map t_id (filter fires (takeWhile (is_due now) (rx_timers r))))"
    "loop_inv now r'" "pass_result now (set (rx_timers r)) (set (rx_timers r'))"
    by (auto simp: process_expired_timers_def)
  moreover have "sorted (map t_expires (rx_timers r))" "distinct (map t_id (rx_timers r))"
    using assms(1,2) by (auto simp: rx_timers_wf_def)
  then have "sorted (map t_expires (takeWhile (is_due now) (rx_timers r)))"
      "set (takeWhile (is_due now) (rx_timers r)) = {t \<in> set (rx_timers r). t_expires t \<le> now}"
      "distinct (map t_id (filter fires (takeWhile (is_due now) (rx_timers r))))"
    using due_prefix_sorted [of "rx_timers r" now]
    by (auto simp: is_due_def distinct_map_filter sorted_map_takeWhile distinct_map_takeWhile)
  ultimately show ?thesis by (auto simp: loop_inv_def)
qed

theorem timers_fire_once_in_order_witness:
  "\<exists>r h0 h1. reactor_add_timer (True, True) 0 20 0 (Some (Fn_other 0)) None reactor_zero = (Some h0, r)
     \<and> (\<exists>r'. process_expired_timers note_cb 50
          (snd (reactor_add_timer (True, True) 0 10 10 (Some (Fn_other 1)) None r), []) = Some (r', [h1, h0]))"
proof -
  define r where "r = snd (reactor_add_timer (True, True) 0 20 0 (Some (Fn_other 0)) None reactor_zero)"
  define r2 where "r2 = snd (reactor_add_timer (True, True) 0 10 10 (Some (Fn_other 1)) None r)"
  have a1: "reactor_add_timer (True, True) 0 20 0 (Some (Fn_other 0)) None reactor_zero = (Some 0, r)"
    by (simp add: r_def reactor_add_timer_def Let_def reactor_zero_def)
  have a2: "reactor_add_timer (True, True) 0 10 10 (Some (Fn_other 1)) None r = (Some 1, r2)"
    by (simp add: r2_def r_def reactor_add_timer_def Let_def reactor_zero_def timer_list_insert_def)
  have "rx_timers_wf reactor_zero" by (simp add: rx_timers_wf_def reactor_zero_def all_timers_def)
  then have wf: "rx_timers_wf r2" using a1 a2 by (metis add_timer_wf)
  have tim: "map t_id (filter fires (takeWhile (is_due 50) (rx_timers r2))) = [1, 0]"
      "\<forall>t\<in>set (rx_timers r2). uint (50::u64) + uint (t_interval t) < 2 ^ 64" "rx_popped r2 = None"
    by (simp_all add: r2_def r_def reactor_add_timer_def Let_def reactor_zero_def
        timer_list_insert_def is_due_def fires_def)
  from timers_fire_once_in_order [OF wf tim(3,2)] show ?thesis
    using a1 a2 tim(1) by (intro exI [of _ r] exI [of _ 0] exI [of _ 1]) auto
qed

subsection \<open>Leaving the loop\<close>













end
