(* ===== verification/Splice.thy ===== *)
theory Splice
  imports Atpd_Prelude
begin

text \<open>
  The zero-copy pump of \<open>src/splice.c\<close>.  The kernel side is three byte queues:
  what can be read from \<open>fd_in\<close>, what is in the pipe, what was written to
  \<open>fd_out\<close>.  The kernel answers each \<open>splice\<close> call: it moves some of the bytes
  asked for and available, or fails with an error number.  The answers are a list;
  a call that has consumed all of them still waits for the kernel and has the value
  \<open>None\<close>.  The state pointer is not NULL; \<open>size_t\<close> quantities are naturals (the
  subtractions never go below zero, see \<open>out_loop_bounds\<close>), the two byte counters
  are 64-bit words.
\<close>

definition ATPD_SPLICE_PIPE_SIZE :: nat where "ATPD_SPLICE_PIPE_SIZE = 64 * 1024"
definition ATPD_SPLICE_DEFAULT_CHUNK :: nat where "ATPD_SPLICE_DEFAULT_CHUNK = 64 * 1024"
definition ATPD_SPLICE_MAX_PER_EVENT :: nat where "ATPD_SPLICE_MAX_PER_EVENT = 4 * 1024 * 1024"
definition ATPD_SPLICE_OK :: int where "ATPD_SPLICE_OK = 0"
definition ATPD_SPLICE_EOF :: int where "ATPD_SPLICE_EOF = -1"
definition ATPD_SPLICE_EAGAIN :: int where "ATPD_SPLICE_EAGAIN = -2"
definition ATPD_SPLICE_NOTSUP :: int where "ATPD_SPLICE_NOTSUP = -3"
definition ATPD_SPLICE_ERROR :: int where "ATPD_SPLICE_ERROR = -4"

record splice_state_t =
  sp_pipe0 :: fd
  sp_pipe1 :: fd
  sp_pending :: nat
  sp_capacity :: nat
  sp_bytes_in :: u64
  sp_bytes_out :: u64
  sp_initialized :: bool

record splice_kernel =
  k_src :: "8 word list"
  k_pipe :: "8 word list"
  k_dst :: "8 word list"

datatype sp_answer = SpMoved nat | SpFail errno

text \<open>Answers of \<open>pipe2\<close> (the two fds, or a failure) and of the two \<open>fcntl\<close> calls.\<close>

definition atpd_splice_state_init ::
  "(fd \<times> fd) option \<Rightarrow> int \<Rightarrow> int \<Rightarrow> splice_state_t \<Rightarrow> int \<times> splice_state_t" where
  "atpd_splice_state_init pipe2 setpipe_sz getpipe_sz st =
     (let s0 = \<lparr>sp_pipe0 = -1, sp_pipe1 = -1, sp_pending = 0, sp_capacity = 0, sp_bytes_in = 0,
                sp_bytes_out = 0, sp_initialized = False\<rparr>
      in case pipe2 of
           None \<Rightarrow> (-1, s0)
         | Some (p0, p1) \<Rightarrow>
             (let requested = int ATPD_SPLICE_PIPE_SIZE;
                  actual = (if setpipe_sz < 0 then (if getpipe_sz < 0 then requested else getpipe_sz)
                            else setpipe_sz)
              in (0, s0\<lparr>sp_pipe0 := p0, sp_pipe1 := p1, sp_capacity := nat actual,
                        sp_initialized := True\<rparr>)))"

text \<open>The second component lists the fds closed.\<close>

definition atpd_splice_state_cleanup :: "splice_state_t \<Rightarrow> splice_state_t \<times> fd list" where
  "atpd_splice_state_cleanup st =
     (st\<lparr>sp_pipe0 := (if 0 \<le> sp_pipe0 st then -1 else sp_pipe0 st),
         sp_pipe1 := (if 0 \<le> sp_pipe1 st then -1 else sp_pipe1 st),
         sp_pending := 0, sp_capacity := 0, sp_initialized := False, sp_bytes_in := 0,
         sp_bytes_out := 0\<rparr>,
      filter (\<lambda>fd. 0 \<le> fd) [sp_pipe0 st, sp_pipe1 st])"

definition atpd_splice_pipe_init :: "(fd \<times> fd) option \<Rightarrow> fd \<times> fd \<Rightarrow> int \<times> (fd \<times> fd)" where
  "atpd_splice_pipe_init pipe2 fds = (case pipe2 of None \<Rightarrow> (-1, fds) | Some p \<Rightarrow> (0, p))"

definition atpd_splice_pipe_cleanup :: "fd \<times> fd \<Rightarrow> (fd \<times> fd) \<times> fd list" where
  "atpd_splice_pipe_cleanup fds =
     ((if 0 \<le> fst fds then -1 else fst fds, if 0 \<le> snd fds then -1 else snd fds),
      filter (\<lambda>fd. 0 \<le> fd) [fst fds, snd fds])"

subsection \<open>The pump\<close>

definition move_out :: "nat \<Rightarrow> splice_kernel \<Rightarrow> splice_kernel" where
  "move_out n k = k\<lparr>k_pipe := drop n (k_pipe k), k_dst := k_dst k @ take n (k_pipe k)\<rparr>"

definition move_in :: "nat \<Rightarrow> splice_kernel \<Rightarrow> splice_kernel" where
  "move_in n k = k\<lparr>k_src := drop n (k_src k), k_pipe := k_pipe k @ take n (k_src k)\<rparr>"

datatype loop_end = LoopDone | LoopFail errno | LoopZero

text \<open>The \<open>while\<close> loop that writes \<open>goal\<close> bytes from the pipe to \<open>fd_out\<close>, used by phases 1 and
  3: why it ended, how many bytes left the pipe, the kernel's state, the answers left.\<close>

fun out_loop :: "sp_answer list \<Rightarrow> nat \<Rightarrow> nat \<Rightarrow> splice_kernel
    \<Rightarrow> (loop_end \<times> nat \<times> splice_kernel \<times> sp_answer list) option" where
  "out_loop ans goal n k =
     (if goal \<le> n then Some (LoopDone, n, k, ans)
      else case ans of
        [] \<Rightarrow> None
      | SpFail e # rest \<Rightarrow>
          (if e = EINTR then out_loop rest goal n k else Some (LoopFail e, n, k, rest))
      | SpMoved m # rest \<Rightarrow>
          (let moved = min m (min (goal - n) (length (k_pipe k))) in
           if moved = 0 then Some (LoopZero, n, k, rest)
           else out_loop rest goal (n + moved) (move_out moved k)))"

declare out_loop.simps [simp del]

text \<open>The \<open>do ... while\<close> loop that reads into the pipe.\<close>

fun in_loop :: "sp_answer list \<Rightarrow> nat \<Rightarrow> splice_kernel
    \<Rightarrow> ((errno + nat) \<times> splice_kernel \<times> sp_answer list) option" where
  "in_loop [] chunk k = None"
| "in_loop (SpFail e # rest) chunk k =
     (if e = EINTR then in_loop rest chunk k else Some (Inl e, k, rest))"
| "in_loop (SpMoved m # rest) chunk k =
     (let moved = min m (min chunk (length (k_src k))) in Some (Inr moved, move_in moved k, rest))"

definition account_out :: "nat \<Rightarrow> splice_state_t \<Rightarrow> splice_state_t" where
  "account_out n st = st\<lparr>sp_pending := sp_pending st - n, sp_bytes_out := sp_bytes_out st + of_nat n\<rparr>"

text \<open>The early returns of the two write loops: \<open>before\<close> is what was forwarded before the loop
  (nothing in phase 1).\<close>

definition write_abort :: "loop_end \<Rightarrow> nat \<Rightarrow> nat \<Rightarrow> splice_state_t \<Rightarrow> int \<times> splice_state_t" where
  "write_abort why n before st =
     (case why of
        LoopFail e \<Rightarrow>
          (if e = EAGAIN then
             (if 0 < n then (int (before + n), account_out n st) else (ATPD_SPLICE_EAGAIN, st))
           else if e = EPIPE \<or> e = ECONNRESET then
             (if 0 < n then (int (before + n), account_out n st) else (ATPD_SPLICE_EOF, st))
           else if e = EINVAL \<or> e = ENOSYS \<or> e = ESPIPE then (ATPD_SPLICE_NOTSUP, st)
           else (ATPD_SPLICE_ERROR, st))
      | _ \<Rightarrow> (if 0 < n then (int (before + n), account_out n st) else (ATPD_SPLICE_EOF, st)))"

type_synonym pump_result = "(int \<times> splice_state_t \<times> splice_kernel \<times> sp_answer list) option"

definition positive_or :: "nat \<Rightarrow> int \<Rightarrow> int" where
  "positive_or fwd code = (if 0 < fwd then int fwd else code)"

definition final_return :: "nat \<Rightarrow> nat \<Rightarrow> int" where
  "final_return max_len fwd =
     (if max_len \<noteq> 0 \<and> max_len \<le> fwd then int fwd else positive_or fwd ATPD_SPLICE_OK)"

definition splice_phase3 :: "nat \<Rightarrow> nat \<Rightarrow> nat \<Rightarrow> splice_state_t \<Rightarrow> splice_kernel \<Rightarrow> sp_answer list
    \<Rightarrow> pump_result" where
  "splice_phase3 max_len limit fwd st k ans =
     (if 0 < sp_pending st then
        (case out_loop ans (min (sp_pending st) limit) 0 k of
           None \<Rightarrow> None
         | Some (LoopDone, n, k1, ans1) \<Rightarrow>
             Some (final_return max_len (fwd + n), account_out n st, k1, ans1)
         | Some (why, n, k1, ans1) \<Rightarrow>
             (case write_abort why n fwd st of (rc, st1) \<Rightarrow> Some (rc, st1, k1, ans1)))
      else Some (final_return max_len fwd, st, k, ans))"

definition splice_phase2 :: "nat \<Rightarrow> nat \<Rightarrow> nat \<Rightarrow> splice_state_t \<Rightarrow> splice_kernel \<Rightarrow> sp_answer list
    \<Rightarrow> pump_result" where
  "splice_phase2 max_len limit fwd st k ans =
     (if sp_pending st = 0 \<and> 0 < limit then
        (let chunk = min (min ATPD_SPLICE_DEFAULT_CHUNK limit) (sp_capacity st) in
         case in_loop ans chunk k of
           None \<Rightarrow> None
         | Some (Inl e, k1, ans1) \<Rightarrow>
             Some (if e = EAGAIN then positive_or fwd ATPD_SPLICE_EAGAIN
                   else if e = EINVAL \<or> e = ENOSYS \<or> e = ESPIPE then ATPD_SPLICE_NOTSUP
                   else if e = EPIPE \<or> e = ECONNRESET then positive_or fwd ATPD_SPLICE_EOF
                   else ATPD_SPLICE_ERROR, st, k1, ans1)
         | Some (Inr n, k1, ans1) \<Rightarrow>
             (if n = 0 then Some (positive_or fwd ATPD_SPLICE_EOF, st, k1, ans1)
              else splice_phase3 max_len limit fwd
                     (st\<lparr>sp_pending := sp_pending st + n, sp_bytes_in := sp_bytes_in st + of_nat n\<rparr>)
                     k1 ans1))
      else splice_phase3 max_len limit fwd st k ans)"

definition atpd_bridge_splice_stateful ::
  "fd \<Rightarrow> fd \<Rightarrow> nat \<Rightarrow> splice_state_t \<Rightarrow> splice_kernel \<Rightarrow> sp_answer list \<Rightarrow> pump_result" where
  "atpd_bridge_splice_stateful fd_in fd_out max_len st k ans =
     (if \<not> sp_initialized st \<or> fd_in < 0 \<or> fd_out < 0 then Some (ATPD_SPLICE_ERROR, st, k, ans)
      else
        (let limit = min (if max_len \<noteq> 0 then max_len else SIZE_MAX) ATPD_SPLICE_MAX_PER_EVENT in
         if 0 < sp_pending st then
           (case out_loop ans (min (sp_pending st) limit) 0 k of
              None \<Rightarrow> None
            | Some (LoopDone, n, k1, ans1) \<Rightarrow>
                (let st1 = account_out n st;
                     limit1 = min (if max_len \<noteq> 0 then (if n < max_len then max_len - n else 0) else limit)
                                ATPD_SPLICE_MAX_PER_EVENT
                 in if max_len \<noteq> 0 \<and> max_len \<le> n then Some (int n, st1, k1, ans1)
                    else if 0 < sp_pending st1 then Some (int n, st1, k1, ans1)
                    else splice_phase2 max_len limit1 n st1 k1 ans1)
            | Some (why, n, k1, ans1) \<Rightarrow>
                (case write_abort why n 0 st of (rc, st1) \<Rightarrow> Some (rc, st1, k1, ans1)))
         else splice_phase2 max_len limit 0 st k ans))"

text \<open>The deprecated entry point: a fresh state around the caller's pipe on every call.\<close>

definition atpd_bridge_splice ::
  "fd \<Rightarrow> fd \<Rightarrow> fd \<times> fd \<Rightarrow> nat \<Rightarrow> splice_kernel \<Rightarrow> sp_answer list \<Rightarrow> pump_result" where
  "atpd_bridge_splice fd_in fd_out fds max_len k ans =
     (let st = \<lparr>sp_pipe0 = fst fds, sp_pipe1 = snd fds, sp_pending = 0,
                sp_capacity = ATPD_SPLICE_PIPE_SIZE, sp_bytes_in = 0, sp_bytes_out = 0,
                sp_initialized = True\<rparr>
      in if fd_in < 0 \<or> fd_out < 0 then Some (ATPD_SPLICE_ERROR, st, k, ans)
         else atpd_bridge_splice_stateful fd_in fd_out max_len st k ans)"

subsection \<open>Flow of the bytes\<close>

text \<open>The byte stream, and the accounting the debug build asserts at the start of a call.\<close>

definition stream :: "splice_kernel \<Rightarrow> 8 word list" where
  "stream k = k_dst k @ k_pipe k @ k_src k"

definition splice_inv :: "splice_state_t \<Rightarrow> splice_kernel \<Rightarrow> bool" where
  "splice_inv st k \<longleftrightarrow> sp_pending st = length (k_pipe k) \<and> sp_pending st \<le> sp_capacity st
     \<and> sp_bytes_in st = sp_bytes_out st + of_nat (sp_pending st)"

lemma stream_move [simp]: "stream (move_out n k) = stream k"
  "k_pipe k = [] \<Longrightarrow> stream (move_in n k) = stream k"
  by (simp_all add: stream_def move_out_def move_in_def)

lemma move_out_lengths [simp]:
  "length (k_pipe (move_out n k)) = length (k_pipe k) - n"
  "n \<le> length (k_pipe k) \<Longrightarrow> length (k_dst (move_out n k)) = length (k_dst k) + n"
  by (simp_all add: move_out_def)

lemma out_loop_Nil [simp]: "out_loop [] goal n k = (if goal \<le> n then Some (LoopDone, n, k, []) else None)"
  by (subst out_loop.simps) simp

lemma out_loop_Fail [simp]:
  "out_loop (SpFail e # rest) goal n k =
     (if goal \<le> n then Some (LoopDone, n, k, SpFail e # rest)
      else if e = EINTR then out_loop rest goal n k else Some (LoopFail e, n, k, rest))"
  by (subst out_loop.simps) simp

lemma out_loop_Moved [simp]:
  "out_loop (SpMoved m # rest) goal n k =
     (if goal \<le> n then Some (LoopDone, n, k, SpMoved m # rest)
      else (let moved = min m (min (goal - n) (length (k_pipe k))) in
            if moved = 0 then Some (LoopZero, n, k, rest)
            else out_loop rest goal (n + moved) (move_out moved k)))"
  by (subst out_loop.simps) simp

text \<open>What a write loop does: it moves \<open>n' - n\<close> bytes of the pipe and stays within its goal.\<close>

lemma out_loop_bounds:
  "out_loop ans goal n k = Some (why, n', k', rest) \<Longrightarrow> n \<le> goal \<Longrightarrow> goal - n \<le> length (k_pipe k) \<Longrightarrow>
     n \<le> n' \<and> n' \<le> goal \<and> stream k' = stream k
     \<and> length (k_pipe k') + (n' - n) = length (k_pipe k)
     \<and> length (k_dst k') = length (k_dst k) + (n' - n)
     \<and> (why = LoopDone \<longrightarrow> n' = goal)"
proof (induction ans arbitrary: n k)
  case Nil
  then show ?case by (auto split: if_splits)
next
  case (Cons a ans)
  show ?case
  proof (cases a)
    case (SpFail e)
    show ?thesis
    proof (cases "\<not> goal \<le> n \<and> e = EINTR")
      case True
      then have "out_loop ans goal n k = Some (why, n', k', rest)"
        using Cons.prems(1) SpFail by simp
      from Cons.IH [OF this Cons.prems(2,3)] show ?thesis .
    next
      case False
      then show ?thesis using Cons.prems SpFail by (auto split: if_splits)
    qed
  next
    case (SpMoved m)
    define moved where "moved = min m (min (goal - n) (length (k_pipe k)))"
    show ?thesis
    proof (cases "goal \<le> n \<or> moved = 0")
      case True
      then show ?thesis
        using Cons.prems SpMoved by (auto simp: moved_def Let_def split: if_splits)
    next
      case False
      have rec: "out_loop ans goal (n + moved) (move_out moved k) = Some (why, n', k', rest)"
        using Cons.prems(1) False SpMoved by (simp add: Let_def flip: moved_def)
      have le: "n + moved \<le> goal" "moved \<le> length (k_pipe k)"
        using False by (auto simp: moved_def)
      have "goal - (n + moved) \<le> length (k_pipe (move_out moved k))"
        using Cons.prems(3) by (simp add: moved_def)
      with Cons.IH [OF rec le(1)] le show ?thesis by auto
    qed
  qed
qed

text \<open>Without interruptions a write loop ends after at most as many answers as bytes.\<close>

lemma out_loop_returns:
  "SpFail EINTR \<notin> set ans \<Longrightarrow> goal - n \<le> length ans \<Longrightarrow>
   \<exists>why n' k' rest. out_loop ans goal n k = Some (why, n', k', rest)
     \<and> length ans \<le> length rest + (goal - n) \<and> set rest \<subseteq> set ans"
proof (induction ans arbitrary: n k)
  case (Cons a ans)
  show ?case
  proof (cases a)
    case (SpFail e)
    then show ?thesis using Cons.prems by auto
  next
    case (SpMoved m)
    define moved where "moved = min m (min (goal - n) (length (k_pipe k)))"
    show ?thesis
    proof (cases "goal \<le> n \<or> moved = 0")
      case True
      then show ?thesis using SpMoved by (cases "goal \<le> n") (auto simp: Let_def simp flip: moved_def)
    next
      case False
      have "goal - (n + moved) \<le> length ans" using Cons.prems(2) False by auto
      then obtain why n' k' rest where
        "out_loop ans goal (n + moved) (move_out moved k) = Some (why, n', k', rest)"
        "length ans \<le> length rest + (goal - (n + moved))" "set rest \<subseteq> set ans"
        using Cons.IH Cons.prems(1) by fastforce
      then show ?thesis using SpMoved False by (auto simp: Let_def simp flip: moved_def)
    qed
  qed
qed auto

lemma in_loop_bounds:
  "in_loop ans chunk k = Some (res, k', rest) \<Longrightarrow>
     (case res of Inl e \<Rightarrow> k' = k \<and> e \<noteq> EINTR
      | Inr n \<Rightarrow> n \<le> chunk \<and> n \<le> length (k_src k) \<and> k' = move_in n k)"
  by (induction ans chunk k rule: in_loop.induct) (auto simp: Let_def split: if_splits)

lemma in_loop_returns:
  "SpFail EINTR \<notin> set ans \<Longrightarrow> 0 < length ans \<Longrightarrow>
   \<exists>res k' rest. in_loop ans chunk k = Some (res, k', rest) \<and> ans = hd ans # rest"
  by (cases ans; cases "hd ans") (auto simp: Let_def)

subsection \<open>The contract of the pump\<close>

text \<open>\<open>fwd\<close> bytes were forwarded before the part considered, which starts in \<open>st\<close>, \<open>k\<close>.\<close>

definition pump_post ::
  "nat \<Rightarrow> nat \<Rightarrow> splice_state_t \<Rightarrow> splice_kernel \<Rightarrow> int \<Rightarrow> splice_state_t \<Rightarrow> splice_kernel \<Rightarrow> bool" where
  "pump_post fwd limit st k rc st' k' \<longleftrightarrow>
     stream k' = stream k
     \<and> length (k_dst k) \<le> length (k_dst k') \<and> length (k_dst k') \<le> length (k_dst k) + limit
     \<and> sp_capacity st' = sp_capacity st
     \<and> (if rc = ATPD_SPLICE_NOTSUP \<or> rc = ATPD_SPLICE_ERROR then length (k_pipe k') \<le> sp_pending st'
        else splice_inv st' k')
     \<and> (0 < rc \<longrightarrow> rc = int fwd + int (length (k_dst k') - length (k_dst k)))
     \<and> (rc = 0 \<longrightarrow> fwd = 0 \<and> k_dst k' = k_dst k)"

lemmas splice_codes = ATPD_SPLICE_OK_def ATPD_SPLICE_EOF_def ATPD_SPLICE_EAGAIN_def
  ATPD_SPLICE_NOTSUP_def ATPD_SPLICE_ERROR_def

lemma account_out_inv:
  assumes "splice_inv st k" "n \<le> sp_pending st" "length (k_pipe k') + n = length (k_pipe k)"
  shows "splice_inv (account_out n st) k'"
proof -
  have "of_nat (sp_pending st) = (of_nat n + of_nat (sp_pending st - n) :: u64)"
    using assms(2) by (simp flip: of_nat_add)
  then show ?thesis
    using assms by (auto simp: splice_inv_def account_out_def)
qed

lemma write_loop_post:
  assumes "splice_inv st k" "out_loop ans (min (sp_pending st) limit) 0 k = Some (why, n, k', rest)"
  shows "n \<le> sp_pending st" "n \<le> limit" "stream k' = stream k"
    and "length (k_pipe k') + n = length (k_pipe k)" "length (k_dst k') = length (k_dst k) + n"
    and "why = LoopDone \<Longrightarrow> n = min (sp_pending st) limit" "splice_inv (account_out n st) k'"
    and "n = 0 \<Longrightarrow> splice_inv st k'"
proof -
  have "min (sp_pending st) limit - 0 \<le> length (k_pipe k)" using assms(1) by (simp add: splice_inv_def)
  from out_loop_bounds [OF assms(2) _ this] show b: "n \<le> sp_pending st" "n \<le> limit" "stream k' = stream k"
      "length (k_pipe k') + n = length (k_pipe k)" "length (k_dst k') = length (k_dst k) + n"
      "why = LoopDone \<Longrightarrow> n = min (sp_pending st) limit"
    by auto
  show "splice_inv (account_out n st) k'" by (rule account_out_inv [OF assms(1) b(1,4)])
  show "n = 0 \<Longrightarrow> splice_inv st k'" using assms(1) b(4) by (simp add: splice_inv_def)
qed

lemma write_abort_post:
  assumes "splice_inv st k" "out_loop ans (min (sp_pending st) limit) 0 k = Some (why, n, k', rest)"
    and "why \<noteq> LoopDone" "write_abort why n fwd st = (rc, st')"
  shows "pump_post fwd limit st k rc st' k'"
proof -
  note w = write_loop_post [OF assms(1,2)]
  have pend: "length (k_pipe k') \<le> sp_pending st" using w(4) assms(1) by (simp add: splice_inv_def)
  show ?thesis
    using assms(3,4) w pend
    by (cases why; cases "0 < n")
       (auto simp: write_abort_def pump_post_def splice_codes account_out_def split: if_splits)
qed

lemma phase3_post:
  assumes "splice_inv st k" "0 < limit" "splice_phase3 max_len limit fwd st k ans = Some (rc, st', k', rest)"
  shows "pump_post fwd limit st k rc st' k'"
proof (cases "0 < sp_pending st")
  case True
  obtain why n k1 ans1 where loop: "out_loop ans (min (sp_pending st) limit) 0 k = Some (why, n, k1, ans1)"
    using assms(3) True by (auto simp: splice_phase3_def split: option.splits)
  note w = write_loop_post [OF assms(1) loop]
  show ?thesis
  proof (cases "why = LoopDone")
    case fin: True
    then have "rc = final_return max_len (fwd + n)" "st' = account_out n st" "k' = k1"
      using assms(3) True loop by (auto simp: splice_phase3_def)
    moreover have "0 < n" using w(6) fin True assms(2) by simp
    ultimately show ?thesis
      using w by (auto simp: pump_post_def final_return_def positive_or_def splice_codes account_out_def)
  next
    case False
    then have "write_abort why n fwd st = (rc, st')" "k' = k1"
      using assms(3) True loop by (cases why; auto simp: splice_phase3_def split: prod.splits)+
    then show ?thesis using write_abort_post [OF assms(1) loop False] by simp
  qed
next
  case False
  then show ?thesis
    using assms by (auto simp: splice_phase3_def pump_post_def final_return_def positive_or_def splice_codes
        split: if_splits)
qed

lemma phase2_post:
  assumes "splice_inv st k" "0 < limit" "splice_phase2 max_len limit fwd st k ans = Some (rc, st', k', rest)"
  shows "pump_post fwd limit st k rc st' k'"
proof (cases "sp_pending st = 0 \<and> 0 < limit")
  case True
  let ?chunk = "min (min ATPD_SPLICE_DEFAULT_CHUNK limit) (sp_capacity st)"
  have pipe: "k_pipe k = []" using assms(1) True by (simp add: splice_inv_def)
  obtain res k1 ans1 where inl: "in_loop ans ?chunk k = Some (res, k1, ans1)"
    using assms(3) True by (auto simp: splice_phase2_def Let_def split: option.splits)
  note b = in_loop_bounds [OF inl]
  show ?thesis
  proof (cases res)
    case (Inl e)
    then have "k' = k" "st' = st" using assms(3) True inl b by (auto simp: splice_phase2_def Let_def)
    then show ?thesis
      using assms Inl True inl b
      by (auto simp: splice_phase2_def Let_def pump_post_def positive_or_def splice_codes splice_inv_def
          split: if_splits)
  next
    case (Inr n)
    then have k1: "n \<le> ?chunk" "n \<le> length (k_src k)" "k1 = move_in n k" using b by auto
    show ?thesis
    proof (cases "n = 0")
      case n0: True
      then have "k' = k1" "st' = st" "rc = positive_or fwd ATPD_SPLICE_EOF"
        using assms(3) True inl Inr by (auto simp: splice_phase2_def Let_def)
      moreover have "k1 = k" using n0 k1 by (simp add: move_in_def)
      ultimately show ?thesis using assms(1) by (auto simp: pump_post_def positive_or_def splice_codes)
    next
      case False
      let ?st = "st\<lparr>sp_pending := sp_pending st + n, sp_bytes_in := sp_bytes_in st + of_nat n\<rparr>"
      have p3: "splice_phase3 max_len limit fwd ?st k1 ans1 = Some (rc, st', k', rest)"
        using assms(3) True inl Inr False by (simp add: splice_phase2_def Let_def)
      have "splice_inv ?st k1"
        using assms(1) True k1 pipe by (auto simp: splice_inv_def move_in_def)
      from phase3_post [OF this assms(2) p3] show ?thesis
        using k1 pipe by (auto simp: pump_post_def) (auto simp: move_in_def)
    qed
  qed
next
  case False
  then have "splice_phase3 max_len limit fwd st k ans = Some (rc, st', k', rest)"
    using assms(3) by (simp add: splice_phase2_def split: if_splits)
  then show ?thesis by (rule phase3_post [OF assms(1,2)])
qed

lemma pump_post_trans:
  assumes "pump_post n limit st1 k1 rc st' k'" "stream k1 = stream k"
    and "length (k_dst k1) = length (k_dst k) + n" "0 < n" "sp_capacity st1 = sp_capacity st"
  shows "pump_post 0 (n + limit) st k rc st' k'"
  using assms by (auto simp: pump_post_def)

definition call_limit :: "nat \<Rightarrow> nat" where
  "call_limit max_len = (if max_len \<noteq> 0 then max_len else 2 * ATPD_SPLICE_MAX_PER_EVENT)"

lemma stateful_post:
  assumes "splice_inv st k"
    and "atpd_bridge_splice_stateful fd_in fd_out max_len st k ans = Some (rc, st', k', rest)"
  shows "pump_post 0 (call_limit max_len) st k rc st' k'"
proof -
  let ?limit = "min (if max_len \<noteq> 0 then max_len else SIZE_MAX) ATPD_SPLICE_MAX_PER_EVENT"
  have mono: "pump_post f l s x c s' x' \<Longrightarrow> l \<le> l' \<Longrightarrow> pump_post f l' s x c s' x'" for f l l' s x c s' x'
    by (auto simp: pump_post_def)
  have lim: "0 < ?limit" "?limit \<le> call_limit max_len"
    by (auto simp: call_limit_def SIZE_MAX_def ATPD_SPLICE_MAX_PER_EVENT_def)
  show ?thesis
  proof (cases "\<not> sp_initialized st \<or> fd_in < 0 \<or> fd_out < 0")
    case True
    then show ?thesis
      using assms by (auto simp: atpd_bridge_splice_stateful_def pump_post_def splice_codes splice_inv_def)
  next
    case init: False
    show ?thesis
    proof (cases "0 < sp_pending st")
      case True
      obtain why n k1 ans1 where loop: "out_loop ans (min (sp_pending st) ?limit) 0 k = Some (why, n, k1, ans1)"
        using assms(2) init True by (auto simp: atpd_bridge_splice_stateful_def Let_def split: option.splits)
      note w = write_loop_post [OF assms(1) loop]
      show ?thesis
      proof (cases "why = LoopDone")
        case fin: True
        then have n: "0 < n" "n = min (sp_pending st) ?limit" using w(6) True lim(1) by auto
        let ?limit1 = "min (if max_len \<noteq> 0 then (if n < max_len then max_len - n else 0) else ?limit)
            ATPD_SPLICE_MAX_PER_EVENT"
        show ?thesis
        proof (cases "max_len \<noteq> 0 \<and> max_len \<le> n \<or> 0 < sp_pending (account_out n st)")
          case early: True
          then have "rc = int n" "st' = account_out n st" "k' = k1"
            using assms(2) init True loop fin
            by (auto simp: atpd_bridge_splice_stateful_def Let_def split: if_splits)
          moreover have "n \<le> call_limit max_len" using w(2) lim(2) by (rule le_trans)
          moreover have "sp_capacity (account_out n st) = sp_capacity st" by (simp add: account_out_def)
          ultimately show ?thesis
            using n(1) w(3,5,7) by (simp add: pump_post_def splice_codes)
        next
          case late: False
          then have p2: "splice_phase2 max_len ?limit1 n (account_out n st) k1 ans1 = Some (rc, st', k', rest)"
            using assms(2) init True loop fin
            by (auto simp: atpd_bridge_splice_stateful_def Let_def split: if_splits)
          have "0 < ?limit1" using late by (auto simp: SIZE_MAX_def ATPD_SPLICE_MAX_PER_EVENT_def)
          from pump_post_trans [OF phase2_post [OF w(7) this p2] w(3,5) n(1)]
          have "pump_post 0 (n + ?limit1) st k rc st' k'" by (simp add: account_out_def)
          moreover have "n + ?limit1 \<le> call_limit max_len"
            using w(2) late by (auto simp: call_limit_def)
          ultimately show ?thesis by (rule mono)
        qed
      next
        case False
        then have "write_abort why n 0 st = (rc, st')" "k' = k1"
          using assms(2) init True loop
          by (cases why; auto simp: atpd_bridge_splice_stateful_def Let_def split: prod.splits)+
        then show ?thesis using mono [OF write_abort_post [OF assms(1) loop False] lim(2)] by simp
      qed
    next
      case False
      then have "splice_phase2 max_len ?limit 0 st k ans = Some (rc, st', k', rest)"
        using assms(2) init by (simp add: atpd_bridge_splice_stateful_def Let_def)
      from mono [OF phase2_post [OF assms(1) lim(1) this] lim(2)] show ?thesis .
    qed
  qed
qed

subsection \<open>Properties\<close>

definition k_empty :: "8 word list \<Rightarrow> splice_kernel" where
  "k_empty bs = \<lparr>k_src = bs, k_pipe = [], k_dst = []\<rparr>"

definition fresh_state :: splice_state_t where
  "fresh_state = snd (atpd_splice_state_init (Some (10, 11)) 65536 0
     \<lparr>sp_pipe0 = 0, sp_pipe1 = 0, sp_pending = 0, sp_capacity = 0, sp_bytes_in = 0, sp_bytes_out = 0,
      sp_initialized = False\<rparr>)"

text \<open>C8: one call of the pump, whatever the kernel answers: no byte is lost, duplicated or
  reordered (written, buffered and unread bytes together stay the same stream); at most
  \<open>max_len\<close> bytes are forwarded; a positive result is exactly the number of bytes
  written; the result 0 means that nothing was; and unless splice is unsupported or
  fails for good, the accounting that the debug build asserts at the next call holds
  (the pending count is the kernel's, within capacity, bytes in = bytes out + pending).\<close>

theorem splice_no_data_loss:
  assumes "splice_inv st k"
    and "atpd_bridge_splice_stateful fd_in fd_out max_len st k ans = Some (rc, st', k', rest)"
  shows "k_dst k' @ k_pipe k' @ k_src k' = k_dst k @ k_pipe k @ k_src k
     \<and> (0 < max_len \<longrightarrow> length (k_dst k') \<le> length (k_dst k) + max_len)
     \<and> (0 < rc \<longrightarrow> length (k_dst k') = length (k_dst k) + nat rc)
     \<and> (rc = ATPD_SPLICE_OK \<longrightarrow> k_dst k' = k_dst k)
     \<and> (rc \<noteq> ATPD_SPLICE_NOTSUP \<and> rc \<noteq> ATPD_SPLICE_ERROR \<longrightarrow> splice_inv st' k')"
  using stateful_post [OF assms]
  by (auto simp: pump_post_def stream_def call_limit_def ATPD_SPLICE_OK_def)

theorem splice_no_data_loss_witness:
  "case atpd_bridge_splice_stateful 3 4 0 fresh_state (k_empty [1, 2, 3, 4, 5])
      [SpMoved 4, SpMoved 1, SpFail EINTR, SpMoved 2, SpFail EAGAIN] of
     Some (rc, st', k', rest) \<Rightarrow> rc = 3 \<and> k_dst k' = [1, 2, 3] \<and> k_pipe k' = [4] \<and> k_src k' = [5]
       \<and> sp_pending st' = 1 \<and> splice_inv st' k'
   | None \<Rightarrow> False"
proof -
  let ?k = "k_empty [1, 2, 3, 4, 5]"
  have inv: "splice_inv fresh_state ?k"
    by (simp add: splice_inv_def fresh_state_def k_empty_def atpd_splice_state_init_def)
  have "\<exists>st' k'. atpd_bridge_splice_stateful 3 4 0 fresh_state ?k
      [SpMoved 4, SpMoved 1, SpFail EINTR, SpMoved 2, SpFail EAGAIN] = Some (3, st', k', [])
      \<and> k_dst k' = [1, 2, 3] \<and> k_pipe k' = [4] \<and> k_src k' = [5] \<and> sp_pending st' = 1"
    by (simp add: atpd_bridge_splice_stateful_def fresh_state_def k_empty_def atpd_splice_state_init_def
        splice_phase2_def splice_phase3_def Let_def write_abort_def account_out_def move_in_def move_out_def
        ATPD_SPLICE_PIPE_SIZE_def SIZE_MAX_def ATPD_SPLICE_MAX_PER_EVENT_def ATPD_SPLICE_DEFAULT_CHUNK_def)
  then obtain st' k' where run: "atpd_bridge_splice_stateful 3 4 0 fresh_state ?k
      [SpMoved 4, SpMoved 1, SpFail EINTR, SpMoved 2, SpFail EAGAIN] = Some (3, st', k', [])"
      "k_dst k' = [1, 2, 3]" "k_pipe k' = [4]" "k_src k' = [5]" "sp_pending st' = 1" by blast
  then have "splice_inv st' k'"
    using splice_no_data_loss [OF inv run(1)] by (simp add: splice_codes)
  with run show ?thesis by simp
qed

lemma phase3_returns:
  "SpFail EINTR \<notin> set ans \<Longrightarrow> sp_pending st \<le> length ans \<Longrightarrow>
   splice_phase3 max_len limit fwd st k ans \<noteq> None"
proof -
  assume a: "SpFail EINTR \<notin> set ans" "sp_pending st \<le> length ans"
  then have "min (sp_pending st) limit - 0 \<le> length ans" by linarith
  from out_loop_returns [OF a(1) this] obtain why n k1 ans1 where
    "out_loop ans (min (sp_pending st) limit) 0 k = Some (why, n, k1, ans1)" by blast
  then show ?thesis
    by (cases why) (auto simp: splice_phase3_def split: prod.splits)
qed

lemma phase2_returns:
  assumes "SpFail EINTR \<notin> set ans" "sp_pending st = 0" "ATPD_SPLICE_DEFAULT_CHUNK < length ans"
  shows "splice_phase2 max_len limit fwd st k ans \<noteq> None"
proof (cases "0 < limit")
  case True
  let ?chunk = "min (min ATPD_SPLICE_DEFAULT_CHUNK limit) (sp_capacity st)"
  have "0 < length ans" using assms(3) by linarith
  then obtain res k1 ans1 where inl: "in_loop ans ?chunk k = Some (res, k1, ans1)" "ans = hd ans # ans1"
    using in_loop_returns [OF assms(1)] by blast
  have "SpFail EINTR \<notin> set ans1" "ATPD_SPLICE_DEFAULT_CHUNK \<le> length ans1"
    using assms(1,3) inl(2) by (metis list.set_intros(2), metis length_Cons less_Suc_eq_le)
  moreover have "n \<le> ATPD_SPLICE_DEFAULT_CHUNK" if "res = Inr n" for n
    using in_loop_bounds [OF inl(1)] that by simp
  ultimately show ?thesis
    using True assms(2) inl(1) phase3_returns [of ans1]
    by (auto simp: splice_phase2_def Let_def split: sum.splits)
next
  case False
  then show ?thesis
    using phase3_returns [OF assms(1)] assms(2) by (simp add: splice_phase2_def)
qed

text \<open>C9: the pump returns.  If the kernel does not interrupt the calls, one call ends after at most
  \<open>pending + 65537\<close> answers: it never spins on a descriptor that makes no progress.\<close>

theorem splice_call_returns:
  assumes "splice_inv st k" "SpFail EINTR \<notin> set ans" "sp_pending st + ATPD_SPLICE_DEFAULT_CHUNK < length ans"
  shows "atpd_bridge_splice_stateful fd_in fd_out max_len st k ans \<noteq> None"
proof -
  let ?limit = "min (if max_len \<noteq> 0 then max_len else SIZE_MAX) ATPD_SPLICE_MAX_PER_EVENT"
  obtain why n k1 ans1 where loop: "out_loop ans (min (sp_pending st) ?limit) 0 k = Some (why, n, k1, ans1)"
      and len: "length ans \<le> length ans1 + (min (sp_pending st) ?limit)" and sub: "set ans1 \<subseteq> set ans"
  proof -
    have "min (sp_pending st) ?limit - 0 \<le> length ans" using assms(3) by linarith
    from out_loop_returns [OF assms(2) this, of k] show ?thesis using that by auto
  qed
  have no: "SpFail EINTR \<notin> set ans1" using sub assms(2) by auto
  have "length ans \<le> length ans1 + sp_pending st" using len by linarith
  then have "ATPD_SPLICE_DEFAULT_CHUNK < length ans1" using assms(3) by linarith
  from phase2_returns [OF no _ this] have p2: "sp_pending s = 0 \<Longrightarrow> splice_phase2 max_len l f s k1 ans1 \<noteq> None"
    for l f s by blast
  have p20: "sp_pending st = 0 \<Longrightarrow> splice_phase2 max_len l f st k ans \<noteq> None" for l f
    using phase2_returns [OF assms(2)] assms(3) by simp
  have "0 < sp_pending st \<Longrightarrow> sp_initialized st \<and> 0 \<le> fd_in \<and> 0 \<le> fd_out \<Longrightarrow> why = LoopDone \<Longrightarrow> ?thesis"
    using loop p2 [of "account_out n st"]
    by (cases "max_len = 0") (auto simp: atpd_bridge_splice_stateful_def Let_def)
  moreover have "0 < sp_pending st \<Longrightarrow> why \<noteq> LoopDone \<Longrightarrow> ?thesis"
    using loop by (cases why) (auto simp: atpd_bridge_splice_stateful_def Let_def split: prod.splits)
  moreover have "sp_pending st = 0 \<Longrightarrow> ?thesis"
    using p20 by (simp add: atpd_bridge_splice_stateful_def Let_def)
  moreover have "\<not> (sp_initialized st \<and> 0 \<le> fd_in \<and> 0 \<le> fd_out) \<Longrightarrow> ?thesis"
    by (auto simp: atpd_bridge_splice_stateful_def)
  ultimately show ?thesis by blast
qed

theorem splice_call_returns_witness:
  "atpd_bridge_splice_stateful 3 4 100 fresh_state (k_empty [7]) (replicate 70000 (SpMoved 5)) \<noteq> None"
  by (rule splice_call_returns)
     (simp_all add: splice_inv_def fresh_state_def k_empty_def atpd_splice_state_init_def
       ATPD_SPLICE_DEFAULT_CHUNK_def)

lemma move_out_0 [simp]: "move_out 0 k = k"
  by (simp add: move_out_def)

lemma move_out_add: "move_out a (move_out b k) = move_out (b + a) k"
  unfolding move_out_def by (simp add: take_add [of b a] add.commute [of a b])

lemma out_loop_moves: "out_loop ans goal n k = Some (why, n', k', rest) \<Longrightarrow> n \<le> n' \<and> k' = move_out (n' - n) k"
proof (induction ans arbitrary: n k)
  case (Cons a ans)
  show ?case
  proof (cases a)
    case (SpMoved m)
    define moved where "moved = min m (min (goal - n) (length (k_pipe k)))"
    show ?thesis
    proof (cases "goal \<le> n \<or> moved = 0")
      case True
      then show ?thesis using Cons.prems SpMoved by (auto simp: moved_def Let_def split: if_splits)
    next
      case False
      then have "out_loop ans goal (n + moved) (move_out moved k) = Some (why, n', k', rest)"
        using Cons.prems SpMoved by (simp add: Let_def flip: moved_def)
      from Cons.IH [OF this] show ?thesis by (auto simp: move_out_add)
    qed
  qed (use Cons in \<open>auto split: if_splits\<close>)
qed (auto split: if_splits)

lemma final_return_nonneg [simp]: "final_return max_len n \<noteq> ATPD_SPLICE_EAGAIN" "0 < n \<Longrightarrow> positive_or n c = int n" "int n \<noteq> ATPD_SPLICE_EAGAIN"
  by (auto simp: final_return_def positive_or_def splice_codes)

lemma write_abort_eagain:
  assumes "write_abort why n fwd st = (ATPD_SPLICE_EAGAIN, st')"
  shows "n = 0 \<and> st' = st"
  using assms by (cases why) (auto simp: write_abort_def splice_codes split: if_splits)

lemma phase3_eagain:
  assumes "splice_phase3 max_len limit fwd st k ans = Some (ATPD_SPLICE_EAGAIN, st', k', rest)"
  shows "st' = st \<and> k' = k"
proof -
  have "0 < sp_pending st" using assms by (auto simp: splice_phase3_def split: if_splits)
  moreover from this obtain why n k1 ans1 where loop: "out_loop ans (min (sp_pending st) limit) 0 k = Some (why, n, k1, ans1)"
    using assms by (auto simp: splice_phase3_def split: option.splits)
  ultimately have "write_abort why n fwd st = (ATPD_SPLICE_EAGAIN, st')" "k' = k1"
    using assms by (cases why; auto simp: splice_phase3_def split: prod.splits)+
  then show ?thesis using write_abort_eagain out_loop_moves [OF loop] by fastforce
qed

text \<open>What a call leaves that wrote out everything pending and then took \<open>n\<close> new bytes in.\<close>

definition blocked_after :: "nat \<Rightarrow> splice_state_t \<Rightarrow> splice_kernel \<Rightarrow> splice_state_t \<times> splice_kernel" where
  "blocked_after n st k =
     (st\<lparr>sp_pending := n, sp_bytes_in := sp_bytes_in st + of_nat n, sp_bytes_out := sp_bytes_out st + of_nat (sp_pending st)\<rparr>,
      \<lparr>k_src = drop n (k_src k), k_pipe = take n (k_src k), k_dst = k_dst k @ k_pipe k\<rparr>)"

lemma phase2_eagain:
  assumes "splice_phase2 max_len limit fwd st k ans = Some (ATPD_SPLICE_EAGAIN, st', k', rest)" "k_pipe k = []" "sp_pending st = 0"
  shows "(fwd = 0 \<and> st' = st \<and> k' = k) \<or> (\<exists>n. 0 < n \<and> n \<le> length (k_src k) \<and> (st', k') = blocked_after n st k)"
proof (cases "0 < limit")
  case True
  let ?chunk = "min (min ATPD_SPLICE_DEFAULT_CHUNK limit) (sp_capacity st)"
  obtain res k1 ans1 where inl: "in_loop ans ?chunk k = Some (res, k1, ans1)"
    using assms(1,3) True by (auto simp: splice_phase2_def Let_def split: option.splits)
  note b = in_loop_bounds [OF inl]
  show ?thesis
  proof (cases res)
    case (Inl e)
    then show ?thesis
      using assms(1,3) True inl b by (auto simp: splice_phase2_def positive_or_def splice_codes split: if_splits)
  next
    case (Inr n)
    then have n: "n \<le> length (k_src k)" "k1 = move_in n k" using b by auto
    have "n \<noteq> 0" using assms(1,3) True inl Inr by (auto simp: splice_phase2_def positive_or_def splice_codes split: if_splits)
    then have "splice_phase3 max_len limit fwd (st\<lparr>sp_pending := n, sp_bytes_in := sp_bytes_in st + of_nat n\<rparr>) k1 ans1
        = Some (ATPD_SPLICE_EAGAIN, st', k', rest)"
      using assms(1,3) True inl Inr by (simp add: splice_phase2_def)
    from phase3_eagain [OF this] n \<open>n \<noteq> 0\<close> assms(2,3) show ?thesis
      by (intro disjI2 exI [of _ n]) (simp add: blocked_after_def move_in_def)
  qed
next
  case False
  then show ?thesis using assms by (auto simp: splice_phase2_def splice_phase3_def)
qed

lemma drained:
  assumes "splice_inv st k"
  shows "sp_pending (account_out (sp_pending st) st) = 0" "k_pipe (move_out (sp_pending st) k) = []"
    "k_dst (move_out (sp_pending st) k) = k_dst k @ k_pipe k" "k_src (move_out (sp_pending st) k) = k_src k"
    "blocked_after n (account_out (sp_pending st) st) (move_out (sp_pending st) k) = blocked_after n st k"
  using assms by (simp_all add: splice_inv_def account_out_def move_out_def blocked_after_def)

text \<open>The schedule under which a call writes and still says that it would block: the pending bytes go
  out, the source delivers, and the destination is full.\<close>

lemma phase2_blocks:
  assumes "sp_pending st = 0" "0 < limit" "0 < sp_capacity st" "0 < m" "k_src k \<noteq> []"
  shows "\<exists>n>0. splice_phase2 max_len limit fwd st k (SpMoved m # SpFail EAGAIN # rest)
    = Some (ATPD_SPLICE_EAGAIN, st\<lparr>sp_pending := n, sp_bytes_in := sp_bytes_in st + of_nat n\<rparr>, move_in n k, rest)"
proof -
  define n where "n = min m (min (min (min ATPD_SPLICE_DEFAULT_CHUNK limit) (sp_capacity st)) (length (k_src k)))"
  have n: "0 < n" using assms by (simp add: n_def ATPD_SPLICE_DEFAULT_CHUNK_def)
  have "in_loop (SpMoved m # SpFail EAGAIN # rest) (min (min ATPD_SPLICE_DEFAULT_CHUNK limit) (sp_capacity st)) k
      = Some (Inr n, move_in n k, SpFail EAGAIN # rest)"
    unfolding in_loop.simps n_def by (simp only: Let_def)
  then show ?thesis
    using assms(1,2) n by (intro exI [of _ n]) (simp add: splice_phase2_def splice_phase3_def write_abort_def)
qed

lemma eagain_schedule:
  assumes "splice_inv st k" "sp_initialized st" "0 \<le> fd_in" "0 \<le> fd_out"
    and "0 < sp_pending st" "sp_pending st \<le> ATPD_SPLICE_MAX_PER_EVENT" "max_len = 0 \<or> sp_pending st < max_len"
    and "sp_pending st \<le> a" "0 < m" "k_src k \<noteq> []"
  shows "\<exists>n>0. atpd_bridge_splice_stateful fd_in fd_out max_len st k (SpMoved a # SpMoved m # SpFail EAGAIN # rest)
    = Some (ATPD_SPLICE_EAGAIN, fst (blocked_after n st k), snd (blocked_after n st k), rest)"
proof -
  let ?p = "sp_pending st" and ?ans = "SpMoved m # SpFail EAGAIN # rest"
  define limit where "limit = min (if max_len \<noteq> 0 then max_len else SIZE_MAX) ATPD_SPLICE_MAX_PER_EVENT"
  define limit1 where "limit1 = min (if max_len \<noteq> 0 then (if ?p < max_len then max_len - ?p else 0) else limit) ATPD_SPLICE_MAX_PER_EVENT"
  have pipe: "length (k_pipe k) = ?p" "?p \<le> sp_capacity st" using assms(1) by (simp_all add: splice_inv_def)
  then have cap: "0 < sp_capacity st" using assms(5) by linarith
  have goal: "min ?p limit = ?p" using assms(5-7) by (auto simp: limit_def SIZE_MAX_def ATPD_SPLICE_MAX_PER_EVENT_def)
  have loop: "out_loop (SpMoved a # ?ans) (min ?p limit) 0 k = Some (LoopDone, ?p, move_out ?p k, ?ans)"
    unfolding goal using assms(5,8) pipe by (simp add: Let_def min.absorb2)
  have "0 < limit1" using assms(7) by (auto simp: limit1_def limit_def SIZE_MAX_def ATPD_SPLICE_MAX_PER_EVENT_def)
  then obtain n where n: "0 < n" "splice_phase2 max_len limit1 ?p (account_out ?p st) (move_out ?p k) ?ans
      = Some (ATPD_SPLICE_EAGAIN, (account_out ?p st)\<lparr>sp_pending := n, sp_bytes_in := sp_bytes_in st + of_nat n\<rparr>, move_in n (move_out ?p k), rest)"
    using phase2_blocks [of "account_out ?p st" limit1 m "move_out ?p k" max_len ?p rest] drained(1,4) [OF assms(1)] cap assms(9,10)
    by (auto simp: account_out_def)
  have "((account_out ?p st)\<lparr>sp_pending := n, sp_bytes_in := sp_bytes_in st + of_nat n\<rparr>, move_in n (move_out ?p k)) = blocked_after n st k"
    using pipe by (simp add: blocked_after_def move_in_def account_out_def move_out_def)
  moreover have "atpd_bridge_splice_stateful fd_in fd_out max_len st k (SpMoved a # ?ans)
      = splice_phase2 max_len limit1 ?p (account_out ?p st) (move_out ?p k) ?ans"
    unfolding atpd_bridge_splice_stateful_def Let_def limit_def [symmetric] loop option.case prod.case loop_end.case limit1_def [symmetric]
    using assms(2-5,7) drained(1) [OF assms(1)] by auto
  ultimately show ?thesis using n by (metis fst_conv snd_conv)
qed

text \<open>C10: what the result \<open>ATPD_SPLICE_EAGAIN\<close> means.  The header documents the result as the number of
  bytes written to \<open>fd_out\<close>, or a code when nothing was.  Whatever the kernel answers, a call
  that ends with this code has either changed nothing, or it has written out all the bytes that
  were pending, has counted them, and has taken in new bytes none of which is written.  The
  second case happens from every state with pending bytes that fit into one event: when the
  destination takes them, the source delivers and the destination is then full, the call reports
  that it would block although it wrote them.\<close>

theorem splice_result_hides_bytes:
  assumes "splice_inv st k"
  shows "(\<forall>fd_in fd_out max_len ans st' k' rest.
      atpd_bridge_splice_stateful fd_in fd_out max_len st k ans = Some (ATPD_SPLICE_EAGAIN, st', k', rest) \<longrightarrow>
        st' = st \<and> k' = k \<or> (\<exists>n. 0 < n \<and> n \<le> length (k_src k) \<and> (st', k') = blocked_after n st k))
    \<and> (\<forall>fd_in fd_out max_len a m rest. sp_initialized st \<and> 0 \<le> fd_in \<and> 0 \<le> fd_out \<and> 0 < sp_pending st
        \<and> sp_pending st \<le> ATPD_SPLICE_MAX_PER_EVENT \<and> (max_len = 0 \<or> sp_pending st < max_len)
        \<and> sp_pending st \<le> a \<and> 0 < m \<and> k_src k \<noteq> [] \<longrightarrow>
        (\<exists>n>0. atpd_bridge_splice_stateful fd_in fd_out max_len st k (SpMoved a # SpMoved m # SpFail EAGAIN # rest)
          = Some (ATPD_SPLICE_EAGAIN, fst (blocked_after n st k), snd (blocked_after n st k), rest)))"
proof (intro conjI allI impI)
  fix fd_in fd_out max_len ans st' k' rest
  assume run: "atpd_bridge_splice_stateful fd_in fd_out max_len st k ans = Some (ATPD_SPLICE_EAGAIN, st', k', rest)"
  let ?limit = "min (if max_len \<noteq> 0 then max_len else SIZE_MAX) ATPD_SPLICE_MAX_PER_EVENT"
  have init: "sp_initialized st" "0 \<le> fd_in" "0 \<le> fd_out"
    using run by (auto simp: atpd_bridge_splice_stateful_def splice_codes split: if_splits)
  show "st' = st \<and> k' = k \<or> (\<exists>n. 0 < n \<and> n \<le> length (k_src k) \<and> (st', k') = blocked_after n st k)"
  proof (cases "0 < sp_pending st")
    case True
    obtain why n k1 ans1 where loop: "out_loop ans (min (sp_pending st) ?limit) 0 k = Some (why, n, k1, ans1)"
      using run init True by (auto simp: atpd_bridge_splice_stateful_def Let_def split: option.splits)
    note moves = out_loop_moves [OF loop] and w = write_loop_post [OF assms loop]
    show ?thesis
    proof (cases "why = LoopDone")
      case fin: True
      obtain l where p2: "splice_phase2 max_len l n (account_out n st) k1 ans1 = Some (ATPD_SPLICE_EAGAIN, st', k', rest)"
          and "sp_pending (account_out n st) = 0"
        using run init True loop fin by (auto simp: atpd_bridge_splice_stateful_def Let_def split: if_splits)
      then have n: "n = sp_pending st" using w(1) by (simp add: account_out_def)
      have "k_pipe k1 = []" "k_src k1 = k_src k" "\<And>j. blocked_after j (account_out n st) k1 = blocked_after j st k"
        using drained [OF assms] moves unfolding n by auto
      with phase2_eagain [OF p2] \<open>sp_pending (account_out n st) = 0\<close> n True show ?thesis by auto
    next
      case False
      then have "write_abort why n 0 st = (ATPD_SPLICE_EAGAIN, st')" "k' = k1"
        using run init True loop by (cases why; auto simp: atpd_bridge_splice_stateful_def Let_def split: prod.splits)+
      then show ?thesis using write_abort_eagain moves by fastforce
    qed
  next
    case False
    then have "splice_phase2 max_len ?limit 0 st k ans = Some (ATPD_SPLICE_EAGAIN, st', k', rest)" "k_pipe k = []"
      using run init assms by (simp_all add: atpd_bridge_splice_stateful_def Let_def splice_inv_def)
    from phase2_eagain [OF this] False show ?thesis by simp
  qed
qed (use eagain_schedule [OF assms] in blast)

theorem splice_result_hides_bytes_witness:
  "\<exists>st' k'. atpd_bridge_splice_stateful 3 4 0 (fresh_state\<lparr>sp_pending := 2, sp_bytes_in := 2\<rparr>) \<lparr>k_src = [9], k_pipe = [1, 2], k_dst = []\<rparr>
      [SpMoved 2, SpMoved 1, SpFail EAGAIN] = Some (ATPD_SPLICE_EAGAIN, st', k', [])
    \<and> k_dst k' = [1, 2] \<and> sp_bytes_out st' = 2"
proof -
  let ?st = "fresh_state\<lparr>sp_pending := 2, sp_bytes_in := 2\<rparr>" and ?k = "\<lparr>k_src = [9], k_pipe = [1, 2], k_dst = []\<rparr>"
  have inv: "splice_inv ?st ?k" and st: "sp_initialized ?st" "sp_pending ?st = 2" "sp_bytes_out ?st = 0"
    by (simp_all add: splice_inv_def fresh_state_def atpd_splice_state_init_def)
  note second = conjunct2 [OF splice_result_hides_bytes [OF inv], rule_format, of 3 4 0 2 1 "[]"]
  obtain n where "atpd_bridge_splice_stateful 3 4 0 ?st ?k [SpMoved 2, SpMoved 1, SpFail EAGAIN]
      = Some (ATPD_SPLICE_EAGAIN, fst (blocked_after n ?st ?k), snd (blocked_after n ?st ?k), [])"
    using second st by (auto simp: ATPD_SPLICE_MAX_PER_EVENT_def)
  then show ?thesis using st by (simp add: blocked_after_def)
qed

end
