(* ===== verification/Session.thy ===== *)
theory Session
  imports Reactor Splice Atpd_Context "HOL-Library.Monad_Syntax"
begin

unbundle bit_operations_syntax

text \<open>
  Forwarding sessions, \<open>src/session.c\<close>: reference counting, the session state
  machine, the registry of active sessions, the garbage-collection queue, the
  splice pump and the two reactor callbacks.

  Sessions live in an explicit store: an address maps to its session, or to
  \<open>None\<close> when it was never allocated or has been freed.  Every access to a freed
  session is undefined behaviour and makes the operation \<open>None\<close>, so that the
  absence of use after free is a theorem (\<open>Session_Refs\<close>).  All operations run on
  the reactor thread: a compare-and-swap loop on an atomic succeeds at its first
  round and the mutexes are not contended.  The reactor's \<open>free_cb\<close> calls are
  carried out right after the reactor operation that makes them; session_free_cb
  does not touch the reactor.
\<close>

definition ATPD_SESSION_PIPE_SIZE :: nat where "ATPD_SESSION_PIPE_SIZE = 64 * 1024"
definition ATPD_SPLICE_VPN_NOT_READY :: int where "ATPD_SPLICE_VPN_NOT_READY = -5"

datatype atpd_session_state_t = SESSION_IDLE | SESSION_ACTIVE | SESSION_PIPE_DIRTY | SESSION_DRAINING
  | SESSION_CLOSING | SESSION_DESTROY_PENDING | SESSION_DESTROYED

text \<open>The enumeration's values, which the code compares.\<close>

primrec session_state_value :: "atpd_session_state_t \<Rightarrow> nat" where
  "session_state_value SESSION_IDLE = 0"
| "session_state_value SESSION_ACTIVE = 1"
| "session_state_value SESSION_PIPE_DIRTY = 2"
| "session_state_value SESSION_DRAINING = 3"
| "session_state_value SESSION_CLOSING = 4"
| "session_state_value SESSION_DESTROY_PENDING = 5"
| "session_state_value SESSION_DESTROYED = 6"

lemma session_state_value_inj: "session_state_value a = session_state_value b \<Longrightarrow> a = b"
  by (cases a; cases b) simp_all

instantiation atpd_session_state_t :: linorder
begin

definition less_eq_atpd_session_state_t :: "atpd_session_state_t \<Rightarrow> atpd_session_state_t \<Rightarrow> bool" where
  "less_eq_atpd_session_state_t a b \<longleftrightarrow> session_state_value a \<le> session_state_value b"

definition less_atpd_session_state_t :: "atpd_session_state_t \<Rightarrow> atpd_session_state_t \<Rightarrow> bool" where
  "less_atpd_session_state_t a b \<longleftrightarrow> session_state_value a < session_state_value b"

instance
  by standard
     (auto simp: less_eq_atpd_session_state_t_def less_atpd_session_state_t_def
       intro: session_state_value_inj)

end

lemmas state_order = less_eq_atpd_session_state_t_def less_atpd_session_state_t_def

record atpd_session =
  ses_session_id :: u64
  ses_fd_in :: fd
  ses_fd_out :: fd
  ses_pipe0 :: fd
  ses_pipe1 :: fd
  ses_state :: atpd_session_state_t
  ses_destroy_started :: bool
  ses_gc_enqueued :: bool
  ses_emergency_drained :: bool
  ses_ref_count :: nat
  ses_pipe_pending :: nat
  ses_bytes_in :: u64
  ses_bytes_out :: u64
  ses_created_at :: u64
  ses_last_active_at :: u64
  ses_has_reactor :: bool
  ses_registered :: bool

record session_world =
  sw_sessions :: "nat \<Rightarrow> atpd_session option"
  sw_registry :: "nat list"
  sw_count :: nat
  sw_gc :: "nat list"
  sw_reactor :: reactor_t
  sw_next_addr :: nat
  sw_next_session_id :: u64
  sw_closed :: "fd list"

definition set_session :: "nat \<Rightarrow> atpd_session \<Rightarrow> session_world \<Rightarrow> session_world" where
  "set_session s x w = w\<lparr>sw_sessions := (sw_sessions w)(s \<mapsto> x)\<rparr>"

subsection \<open>States and references\<close>

definition session_set_state :: "nat \<Rightarrow> atpd_session_state_t \<Rightarrow> session_world \<Rightarrow> (bool \<times> session_world) option" where
  "session_set_state s desired w = do {
     x \<leftarrow> sw_sessions w s;
     if SESSION_CLOSING \<le> ses_state x \<and> desired < SESSION_CLOSING then Some (False, w)
     else Some (True, set_session s (x\<lparr>ses_state := desired\<rparr>) w)
   }"

definition atpd_session_get :: "nat \<Rightarrow> session_world \<Rightarrow> session_world option" where
  "atpd_session_get s w = do {
     x \<leftarrow> sw_sessions w s;
     if ses_ref_count x \<noteq> 0 then Some (set_session s (x\<lparr>ses_ref_count := ses_ref_count x + 1\<rparr>) w)
     else Some w
   }"

definition safe_close_all :: "fd list \<Rightarrow> fd list" where
  "safe_close_all fds = filter (\<lambda>fd. 0 \<le> fd) fds"

text \<open>The session is freed: its address maps to \<open>None\<close> afterwards.\<close>

definition atpd_session_destroy_internal :: "nat \<Rightarrow> session_world \<Rightarrow> session_world option" where
  "atpd_session_destroy_internal s w = do {
     x \<leftarrow> sw_sessions w s;
     if ses_destroy_started x then Some w
     else Some (w\<lparr>sw_sessions := (sw_sessions w)(s := None),
                  sw_closed := sw_closed w @ safe_close_all
                    [ses_pipe0 x, ses_pipe1 x, ses_fd_in x, ses_fd_out x]\<rparr>)
   }"

definition atpd_session_put :: "nat \<Rightarrow> session_world \<Rightarrow> session_world option" where
  "atpd_session_put s w = do {
     x \<leftarrow> sw_sessions w s;
     if ses_ref_count x = 0 then Some w
     else
       let w1 = set_session s (x\<lparr>ses_ref_count := ses_ref_count x - 1\<rparr>) w in
       if ses_ref_count x = 1 then atpd_session_destroy_internal s w1 else Some w1
   }"

definition session_free_cb :: "data_ptr option \<Rightarrow> session_world \<Rightarrow> session_world option" where
  "session_free_cb userdata w = (case userdata of None \<Rightarrow> Some w | Some s \<Rightarrow> atpd_session_put s w)"

text \<open>The \<open>free_cb\<close> calls of a reactor operation; those of other components do not concern
  the sessions.\<close>

fun run_free_calls :: "free_call list \<Rightarrow> session_world \<Rightarrow> session_world option" where
  "run_free_calls [] w = Some w"
| "run_free_calls ((f, ud) # calls) w =
     (if f = Fn_session_free_cb then Option.bind (session_free_cb ud w) (run_free_calls calls)
      else run_free_calls calls w)"

subsection \<open>Registry and garbage collection\<close>

definition session_registry_add :: "nat \<Rightarrow> session_world \<Rightarrow> session_world option" where
  "session_registry_add s w = do {
     x \<leftarrow> sw_sessions w s;
     Some (set_session s (x\<lparr>ses_registered := True\<rparr>)
       (w\<lparr>sw_registry := s # sw_registry w, sw_count := sw_count w + 1\<rparr>))
   }"

definition session_registry_remove :: "nat \<Rightarrow> session_world \<Rightarrow> session_world option" where
  "session_registry_remove s w = do {
     x \<leftarrow> sw_sessions w s;
     if ses_registered x then
       atpd_session_put s (set_session s (x\<lparr>ses_registered := False\<rparr>)
         (w\<lparr>sw_registry := remove1 s (sw_registry w),
            sw_count := (if 0 < sw_count w then sw_count w - 1 else sw_count w)\<rparr>))
     else Some w
   }"

definition atpd_session_gc_enqueue :: "nat \<Rightarrow> session_world \<Rightarrow> session_world option" where
  "atpd_session_gc_enqueue s w = do {
     x \<leftarrow> sw_sessions w s;
     if ses_gc_enqueued x then Some w
     else do {
       w1 \<leftarrow> atpd_session_get s (set_session s (x\<lparr>ses_gc_enqueued := True\<rparr>) w);
       (ok, w2) \<leftarrow> session_set_state s SESSION_DESTROY_PENDING w1;
       if \<not> ok then do {
         x2 \<leftarrow> sw_sessions w2 s;
         atpd_session_put s (set_session s (x2\<lparr>ses_gc_enqueued := False\<rparr>) w2)
       }
       else Some (w2\<lparr>sw_gc := sw_gc w2 @ [s]\<rparr>)
     }
   }"

definition remove_session_fd :: "fd \<Rightarrow> session_world \<Rightarrow> session_world option" where
  "remove_session_fd fd w =
     (case reactor_remove_fd fd (sw_reactor w) of
        (_, r, calls) \<Rightarrow> run_free_calls calls (w\<lparr>sw_reactor := r\<rparr>))"

definition atpd_session_mark_closing :: "nat \<Rightarrow> session_world \<Rightarrow> session_world option" where
  "atpd_session_mark_closing s w = do {
     w1 \<leftarrow> atpd_session_get s w;
     x \<leftarrow> sw_sessions w1 s;
     if SESSION_CLOSING \<le> ses_state x then atpd_session_put s w1
     else do {
       w2 \<leftarrow> session_registry_remove s (set_session s (x\<lparr>ses_state := SESSION_CLOSING\<rparr>) w1);
       x2 \<leftarrow> sw_sessions w2 s;
       w3 \<leftarrow> (if ses_has_reactor x2 then do {
                a \<leftarrow> remove_session_fd (ses_fd_in x2) w2;
                x3 \<leftarrow> sw_sessions a s;
                remove_session_fd (ses_fd_out x3) a
              } else Some w2);
       w4 \<leftarrow> atpd_session_gc_enqueue s w3;
       atpd_session_put s w4
     }
   }"

fun gc_puts :: "nat list \<Rightarrow> session_world \<Rightarrow> session_world option" where
  "gc_puts [] w = Some w"
| "gc_puts (s # rest) w = Option.bind (atpd_session_put s w) (gc_puts rest)"

definition atpd_session_gc_process :: "session_world \<Rightarrow> session_world option" where
  "atpd_session_gc_process w = gc_puts (sw_gc w) (w\<lparr>sw_gc := []\<rparr>)"

definition atpd_session_destroy :: "nat \<Rightarrow> session_world \<Rightarrow> session_world option" where
  "atpd_session_destroy s w = atpd_session_mark_closing s w"

definition atpd_session_active_count :: "session_world \<Rightarrow> nat" where
  "atpd_session_active_count w = sw_count w"

subsection \<open>Creation and registration\<close>

text \<open>Answers: does \<open>calloc\<close> succeed, the clock, the fds of \<open>pipe2\<close> or its failure.\<close>

definition atpd_session_create ::
  "bool \<Rightarrow> u64 \<Rightarrow> (fd \<times> fd) option \<Rightarrow> bool \<Rightarrow> fd \<Rightarrow> fd \<Rightarrow> session_world
   \<Rightarrow> (nat option \<times> session_world) option" where
  "atpd_session_create alloc now pipe2 has_reactor fd_in fd_out w =
     (if \<not> alloc then Some (None, w)
      else
        let s = sw_next_addr w;
            w1 = w\<lparr>sw_next_addr := s + 1, sw_next_session_id := sw_next_session_id w + 1\<rparr>
        in case pipe2 of
             None \<Rightarrow> Some (None, w1)
           | Some (p0, p1) \<Rightarrow> do {
               w2 \<leftarrow> Some (set_session s
                 \<lparr>ses_session_id = sw_next_session_id w, ses_fd_in = fd_in, ses_fd_out = fd_out,
                  ses_pipe0 = p0, ses_pipe1 = p1, ses_state = SESSION_IDLE, ses_destroy_started = False,
                  ses_gc_enqueued = False, ses_emergency_drained = False, ses_ref_count = 1,
                  ses_pipe_pending = 0, ses_bytes_in = 0, ses_bytes_out = 0, ses_created_at = now,
                  ses_last_active_at = now, ses_has_reactor = has_reactor, ses_registered = False\<rparr> w1);
               w3 \<leftarrow> atpd_session_get s w2;
               w4 \<leftarrow> session_registry_add s w3;
               Some (Some s, w4)
             })"

text \<open>\<open>reactor_add_fd_ex\<close> on the session's behalf; \<open>ans\<close> are the answers of \<open>malloc\<close> and
  \<open>epoll_ctl\<close>.\<close>

definition add_session_fd ::
  "bool \<times> bool \<Rightarrow> fd \<Rightarrow> fn \<Rightarrow> nat \<Rightarrow> session_world \<Rightarrow> (int \<times> session_world) option" where
  "add_session_fd ans fd cb s w =
     (case reactor_add_fd_ex (fst ans) (snd ans) fd (REACTOR_EVENT_READ OR REACTOR_EVENT_EDGE)
             (Some cb) (Some Fn_session_free_cb) (Some s) (sw_reactor w) of
        (rc, r, calls) \<Rightarrow>
          map_option (\<lambda>w1. (rc, w1)) (run_free_calls calls (w\<lparr>sw_reactor := r\<rparr>)))"

definition atpd_session_register ::
  "bool \<times> bool \<Rightarrow> bool \<times> bool \<Rightarrow> nat \<Rightarrow> session_world \<Rightarrow> (int \<times> session_world) option" where
  "atpd_session_register ans_in ans_out s w = do {
     w1 \<leftarrow> atpd_session_get s w;
     x1 \<leftarrow> sw_sessions w1 s;
     (rc1, w2) \<leftarrow> add_session_fd ans_in (ses_fd_in x1) Fn_session_in_cb s w1;
     if rc1 \<noteq> 0 then do { w3 \<leftarrow> atpd_session_put s w2; Some (-1, w3) }
     else do {
       w3 \<leftarrow> atpd_session_get s w2;
       x3 \<leftarrow> sw_sessions w3 s;
       (rc2, w4) \<leftarrow> add_session_fd ans_out (ses_fd_out x3) Fn_session_out_cb s w3;
       if rc2 \<noteq> 0 then do {
         x4 \<leftarrow> sw_sessions w4 s;
         w5 \<leftarrow> remove_session_fd (ses_fd_in x4) w4;
         w6 \<leftarrow> atpd_session_put s w5;
         Some (-1, w6)
       }
       else do {
         (ok, w5) \<leftarrow> session_set_state s SESSION_ACTIVE w4;
         if \<not> ok then do { w6 \<leftarrow> atpd_session_mark_closing s w5; Some (-1, w6) }
         else Some (0, w5)
       }
     }
   }"

definition atpd_session_is_vpn_ready :: "atpd_context \<Rightarrow> bool" where
  "atpd_session_is_vpn_ready c \<longleftrightarrow> vpn_state (atpd_vpn_get_snapshot c) = VPN_STATE_READY"

subsection \<open>Emergency drain\<close>

definition drained_record :: "atpd_session \<Rightarrow> atpd_session" where
  "drained_record x = x\<lparr>ses_emergency_drained := True,
     ses_pipe0 := (if 0 \<le> ses_pipe0 x then -1 else ses_pipe0 x),
     ses_pipe1 := (if 0 \<le> ses_pipe1 x then -1 else ses_pipe1 x),
     ses_pipe_pending := 0\<rparr>"

definition emergency_drain :: "nat \<Rightarrow> session_world \<Rightarrow> session_world option" where
  "emergency_drain s w = do {
     x \<leftarrow> sw_sessions w s;
     if ses_emergency_drained x then Some w
     else
       let w1 = set_session s (drained_record x)
                  (w\<lparr>sw_closed := sw_closed w @ safe_close_all [ses_pipe0 x, ses_pipe1 x]\<rparr>)
       in if ses_state x < SESSION_CLOSING then atpd_session_mark_closing s w1 else Some w1
   }"

text \<open>The bytes in the pipe of a session that has closed it, here or by being freed, are gone: the
  kernel discards them.\<close>

definition discard_closed :: "nat \<Rightarrow> session_world \<Rightarrow> splice_kernel \<Rightarrow> splice_kernel" where
  "discard_closed s w k =
     (case sw_sessions w s of
        Some x \<Rightarrow> (if 0 \<le> ses_pipe0 x then k else k\<lparr>k_pipe := []\<rparr>)
      | None \<Rightarrow> k\<lparr>k_pipe := []\<rparr>)"

fun session_gets :: "nat list \<Rightarrow> session_world \<Rightarrow> session_world option" where
  "session_gets [] w = Some w"
| "session_gets (s # rest) w = Option.bind (atpd_session_get s w) (session_gets rest)"

fun drain_each :: "nat list \<Rightarrow> session_world \<Rightarrow> session_world option" where
  "drain_each [] w = Some w"
| "drain_each (s # rest) w = do {
     x \<leftarrow> sw_sessions w s;
     w1 \<leftarrow> (if ses_state x < SESSION_CLOSING then emergency_drain s w else Some w);
     w2 \<leftarrow> atpd_session_put s w1;
     drain_each rest w2
   }"

text \<open>\<open>alloc\<close>: the snapshot array can be allocated.\<close>

definition atpd_session_emergency_drain_all :: "bool \<Rightarrow> session_world \<Rightarrow> session_world option" where
  "atpd_session_emergency_drain_all alloc w =
     (if sw_count w = 0 then Some w
      else if \<not> alloc then Some w
      else
        let snapshot = take (sw_count w) (sw_registry w)
        in Option.bind (session_gets snapshot w) (drain_each snapshot))"

subsection \<open>Draining the pipe\<close>

text \<open>The kernel queues of the session's fds and pipe are passed along with the answers of
  \<open>splice\<close>; \<open>ctl_ok\<close> is the answer of \<open>epoll_ctl\<close> when the WRITE event is dropped.  The loop
  is the write loop of \<open>Splice\<close>; the bytes it sent are added to \<open>bytes_out\<close> one chunk at a time.\<close>

definition add_bytes_out :: "nat \<Rightarrow> atpd_session \<Rightarrow> atpd_session" where
  "add_bytes_out n x = x\<lparr>ses_bytes_out := ses_bytes_out x + of_nat n\<rparr>"

text \<open>Setting the events of \<open>fd_out\<close>; the session is closed when that fails.\<close>

definition set_out_events :: "bool \<Rightarrow> u32 \<Rightarrow> int \<Rightarrow> int \<Rightarrow> nat \<Rightarrow> session_world \<Rightarrow> (int \<times> session_world) option" where
  "set_out_events ctl_ok events ok_rc err_rc s w = do {
     x \<leftarrow> sw_sessions w s;
     if ses_has_reactor x then
       (case reactor_modify_fd ctl_ok (ses_fd_out x) events (sw_reactor w) of
          (rc, r) \<Rightarrow>
            (if rc \<noteq> 0 then do {
               w1 \<leftarrow> atpd_session_mark_closing s (w\<lparr>sw_reactor := r\<rparr>);
               Some (err_rc, w1)
             }
             else Some (ok_rc, w\<lparr>sw_reactor := r\<rparr>)))
     else Some (ok_rc, w)
   }"

text \<open>What follows the drain loop, by the way it ended.\<close>

definition drain_finish :: "bool \<Rightarrow> nat \<Rightarrow> nat \<Rightarrow> loop_end \<Rightarrow> nat \<Rightarrow> session_world \<Rightarrow> (int \<times> session_world) option" where
  "drain_finish ctl_ok s pending why sent w = do {
     x \<leftarrow> sw_sessions w s;
     let y = add_bytes_out sent x in
     case why of
       LoopFail e \<Rightarrow>
         (if e = EAGAIN then do {
            (_, w1) \<leftarrow> session_set_state s SESSION_PIPE_DIRTY
               (set_session s (y\<lparr>ses_pipe_pending := pending - sent\<rparr>) w);
            Some (1, w1)
          }
          else do {
            (_, w1) \<leftarrow> session_set_state s SESSION_PIPE_DIRTY (set_session s y w);
            Some (-1, w1)
          })
     | _ \<Rightarrow> do {
         (ok, w1) \<leftarrow> session_set_state s SESSION_ACTIVE (set_session s (y\<lparr>ses_pipe_pending := 0\<rparr>) w);
         if \<not> ok then Some (-1, w1)
         else set_out_events ctl_ok (REACTOR_EVENT_READ OR REACTOR_EVENT_EDGE) 0 (-1) s w1
       }
   }"

definition atpd_session_drain_pipe ::
  "bool \<Rightarrow> sp_answer list \<Rightarrow> nat \<Rightarrow> splice_kernel \<Rightarrow> session_world
   \<Rightarrow> (int \<times> splice_kernel \<times> sp_answer list \<times> session_world) option" where
  "atpd_session_drain_pipe ctl_ok ans s k w = do {
     x \<leftarrow> sw_sessions w s;
     if ses_pipe_pending x = 0 then Some (0, k, ans, w)
     else if ses_state x \<noteq> SESSION_PIPE_DIRTY then Some (0, k, ans, w)
     else do {
       (ok, w1) \<leftarrow> session_set_state s SESSION_DRAINING w;
       if \<not> ok then Some (-1, k, ans, w1)
       else do {
         (why, sent, k1, ans1) \<leftarrow> out_loop ans (ses_pipe_pending x) 0 k;
         (rc, w2) \<leftarrow> drain_finish ctl_ok s (ses_pipe_pending x) why sent w1;
         Some (rc, discard_closed s w2 k1, ans1, w2)
       }
     }
   }"

subsection \<open>The session pump\<close>

text \<open>An answer of the pump's loops: is the VPN ready at the check before the call (looked at
  before a write only), and what does \<open>splice\<close> answer.  \<open>pump_end\<close> is the exit taken; the
  accumulator holds \<open>total_moved\<close>, \<open>bytes_in_total\<close> and \<open>bytes_out_total\<close>.\<close>

datatype pump_end = PE_Done | PE_Read int | PE_Vpn | PE_Again nat nat | PE_Pipe nat nat
  | PE_WriteError | PE_Zero nat

record pump_acc =
  pa_moved :: nat
  pa_in :: u64
  pa_out :: u64

type_synonym pump_answer = "bool \<times> sp_answer"

function (sequential) pump_read ::
    "pump_answer list \<Rightarrow> nat \<Rightarrow> pump_acc \<Rightarrow> splice_kernel
     \<Rightarrow> (pump_end \<times> pump_acc \<times> splice_kernel \<times> pump_answer list) option"
  and pump_write ::
    "pump_answer list \<Rightarrow> nat \<Rightarrow> nat \<Rightarrow> nat \<Rightarrow> pump_acc \<Rightarrow> splice_kernel
     \<Rightarrow> (pump_end \<times> pump_acc \<times> splice_kernel \<times> pump_answer list) option" where
  "pump_read ans remaining acc k =
     (if remaining = 0 then Some (PE_Done, acc, k, ans)
      else case ans of
        [] \<Rightarrow> None
      | (_, SpFail e) # rest \<Rightarrow>
          (if e = EAGAIN then Some (PE_Done, acc, k, rest)
           else if e = EINTR then pump_read rest remaining acc k
           else if e = EPIPE \<or> e = ECONNRESET then
             Some (if 0 < pa_moved acc then PE_Done else PE_Read ATPD_SPLICE_EOF, acc, k, rest)
           else if e = EINVAL then Some (PE_Read ATPD_SPLICE_NOTSUP, acc, k, rest)
           else Some (PE_Read ATPD_SPLICE_ERROR, acc, k, rest))
      | (_, SpMoved m) # rest \<Rightarrow>
          (let moved = min m (min remaining (length (k_src k))) in
           if moved = 0 then
             Some (if 0 < pa_moved acc then PE_Done else PE_Read ATPD_SPLICE_EOF, acc, k, rest)
           else pump_write rest remaining moved 0 (acc\<lparr>pa_in := pa_in acc + of_nat moved\<rparr>) (move_in moved k)))"
| "pump_write ans remaining to_send sent acc k =
     (if to_send \<le> sent then pump_read ans (remaining - sent) (acc\<lparr>pa_moved := pa_moved acc + sent\<rparr>) k
      else case ans of
        [] \<Rightarrow> None
      | (vpn, a) # rest \<Rightarrow>
          (if \<not> vpn then Some (PE_Vpn, acc, k, rest)
           else case a of
             SpFail e \<Rightarrow>
               (if e = EAGAIN then Some (PE_Again sent to_send, acc, k, rest)
                else if e = EINTR then pump_write rest remaining to_send sent acc k
                else if e = EPIPE \<or> e = ECONNRESET then Some (PE_Pipe sent to_send, acc, k, rest)
                else Some (PE_WriteError, acc, k, rest))
           | SpMoved m \<Rightarrow>
               (let ret = min m (min (to_send - sent) (length (k_pipe k))) in
                if ret = 0 then Some (PE_Zero sent, acc, k, rest)
                else pump_write rest remaining to_send (sent + ret)
                       (acc\<lparr>pa_out := pa_out acc + of_nat ret\<rparr>) (move_out ret k))))"
  by pat_completeness auto

termination
  by (relation "measures [\<lambda>x. case x of Inl (ans, _) \<Rightarrow> length ans | Inr (ans, _) \<Rightarrow> length ans,
                          \<lambda>x. case x of Inl _ \<Rightarrow> 0 | Inr _ \<Rightarrow> (1::nat)]") auto

declare pump_read.simps [simp del] pump_write.simps [simp del]

definition add_bytes :: "pump_acc \<Rightarrow> atpd_session \<Rightarrow> atpd_session" where
  "add_bytes acc x = x\<lparr>ses_bytes_in := ses_bytes_in x + pa_in acc, ses_bytes_out := ses_bytes_out x + pa_out acc\<rparr>"

text \<open>What the pump does at each exit.  \<open>late\<close> adds the bytes of the current chunk to
  \<open>bytes_out_total\<close>, as the code does at three of the exits.\<close>

definition late :: "nat \<Rightarrow> pump_acc \<Rightarrow> pump_acc" where
  "late sent acc = acc\<lparr>pa_out := pa_out acc + of_nat sent\<rparr>"

definition pump_finish ::
  "bool \<Rightarrow> u64 \<Rightarrow> nat \<Rightarrow> pump_end \<Rightarrow> pump_acc \<Rightarrow> session_world \<Rightarrow> (int \<times> session_world) option" where
  "pump_finish ctl_ok now s why acc w =
     (case why of
        PE_Done \<Rightarrow>
          (if 0 < pa_moved acc then do {
             x \<leftarrow> sw_sessions w s;
             Some (int (pa_moved acc), set_session s ((add_bytes acc x)\<lparr>ses_last_active_at := now\<rparr>) w)
           }
           else Some (ATPD_SPLICE_OK, w))
      | PE_Read code \<Rightarrow> Some (code, w)
      | PE_Vpn \<Rightarrow> do {
          w1 \<leftarrow> atpd_session_mark_closing s w;
          w2 \<leftarrow> emergency_drain s w1;
          if 0 < pa_moved acc then do {
            x \<leftarrow> sw_sessions w2 s;
            Some (int (pa_moved acc), set_session s (add_bytes acc x) w2)
          }
          else Some (ATPD_SPLICE_VPN_NOT_READY, w2)
        }
      | PE_Again sent to_send \<Rightarrow> do {
          x \<leftarrow> sw_sessions w s;
          (ok, w1) \<leftarrow> session_set_state s SESSION_PIPE_DIRTY
             (set_session s (x\<lparr>ses_pipe_pending := to_send - sent\<rparr>) w);
          if \<not> ok then Some (ATPD_SPLICE_ERROR, w1)
          else do {
            x1 \<leftarrow> sw_sessions w1 s;
            set_out_events ctl_ok (REACTOR_EVENT_READ OR REACTOR_EVENT_WRITE OR REACTOR_EVENT_EDGE)
              (int (pa_moved acc + sent)) ATPD_SPLICE_ERROR s
              (set_session s (add_bytes (late sent acc) x1) w1)
          }
        }
      | PE_Pipe sent to_send \<Rightarrow> do {
          x \<leftarrow> sw_sessions w s;
          (ok, w1) \<leftarrow> session_set_state s SESSION_PIPE_DIRTY
             (set_session s (x\<lparr>ses_pipe_pending := to_send - sent\<rparr>) w);
          if \<not> ok then Some (ATPD_SPLICE_ERROR, w1)
          else if 0 < pa_moved acc + sent then do {
            x1 \<leftarrow> sw_sessions w1 s;
            Some (int (pa_moved acc + sent), set_session s (add_bytes (late sent acc) x1) w1)
          }
          else Some (ATPD_SPLICE_EOF, w1)
        }
      | PE_WriteError \<Rightarrow> Some (ATPD_SPLICE_ERROR, w)
      | PE_Zero sent \<Rightarrow>
          (if 0 < pa_moved acc + sent then do {
             x \<leftarrow> sw_sessions w s;
             Some (int (pa_moved acc + sent), set_session s (add_bytes (late sent acc) x) w)
           }
           else Some (ATPD_SPLICE_EOF, w)))"

definition acc0 :: pump_acc where
  "acc0 = \<lparr>pa_moved = 0, pa_in = 0, pa_out = 0\<rparr>"

definition atpd_session_splice_pump ::
  "bool \<Rightarrow> bool \<Rightarrow> u64 \<Rightarrow> pump_answer list \<Rightarrow> nat \<Rightarrow> nat \<Rightarrow> splice_kernel \<Rightarrow> session_world
   \<Rightarrow> (int \<times> splice_kernel \<times> pump_answer list \<times> session_world) option" where
  "atpd_session_splice_pump vpn_ready ctl_ok now ans s max_len k w =
     (if \<not> vpn_ready then Some (ATPD_SPLICE_VPN_NOT_READY, k, ans, w)
      else do {
        x \<leftarrow> sw_sessions w s;
        if SESSION_CLOSING \<le> ses_state x then Some (ATPD_SPLICE_ERROR, k, ans, w)
        else do {
          (why, acc, k1, ans1) \<leftarrow> pump_read ans max_len acc0 k;
          (rc, w1) \<leftarrow> pump_finish ctl_ok now s why acc w;
          Some (rc, discard_closed s w1 k1, ans1, w1)
        }
      })"

subsection \<open>The reactor callbacks\<close>

record session_env =
  se_vpn_ready :: bool
  se_now :: u64
  se_drain :: "sp_answer list"
  se_drain_ctl :: bool
  se_pump :: "pump_answer list"
  se_pump_ctl :: bool

definition close_and_put :: "nat \<Rightarrow> splice_kernel \<Rightarrow> session_world \<Rightarrow> (splice_kernel \<times> session_world) option" where
  "close_and_put s k w = do {
     w1 \<leftarrow> atpd_session_mark_closing s w;
     w2 \<leftarrow> atpd_session_put s w1;
     Some (discard_closed s w2 k, w2)
   }"

definition only_put :: "nat \<Rightarrow> splice_kernel \<Rightarrow> session_world \<Rightarrow> (splice_kernel \<times> session_world) option" where
  "only_put s k w = map_option (\<lambda>w1. (discard_closed s w1 k, w1)) (atpd_session_put s w)"

definition has_error :: "u32 \<Rightarrow> bool" where
  "has_error events \<longleftrightarrow> events AND (REACTOR_EVENT_ERROR OR REACTOR_EVENT_HANGUP) \<noteq> 0"

definition session_in_cb ::
  "session_env \<Rightarrow> u32 \<Rightarrow> data_ptr option \<Rightarrow> splice_kernel \<Rightarrow> session_world
   \<Rightarrow> (splice_kernel \<times> session_world) option" where
  "session_in_cb env events userdata k w =
     (case userdata of
        None \<Rightarrow> Some (k, w)
      | Some s \<Rightarrow> do {
          w1 \<leftarrow> atpd_session_get s w;
          x1 \<leftarrow> sw_sessions w1 s;
          if SESSION_CLOSING \<le> ses_state x1 then only_put s k w1
          else if has_error events then close_and_put s k w1
          else do {
            (k2, w2) \<leftarrow> (if ses_state x1 = SESSION_PIPE_DIRTY then do {
                           (_, k2, _, w2) \<leftarrow> atpd_session_drain_pipe (se_drain_ctl env) (se_drain env) s k w1;
                           Some (k2, w2)
                         } else Some (k, w1));
            x2 \<leftarrow> sw_sessions w2 s;
            if ses_state x1 = SESSION_PIPE_DIRTY \<and> ses_state x2 = SESSION_PIPE_DIRTY then only_put s k2 w2
            else do {
              (ret, k3, _, w3) \<leftarrow> atpd_session_splice_pump (se_vpn_ready env) (se_pump_ctl env) (se_now env)
                                    (se_pump env) s ATPD_SESSION_PIPE_SIZE k2 w2;
              if ret = ATPD_SPLICE_VPN_NOT_READY then close_and_put s k3 w3
              else if ret < 0 then close_and_put s k3 w3
              else only_put s k3 w3
            }
          }
        })"

definition session_out_cb ::
  "session_env \<Rightarrow> u32 \<Rightarrow> data_ptr option \<Rightarrow> splice_kernel \<Rightarrow> session_world
   \<Rightarrow> (splice_kernel \<times> session_world) option" where
  "session_out_cb env events userdata k w =
     (case userdata of
        None \<Rightarrow> Some (k, w)
      | Some s \<Rightarrow> do {
          w1 \<leftarrow> atpd_session_get s w;
          x1 \<leftarrow> sw_sessions w1 s;
          if SESSION_CLOSING \<le> ses_state x1 then only_put s k w1
          else if has_error events then close_and_put s k w1
          else if ses_state x1 = SESSION_PIPE_DIRTY then do {
            (ret, k2, _, w2) \<leftarrow> atpd_session_drain_pipe (se_drain_ctl env) (se_drain env) s k w1;
            if 0 < ret then only_put s k2 w2
            else if ret < 0 then close_and_put s k2 w2
            else only_put s k2 w2
          }
          else only_put s k w1
        })"

end
