(* ===== verification/Session_Pump.thy ===== *)
theory Session_Pump
  imports Session
begin

text \<open>
  The byte accounting of the session pump of \<open>src/session.c\<close>: what the two loops move,
  what the result and the pending count say about it, and where the statistics
  counters differ from it.
\<close>

text \<open>The bytes of the current chunk sent so far, at the exits that report them.\<close>

fun end_sent :: "pump_end \<Rightarrow> nat option" where
  "end_sent PE_Done = Some 0"
| "end_sent (PE_Read c) = Some 0"
| "end_sent (PE_Again sent to_send) = Some sent"
| "end_sent (PE_Pipe sent to_send) = Some sent"
| "end_sent (PE_Zero sent) = Some sent"
| "end_sent _ = None"

fun end_pending :: "pump_end \<Rightarrow> nat option" where
  "end_pending PE_Done = Some 0"
| "end_pending (PE_Read c) = Some 0"
| "end_pending (PE_Again sent to_send) = Some (to_send - sent)"
| "end_pending (PE_Pipe sent to_send) = Some (to_send - sent)"
| "end_pending _ = None"

definition loops_post :: "nat \<Rightarrow> pump_acc \<Rightarrow> splice_kernel \<Rightarrow> pump_end \<Rightarrow> pump_acc \<Rightarrow> splice_kernel \<Rightarrow> bool" where
  "loops_post sent acc k why acc' k' \<longleftrightarrow>
     stream k' = stream k
     \<and> length (k_dst k) \<le> length (k_dst k') \<and> length (k_src k') \<le> length (k_src k)
     \<and> pa_in acc' = pa_in acc + of_nat (length (k_src k) - length (k_src k'))
     \<and> pa_out acc' = pa_out acc + of_nat (length (k_dst k') - length (k_dst k))
     \<and> (\<forall>n. end_sent why = Some n \<longrightarrow>
          pa_moved acc' + n = pa_moved acc + sent + (length (k_dst k') - length (k_dst k)))
     \<and> (\<forall>n. end_pending why = Some n \<longrightarrow> length (k_pipe k') = n)
     \<and> (\<forall>c. why = PE_Read c \<longrightarrow> c < 0)"

lemma move_in_lengths [simp]:
  "length (k_src (move_in n k)) = length (k_src k) - n" "k_dst (move_in n k) = k_dst k"
  "n \<le> length (k_src k) \<Longrightarrow> length (k_pipe (move_in n k)) = length (k_pipe k) + n"
  "k_src (move_out n k) = k_src k"
  by (simp_all add: move_in_def move_out_def)

lemma loops_post_read:
  assumes "loops_post 0 (acc\<lparr>pa_in := pa_in acc + of_nat n\<rparr>) (move_in n k) why acc' k'"
    and "n \<le> length (k_src k)" "k_pipe k = []"
  shows "loops_post 0 acc k why acc' k'"
proof -
  have le: "length (k_src k') \<le> length (k_src k) - n" using assms(1) by (simp add: loops_post_def)
  have "length (k_src k) - length (k_src k') = (length (k_src k) - n - length (k_src k')) + n"
    using le assms(2) by linarith
  then have "(of_nat (length (k_src k) - length (k_src k')) :: u64) =
      of_nat (length (k_src k) - n - length (k_src k')) + of_nat n"
    by (metis of_nat_add)
  then show ?thesis
    using assms le by (auto simp: loops_post_def algebra_simps)
qed

lemma loops_post_write:
  assumes "loops_post (sent + n) (acc\<lparr>pa_out := pa_out acc + of_nat n\<rparr>) (move_out n k) why acc' k'"
    and "n \<le> length (k_pipe k)"
  shows "loops_post sent acc k why acc' k'"
proof -
  have le: "length (k_dst k) + n \<le> length (k_dst k')" using assms by (simp add: loops_post_def)
  have "length (k_dst k') - length (k_dst k) = n + (length (k_dst k') - (length (k_dst k) + n))"
    using le by linarith
  then have "(of_nat (length (k_dst k') - length (k_dst k)) :: u64) =
      of_nat n + of_nat (length (k_dst k') - (length (k_dst k) + n))"
    by (metis of_nat_add)
  then show ?thesis
    using assms le by (auto simp: loops_post_def algebra_simps)
qed

lemma loops_post_next:
  "loops_post 0 (acc\<lparr>pa_moved := pa_moved acc + sent\<rparr>) k why acc' k' \<Longrightarrow> loops_post sent acc k why acc' k'"
  by (simp add: loops_post_def)

lemma loops_post_end:
  assumes "\<forall>n. end_sent why = Some n \<longrightarrow> n = sent" "\<forall>n. end_pending why = Some n \<longrightarrow> length (k_pipe k) = n"
    "\<forall>c. why = PE_Read c \<longrightarrow> c < 0"
  shows "loops_post sent acc k why acc k"
  using assms by (simp add: loops_post_def)

subsection \<open>The loops, one answer at a time\<close>

lemma pump_read_0 [simp]: "pump_read ans 0 acc k = Some (PE_Done, acc, k, ans)"
  by (simp add: pump_read.simps)

lemma pump_read_Nil [simp]: "0 < remaining \<Longrightarrow> pump_read [] remaining acc k = None"
  by (simp add: pump_read.simps)

lemma pump_read_Fail:
  "0 < remaining \<Longrightarrow> pump_read ((v, SpFail e) # rest) remaining acc k =
     (if e = EAGAIN then Some (PE_Done, acc, k, rest)
      else if e = EINTR then pump_read rest remaining acc k
      else if e = EPIPE \<or> e = ECONNRESET then
        Some (if 0 < pa_moved acc then PE_Done else PE_Read ATPD_SPLICE_EOF, acc, k, rest)
      else if e = EINVAL then Some (PE_Read ATPD_SPLICE_NOTSUP, acc, k, rest)
      else Some (PE_Read ATPD_SPLICE_ERROR, acc, k, rest))"
  by (subst pump_read.simps) simp

lemma pump_read_Moved:
  "0 < remaining \<Longrightarrow> pump_read ((v, SpMoved m) # rest) remaining acc k =
     (let moved = min m (min remaining (length (k_src k))) in
      if moved = 0 then
        Some (if 0 < pa_moved acc then PE_Done else PE_Read ATPD_SPLICE_EOF, acc, k, rest)
      else pump_write rest remaining moved 0 (acc\<lparr>pa_in := pa_in acc + of_nat moved\<rparr>) (move_in moved k))"
  by (subst pump_read.simps) simp

lemma pump_write_full:
  "to_send \<le> sent \<Longrightarrow> pump_write ans remaining to_send sent acc k =
     pump_read ans (remaining - sent) (acc\<lparr>pa_moved := pa_moved acc + sent\<rparr>) k"
  by (subst pump_write.simps) simp

lemma pump_write_Nil: "sent < to_send \<Longrightarrow> pump_write [] remaining to_send sent acc k = None"
  by (subst pump_write.simps) simp

lemma pump_write_Fail:
  "sent < to_send \<Longrightarrow> pump_write ((v, SpFail e) # rest) remaining to_send sent acc k =
     (if \<not> v then Some (PE_Vpn, acc, k, rest)
      else if e = EAGAIN then Some (PE_Again sent to_send, acc, k, rest)
      else if e = EINTR then pump_write rest remaining to_send sent acc k
      else if e = EPIPE \<or> e = ECONNRESET then Some (PE_Pipe sent to_send, acc, k, rest)
      else Some (PE_WriteError, acc, k, rest))"
  by (subst pump_write.simps) simp

lemma pump_write_Moved:
  "sent < to_send \<Longrightarrow> pump_write ((v, SpMoved m) # rest) remaining to_send sent acc k =
     (if \<not> v then Some (PE_Vpn, acc, k, rest)
      else (let ret = min m (min (to_send - sent) (length (k_pipe k))) in
            if ret = 0 then Some (PE_Zero sent, acc, k, rest)
            else pump_write rest remaining to_send (sent + ret)
                   (acc\<lparr>pa_out := pa_out acc + of_nat ret\<rparr>) (move_out ret k)))"
  by (subst pump_write.simps) simp

definition read_ok :: "pump_answer list \<Rightarrow> bool" where
  "read_ok ans \<longleftrightarrow> (\<forall>remaining acc k why acc' k' rest.
     pump_read ans remaining acc k = Some (why, acc', k', rest) \<longrightarrow> k_pipe k = [] \<longrightarrow>
     loops_post 0 acc k why acc' k')"

definition write_ok :: "pump_answer list \<Rightarrow> bool" where
  "write_ok ans \<longleftrightarrow> (\<forall>remaining to_send sent acc k why acc' k' rest.
     pump_write ans remaining to_send sent acc k = Some (why, acc', k', rest) \<longrightarrow>
     sent \<le> to_send \<longrightarrow> length (k_pipe k) = to_send - sent \<longrightarrow> loops_post sent acc k why acc' k')"

lemma read_okD:
  "read_ok ans \<Longrightarrow> pump_read ans remaining acc k = Some (why, acc', k', rest) \<Longrightarrow> k_pipe k = [] \<Longrightarrow>
   loops_post 0 acc k why acc' k'"
  unfolding read_ok_def by blast

lemma write_okD:
  "write_ok ans \<Longrightarrow> pump_write ans remaining to_send sent acc k = Some (why, acc', k', rest) \<Longrightarrow>
   sent \<le> to_send \<Longrightarrow> length (k_pipe k) = to_send - sent \<Longrightarrow> loops_post sent acc k why acc' k'"
  unfolding write_ok_def by blast

lemma write_full_ok:
  assumes "read_ok ans" "pump_write ans remaining to_send sent acc k = Some (why, acc', k', rest)"
    and "to_send \<le> sent" "length (k_pipe k) = to_send - sent"
  shows "loops_post sent acc k why acc' k'"
proof (rule loops_post_next, rule read_okD [OF assms(1)])
  show "pump_read ans (remaining - sent) (acc\<lparr>pa_moved := pa_moved acc + sent\<rparr>) k = Some (why, acc', k', rest)"
    using assms(2,3) by (simp add: pump_write_full)
  show "k_pipe k = []" using assms(3,4) by simp
qed

lemma read_step:
  assumes "read_ok rest" "write_ok rest"
  shows "read_ok ((v, a) # rest)"
  unfolding read_ok_def
proof (intro allI impI)
  fix remaining acc k why acc' k' rest'
  assume run: "pump_read ((v, a) # rest) remaining acc k = Some (why, acc', k', rest')" and pipe: "k_pipe k = []"
  show "loops_post 0 acc k why acc' k'"
  proof (cases "remaining = 0")
    case True
    then show ?thesis using run pipe by (auto intro!: loops_post_end)
  next
    case False
    show ?thesis
    proof (cases a)
      case (SpFail e)
      show ?thesis
      proof (cases "e = EINTR")
        case True
        then have "pump_read rest remaining acc k = Some (why, acc', k', rest')"
          using run False SpFail by (simp add: pump_read_Fail)
        then show ?thesis using pipe by (rule read_okD [OF assms(1)])
      qed (use run pipe False SpFail in \<open>auto simp: pump_read_Fail splice_codes split: if_splits
            intro!: loops_post_end\<close>)
    next
      case (SpMoved m)
      define n where "n = min m (min remaining (length (k_src k)))"
      show ?thesis
      proof (cases "n = 0")
        case True
        then show ?thesis
          using run pipe False SpMoved
          by (auto simp: pump_read_Moved splice_codes simp flip: n_def intro!: loops_post_end split: if_splits)
      next
        case nz: False
        have le: "n \<le> length (k_src k)" by (simp add: n_def)
        have "pump_write rest remaining n 0 (acc\<lparr>pa_in := pa_in acc + of_nat n\<rparr>) (move_in n k) =
            Some (why, acc', k', rest')"
          using run False SpMoved nz by (simp add: pump_read_Moved Let_def flip: n_def)
        moreover have "length (k_pipe (move_in n k)) = n - 0" using pipe le by simp
        ultimately have "loops_post 0 (acc\<lparr>pa_in := pa_in acc + of_nat n\<rparr>) (move_in n k) why acc' k'"
          using write_okD [OF assms(2)] by blast
        then show ?thesis using le pipe by (rule loops_post_read)
      qed
    qed
  qed
qed

lemma write_step:
  assumes "read_ok ((v, a) # rest)" "write_ok rest"
  shows "write_ok ((v, a) # rest)"
  unfolding write_ok_def
proof (intro allI impI)
  fix remaining to_send sent acc k why acc' k' rest'
  assume run: "pump_write ((v, a) # rest) remaining to_send sent acc k = Some (why, acc', k', rest')"
    and le: "sent \<le> to_send" and pipe: "length (k_pipe k) = to_send - sent"
  show "loops_post sent acc k why acc' k'"
  proof (cases "to_send \<le> sent")
    case True
    then show ?thesis by (rule write_full_ok [OF assms(1) run _ pipe])
  next
    case False
    then have lt: "sent < to_send" by simp
    show ?thesis
    proof (cases a)
      case (SpFail e)
      show ?thesis
      proof (cases "v \<and> e = EINTR")
        case True
        then have "pump_write rest remaining to_send sent acc k = Some (why, acc', k', rest')"
          using run lt SpFail by (simp add: pump_write_Fail)
        then show ?thesis using le pipe by (rule write_okD [OF assms(2)])
      qed (use run pipe lt SpFail in \<open>auto simp: pump_write_Fail split: if_splits intro!: loops_post_end\<close>)
    next
      case (SpMoved m)
      define n where "n = min m (min (to_send - sent) (length (k_pipe k)))"
      show ?thesis
      proof (cases "v \<and> n \<noteq> 0")
        case True
        have n: "n \<le> length (k_pipe k)" "sent + n \<le> to_send" using lt by (auto simp: n_def)
        have "pump_write rest remaining to_send (sent + n) (acc\<lparr>pa_out := pa_out acc + of_nat n\<rparr>) (move_out n k) =
            Some (why, acc', k', rest')"
          using run lt SpMoved True by (simp add: pump_write_Moved Let_def flip: n_def)
        moreover have "length (k_pipe (move_out n k)) = to_send - (sent + n)" using pipe by simp
        ultimately have "loops_post (sent + n) (acc\<lparr>pa_out := pa_out acc + of_nat n\<rparr>) (move_out n k) why acc' k'"
          using write_okD [OF assms(2)] n(2) by blast
        then show ?thesis using n(1) by (rule loops_post_write)
      next
        case False
        then show ?thesis
          using run lt SpMoved
          by (auto simp: pump_write_Moved Let_def simp flip: n_def split: if_splits intro!: loops_post_end)
      qed
    qed
  qed
qed

lemma pump_loops_ok: "read_ok ans \<and> write_ok ans"
proof (induction ans)
  case Nil
  have "read_ok []"
    unfolding read_ok_def
  proof (intro allI impI)
    fix remaining acc k why acc' k' rest
    assume "pump_read [] remaining acc k = Some (why, acc', k', rest)" "k_pipe k = []"
    then show "loops_post 0 acc k why acc' k'"
      by (cases "remaining = 0") (auto intro!: loops_post_end)
  qed
  moreover from this have "write_ok []"
    unfolding write_ok_def
  proof (intro allI impI)
    fix remaining to_send sent acc k why acc' k' rest
    assume r: "read_ok []" and
      a: "pump_write [] remaining to_send sent acc k = Some (why, acc', k', rest)" "sent \<le> to_send"
        "length (k_pipe k) = to_send - sent"
    then have full: "to_send \<le> sent" using pump_write_Nil [of sent to_send] by (cases "sent < to_send") auto
    then show "loops_post sent acc k why acc' k'" by (rule write_full_ok [OF r a(1) _ a(3)])
  qed
  ultimately show ?case by simp
next
  case (Cons va ans)
  obtain v a where "va = (v, a)" by (cases va)
  then show ?case using Cons read_step write_step by blast
qed

lemma pump_read_post:
  "pump_read ans remaining acc k = Some (why, acc', k', rest) \<Longrightarrow> k_pipe k = [] \<Longrightarrow>
   loops_post 0 acc k why acc' k'"
  using pump_loops_ok [of ans] unfolding read_ok_def by blast

text \<open>The exit for a VPN that is gone is taken only after a check that said so.\<close>

lemma vpn_exits:
  "(\<forall>remaining acc k acc' k' rest. pump_read ans remaining acc k = Some (PE_Vpn, acc', k', rest) \<longrightarrow> (\<exists>a. (False, a) \<in> set ans))
   \<and> (\<forall>remaining to_send sent acc k acc' k' rest. pump_write ans remaining to_send sent acc k = Some (PE_Vpn, acc', k', rest)
        \<longrightarrow> (\<exists>a. (False, a) \<in> set ans))"
proof (induction ans)
  case Nil
  have read: "pump_read [] remaining acc k \<noteq> Some (PE_Vpn, acc', k', rest)" for remaining acc k acc' k' rest
    by (cases remaining) simp_all
  have "pump_write [] remaining to_send sent acc k \<noteq> Some (PE_Vpn, acc', k', rest)" for remaining to_send sent acc k acc' k' rest
    using read by (cases "to_send \<le> sent") (simp_all add: pump_write_full pump_write_Nil)
  with read show ?case by blast
next
  case (Cons va ans)
  obtain v a where va: "va = (v, a)" by (cases va)
  have read: "\<exists>b. (False, b) \<in> set (va # ans)" if "pump_read (va # ans) remaining acc k = Some (PE_Vpn, acc', k', rest)"
    for remaining acc k acc' k' rest
  proof (cases "remaining = 0")
    case False
    have "\<exists>b. (False, b) \<in> set ans"
    proof (cases a)
      case (SpMoved m)
      with that False va have "\<exists>n acc1 k2. pump_write ans remaining n 0 acc1 k2 = Some (PE_Vpn, acc', k', rest)"
        by (auto simp: pump_read_Moved Let_def split: if_splits)
      then show ?thesis using Cons.IH by blast
    next
      case (SpFail e)
      with that False va have "pump_read ans remaining acc k = Some (PE_Vpn, acc', k', rest)"
        by (auto simp: pump_read_Fail split: if_splits)
      then show ?thesis using Cons.IH by blast
    qed
    then show ?thesis by auto
  qed (use that in simp)
  have "\<exists>b. (False, b) \<in> set (va # ans)" if run: "pump_write (va # ans) remaining to_send sent acc k = Some (PE_Vpn, acc', k', rest)"
    for remaining to_send sent acc k acc' k' rest
  proof (cases "to_send \<le> sent")
    case True
    then show ?thesis using run read by (simp add: pump_write_full)
  next
    case False
    have "\<exists>b. (False, b) \<in> set ans" if v: "v"
    proof (cases a)
      case (SpMoved m)
      with that False va run have "\<exists>n acc1 k2. pump_write ans remaining to_send n acc1 k2 = Some (PE_Vpn, acc', k', rest)"
        by (auto simp: pump_write_Moved Let_def split: if_splits)
      then show ?thesis using Cons.IH by blast
    next
      case (SpFail e)
      with that False va run have "pump_write ans remaining to_send sent acc k = Some (PE_Vpn, acc', k', rest)"
        by (auto simp: pump_write_Fail split: if_splits)
      then show ?thesis using Cons.IH by blast
    qed
    then show ?thesis using va by (cases v) auto
  qed
  with read show ?case by blast
qed

end
