(* ===== verification/Session_Closing.thy ===== *)
theory Session_Closing
  imports Session_Pump
begin

text \<open>
  Closing is final: no operation of \<open>src/session.c\<close> brings a session that is closing (or
  freed) back to a forwarding state.  Addresses are not reused, so that this can be
  said of an address.
\<close>

definition closed :: "nat \<Rightarrow> session_world \<Rightarrow> bool" where
  "closed s w \<longleftrightarrow> s < sw_next_addr w \<and> (\<forall>x. sw_sessions w s = Some x \<longrightarrow> SESSION_CLOSING \<le> ses_state x)"

lemma closed_set_session:
  "closed s w \<Longrightarrow> (t = s \<Longrightarrow> SESSION_CLOSING \<le> ses_state y) \<Longrightarrow> closed s (set_session t y w)"
  by (auto simp: closed_def set_session_def)

lemma closed_cong [simp]:
  "closed s (w\<lparr>sw_registry := a\<rparr>) = closed s w" "closed s (w\<lparr>sw_count := b\<rparr>) = closed s w"
  "closed s (w\<lparr>sw_gc := a\<rparr>) = closed s w" "closed s (w\<lparr>sw_reactor := r\<rparr>) = closed s w"
  "closed s (w\<lparr>sw_closed := c\<rparr>) = closed s w" "closed s (w\<lparr>sw_next_session_id := d\<rparr>) = closed s w"
  by (simp_all add: closed_def)

lemma closedD: "closed s w \<Longrightarrow> sw_sessions w s = Some x \<Longrightarrow> SESSION_CLOSING \<le> ses_state x"
  by (simp add: closed_def)

lemma set_state_closed:
  "session_set_state t d w = Some (ok, w') \<Longrightarrow> closed s w \<Longrightarrow> closed s w'"
  by (auto simp: session_set_state_def bind_eq_Some_conv not_less split: if_splits
      intro!: closed_set_session dest: closedD)

lemma get_closed: "atpd_session_get t w = Some w' \<Longrightarrow> closed s w \<Longrightarrow> closed s w'"
  by (auto simp: atpd_session_get_def bind_eq_Some_conv split: if_splits
      intro!: closed_set_session dest: closedD)

lemma destroy_internal_closed:
  "atpd_session_destroy_internal t w = Some w' \<Longrightarrow> closed s w \<Longrightarrow> closed s w'"
  by (auto simp: atpd_session_destroy_internal_def bind_eq_Some_conv closed_def split: if_splits)

lemma put_closed: "atpd_session_put t w = Some w' \<Longrightarrow> closed s w \<Longrightarrow> closed s w'"
  by (auto simp: atpd_session_put_def bind_eq_Some_conv Let_def split: if_splits
      intro!: closed_set_session dest: closedD elim!: destroy_internal_closed)

lemma run_free_calls_closed: "run_free_calls cs w = Some w' \<Longrightarrow> closed s w \<Longrightarrow> closed s w'"
proof (induction cs arbitrary: w)
  case (Cons c cs)
  then show ?case
    by (cases c) (auto simp: bind_eq_Some_conv session_free_cb_def split: if_splits option.splits
        dest: put_closed)
qed simp

lemma registry_remove_closed: "session_registry_remove t w = Some w' \<Longrightarrow> closed s w \<Longrightarrow> closed s w'"
  by (auto simp: session_registry_remove_def bind_eq_Some_conv split: if_splits
      elim!: put_closed intro!: closed_set_session dest: closedD)

lemma gc_enqueue_closed: "atpd_session_gc_enqueue t w = Some w' \<Longrightarrow> closed s w \<Longrightarrow> closed s w'"
proof -
  assume run: "atpd_session_gc_enqueue t w = Some w'" and c: "closed s w"
  obtain x where x: "sw_sessions w t = Some x"
    using run by (auto simp: atpd_session_gc_enqueue_def bind_eq_Some_conv)
  show ?thesis
  proof (cases "ses_gc_enqueued x")
    case True
    then show ?thesis using run c x by (simp add: atpd_session_gc_enqueue_def)
  next
    case False
    obtain w1 ok w2 where w1: "atpd_session_get t (set_session t (x\<lparr>ses_gc_enqueued := True\<rparr>) w) = Some w1"
        and w2: "session_set_state t SESSION_DESTROY_PENDING w1 = Some (ok, w2)"
      using run x False by (auto simp: atpd_session_gc_enqueue_def bind_eq_Some_conv)
    have "closed s (set_session t (x\<lparr>ses_gc_enqueued := True\<rparr>) w)"
      using c x by (auto intro!: closed_set_session dest: closedD)
    then have c2: "closed s w2"
      using w1 w2 get_closed set_state_closed by blast
    show ?thesis
    proof (cases ok)
      case True
      then have "w' = w2\<lparr>sw_gc := sw_gc w2 @ [t]\<rparr>"
        using run x False w1 w2 by (simp add: atpd_session_gc_enqueue_def)
      then show ?thesis using c2 by simp
    next
      case nok: False
      then obtain x2 where "sw_sessions w2 t = Some x2"
          "atpd_session_put t (set_session t (x2\<lparr>ses_gc_enqueued := False\<rparr>) w2) = Some w'"
        using run x False w1 w2 by (auto simp: atpd_session_gc_enqueue_def bind_eq_Some_conv)
      then show ?thesis
        using c2 by (auto elim!: put_closed intro!: closed_set_session dest: closedD)
    qed
  qed
qed

lemma remove_fd_closed: "remove_session_fd fd w = Some w' \<Longrightarrow> closed s w \<Longrightarrow> closed s w'"
  by (auto simp: remove_session_fd_def split: prod.splits elim!: run_free_calls_closed)

text \<open>The branch of \<open>atpd_session_mark_closing\<close> for a session that is still open.\<close>

lemma mark_closing_open:
  assumes "atpd_session_get t w = Some w1" "sw_sessions w1 t = Some x" "\<not> SESSION_CLOSING \<le> ses_state x"
  shows "atpd_session_mark_closing t w = do {
       w2 \<leftarrow> session_registry_remove t (set_session t (x\<lparr>ses_state := SESSION_CLOSING\<rparr>) w1);
       x2 \<leftarrow> sw_sessions w2 t;
       w3 \<leftarrow> (if ses_has_reactor x2 then do {
                a \<leftarrow> remove_session_fd (ses_fd_in x2) w2;
                x3 \<leftarrow> sw_sessions a t;
                remove_session_fd (ses_fd_out x3) a
              } else Some w2);
       w4 \<leftarrow> atpd_session_gc_enqueue t w3;
       atpd_session_put t w4
     }"
  using assms by (simp add: atpd_session_mark_closing_def)

lemma mark_closing_closed:
  assumes "atpd_session_mark_closing t w = Some w'" "closed s w \<or> s = t \<and> t < sw_next_addr w"
  shows "closed s w'"
proof -
  obtain w1 x where w1: "atpd_session_get t w = Some w1" and x: "sw_sessions w1 t = Some x"
    using assms(1) by (auto simp: atpd_session_mark_closing_def bind_eq_Some_conv)
  have n1: "sw_next_addr w1 = sw_next_addr w"
    using w1 by (auto simp: atpd_session_get_def bind_eq_Some_conv set_session_def split: if_splits)
  have c1: "closed s w1 \<or> s = t \<and> t < sw_next_addr w1"
    using assms(2) get_closed [OF w1] n1 by auto
  show ?thesis
  proof (cases "SESSION_CLOSING \<le> ses_state x")
    case True
    then have "atpd_session_put t w1 = Some w'"
      using assms(1) w1 x by (simp add: atpd_session_mark_closing_def)
    moreover have "closed s w1" using c1 True x by (auto simp: closed_def)
    ultimately show ?thesis by (rule put_closed)
  next
    case False
    let ?w = "set_session t (x\<lparr>ses_state := SESSION_CLOSING\<rparr>) w1"
    obtain w2 x2 w3 w4 where w2: "session_registry_remove t ?w = Some w2" "sw_sessions w2 t = Some x2"
      and w3: "(if ses_has_reactor x2 then do {
                a \<leftarrow> remove_session_fd (ses_fd_in x2) w2;
                x3 \<leftarrow> sw_sessions a t;
                remove_session_fd (ses_fd_out x3) a
              } else Some w2) = Some w3"
      and w4: "atpd_session_gc_enqueue t w3 = Some w4" "atpd_session_put t w4 = Some w'"
      using assms(1) unfolding mark_closing_open [OF w1 x False] by (elim bind_SomeE) (rule that)
    have "closed s ?w" using c1 x by (auto simp: closed_def set_session_def)
    then have "closed s w2" by (rule registry_remove_closed [OF w2(1)])
    then have "closed s w3"
      using w3 by (auto simp: bind_eq_Some_conv split: if_splits dest: remove_fd_closed)
    then show ?thesis using w4 gc_enqueue_closed put_closed by blast
  qed
qed

lemma emergency_drain_closed:
  assumes "emergency_drain t w = Some w'" "closed s w"
  shows "closed s w'"
proof -
  obtain x where x: "sw_sessions w t = Some x"
    using assms(1) by (auto simp: emergency_drain_def bind_eq_Some_conv)
  let ?w = "set_session t (drained_record x) (w\<lparr>sw_closed := sw_closed w @ safe_close_all [ses_pipe0 x, ses_pipe1 x]\<rparr>)"
  have c: "closed s ?w"
    using assms(2) x by (auto intro!: closed_set_session dest: closedD simp: drained_record_def)
  have "w' = w \<or> w' = ?w \<or> atpd_session_mark_closing t ?w = Some w'"
    using assms(1) x by (simp add: emergency_drain_def Let_def split: if_splits)
  then show ?thesis
    using assms(2) c mark_closing_closed [of t ?w w' s] by auto
qed

text \<open>What is closed stays closed from one world to the next.\<close>

definition keeps :: "session_world \<Rightarrow> session_world \<Rightarrow> bool" where
  "keeps w w' \<longleftrightarrow> (\<forall>s. closed s w \<longrightarrow> closed s w')"

lemma ses_keeps_refl [simp]: "keeps w w"
  by (simp add: keeps_def)

lemma ses_keeps_trans: "keeps a b \<Longrightarrow> keeps b c \<Longrightarrow> keeps a c"
  by (simp add: keeps_def)

lemma keeps_reactor [simp]: "keeps w (w'\<lparr>sw_reactor := r\<rparr>) = keeps w w'" "keeps (w\<lparr>sw_reactor := r\<rparr>) w' = keeps w w'"
  by (simp_all add: keeps_def)

lemma get_keeps: "atpd_session_get t w = Some w' \<Longrightarrow> keeps w w'"
  using get_closed by (auto simp: keeps_def)

lemma put_keeps: "atpd_session_put t w = Some w' \<Longrightarrow> keeps w w'"
  using put_closed by (auto simp: keeps_def)

lemma set_state_keeps: "session_set_state t d w = Some (ok, w') \<Longrightarrow> keeps w w'"
  using set_state_closed by (auto simp: keeps_def)

lemma remove_fd_keeps: "remove_session_fd fd w = Some w' \<Longrightarrow> keeps w w'"
  using remove_fd_closed by (auto simp: keeps_def)

lemma mark_closing_keeps: "atpd_session_mark_closing t w = Some w' \<Longrightarrow> keeps w w'"
  using mark_closing_closed by (auto simp: keeps_def)

lemma emergency_drain_keeps: "emergency_drain t w = Some w' \<Longrightarrow> keeps w w'"
  using emergency_drain_closed by (auto simp: keeps_def)

lemma update_keeps:
  "sw_sessions w t = Some x \<Longrightarrow> ses_state y = ses_state x \<Longrightarrow> keeps w (set_session t y w)"
  by (auto simp: keeps_def intro!: closed_set_session dest: closedD)

lemma add_fd_keeps: "add_session_fd ans fd cb t w = Some (rc, w') \<Longrightarrow> keeps w w'"
  by (auto simp: keeps_def add_session_fd_def split: prod.splits elim!: run_free_calls_closed)

lemma add_bytes_state [simp]: "ses_state (add_bytes acc x) = ses_state x" "ses_state (add_bytes_out n x) = ses_state x"
  by (simp_all add: add_bytes_def add_bytes_out_def)

lemma register_keeps:
  assumes "atpd_session_register a b t w = Some (rc, w')"
  shows "keeps w w'"
  using assms unfolding atpd_session_register_def
  by (auto split: if_splits elim!: bind_SomeE
       dest!: get_keeps add_fd_keeps put_keeps remove_fd_keeps set_state_keeps mark_closing_keeps)
     (blast intro: ses_keeps_trans)+

lemma set_out_events_keeps: "set_out_events ctl ev a b t w = Some (rc, w') \<Longrightarrow> keeps w w'"
  unfolding set_out_events_def
  by (auto split: if_splits prod.splits elim!: bind_SomeE dest!: mark_closing_keeps)

text \<open>Every end of the drain loop sets a state of an updated session and may then set the events.\<close>

lemma drain_finish_shape:
  assumes "drain_finish ctl t p why sent w = Some (rc, w')"
  obtains x y d ok w1 where "sw_sessions w t = Some x" "ses_state y = ses_state x"
    "y = (add_bytes_out sent x)\<lparr>ses_pipe_pending := ses_pipe_pending y\<rparr>"
    "d = SESSION_PIPE_DIRTY \<or> d = SESSION_ACTIVE"
    "session_set_state t d (set_session t y w) = Some (ok, w1)"
    "w' = w1 \<or> (\<exists>ev a b. set_out_events ctl ev a b t w1 = Some (rc, w'))"
proof -
  obtain x where x: "sw_sessions w t = Some x" using assms by (auto simp: drain_finish_def elim: bind_SomeE)
  show ?thesis
  proof (cases why)
    case (LoopFail e)
    then show ?thesis
      using assms x that [of x "(add_bytes_out sent x)\<lparr>ses_pipe_pending := p - sent\<rparr>"] that [of x "add_bytes_out sent x"]
      by (cases "e = EAGAIN") (auto simp: drain_finish_def Let_def elim!: bind_SomeE split: if_splits, metis+)
  next
    case LoopDone
    then show ?thesis
      using assms x that [of x "(add_bytes_out sent x)\<lparr>ses_pipe_pending := 0\<rparr>"]
      by (auto simp: drain_finish_def Let_def elim!: bind_SomeE split: if_splits, metis+)
  next
    case LoopZero
    then show ?thesis
      using assms x that [of x "(add_bytes_out sent x)\<lparr>ses_pipe_pending := 0\<rparr>"]
      by (auto simp: drain_finish_def Let_def elim!: bind_SomeE split: if_splits, metis+)
  qed
qed

lemma drain_finish_keeps:
  assumes "drain_finish ctl t p why sent w = Some (rc, w')"
  shows "keeps w w'"
proof (rule drain_finish_shape [OF assms(1)])
  fix x y d ok w1
  assume a: "sw_sessions w t = Some x" "ses_state y = ses_state x"
    "session_set_state t d (set_session t y w) = Some (ok, w1)"
    "w' = w1 \<or> (\<exists>ev a b. set_out_events ctl ev a b t w1 = Some (rc, w'))"
  have "keeps w w1" by (rule ses_keeps_trans [OF update_keeps [OF a(1,2)] set_state_keeps [OF a(3)]])
  then show ?thesis using a(4) set_out_events_keeps ses_keeps_trans by blast
qed

lemma drain_pipe_keeps:
  assumes "atpd_session_drain_pipe ctl ans t k w = Some (rc, k', rest, w')"
  shows "keeps w w'"
  using assms unfolding atpd_session_drain_pipe_def
  by (auto split: if_splits elim!: bind_SomeE dest!: set_state_keeps drain_finish_keeps)
     (blast intro: ses_keeps_trans)

lemma pump_finish_keeps:
  assumes "pump_finish ctl now t why acc w = Some (rc, w')"
  shows "keeps w w'"
proof (cases why)
  case PE_Vpn
  then obtain w1 w2 where w12: "atpd_session_mark_closing t w = Some w1" "emergency_drain t w1 = Some w2"
    and w': "w' = w2 \<or> (\<exists>x. sw_sessions w2 t = Some x \<and> w' = set_session t (add_bytes acc x) w2)"
    using assms(1) by (auto simp: pump_finish_def split: if_splits elim!: bind_SomeE)
  have "keeps w w2" by (rule ses_keeps_trans [OF mark_closing_keeps [OF w12(1)] emergency_drain_keeps [OF w12(2)]])
  moreover have "keeps w2 w'" using w' by (auto intro: update_keeps)
  ultimately show ?thesis by (rule ses_keeps_trans)
next
  case (PE_Again sent to_send)
  obtain x where x: "sw_sessions w t = Some x"
    using assms(1) PE_Again by (auto simp: pump_finish_def elim!: bind_SomeE)
  obtain ok w1 where
    w1: "session_set_state t SESSION_PIPE_DIRTY (set_session t (x\<lparr>ses_pipe_pending := to_send - sent\<rparr>) w) = Some (ok, w1)"
    using assms(1) PE_Again x by (auto simp: pump_finish_def elim!: bind_SomeE)
  have k1: "keeps w w1"
    by (rule ses_keeps_trans [OF update_keeps [OF x] set_state_keeps [OF w1]]) simp
  have "keeps w1 w'"
    using assms(1) PE_Again x w1
    by (auto simp: pump_finish_def split: if_splits elim!: bind_SomeE dest!: set_out_events_keeps)
       (metis add_bytes_state(1) ses_keeps_trans update_keeps)
  with k1 show ?thesis by (rule ses_keeps_trans)
next
  case (PE_Pipe sent to_send)
  obtain x where x: "sw_sessions w t = Some x"
    using assms(1) PE_Pipe by (auto simp: pump_finish_def elim!: bind_SomeE)
  obtain ok w1 where
    w1: "session_set_state t SESSION_PIPE_DIRTY (set_session t (x\<lparr>ses_pipe_pending := to_send - sent\<rparr>) w) = Some (ok, w1)"
    using assms(1) PE_Pipe x by (auto simp: pump_finish_def elim!: bind_SomeE)
  have k1: "keeps w w1"
    by (rule ses_keeps_trans [OF update_keeps [OF x] set_state_keeps [OF w1]]) simp
  have "keeps w1 w'"
    using assms(1) PE_Pipe x w1
    by (auto simp: pump_finish_def split: if_splits elim!: bind_SomeE intro: update_keeps)
  with k1 show ?thesis by (rule ses_keeps_trans)
qed (use assms update_keeps [of w t] in
      \<open>auto simp: pump_finish_def split: if_splits elim!: bind_SomeE\<close>)

lemma splice_pump_keeps:
  assumes "atpd_session_splice_pump v ctl now ans t n k w = Some (rc, k', rest, w')"
  shows "keeps w w'"
  using assms unfolding atpd_session_splice_pump_def
  by (auto split: if_splits elim!: bind_SomeE dest: pump_finish_keeps)

lemma close_and_put_keeps: "close_and_put t k w = Some (k', w') \<Longrightarrow> keeps w w'"
  by (auto simp: close_and_put_def elim!: bind_SomeE dest!: mark_closing_keeps put_keeps intro: ses_keeps_trans)

lemma only_put_keeps: "only_put t k w = Some (k', w') \<Longrightarrow> keeps w w'"
  by (auto simp: only_put_def dest!: put_keeps)

lemma in_cb_keeps:
  assumes "session_in_cb env ev ud k w = Some (k', w')"
  shows "keeps w w'"
  using assms unfolding session_in_cb_def
  by (auto split: option.splits if_splits elim!: bind_SomeE
      dest!: get_keeps close_and_put_keeps only_put_keeps drain_pipe_keeps splice_pump_keeps)
     (blast intro: ses_keeps_trans)+

lemma out_cb_keeps:
  assumes "session_out_cb env ev ud k w = Some (k', w')"
  shows "keeps w w'"
  using assms unfolding session_out_cb_def
  by (auto split: option.splits if_splits elim!: bind_SomeE
      dest!: get_keeps close_and_put_keeps only_put_keeps drain_pipe_keeps)
     (blast intro: ses_keeps_trans)+

lemma gc_puts_keeps: "gc_puts ts w = Some w' \<Longrightarrow> keeps w w'"
  by (induction ts arbitrary: w) (auto elim!: bind_SomeE dest!: put_keeps intro: ses_keeps_trans)

lemma gc_process_keeps: "atpd_session_gc_process w = Some w' \<Longrightarrow> keeps w w'"
  unfolding atpd_session_gc_process_def by (drule gc_puts_keeps) (simp add: keeps_def)

lemma gets_keeps: "session_gets ts w = Some w' \<Longrightarrow> keeps w w'"
  by (induction ts arbitrary: w) (auto elim!: bind_SomeE dest!: get_keeps intro: ses_keeps_trans)

lemma drain_each_keeps: "drain_each ts w = Some w' \<Longrightarrow> keeps w w'"
proof (induction ts arbitrary: w)
  case (Cons t ts)
  obtain w1 w2 where "w1 = w \<or> emergency_drain t w = Some w1" "atpd_session_put t w1 = Some w2"
      "drain_each ts w2 = Some w'"
    using Cons.prems by (auto elim!: bind_SomeE split: if_splits, blast+)
  then show ?case
    using Cons.IH ses_keeps_trans emergency_drain_keeps put_keeps by (metis ses_keeps_refl)
qed simp

lemma drain_all_keeps: "atpd_session_emergency_drain_all a w = Some w' \<Longrightarrow> keeps w w'"
  by (auto simp: atpd_session_emergency_drain_all_def Let_def split: if_splits elim!: bind_SomeE
      dest!: gets_keeps drain_each_keeps intro: ses_keeps_trans)

lemma create_keeps:
  assumes "atpd_session_create alloc now p r i j w = Some (h, w')"
  shows "keeps w w'"
proof (cases "alloc \<and> p \<noteq> None")
  case True
  let ?w1 = "w\<lparr>sw_next_addr := sw_next_addr w + 1, sw_next_session_id := sw_next_session_id w + 1\<rparr>"
  obtain x w3 where w3: "atpd_session_get (sw_next_addr w) (set_session (sw_next_addr w) x ?w1) = Some w3"
      "session_registry_add (sw_next_addr w) w3 = Some w'"
    using assms True by (auto simp: atpd_session_create_def Let_def elim!: bind_SomeE)
  have "keeps w (set_session (sw_next_addr w) x ?w1)"
    by (auto simp: keeps_def closed_def set_session_def)
  then have k3: "keeps w w3" using get_keeps [OF w3(1)] ses_keeps_trans by blast
  obtain y where y: "sw_sessions w3 (sw_next_addr w) = Some y" and
    w': "w' = set_session (sw_next_addr w) (y\<lparr>ses_registered := True\<rparr>)
       (w3\<lparr>sw_registry := sw_next_addr w # sw_registry w3, sw_count := sw_count w3 + 1\<rparr>)"
    using w3(2) by (auto simp: session_registry_add_def elim!: bind_SomeE)
  have "keeps w3 w'" using y unfolding w' by (auto simp: keeps_def closed_def set_session_def)
  with k3 show ?thesis by (rule ses_keeps_trans)
next
  case False
  then show ?thesis
    using assms by (auto simp: atpd_session_create_def keeps_def closed_def Let_def split: if_splits option.splits)
qed

subsection \<open>Histories\<close>

text \<open>The calls into the module, with the kernel's answers and the kernel queues of the session's
  fds.\<close>

datatype session_op =
    OpCreate bool u64 "(fd \<times> fd) option" bool fd fd
  | OpGet nat
  | OpPut nat
  | OpClose nat
  | OpRegister "bool \<times> bool" "bool \<times> bool" nat
  | OpIn session_env u32 nat splice_kernel
  | OpOut session_env u32 nat splice_kernel
  | OpGc
  | OpDrainAll bool

fun session_step :: "session_op \<Rightarrow> session_world \<Rightarrow> session_world option" where
  "session_step (OpCreate a n p r i j) w = map_option snd (atpd_session_create a n p r i j w)"
| "session_step (OpGet s) w = atpd_session_get s w"
| "session_step (OpPut s) w = atpd_session_put s w"
| "session_step (OpClose s) w = atpd_session_destroy s w"
| "session_step (OpRegister a b s) w = map_option snd (atpd_session_register a b s w)"
| "session_step (OpIn env ev s k) w = map_option snd (session_in_cb env ev (Some s) k w)"
| "session_step (OpOut env ev s k) w = map_option snd (session_out_cb env ev (Some s) k w)"
| "session_step OpGc w = atpd_session_gc_process w"
| "session_step (OpDrainAll a) w = atpd_session_emergency_drain_all a w"

fun session_steps :: "session_op list \<Rightarrow> session_world \<Rightarrow> session_world option" where
  "session_steps [] w = Some w"
| "session_steps (op # ops) w = Option.bind (session_step op w) (session_steps ops)"

lemma step_keeps: "session_step op w = Some w' \<Longrightarrow> keeps w w'"
  by (cases op)
     (auto simp: atpd_session_destroy_def dest: create_keeps get_keeps put_keeps mark_closing_keeps
       register_keeps in_cb_keeps out_cb_keeps gc_process_keeps drain_all_keeps)

lemma steps_keeps: "session_steps ops w = Some w' \<Longrightarrow> keeps w w'"
  by (induction ops arbitrary: w) (auto elim!: bind_SomeE dest!: step_keeps intro: ses_keeps_trans)

definition session_world0 :: session_world where
  "session_world0 = \<lparr>sw_sessions = (\<lambda>_. None), sw_registry = [], sw_count = 0, sw_gc = [],
     sw_reactor = reactor_zero, sw_next_addr = 0, sw_next_session_id = 1, sw_closed = []\<rparr>"

text \<open>C12: closing is final.  Once a session has been closed, no sequence of calls into the module,
  callbacks, registrations and emergency drains included, and whatever the kernel answers, makes it
  IDLE, ACTIVE, PIPE_DIRTY or DRAINING again; the pump refuses it.\<close>

theorem session_closing_is_final:
  assumes "atpd_session_destroy s w = Some w1" "s < sw_next_addr w"
    and "session_steps ops w1 = Some w2" "sw_sessions w2 s = Some x"
  shows "ses_state x \<in> {SESSION_CLOSING, SESSION_DESTROY_PENDING, SESSION_DESTROYED}
    \<and> atpd_session_splice_pump True ctl_ok now ans s max_len k w2 = Some (ATPD_SPLICE_ERROR, k, ans, w2)"
proof -
  have "closed s w1"
    using mark_closing_closed [of s w w1 s] assms(1,2) by (simp add: atpd_session_destroy_def)
  then have "closed s w2" using steps_keeps [OF assms(3)] by (simp add: keeps_def)
  then have c: "SESSION_CLOSING \<le> ses_state x" using assms(4) by (rule closedD)
  then have "ses_state x \<in> {SESSION_CLOSING, SESSION_DESTROY_PENDING, SESSION_DESTROYED}"
    by (cases "ses_state x") (simp_all add: state_order)
  with c assms(4) show ?thesis by (simp add: atpd_session_splice_pump_def)
qed

theorem session_closing_is_final_witness:
  "\<exists>w1 w2 x. session_steps [OpCreate True 5 (Some (20, 21)) True 10 11] session_world0 = Some w1
     \<and> Option.bind (atpd_session_destroy 0 w1) (session_steps [OpGc]) = Some w2
     \<and> sw_sessions w2 0 = Some x \<and> ses_state x = SESSION_DESTROY_PENDING
     \<and> atpd_session_splice_pump True True 0 [] 0 10 (k_empty []) w2 =
         Some (ATPD_SPLICE_ERROR, k_empty [], [], w2)"
proof -
  let ?x = "\<lparr>ses_session_id = 1, ses_fd_in = 10, ses_fd_out = 11, ses_pipe0 = 20, ses_pipe1 = 21,
     ses_state = SESSION_IDLE, ses_destroy_started = False, ses_gc_enqueued = False,
     ses_emergency_drained = False, ses_ref_count = 2, ses_pipe_pending = 0, ses_bytes_in = 0,
     ses_bytes_out = 0, ses_created_at = 5, ses_last_active_at = 5, ses_has_reactor = True,
     ses_registered = True\<rparr>"
  let ?w1 = "session_world0\<lparr>sw_sessions := [0 \<mapsto> ?x], sw_registry := [0], sw_count := 1,
     sw_next_addr := 1, sw_next_session_id := 2\<rparr>"
  have create: "session_steps [OpCreate True 5 (Some (20, 21)) True 10 11] session_world0 = Some ?w1"
    by (simp add: atpd_session_create_def session_world0_def Let_def set_session_def atpd_session_get_def
        session_registry_add_def numeral_2_eq_2)
  have "\<exists>w w2 x. atpd_session_destroy 0 ?w1 = Some w \<and> session_steps [OpGc] w = Some w2
      \<and> sw_sessions w2 0 = Some x \<and> ses_state x = SESSION_DESTROY_PENDING"
    by (simp add: atpd_session_destroy_def atpd_session_mark_closing_def atpd_session_get_def set_session_def
        session_registry_remove_def atpd_session_put_def remove_session_fd_def reactor_remove_fd_def
        session_world0_def reactor_zero_def fd_in_range_def REACTOR_MAX_FD_def atpd_session_gc_enqueue_def
        session_set_state_def atpd_session_gc_process_def state_order Let_def)
  then obtain w w2 x where run: "atpd_session_destroy 0 ?w1 = Some w" "session_steps [OpGc] w = Some w2"
      "sw_sessions w2 0 = Some x" "ses_state x = SESSION_DESTROY_PENDING" by blast
  have lt: "0 < sw_next_addr ?w1" by simp
  have "atpd_session_splice_pump True True 0 [] 0 10 (k_empty []) w2 =
      Some (ATPD_SPLICE_ERROR, k_empty [], [], w2)"
    using session_closing_is_final [OF run(1) lt run(2,3)] by blast
  then show ?thesis
    using create run by (intro exI [of _ ?w1] exI [of _ w2] exI [of _ x]) simp
qed

subsection \<open>The result of the pump\<close>

lemma set_state_open:
  "session_set_state t d w = Some (True, w') \<Longrightarrow> sw_sessions w t = Some x \<Longrightarrow>
   w' = set_session t (x\<lparr>ses_state := d\<rparr>) w"
  by (auto simp: session_set_state_def split: if_splits)

lemma set_out_events_state:
  assumes "set_out_events ctl ev a b t w = Some (rc, w')" "sw_sessions w t = Some x" "t < sw_next_addr w"
  shows "closed t w' \<and> rc = b \<or> sw_sessions w' t = Some x \<and> rc = a"
proof -
  have "w' = w \<and> rc = a \<or> (\<exists>r. w' = w\<lparr>sw_reactor := r\<rparr>) \<and> rc = a
      \<or> (\<exists>r. atpd_session_mark_closing t (w\<lparr>sw_reactor := r\<rparr>) = Some w') \<and> rc = b"
    using assms(1,2) unfolding set_out_events_def
    by (auto split: if_splits prod.splits elim!: bind_SomeE)
  then show ?thesis
    using assms(2,3) mark_closing_closed [of t _ w' t] by fastforce
qed

text \<open>The exit for a write that would block, up to its last step.\<close>

lemma pump_finish_again:
  assumes "pump_finish ctl now t (PE_Again sent to_send) acc w = Some (rc, w')" "sw_sessions w t = Some x"
    and "\<not> SESSION_CLOSING \<le> ses_state x"
  defines "y \<equiv> x\<lparr>ses_pipe_pending := to_send - sent, ses_state := SESSION_PIPE_DIRTY\<rparr>"
  shows "set_out_events ctl (REACTOR_EVENT_READ OR REACTOR_EVENT_WRITE OR REACTOR_EVENT_EDGE)
      (int (pa_moved acc + sent)) ATPD_SPLICE_ERROR t (set_session t (add_bytes (late sent acc) y)
        (set_session t y (set_session t (x\<lparr>ses_pipe_pending := to_send - sent\<rparr>) w))) = Some (rc, w')"
  using assms by (simp add: pump_finish_def session_set_state_def set_session_def)

text \<open>What a positive result of the exits says, unless the exit closed the session.\<close>

lemma pump_finish_result:
  assumes "pump_finish ctl now t why acc w = Some (rc, w')" "sw_sessions w t = Some x"
    and "t < sw_next_addr w" "\<not> SESSION_CLOSING \<le> ses_state x" "0 < rc" "\<forall>c. why = PE_Read c \<longrightarrow> c < 0"
  shows "closed t w' \<or>
    (\<exists>n x'. end_sent why = Some n \<and> rc = int (pa_moved acc + n) \<and> sw_sessions w' t = Some x'
       \<and> (\<forall>p. end_pending why = Some p \<and> ses_state x' = SESSION_PIPE_DIRTY \<and> ses_state x \<noteq> SESSION_PIPE_DIRTY
             \<longrightarrow> ses_pipe_pending x' = p)
       \<and> ses_bytes_in x' = ses_bytes_in x + pa_in acc
       \<and> ses_bytes_out x' = ses_bytes_out x + pa_out acc + of_nat n)"
proof (cases why)
  case PE_Vpn
  then obtain w1 w2 where w12: "atpd_session_mark_closing t w = Some w1" "emergency_drain t w1 = Some w2"
    and w': "w' = w2 \<or> (\<exists>x. sw_sessions w2 t = Some x \<and> w' = set_session t (add_bytes acc x) w2)"
    using assms(1) by (auto simp: pump_finish_def split: if_splits elim!: bind_SomeE)
  have "closed t w1" using mark_closing_closed [OF w12(1)] assms(3) by blast
  then have "closed t w2" by (rule emergency_drain_closed [OF w12(2)])
  moreover have "keeps w2 w'" using w' by (auto intro: update_keeps)
  ultimately show ?thesis by (simp add: keeps_def)
next
  case (PE_Again sent to_send)
  from set_out_events_state [OF pump_finish_again [OF assms(1) [unfolded PE_Again] assms(2,4)]] assms(3,5) show ?thesis
    using PE_Again by (auto simp: set_session_def splice_codes add_bytes_def late_def)
next
  case (PE_Pipe sent to_send)
  then show ?thesis
    using assms(1,2,4,5)
    by (auto simp: pump_finish_def session_set_state_def set_session_def splice_codes add_bytes_def late_def
        split: if_splits)
qed (use assms in \<open>auto simp: pump_finish_def set_session_def splice_codes add_bytes_def late_def
       elim!: bind_SomeE split: if_splits\<close>)

text \<open>Only an emergency drain closes the pipe of a session that is not freed.\<close>

definition pipes_kept :: "session_world \<Rightarrow> session_world \<Rightarrow> bool" where
  "pipes_kept w w' \<longleftrightarrow> (\<forall>s x'. sw_sessions w' s = Some x' \<longrightarrow> (\<exists>x. sw_sessions w s = Some x \<and> ses_pipe0 x' = ses_pipe0 x))"

lemma pipes_kept_refl [simp]: "pipes_kept w w"
  by (simp add: pipes_kept_def)

lemma pipes_kept_trans: "pipes_kept a b \<Longrightarrow> pipes_kept b c \<Longrightarrow> pipes_kept a c"
  unfolding pipes_kept_def by (metis (no_types, lifting))

lemma pipes_kept_cong [simp]:
  "pipes_kept w (w'\<lparr>sw_registry := a\<rparr>) = pipes_kept w w'" "pipes_kept w (w'\<lparr>sw_count := b\<rparr>) = pipes_kept w w'"
  "pipes_kept w (w'\<lparr>sw_gc := a\<rparr>) = pipes_kept w w'" "pipes_kept w (w'\<lparr>sw_reactor := r\<rparr>) = pipes_kept w w'"
  "pipes_kept w (w'\<lparr>sw_closed := c\<rparr>) = pipes_kept w w'" "pipes_kept (w\<lparr>sw_reactor := r\<rparr>) w' = pipes_kept w w'"
  by (simp_all add: pipes_kept_def)

lemma pipes_kept_set:
  "pipes_kept w w' \<Longrightarrow> sw_sessions w' t = Some x \<Longrightarrow> ses_pipe0 y = ses_pipe0 x \<Longrightarrow> pipes_kept w (set_session t y w')"
  by (auto simp: pipes_kept_def set_session_def)

lemma get_pipes: "atpd_session_get t w = Some w' \<Longrightarrow> pipes_kept w w'"
  by (auto simp: atpd_session_get_def pipes_kept_def set_session_def elim!: bind_SomeE split: if_splits)

lemma put_pipes:
  assumes "atpd_session_put t w = Some w'"
  shows "pipes_kept w w'"
proof -
  obtain x where x: "sw_sessions w t = Some x" using assms by (auto simp: atpd_session_put_def elim: bind_SomeE)
  then show ?thesis
    using assms by (auto simp: atpd_session_put_def atpd_session_destroy_internal_def Let_def pipes_kept_def set_session_def
        split: if_splits)
qed

lemma set_state_pipes: "session_set_state t d w = Some (ok, w') \<Longrightarrow> pipes_kept w w'"
  by (auto simp: session_set_state_def pipes_kept_def set_session_def elim!: bind_SomeE split: if_splits)

lemma run_free_calls_pipes: "run_free_calls cs w = Some w' \<Longrightarrow> pipes_kept w w'"
proof (induction cs arbitrary: w)
  case (Cons c cs)
  then show ?case
    by (cases c) (auto simp: session_free_cb_def elim!: bind_SomeE split: if_splits option.splits
        dest: put_pipes intro: pipes_kept_trans)
qed simp

lemma registry_remove_pipes:
  assumes "session_registry_remove t w = Some w'"
  shows "pipes_kept w w'"
proof -
  obtain x where x: "sw_sessions w t = Some x" using assms by (auto simp: session_registry_remove_def elim: bind_SomeE)
  let ?w = "set_session t (x\<lparr>ses_registered := False\<rparr>) (w\<lparr>sw_registry := remove1 t (sw_registry w),
    sw_count := (if 0 < sw_count w then sw_count w - 1 else sw_count w)\<rparr>)"
  have "pipes_kept w ?w" using x by (auto simp: pipes_kept_def set_session_def)
  moreover have "w' = w \<or> atpd_session_put t ?w = Some w'"
    using assms x by (auto simp: session_registry_remove_def split: if_splits)
  ultimately show ?thesis using put_pipes [of t ?w w'] pipes_kept_trans [of w ?w w'] by auto
qed

lemma gc_enqueue_pipes:
  assumes "atpd_session_gc_enqueue t w = Some w'"
  shows "pipes_kept w w'"
proof -
  obtain x where x: "sw_sessions w t = Some x" using assms by (auto simp: atpd_session_gc_enqueue_def elim: bind_SomeE)
  show ?thesis
  proof (cases "ses_gc_enqueued x")
    case False
    let ?w = "set_session t (x\<lparr>ses_gc_enqueued := True\<rparr>) w"
    obtain w1 ok w2 where w1: "atpd_session_get t ?w = Some w1" and w2: "session_set_state t SESSION_DESTROY_PENDING w1 = Some (ok, w2)"
      using assms x False by (auto simp: atpd_session_gc_enqueue_def elim!: bind_SomeE)
    have "pipes_kept w ?w" by (rule pipes_kept_set [OF pipes_kept_refl x]) simp
    then have k2: "pipes_kept w w2" using get_pipes [OF w1] set_state_pipes [OF w2] pipes_kept_trans by blast
    show ?thesis
    proof (cases ok)
      case True
      then show ?thesis using assms x False w1 w2 k2 by (simp add: atpd_session_gc_enqueue_def) (metis pipes_kept_cong(3))
    next
      case nok: False
      then obtain x2 where "sw_sessions w2 t = Some x2" "atpd_session_put t (set_session t (x2\<lparr>ses_gc_enqueued := False\<rparr>) w2) = Some w'"
        using assms x False w1 w2 by (auto simp: atpd_session_gc_enqueue_def elim!: bind_SomeE)
      moreover from this have "pipes_kept w (set_session t (x2\<lparr>ses_gc_enqueued := False\<rparr>) w2)"
        by (intro pipes_kept_set [OF k2, of t x2]) simp_all
      ultimately show ?thesis using put_pipes pipes_kept_trans by blast
    qed
  qed (use assms x in \<open>simp add: atpd_session_gc_enqueue_def\<close>)
qed

lemma remove_fd_pipes: "remove_session_fd fd w = Some w' \<Longrightarrow> pipes_kept w w'"
  by (auto simp: remove_session_fd_def split: prod.splits dest!: run_free_calls_pipes)

lemma mark_closing_pipes:
  assumes "atpd_session_mark_closing t w = Some w'"
  shows "pipes_kept w w'"
proof -
  obtain w1 x where w1: "atpd_session_get t w = Some w1" and x: "sw_sessions w1 t = Some x"
    using assms by (auto simp: atpd_session_mark_closing_def elim!: bind_SomeE)
  note k1 = get_pipes [OF w1]
  show ?thesis
  proof (cases "SESSION_CLOSING \<le> ses_state x")
    case True
    then have "atpd_session_put t w1 = Some w'" using assms w1 x by (simp add: atpd_session_mark_closing_def)
    then show ?thesis using k1 put_pipes pipes_kept_trans by blast
  next
    case False
    let ?w = "set_session t (x\<lparr>ses_state := SESSION_CLOSING\<rparr>) w1"
    obtain w2 x2 w3 w4 where w2: "session_registry_remove t ?w = Some w2" "sw_sessions w2 t = Some x2"
      and w3: "(if ses_has_reactor x2 then do {
                a \<leftarrow> remove_session_fd (ses_fd_in x2) w2;
                x3 \<leftarrow> sw_sessions a t;
                remove_session_fd (ses_fd_out x3) a
              } else Some w2) = Some w3"
      and w4: "atpd_session_gc_enqueue t w3 = Some w4" "atpd_session_put t w4 = Some w'"
      using assms unfolding mark_closing_open [OF w1 x False] by (elim bind_SomeE) (rule that)
    have "pipes_kept w ?w" using pipes_kept_set [OF k1 x] by simp
    moreover have "pipes_kept ?w w2" by (rule registry_remove_pipes [OF w2(1)])
    moreover have "pipes_kept w2 w3"
      using w3 by (auto elim!: bind_SomeE split: if_splits dest!: remove_fd_pipes intro: pipes_kept_trans)
    moreover have "pipes_kept w3 w4" "pipes_kept w4 w'" using w4 gc_enqueue_pipes put_pipes by blast+
    ultimately show ?thesis by (blast intro: pipes_kept_trans)
  qed
qed

lemma set_out_events_pipes: "set_out_events ctl ev a b t w = Some (rc, w') \<Longrightarrow> pipes_kept w w'"
  unfolding set_out_events_def by (auto split: if_splits prod.splits elim!: bind_SomeE dest!: mark_closing_pipes)

lemma add_bytes_pipe [simp]: "ses_pipe0 (add_bytes acc x) = ses_pipe0 x"
  by (simp add: add_bytes_def)

text \<open>What the exits do to the session's pipe and to its pending count.\<close>

lemma pump_finish_pipes:
  assumes "pump_finish ctl now t why acc w = Some (rc, w')" "sw_sessions w t = Some x"
    and "\<not> SESSION_CLOSING \<le> ses_state x" "why \<noteq> PE_Vpn"
  shows "pipes_kept w w'"
proof (cases why)
  case (PE_Again sent to_send)
  let ?y = "x\<lparr>ses_pipe_pending := to_send - sent, ses_state := SESSION_PIPE_DIRTY\<rparr>"
  have "pipes_kept w (set_session t (add_bytes (late sent acc) ?y)
      (set_session t ?y (set_session t (x\<lparr>ses_pipe_pending := to_send - sent\<rparr>) w)))"
    using assms(2) by (auto simp: pipes_kept_def set_session_def)
  then show ?thesis
    using set_out_events_pipes [OF pump_finish_again [OF assms(1) [unfolded PE_Again] assms(2,3)]] pipes_kept_trans by blast
qed (use assms in \<open>auto simp: pump_finish_def session_set_state_def pipes_kept_def set_session_def split: if_splits\<close>)

lemma pump_finish_vpn_closes:
  assumes "pump_finish ctl now t PE_Vpn acc w = Some (rc, w')" "t < sw_next_addr w"
  shows "closed t w'"
proof -
  obtain w1 w2 where w12: "atpd_session_mark_closing t w = Some w1" "emergency_drain t w1 = Some w2"
    and w': "w' = w2 \<or> (\<exists>x. sw_sessions w2 t = Some x \<and> w' = set_session t (add_bytes acc x) w2)"
    using assms(1) by (auto simp: pump_finish_def split: if_splits elim!: bind_SomeE)
  have "closed t w1" using mark_closing_closed [OF w12(1)] assms(2) by blast
  then have "closed t w2" by (rule emergency_drain_closed [OF w12(2)])
  moreover have "keeps w2 w'" using w' by (auto intro: update_keeps)
  ultimately show ?thesis by (simp add: keeps_def)
qed

lemma closed_not_dirty: "closed t w \<Longrightarrow> sw_sessions w t = Some x \<Longrightarrow> ses_state x \<noteq> SESSION_PIPE_DIRTY"
  by (auto simp: closed_def state_order)

lemma pump_finish_dirty:
  assumes "pump_finish ctl now t why acc w = Some (rc, w')" "sw_sessions w t = Some x" "t < sw_next_addr w"
    and "\<not> SESSION_CLOSING \<le> ses_state x" "ses_state x \<noteq> SESSION_PIPE_DIRTY"
    and "sw_sessions w' t = Some x'" "ses_state x' = SESSION_PIPE_DIRTY"
  shows "end_pending why = Some (ses_pipe_pending x')"
proof (cases why)
  case PE_Vpn
  then show ?thesis using pump_finish_vpn_closes [of ctl now t acc w rc w'] assms closed_not_dirty by blast
next
  case (PE_Again sent to_send)
  from set_out_events_state [OF pump_finish_again [OF assms(1) [unfolded PE_Again] assms(2,4)]] assms(3,6,7) PE_Again closed_not_dirty
  show ?thesis
    by (auto simp: set_session_def add_bytes_def)
qed (use assms in \<open>auto simp: pump_finish_def session_set_state_def set_session_def add_bytes_def split: if_splits\<close>)

lemma pump_finish_freed:
  assumes "pump_finish ctl now t why acc w = Some (rc, w')" "sw_sessions w t = Some x" "t < sw_next_addr w"
    and "\<not> SESSION_CLOSING \<le> ses_state x" "sw_sessions w' t = None"
  shows "closed t w'"
proof (cases why)
  case PE_Vpn
  then show ?thesis using pump_finish_vpn_closes [of ctl now t acc w rc w'] assms by blast
next
  case (PE_Again sent to_send)
  from set_out_events_state [OF pump_finish_again [OF assms(1) [unfolded PE_Again] assms(2,4)]] assms(3,5) show ?thesis
    by (auto simp: set_session_def)
qed (use assms in \<open>auto simp: pump_finish_def session_set_state_def set_session_def split: if_splits\<close>)

text \<open>C11: the session pump, started with an empty open pipe on an open session, whatever the kernel
  and the VPN checks answer: the bytes written, the bytes in the pipe and the bytes not read are
  the stream at the start, in order and without duplicates, but for a stretch of bytes that had
  entered the pipe and is lost when the pipe is closed.  This happens only if a check found the VPN
  gone (or the session is freed by the failing change of its events), and then the session is
  closed.  A positive result is exactly the number of bytes written to \<open>fd_out\<close> unless the pump closed the session; and
  whatever the result, a session left dirty records exactly the bytes in its pipe.\<close>

theorem session_pump_forwards:
  assumes "atpd_session_splice_pump vpn ctl_ok now ans s max_len k w = Some (rc, k', rest, w')"
    and "sw_sessions w s = Some x" "s < sw_next_addr w" "k_pipe k = []" "ses_state x \<noteq> SESSION_PIPE_DIRTY" "0 \<le> ses_pipe0 x"
  shows "(\<exists>lost. k_dst k' @ k_pipe k' @ lost @ k_src k' = k_dst k @ k_src k
      \<and> (lost \<noteq> [] \<longrightarrow> k_pipe k' = [] \<and> closed s w' \<and> ((\<exists>a. (False, a) \<in> set ans) \<or> sw_sessions w' s = None)))
    \<and> (0 < rc \<longrightarrow> closed s w' \<or>
         (\<exists>x'. sw_sessions w' s = Some x' \<and> length (k_dst k') = length (k_dst k) + nat rc
            \<and> ses_bytes_in x' = ses_bytes_in x + of_nat (length (k_src k) - length (k_src k'))))
    \<and> (\<forall>x'. sw_sessions w' s = Some x' \<and> ses_state x' = SESSION_PIPE_DIRTY \<longrightarrow> ses_pipe_pending x' = length (k_pipe k'))"
proof (cases "vpn \<and> \<not> SESSION_CLOSING \<le> ses_state x")
  case True
  then obtain why acc k1 where loop: "pump_read ans max_len acc0 k = Some (why, acc, k1, rest)"
      and fin: "pump_finish ctl_ok now s why acc w = Some (rc, w')" and k': "k' = discard_closed s w' k1"
    using assms(1,2) by (auto simp: atpd_session_splice_pump_def elim!: bind_SomeE)
  have open_x: "\<not> SESSION_CLOSING \<le> ses_state x" using True by simp
  have post: "loops_post 0 acc0 k why acc k1" by (rule pump_read_post [OF loop assms(4)])
  have same: "k_dst k' = k_dst k1" "k_src k' = k_src k1" unfolding k' by (auto simp: discard_closed_def split: option.split)
  have kept: "k' = k1" if still: "why \<noteq> PE_Vpn" "sw_sessions w' s \<noteq> None"
  proof -
    obtain y where y: "sw_sessions w' s = Some y" using still(2) by auto
    then have "ses_pipe0 y = ses_pipe0 x"
      using pump_finish_pipes [OF fin assms(2) open_x still(1)] assms(2) by (force simp: pipes_kept_def)
    then show ?thesis using y assms(6) unfolding k' by (simp add: discard_closed_def)
  qed
  have freed: "closed s w'" if "sw_sessions w' s = None"
    by (rule pump_finish_freed [OF fin assms(2,3) open_x that])
  have "\<exists>lost. k_dst k' @ k_pipe k' @ lost @ k_src k' = k_dst k @ k_src k
      \<and> (lost \<noteq> [] \<longrightarrow> k_pipe k' = [] \<and> closed s w' \<and> ((\<exists>a. (False, a) \<in> set ans) \<or> sw_sessions w' s = None))"
  proof (cases "k' = k1")
    case True
    then show ?thesis using post assms(4) by (intro exI [of _ "[]"]) (simp add: loops_post_def stream_def)
  next
    case False
    then have "k_pipe k' = []" unfolding k' by (auto simp: discard_closed_def split: option.splits if_splits)
    moreover have "closed s w' \<and> ((\<exists>a. (False, a) \<in> set ans) \<or> sw_sessions w' s = None)"
      using kept False freed pump_finish_vpn_closes [of ctl_ok now s acc w rc w'] fin assms(3) loop vpn_exits [of ans] by blast
    ultimately show ?thesis using post assms(4) same by (intro exI [of _ "k_pipe k1"]) (simp add: loops_post_def stream_def)
  qed
  moreover have "closed s w' \<or> (\<exists>x'. sw_sessions w' s = Some x' \<and> length (k_dst k') = length (k_dst k) + nat rc
            \<and> ses_bytes_in x' = ses_bytes_in x + of_nat (length (k_src k) - length (k_src k')))" if rc: "0 < rc"
  proof -
    have neg: "\<forall>c. why = PE_Read c \<longrightarrow> c < 0" using post by (simp add: loops_post_def)
    from pump_finish_result [OF fin assms(2,3) open_x rc neg] post same show ?thesis
      by (auto simp: loops_post_def acc0_def)
  qed
  moreover have "ses_pipe_pending x' = length (k_pipe k')"
    if "sw_sessions w' s = Some x'" "ses_state x' = SESSION_PIPE_DIRTY" for x'
  proof -
    have "end_pending why = Some (ses_pipe_pending x')"
      by (rule pump_finish_dirty [OF fin assms(2,3) open_x assms(5) that])
    moreover from this have "k' = k1" by (intro kept) (use that in auto)
    ultimately show ?thesis using post by (simp add: loops_post_def)
  qed
  ultimately show ?thesis by blast
next
  case False
  then show ?thesis
    using assms by (auto simp: atpd_session_splice_pump_def splice_codes ATPD_SPLICE_VPN_NOT_READY_def
        split: if_splits)
qed

text \<open>A session without a reactor, for concrete runs.\<close>

definition demo_session :: atpd_session where
  "demo_session = \<lparr>ses_session_id = 1, ses_fd_in = 10, ses_fd_out = 11, ses_pipe0 = 20, ses_pipe1 = 21,
     ses_state = SESSION_ACTIVE, ses_destroy_started = False, ses_gc_enqueued = False,
     ses_emergency_drained = False, ses_ref_count = 2, ses_pipe_pending = 0, ses_bytes_in = 0,
     ses_bytes_out = 0, ses_created_at = 5, ses_last_active_at = 5, ses_has_reactor = False,
     ses_registered = True\<rparr>"

definition demo_world :: session_world where
  "demo_world = session_world0\<lparr>sw_sessions := [0 \<mapsto> demo_session], sw_registry := [0], sw_count := 1,
     sw_next_addr := 1, sw_next_session_id := 2\<rparr>"

lemma demo_pump:
  "\<exists>k' w' x'. atpd_session_splice_pump True True 9 [(True, SpMoved 4), (True, SpMoved 3), (True, SpFail EAGAIN)]
       0 100 (k_empty [1, 2, 3, 4, 5]) demo_world = Some (3, k', [], w')
     \<and> k_dst k' = [1, 2, 3] \<and> k_pipe k' = [4] \<and> sw_sessions w' 0 = Some x'
     \<and> ses_state x' = SESSION_PIPE_DIRTY \<and> ses_pipe_pending x' = 1
     \<and> ses_bytes_in x' = 4 \<and> ses_bytes_out x' = 6"
  by (simp add: atpd_session_splice_pump_def demo_world_def demo_session_def session_world0_def k_empty_def
      pump_read_Moved pump_write_Moved pump_write_Fail Let_def acc0_def move_in_def move_out_def
      pump_finish_def session_set_state_def set_session_def add_bytes_def late_def set_out_events_def
      discard_closed_def state_order)

theorem session_pump_forwards_witness:
  "\<exists>k' w' x'. atpd_session_splice_pump True True 9 [(True, SpMoved 4), (True, SpMoved 3), (True, SpFail EAGAIN)]
       0 100 (k_empty [1, 2, 3, 4, 5]) demo_world = Some (3, k', [], w')
     \<and> sw_sessions w' 0 = Some x' \<and> ses_pipe_pending x' = length (k_pipe k')
     \<and> k_dst k' @ k_pipe k' @ k_src k' = [1, 2, 3, 4, 5]"
proof -
  obtain k' w' x' where run: "atpd_session_splice_pump True True 9
       [(True, SpMoved 4), (True, SpMoved 3), (True, SpFail EAGAIN)]
       0 100 (k_empty [1, 2, 3, 4, 5]) demo_world = Some (3, k', [], w')"
    and x': "sw_sessions w' 0 = Some x'" "ses_state x' = SESSION_PIPE_DIRTY"
    using demo_pump by blast
  have pre: "sw_sessions demo_world 0 = Some demo_session" "0 < sw_next_addr demo_world"
      "k_pipe (k_empty [1, 2, 3, 4, 5]) = []" "ses_state demo_session \<noteq> SESSION_PIPE_DIRTY" "0 \<le> ses_pipe0 demo_session"
    by (simp_all add: demo_world_def demo_session_def k_empty_def)
  have "\<not> closed 0 w'" using x' by (auto simp: closed_def state_order)
  with session_pump_forwards [OF run pre] x'
  have "ses_pipe_pending x' = length (k_pipe k')" "k_dst k' @ k_pipe k' @ k_src k' = [1, 2, 3, 4, 5]"
    by (auto simp: k_empty_def)
  then show ?thesis using run x'(1) by blast
qed

text \<open>C13: the statistics of the bytes forwarded.  After every run of the pump with a positive result
  that leaves the session open, \<open>bytes_in\<close> has grown by the bytes read, but \<open>bytes_out\<close> has grown by
  the bytes written and once more by the bytes of the last chunk that were sent before the write
  loop was left inside it (by a write that would block, a closed peer or a write of nothing): they
  are counted twice, and the counter is right exactly when the loop was not left inside a chunk of
  which some bytes had been sent.\<close>

theorem session_bytes_out_counted_twice:
  assumes "atpd_session_splice_pump True ctl_ok now ans s max_len k w = Some (rc, k', rest, w')"
    and "sw_sessions w s = Some x" "s < sw_next_addr w" "k_pipe k = []" "0 < rc" "\<not> closed s w'"
    and "pump_read ans max_len acc0 k = Some (why, acc, k1, rest1)" "sw_sessions w' s = Some x'"
    and "twice = (case why of PE_Again sent _ \<Rightarrow> sent | PE_Pipe sent _ \<Rightarrow> sent | PE_Zero sent \<Rightarrow> sent | _ \<Rightarrow> 0)"
  shows "ses_bytes_in x' = ses_bytes_in x + of_nat (length (k_src k) - length (k_src k'))
    \<and> ses_bytes_out x' = ses_bytes_out x + of_nat (length (k_dst k') - length (k_dst k)) + of_nat twice
    \<and> twice \<le> length (k_dst k') - length (k_dst k)
    \<and> (twice < 2 ^ 64 \<longrightarrow>
        (ses_bytes_out x' = ses_bytes_out x + of_nat (length (k_dst k') - length (k_dst k)) \<longleftrightarrow> twice = 0))"
proof -
  have open_x: "\<not> SESSION_CLOSING \<le> ses_state x"
    using assms(1,2,5) by (auto simp: atpd_session_splice_pump_def splice_codes split: if_splits)
  then have fin: "pump_finish ctl_ok now s why acc w = Some (rc, w')" and k': "k' = discard_closed s w' k1"
    using assms(1,2,7) by (auto simp: atpd_session_splice_pump_def elim!: bind_SomeE)
  have same: "k_dst k' = k_dst k1" "k_src k' = k_src k1" unfolding k' by (auto simp: discard_closed_def split: option.split)
  have post: "loops_post 0 acc0 k why acc k1" by (rule pump_read_post [OF assms(7,4)])
  then have neg: "\<forall>c. why = PE_Read c \<longrightarrow> c < 0" by (simp add: loops_post_def)
  obtain n where n: "end_sent why = Some n" "ses_bytes_in x' = ses_bytes_in x + pa_in acc"
      "ses_bytes_out x' = ses_bytes_out x + pa_out acc + of_nat n"
    using pump_finish_result [OF fin assms(2,3) open_x assms(5) neg] assms(6,8) by auto
  then have t: "twice = n" using assms(9) by (cases why) auto
  have in_out: "ses_bytes_in x' = ses_bytes_in x + of_nat (length (k_src k) - length (k_src k'))"
      "ses_bytes_out x' = ses_bytes_out x + of_nat (length (k_dst k') - length (k_dst k)) + of_nat twice"
    using post n(2,3) unfolding t same by (simp_all add: loops_post_def acc0_def)
  have "pa_moved acc + n = length (k_dst k1) - length (k_dst k)" using post n(1) by (simp add: loops_post_def acc0_def)
  then have le: "twice \<le> length (k_dst k') - length (k_dst k)" unfolding same t by linarith
  have "(of_nat twice :: u64) = 0 \<longleftrightarrow> twice = 0" if "twice < 2 ^ 64"
    using that by (auto simp: word_of_nat_eq_0_iff nat_dvd_not_less)
  then show ?thesis using in_out le by auto
qed

theorem session_bytes_out_counted_twice_witness:
  "\<exists>k' w' x'. atpd_session_splice_pump True True 9 [(True, SpMoved 4), (True, SpMoved 3), (True, SpFail EAGAIN)]
       0 100 (k_empty [1, 2, 3, 4, 5]) demo_world = Some (3, k', [], w')
     \<and> sw_sessions w' 0 = Some x' \<and> length (k_dst k') = 3
     \<and> ses_bytes_in x' = 4 \<and> ses_bytes_out x' = of_nat 3 + of_nat 3"
proof -
  obtain k' w' x' where run: "atpd_session_splice_pump True True 9 [(True, SpMoved 4), (True, SpMoved 3), (True, SpFail EAGAIN)]
       0 100 (k_empty [1, 2, 3, 4, 5]) demo_world = Some (3, k', [], w')"
    and x': "k_dst k' = [1, 2, 3]" "sw_sessions w' 0 = Some x'" "ses_state x' = SESSION_PIPE_DIRTY" "ses_bytes_in x' = 4"
    using demo_pump by blast
  have pre: "sw_sessions demo_world 0 = Some demo_session" "0 < sw_next_addr demo_world"
      "k_pipe (k_empty [1, 2, 3, 4, 5]) = []" "ses_bytes_out demo_session = 0"
    by (simp_all add: demo_world_def demo_session_def k_empty_def)
  have "\<exists>acc k1. pump_read [(True, SpMoved 4), (True, SpMoved 3), (True, SpFail EAGAIN)] 100 acc0 (k_empty [1, 2, 3, 4, 5])
      = Some (PE_Again 3 4, acc, k1, [])"
    by (simp add: pump_read_Moved pump_write_Moved pump_write_Fail Let_def k_empty_def acc0_def move_in_def move_out_def)
  then obtain acc k1 where loop: "pump_read [(True, SpMoved 4), (True, SpMoved 3), (True, SpFail EAGAIN)] 100 acc0 (k_empty [1, 2, 3, 4, 5])
      = Some (PE_Again 3 4, acc, k1, [])" by blast
  have "\<not> closed 0 w'" using x' by (auto simp: closed_def state_order)
  from session_bytes_out_counted_twice [OF run pre(1-3) _ this loop x'(2) refl] pre(4) x'(1)
  have "ses_bytes_out x' = of_nat 3 + of_nat 3" by (simp add: k_empty_def)
  then show ?thesis using run x' by auto
qed

end
