(* ===== verification/Atp_Config.thy ===== *)
theory Atp_Config
  imports Atpd_Prelude
begin

text \<open>
  The configuration of the daemon, \<open>include/atp_config.h\<close>, and the constants of
  \<open>include/atp.h\<close> the components share.  A \<open>char[n]\<close> is a string.
\<close>

record core_config_t =
  ui_emoji_enabled :: bool
  log_timestamp :: bool
  data_dir :: string
  run_dir :: string
  core_user :: string
  core_group :: string
  pid_file :: string
  log_file :: string

record interface_config_t =
  vpn_auto_mode :: bool
  vpn_target_mode :: string
  vpn_fallback_mode :: string

record service_config_t =
  restart_delay_sec :: int
  start_timeout_sec :: int
  stop_timeout_sec :: int
  grace_period_sec :: int
  max_failures :: int
  circuit_threshold :: int
  circuit_cooldown_sec :: int
  health_check_interval_ms :: int
  sc_args :: string
  sc_env :: string

record api_config_t =
  api_port :: int
  api_host :: string
  api_secret :: string

record atp_config_t =
  cfg_core :: core_config_t
  cfg_interface :: interface_config_t
  cfg_service :: service_config_t
  cfg_api :: api_config_t

definition ATP_DEFAULT_DIR :: string where "ATP_DEFAULT_DIR = ''/data/adb/atp''"
definition ATP_CONF_FILE :: string where "ATP_CONF_FILE = ''atp.conf''"
definition ATP_RUN_DIR :: string where "ATP_RUN_DIR = ''run''"
definition ATP_PID_FILE :: string where "ATP_PID_FILE = ''run/atpd.pid''"
definition ATP_LOG_FILE :: string where "ATP_LOG_FILE = ''run/atp.log''"
definition PROXY_BIN_NAME :: string where "PROXY_BIN_NAME = ''sing-box''"
definition DEFAULT_API_PORT :: int where "DEFAULT_API_PORT = 9080"
definition DEFAULT_API_HOST :: string where "DEFAULT_API_HOST = ''127.0.0.1''"

end
