(* ===== verification/C_Strings.thy ===== *)
theory C_Strings
  imports Atpd_Prelude "HOL-Library.Sublist"
begin

text \<open>
  The functions of the C library on strings that the sources use: number
  scanning (\<open>strtoul\<close> and \<open>strtol\<close>, with \<open>long\<close> of 64 bits), searching, splitting
  into tokens, reading a line into a buffer.  A scanner returns the value, whether
  \<open>errno\<close> is set to \<open>ERANGE\<close>, and the rest of the string (where \<open>endptr\<close> points);
  it returns the whole string when there is no number.
\<close>

subsection \<open>Scanning decimal numbers\<close>

definition digits_val :: "string \<Rightarrow> nat" where
  "digits_val ds = foldl (\<lambda>a c. a * 10 + c_digit_val c) 0 ds"

fun scan_sign :: "string \<Rightarrow> bool \<times> string" where
  "scan_sign (c # cs) = (if c = CHR ''-'' then (True, cs)
     else if c = CHR ''+'' then (False, cs) else (False, c # cs))"
| "scan_sign [] = (False, [])"

definition c_strtoull :: "string \<Rightarrow> u64 \<times> bool \<times> string" where
  "c_strtoull s =
     (let (neg, t) = scan_sign (dropWhile c_isspace s);
          ds = takeWhile c_isdigit t; rest = dropWhile c_isdigit t
      in if ds = [] then (0, False, s)
         else if 2 ^ 64 \<le> digits_val ds then (- 1, True, rest)
         else ((if neg then - of_nat (digits_val ds) else of_nat (digits_val ds)), False, rest))"

definition c_strtol :: "string \<Rightarrow> int \<times> bool \<times> string" where
  "c_strtol s =
     (let (neg, t) = scan_sign (dropWhile c_isspace s);
          ds = takeWhile c_isdigit t; rest = dropWhile c_isdigit t;
          v = (if neg then - int (digits_val ds) else int (digits_val ds))
      in if ds = [] then (0, False, s)
         else if v < - (2 ^ 63) then (- (2 ^ 63), True, rest)
         else if 2 ^ 63 \<le> v then (2 ^ 63 - 1, True, rest)
         else (v, False, rest))"

lemma of_char_digit_char: "d < 10 \<Longrightarrow> (of_char (digit_char d) :: nat) = 48 + d"
proof -
  assume "d < 10"
  then have "d \<in> {0, 1, 2, 3, 4, 5, 6, 7, 8, 9}" by auto
  then show ?thesis by (auto simp: digit_char_def)
qed

lemma c_isdigit_digit_char [simp]: "d < 10 \<Longrightarrow> c_isdigit (digit_char d)"
  by (simp add: c_isdigit_def of_char_digit_char)

lemma digits_val_Nil [simp]: "digits_val [] = 0"
  by (simp add: digits_val_def)

lemma digits_val_snoc: "digits_val (ds @ [c]) = digits_val ds * 10 + c_digit_val c"
  by (simp add: digits_val_def)

lemma show_nat_digits: "list_all c_isdigit (show_nat n) \<and> show_nat n \<noteq> []"
proof (induction n rule: show_nat.induct)
  case (1 n)
  then show ?case by (cases "n < 10") (simp_all add: show_nat.simps [of n])
qed

lemma digits_val_show_nat [simp]: "digits_val (show_nat n) = n"
proof (induction n rule: show_nat.induct)
  case (1 n)
  show ?case
  proof (cases "n < 10")
    case True
    then show ?thesis
      by (subst show_nat.simps) (simp add: digits_val_def c_digit_val_def of_char_digit_char)
  next
    case False
    with 1 show ?thesis
      by (subst show_nat.simps) (simp add: digits_val_snoc c_digit_val_def of_char_digit_char)
  qed
qed

lemma digit_not_space: "c_isdigit c \<Longrightarrow> \<not> c_isspace c"
  by (auto simp: c_isdigit_def c_isspace_def)

lemma digit_not_sign: "c_isdigit c \<Longrightarrow> c \<noteq> CHR ''-'' \<and> c \<noteq> CHR ''+''"
  by (auto simp: c_isdigit_def)

lemma show_nat_Cons: obtains c cs where "show_nat n = c # cs" "c_isdigit c" "list_all c_isdigit cs"
  using show_nat_digits [of n] by (cases "show_nat n") auto

lemma scan_digits:
  assumes "list_all c_isdigit ds" "case rest of [] \<Rightarrow> True | c # _ \<Rightarrow> \<not> c_isdigit c"
  shows "takeWhile c_isdigit (ds @ rest) = ds" "dropWhile c_isdigit (ds @ rest) = rest"
  using assms by (induction ds) (auto split: list.splits)

text \<open>What a printed number is read back as.\<close>

lemma scan_show_int:
  assumes "case rest of [] \<Rightarrow> True | c # _ \<Rightarrow> \<not> c_isdigit c"
  shows "scan_sign (dropWhile c_isspace (show_int i @ rest)) =
           (i < 0, show_nat (nat \<bar>i\<bar>) @ rest)"
proof (cases "i < 0")
  case True
  then show ?thesis by (auto simp: show_int_def c_isspace_def)
next
  case False
  obtain c cs where "show_nat (nat i) = c # cs" "c_isdigit c" by (rule show_nat_Cons)
  with False show ?thesis
    using digit_not_space [of c] digit_not_sign [of c] by (auto simp: show_int_def)
qed

lemma strtoull_show_int:
  assumes "case rest of [] \<Rightarrow> True | c # _ \<Rightarrow> \<not> c_isdigit c" "\<bar>i\<bar> < 2 ^ 64"
  shows "c_strtoull (show_int i @ rest) = (word_of_int i, False, rest)"
proof -
  note sc = scan_show_int [OF assms(1), of i]
  note d = scan_digits [OF conjunct1 [OF show_nat_digits] assms(1), of "nat \<bar>i\<bar>"]
  have lt: "nat \<bar>i\<bar> < 2 ^ 64" using assms(2) by (simp add: nat_less_iff)
  have "(if i < 0 then - of_nat (nat \<bar>i\<bar>) else of_nat (nat \<bar>i\<bar>)) = (of_int i :: u64)"
    by (simp add: of_nat_nat)
  with lt show ?thesis
    using show_nat_digits [of "nat \<bar>i\<bar>"] unfolding c_strtoull_def sc by (simp only: Let_def split d) auto
qed

lemma strtol_show_int:
  assumes "case rest of [] \<Rightarrow> True | c # _ \<Rightarrow> \<not> c_isdigit c" "- (2 ^ 63) \<le> i" "i < 2 ^ 63"
  shows "c_strtol (show_int i @ rest) = (i, False, rest)"
proof -
  note sc = scan_show_int [OF assms(1), of i]
  note d = scan_digits [OF conjunct1 [OF show_nat_digits] assms(1), of "nat \<bar>i\<bar>"]
  have "(if i < 0 then - int (nat \<bar>i\<bar>) else int (nat \<bar>i\<bar>)) = i" by simp
  with assms show ?thesis
    using show_nat_digits [of "nat \<bar>i\<bar>"] unfolding c_strtol_def sc by (simp only: Let_def split d) auto
qed

lemma strtoull_end_suffix: "suffix (snd (snd (c_strtoull s))) s"
proof -
  have "suffix (snd (scan_sign t)) t" for t
    by (cases t rule: scan_sign.cases) (auto simp: suffix_Cons)
  from this [of "dropWhile c_isspace s"] have "suffix (snd (scan_sign (dropWhile c_isspace s))) s"
    using suffix_dropWhile [of c_isspace s] suffix_order.trans by blast
  then show ?thesis
    using suffix_dropWhile [of c_isdigit "snd (scan_sign (dropWhile c_isspace s))"]
    by (auto simp: c_strtoull_def Let_def split_def intro: suffix_order.trans)
qed

subsection \<open>Searching\<close>

text \<open>\<open>strchr\<close>: the string from the first occurrence on.\<close>

definition c_strchr :: "char \<Rightarrow> string \<Rightarrow> string option" where
  "c_strchr c s = (case dropWhile (\<lambda>x. x \<noteq> c) s of [] \<Rightarrow> None | t \<Rightarrow> Some t)"

text \<open>\<open>strrchr\<close>: the parts before and after the last occurrence.\<close>

definition c_strrchr :: "char \<Rightarrow> string \<Rightarrow> (string \<times> string) option" where
  "c_strrchr c s =
     (let r = rev s; after = takeWhile (\<lambda>x. x \<noteq> c) r; before = dropWhile (\<lambda>x. x \<noteq> c) r
      in case before of [] \<Rightarrow> None | _ # b \<Rightarrow> Some (rev b, rev after))"

text \<open>\<open>strstr\<close>: the parts before and from the first occurrence on.\<close>

fun c_strstr :: "string \<Rightarrow> string \<Rightarrow> (string \<times> string) option" where
  "c_strstr [] needle = (if needle = [] then Some ([], []) else None)"
| "c_strstr (c # cs) needle =
     (if prefix needle (c # cs) then Some ([], c # cs)
      else map_option (\<lambda>(b, t). (c # b, t)) (c_strstr cs needle))"

lemma c_strrchr_Some:
  "c_strrchr c s = Some (b, a) \<longleftrightarrow> s = b @ c # a \<and> c \<notin> set a"
proof
  assume "c_strrchr c s = Some (b, a)"
  then obtain y ys where y: "dropWhile (\<lambda>x. x \<noteq> c) (rev s) = y # ys" "b = rev ys"
      "a = rev (takeWhile (\<lambda>x. x \<noteq> c) (rev s))"
    by (auto simp: c_strrchr_def Let_def split: list.splits)
  then have "y = c" by (metis (mono_tags, lifting) dropWhile_eq_Cons_conv)
  have "rev s = takeWhile (\<lambda>x. x \<noteq> c) (rev s) @ y # ys" using y(1) by (metis takeWhile_dropWhile_id)
  then have "s = rev ys @ y # rev (takeWhile (\<lambda>x. x \<noteq> c) (rev s))"
    by (metis append.assoc append_Cons append_Nil rev.simps(2) rev_append rev_rev_ident)
  with \<open>y = c\<close> y show "s = b @ c # a \<and> c \<notin> set a"
    by (auto dest: set_takeWhileD)
next
  assume s: "s = b @ c # a \<and> c \<notin> set a"
  then have "takeWhile (\<lambda>x. x \<noteq> c) (rev s) = rev a" "dropWhile (\<lambda>x. x \<noteq> c) (rev s) = c # rev b"
    by (auto simp: takeWhile_append dropWhile_append)
  with s show "c_strrchr c s = Some (b, a)" by (simp add: c_strrchr_def Let_def)
qed

lemma c_strrchr_None: "c_strrchr c s = None \<longleftrightarrow> c \<notin> set s"
proof -
  define d where "d = dropWhile (\<lambda>x. x \<noteq> c) (rev s)"
  have "d = [] \<longleftrightarrow> c \<notin> set s" unfolding d_def by (auto simp: dropWhile_eq_Nil_conv)
  then show ?thesis by (cases d) (simp_all add: c_strrchr_def Let_def flip: d_def)
qed

lemma c_strstr_Some:
  "c_strstr s needle = Some (b, t) \<Longrightarrow> s = b @ t \<and> prefix needle t"
  by (induction s arbitrary: b) (auto split: if_splits)

lemma c_strstr_None: "c_strstr s needle = None \<longleftrightarrow> \<not> sublist needle s"
  by (induction s) (auto simp: sublist_Cons_right)

text \<open>Nothing is skipped: no occurrence starts inside the part before.\<close>

lemma c_strstr_first:
  "c_strstr s needle = Some (b, t) \<Longrightarrow> i < length b \<Longrightarrow> \<not> prefix needle (drop i s)"
proof (induction s arbitrary: b i)
  case (Cons c cs)
  show ?case
  proof (cases "prefix needle (c # cs)")
    case True
    with Cons show ?thesis by simp
  next
    case False
    with Cons.prems obtain b' where "b = c # b'" "c_strstr cs needle = Some (b', t)" by auto
    with Cons False show ?thesis by (cases i) auto
  qed
qed (auto split: if_splits)

text \<open>The part after the last slash, as \<open>basename\<close> for a path that does not end in one.\<close>

definition c_basename :: "string \<Rightarrow> string" where
  "c_basename s = (case c_strrchr (CHR ''/'') s of None \<Rightarrow> s | Some (_, a) \<Rightarrow> a)"

subsection \<open>Splitting\<close>

text \<open>\<open>strtok_r\<close> with one delimiter: the maximal nonempty runs of other characters.\<close>

fun c_tokens_from :: "char \<Rightarrow> string \<Rightarrow> string \<Rightarrow> string list" where
  "c_tokens_from d cur [] = (if cur = [] then [] else [rev cur])"
| "c_tokens_from d cur (c # cs) =
     (if c = d then (if cur = [] then c_tokens_from d [] cs else rev cur # c_tokens_from d [] cs)
      else c_tokens_from d (c # cur) cs)"

definition c_tokens :: "char \<Rightarrow> string \<Rightarrow> string list" where
  "c_tokens d s = c_tokens_from d [] s"

lemma c_tokens_from_ok:
  "d \<notin> set cur \<Longrightarrow> t \<in> set (c_tokens_from d cur s) \<Longrightarrow> t \<noteq> [] \<and> d \<notin> set t"
proof (induction s arbitrary: cur)
  case (Cons c cs)
  have "d \<notin> set (c # cur)" if "c \<noteq> d" using that Cons.prems(1) by auto
  then show ?case
    using Cons.prems Cons.IH [of "[]"] Cons.IH [of "c # cur"] by (auto split: if_splits)
qed (auto split: if_splits)

lemma c_tokens_ok: "t \<in> set (c_tokens d s) \<Longrightarrow> t \<noteq> [] \<and> d \<notin> set t"
  using c_tokens_from_ok [of d "[]"] by (simp add: c_tokens_def)

lemma c_tokens_from_concat:
  "concat (c_tokens_from d cur s) = rev cur @ filter (\<lambda>c. c \<noteq> d) s"
  by (induction s arbitrary: cur) auto

lemma c_tokens_concat: "concat (c_tokens d s) = filter (\<lambda>c. c \<noteq> d) s"
  by (simp add: c_tokens_def c_tokens_from_concat)

subsection \<open>Lines\<close>

text \<open>\<open>fgets\<close> into a buffer of \<open>n\<close> bytes: the line with its newline, cut to \<open>n - 1\<close>
  characters, and what is left to read; \<open>None\<close> at the end of the file.\<close>

definition c_fgets :: "nat \<Rightarrow> string \<Rightarrow> (string \<times> string) option" where
  "c_fgets n s =
     (if s = [] then None
      else
        (let body = takeWhile (\<lambda>c. c \<noteq> CHR 0x0A) s;
             line = (if length body < length s then body @ [CHR 0x0A] else body);
             got = take (n - 1) line
         in Some (got, drop (length got) s)))"

lemma c_fgets_splits: "c_fgets n s = Some (l, rest) \<Longrightarrow> s = l @ rest \<and> length l \<le> n - 1"
proof -
  assume a: "c_fgets n s = Some (l, rest)"
  define body where "body = takeWhile (\<lambda>c. c \<noteq> CHR 0x0A) s"
  define line where "line = (if length body < length s then body @ [CHR 0x0A] else body)"
  have "c_fgets n s = (if s = [] then None else Some (take (n - 1) line, drop (length (take (n - 1) line)) s))"
    unfolding c_fgets_def Let_def body_def line_def by (rule refl)
  with a have l: "l = take (n - 1) line" "rest = drop (length l) s"
    by (auto split: if_splits)
  have s: "s = body @ dropWhile (\<lambda>c. c \<noteq> CHR 0x0A) s" by (simp add: body_def)
  have "prefix line s"
  proof (cases "length body < length s")
    case True
    then obtain c cs where "dropWhile (\<lambda>c. c \<noteq> CHR 0x0A) s = c # cs"
      using s by (metis append_Nil2 less_irrefl neq_Nil_conv)
    moreover from this have "c = CHR 0x0A" by (metis (mono_tags) dropWhile_eq_Cons_conv)
    ultimately have "s = (body @ [CHR 0x0A]) @ cs" using s by simp
    with True show ?thesis by (simp add: line_def prefix_def)
  next
    case False
    then have "line = body" by (simp add: line_def)
    then show ?thesis using s unfolding prefix_def by blast
  qed
  then have "prefix l s" unfolding l(1) using take_is_prefix prefix_order.trans by blast
  then show ?thesis using l by (auto simp: prefix_def)
qed

lemma c_fgets_nonempty: "c_fgets n s = Some (l, rest) \<Longrightarrow> 1 < n \<Longrightarrow> l \<noteq> []"
  by (cases s) (auto simp: c_fgets_def Let_def split: if_splits)

lemma c_fgets_progress: "c_fgets n s = Some (l, rest) \<Longrightarrow> 1 < n \<Longrightarrow> length rest < length s"
  using c_fgets_splits c_fgets_nonempty by fastforce

end
