(* ===== verification/Service_Credentials.thy ===== *)
theory Service_Credentials
  imports C_Strings
begin

text \<open>
  \<open>src/service_credentials.c\<close>: from the configured user and group to the numeric ids the
  child process takes.  The two lookups (\<open>getpwnam\<close>, \<open>getgrnam\<close>) are parameters, as they
  are in the source; an error is the value \<open>errno\<close> is set to.
\<close>

record service_credentials_t =
  cr_uid :: u32
  cr_gid :: u32
  cr_init_groups :: bool
  cr_user_name :: string

record passwd =
  pw_name :: string
  pw_uid :: u32
  pw_gid :: u32

definition parse_uid :: "string \<Rightarrow> errno + u32" where
  "parse_uid text =
     (case c_strtoull text of (value, erange, e) \<Rightarrow>
        if erange \<or> e = text \<or> e \<noteq> [] \<or> ucast (ucast value :: u32) \<noteq> value then Inl EINVAL
        else Inr (ucast value))"

definition parse_gid :: "string \<Rightarrow> errno + u32" where
  "parse_gid text =
     (case c_strtoull text of (value, erange, e) \<Rightarrow>
        if erange \<or> e = text \<or> e \<noteq> [] \<or> ucast (ucast value :: u32) \<noteq> value then Inl EINVAL
        else Inr (ucast value))"

text \<open>The user part: an empty user keeps the defaults.\<close>

definition resolve_user :: "string \<Rightarrow> (string \<Rightarrow> passwd option) \<Rightarrow> service_credentials_t
    \<Rightarrow> errno + service_credentials_t" where
  "resolve_user user passwd_lookup c =
     (if user = [] then Inr c
      else if user = ''root'' then Inr (c\<lparr>cr_uid := 0, cr_gid := 0\<rparr>)
      else if c_isdigit (hd user) then
        (case parse_uid user of Inl e \<Rightarrow> Inl e | Inr u \<Rightarrow> Inr (c\<lparr>cr_uid := u\<rparr>))
      else case passwd_lookup user of
        None \<Rightarrow> Inl ENOENT
      | Some pwd \<Rightarrow>
          (if 64 \<le> length (pw_name pwd) then Inl ENAMETOOLONG
           else Inr (c\<lparr>cr_uid := pw_uid pwd, cr_gid := pw_gid pwd, cr_init_groups := True,
                       cr_user_name := pw_name pwd\<rparr>)))"

definition resolve_group :: "string \<Rightarrow> (string \<Rightarrow> u32 option) \<Rightarrow> service_credentials_t
    \<Rightarrow> errno + service_credentials_t" where
  "resolve_group grp group_lookup c =
     (if grp = [] then Inr c
      else if grp = ''root'' then Inr (c\<lparr>cr_gid := 0\<rparr>)
      else if c_isdigit (hd grp) then
        (case parse_gid grp of Inl e \<Rightarrow> Inl e | Inr g \<Rightarrow> Inr (c\<lparr>cr_gid := g\<rparr>))
      else case group_lookup grp of None \<Rightarrow> Inl ENOENT | Some g \<Rightarrow> Inr (c\<lparr>cr_gid := g\<rparr>))"

definition service_credentials_resolve_with_lookups ::
  "string \<Rightarrow> string \<Rightarrow> u32 \<Rightarrow> u32 \<Rightarrow> (string \<Rightarrow> passwd option) \<Rightarrow> (string \<Rightarrow> u32 option)
   \<Rightarrow> errno + service_credentials_t" where
  "service_credentials_resolve_with_lookups user grp default_uid default_gid pwl grl =
     (case resolve_user user pwl
             \<lparr>cr_uid = default_uid, cr_gid = default_gid, cr_init_groups = False, cr_user_name = []\<rparr> of
        Inl e \<Rightarrow> Inl e
      | Inr c \<Rightarrow> resolve_group grp grl c)"

lemma isdigit_hd_show_nat: "c_isdigit (hd (show_nat n)) \<and> show_nat n \<noteq> [] \<and> show_nat n \<noteq> ''root''"
proof -
  obtain c cs where "show_nat n = c # cs" "c_isdigit c" by (rule show_nat_Cons)
  then show ?thesis by (auto simp: c_isdigit_def)
qed

lemma ucast_u32_u64: "ucast (ucast (v :: u64) :: u32) = v \<longleftrightarrow> unat v < 2 ^ 32"
proof -
  have "ucast (ucast v :: u32) = v \<longleftrightarrow> unat (ucast (ucast v :: u32) :: u64) = unat v"
    by (simp add: word_unat_eq_iff)
  also have "unat (ucast (ucast v :: u32) :: u64) = take_bit 32 (unat v)"
    by (simp add: unsigned_ucast_eq unsigned_take_bit_eq)
  finally show ?thesis by (simp add: take_bit_nat_eq_self_iff)
qed

lemma strtoull_show_nat:
  "c_strtoull (show_nat n) = (if n < 2 ^ 64 then (of_nat n, False, []) else (- 1, True, []))"
proof -
  obtain c cs where c: "show_nat n = c # cs" "c_isdigit c" "list_all c_isdigit cs" by (rule show_nat_Cons)
  have "scan_sign (dropWhile c_isspace (show_nat n)) = (False, show_nat n)"
    using c digit_not_space [of c] digit_not_sign [of c] by simp
  moreover have "takeWhile c_isdigit (show_nat n) = show_nat n" "dropWhile c_isdigit (show_nat n) = []"
    using scan_digits [OF conjunct1 [OF show_nat_digits], of "[]" n] by simp_all
  moreover have "show_nat n \<noteq> []" using c by simp
  ultimately show ?thesis unfolding c_strtoull_def by (simp only: Let_def split digits_val_show_nat) auto
qed

lemma parse_uid_show: "parse_uid (show_nat n) = (if n < 2 ^ 32 then Inr (of_nat n) else Inl EINVAL)"
proof (cases "n < 2 ^ 64")
  case True
  then have "unat (of_nat n :: u64) = n" by (simp add: unat_of_nat take_bit_nat_eq_self)
  moreover have "ucast (of_nat n :: u64) = (of_nat n :: u32)"
    by (simp add: unsigned_of_nat word_of_nat_eq_iff)
  moreover have "show_nat n \<noteq> []" using show_nat_digits by simp
  ultimately show ?thesis
    using True by (auto simp: parse_uid_def strtoull_show_nat ucast_u32_u64)
next
  case False
  then show ?thesis by (simp add: parse_uid_def strtoull_show_nat)
qed


lemma parse_gid_uid: "parse_gid = parse_uid"
  by (simp add: fun_eq_iff parse_gid_def parse_uid_def)

text \<open>Numeric ids round trip: a printed id is resolved to itself for the user and for the
  group, without supplementary groups, and an id that does not fit 32 bits is refused with
  \<open>EINVAL\<close> instead of being truncated (to 0, for instance).\<close>

theorem credentials_numeric_roundtrip:
  "service_credentials_resolve_with_lookups (show_nat u) (show_nat g) du dg pwl grl =
     (if u < 2 ^ 32 \<and> g < 2 ^ 32
      then Inr \<lparr>cr_uid = of_nat u, cr_gid = of_nat g, cr_init_groups = False, cr_user_name = []\<rparr>
      else Inl EINVAL)"
  using isdigit_hd_show_nat [of u] isdigit_hd_show_nat [of g]
  by (simp add: service_credentials_resolve_with_lookups_def resolve_user_def resolve_group_def
      parse_gid_uid parse_uid_show)

definition is_digits :: "string \<Rightarrow> bool" where
  "is_digits s \<longleftrightarrow> s \<noteq> [] \<and> list_all c_isdigit s"

lemma parse_uid_digits:
  assumes "c_isdigit (hd s)" "s \<noteq> []" "parse_uid s = Inr u"
  shows "is_digits s \<and> digits_val s = unat u"
proof -
  obtain c cs where s: "s = c # cs" using assms(2) by (cases s) auto
  with assms(1) have c: "\<not> c_isspace c" "c \<noteq> CHR ''-''" "c \<noteq> CHR ''+''" "c_isdigit c"
    using digit_not_space digit_not_sign by auto
  have st: "c_strtoull s = (if 2 ^ 64 \<le> digits_val (takeWhile c_isdigit s) then (- 1, True, dropWhile c_isdigit s)
      else (of_nat (digits_val (takeWhile c_isdigit s)), False, dropWhile c_isdigit s))"
    using c by (simp add: c_strtoull_def s Let_def)
  from assms(3) have all: "dropWhile c_isdigit s = []"
    by (auto simp: parse_uid_def st split: if_splits)
  then have dig: "list_all c_isdigit s" by (simp add: dropWhile_eq_Nil_conv list_all_iff)
  then have take: "takeWhile c_isdigit s = s" by (simp add: takeWhile_eq_all_conv list_all_iff)
  define v where "v = (of_nat (digits_val s) :: u64)"
  from assms(3) have v: "\<not> 2 ^ 64 \<le> digits_val s" "ucast (ucast v :: u32) = v" "u = ucast v"
    by (auto simp: parse_uid_def st take v_def split: if_splits)
  then have "unat v = digits_val s" by (simp add: v_def unat_of_nat take_bit_nat_eq_self)
  moreover have "unat u = take_bit 32 (unat v)"
    unfolding v(3) by (simp add: unsigned_ucast_eq unsigned_take_bit_eq)
  then have "unat u = unat v"
    using v(2) by (simp add: ucast_u32_u64 take_bit_nat_eq_self)
  ultimately show ?thesis using dig assms(2) by (simp add: is_digits_def)
qed

text \<open>The texts that name an id: what the configuration asks for.\<close>

definition names_uid :: "(string \<Rightarrow> passwd option) \<Rightarrow> u32 \<Rightarrow> string \<Rightarrow> u32 \<Rightarrow> bool" where
  "names_uid pwl du user u \<longleftrightarrow>
     (if user = [] then u = du
      else user = ''root'' \<and> u = 0 \<or> is_digits user \<and> digits_val user = unat u
        \<or> (\<exists>p. pwl user = Some p \<and> pw_uid p = u))"

definition names_gid :: "(string \<Rightarrow> passwd option) \<Rightarrow> (string \<Rightarrow> u32 option) \<Rightarrow> u32 \<Rightarrow> string \<Rightarrow> string \<Rightarrow> u32 \<Rightarrow> bool" where
  "names_gid pwl grl dg user grp g \<longleftrightarrow>
     (if grp = [] then
        (if user = ''root'' then g = 0
         else g = dg \<and> (user = [] \<or> is_digits user) \<or> (\<exists>p. pwl user = Some p \<and> pw_gid p = g))
      else grp = ''root'' \<and> g = 0 \<or> is_digits grp \<and> digits_val grp = unat g \<or> grl grp = Some g)"

lemma resolve_user_Inr:
  assumes "resolve_user user pwl \<lparr>cr_uid = du, cr_gid = dg, cr_init_groups = False, cr_user_name = []\<rparr> = Inr c"
  shows "names_uid pwl du user (cr_uid c) \<and> names_gid pwl grl dg user [] (cr_gid c)
    \<and> length (cr_user_name c) < 64
    \<and> (cr_init_groups c \<longrightarrow> (\<exists>p. pwl user = Some p \<and> cr_user_name c = pw_name p))"
  using assms parse_uid_digits [of user]
  by (auto simp: resolve_user_def names_uid_def names_gid_def split: if_splits sum.splits option.splits)

lemma resolve_group_Inr:
  assumes "resolve_group grp grl c = Inr c'"
  shows "c' = c\<lparr>cr_gid := cr_gid c'\<rparr> \<and> (grp = [] \<longrightarrow> c' = c)
    \<and> (grp \<noteq> [] \<longrightarrow> names_gid pwl grl dg user grp (cr_gid c'))"
  using assms parse_uid_digits [of grp]
  by (auto simp: resolve_group_def names_gid_def parse_gid_uid split: if_splits sum.splits option.splits)

text \<open>C18: the child never gets an identity the configuration does not name: the resolved uid
  and gid are the defaults where nothing is configured, and else the root ids, the number
  written (all of the text, without truncation) or the entry of the user database; in
  particular uid 0 is only given when it is asked for.  Supplementary groups are taken from
  the database entry of a named user, whose name fits its buffer.\<close>

theorem credentials_no_escalation:
  assumes "service_credentials_resolve_with_lookups user grp du dg pwl grl = Inr c"
  shows "names_uid pwl du user (cr_uid c) \<and> names_gid pwl grl dg user grp (cr_gid c)
    \<and> length (cr_user_name c) < 64
    \<and> (cr_init_groups c \<longrightarrow> (\<exists>p. pwl user = Some p \<and> cr_user_name c = pw_name p))"
proof -
  obtain c0 where c0: "resolve_user user pwl
        \<lparr>cr_uid = du, cr_gid = dg, cr_init_groups = False, cr_user_name = []\<rparr> = Inr c0"
      "resolve_group grp grl c0 = Inr c"
    using assms by (auto simp: service_credentials_resolve_with_lookups_def split: sum.splits)
  obtain g where "c = c0\<lparr>cr_gid := g\<rparr>" using resolve_group_Inr [OF c0(2)] by blast
  then have "cr_uid c = cr_uid c0" "cr_user_name c = cr_user_name c0" "cr_init_groups c = cr_init_groups c0"
    by simp_all
  with resolve_user_Inr [OF c0(1)] resolve_group_Inr [OF c0(2)] show ?thesis by (cases "grp = []") auto
qed

theorem credentials_no_escalation_witness:
  "\<exists>c. service_credentials_resolve_with_lookups ''net'' ''3003'' 0 0
       (\<lambda>n. if n = ''net'' then Some \<lparr>pw_name = ''net'', pw_uid = 1052, pw_gid = 1052\<rparr> else None) (\<lambda>_. None) = Inr c
     \<and> cr_uid c = 1052 \<and> cr_gid c = 3003 \<and> cr_user_name c = ''net''
     \<and> names_uid (\<lambda>n. if n = ''net'' then Some \<lparr>pw_name = ''net'', pw_uid = 1052, pw_gid = 1052\<rparr> else None)
         0 ''net'' (cr_uid c)"
proof -
  let ?pw = "\<lambda>n. if n = ''net'' then Some \<lparr>pw_name = ''net'', pw_uid = 1052, pw_gid = 1052\<rparr> else None :: passwd option"
  have c: "service_credentials_resolve_with_lookups ''net'' ''3003'' 0 0 ?pw (\<lambda>_. None) =
      Inr \<lparr>cr_uid = 1052, cr_gid = 3003, cr_init_groups = True, cr_user_name = ''net''\<rparr>"
    by (simp add: service_credentials_resolve_with_lookups_def resolve_user_def resolve_group_def
        parse_gid_def c_strtoull_def c_isdigit_def c_isspace_def digits_val_def c_digit_val_def)
  from credentials_no_escalation [OF c] c show ?thesis by simp
qed

end
