(* ===== verification/Utils.thy ===== *)
theory Utils
  imports C_Strings
begin

text \<open>
  The helpers of \<open>src/utils.c\<close> the daemon's logic rests on: process identity from
  \<open>/proc\<close>, directory creation, string editing.  Files are their contents (\<open>None\<close>: it
  cannot be opened); the answers of the file system are functions of the path.
\<close>

definition PATH_MAX :: nat where "PATH_MAX = 4096"

subsection \<open>Process identity\<close>

definition process_exists :: "(pid \<Rightarrow> int \<Rightarrow> errno option) \<Rightarrow> pid \<Rightarrow> bool" where
  "process_exists kill p =
     (if p \<le> 0 then False
      else case kill p 0 of None \<Rightarrow> True | Some e \<Rightarrow> e = EPERM)"

text \<open>The loop over the fields 4 to 22, \<open>n\<close> of them left.\<close>

fun stat_fields :: "nat \<Rightarrow> string \<Rightarrow> u64 list option" where
  "stat_fields 0 cursor = Some []"
| "stat_fields (Suc n) cursor =
     (let cur = dropWhile (\<lambda>c. c = CHR '' '') cursor in
      if cur = [] then None
      else case c_strtoull cur of
        (v, _, e) \<Rightarrow> (if e = cur then None else map_option ((#) v) (stat_fields n e)))"

definition read_proc_stat :: "string option \<Rightarrow> (u64 \<times> u64 \<times> u64) option" where
  "read_proc_stat file =
     (case file of None \<Rightarrow> None | Some contents \<Rightarrow>
      (case c_fgets 4096 contents of None \<Rightarrow> None | Some (line, _) \<Rightarrow>
       (case c_strrchr (CHR '')'') line of None \<Rightarrow> None | Some (_, after) \<Rightarrow>
        (case dropWhile (\<lambda>c. c = CHR '' '') after of
           [] \<Rightarrow> None
         | state # cursor \<Rightarrow>
             (if c_isspace state then None
              else if cursor \<noteq> [] \<and> \<not> c_isspace (hd cursor) then None
              else case stat_fields 19 cursor of
                None \<Rightarrow> None
              | Some vs \<Rightarrow> Some (vs ! (14 - 4), vs ! (15 - 4), vs ! (22 - 4)))))))"

definition get_process_starttime :: "(pid \<Rightarrow> string option) \<Rightarrow> pid \<Rightarrow> u64 option" where
  "get_process_starttime stat p = map_option (\<lambda>(_, _, st). st) (read_proc_stat (stat p))"

text \<open>The line the kernel writes (\<open>proc(5)\<close>): pid, command name in parentheses, state and
  the numeric fields from the fourth on.\<close>

definition proc_stat_fields :: "int list \<Rightarrow> string" where
  "proc_stat_fields fs = concat (map (\<lambda>f. '' '' @ show_int f) fs)"

definition proc_stat_line :: "nat \<Rightarrow> string \<Rightarrow> char \<Rightarrow> int list \<Rightarrow> string" where
  "proc_stat_line p comm state fs =
     show_nat p @ '' ('' @ comm @ '') '' @ [state] @ proc_stat_fields fs"

lemma show_int_not_space: "show_int f = c # cs \<Longrightarrow> c \<noteq> CHR '' ''"
proof -
  assume a: "show_int f = c # cs"
  obtain d ds where "show_nat (nat f) = d # ds" "c_isdigit d" by (rule show_nat_Cons)
  with a show ?thesis by (auto simp: show_int_def c_isdigit_def split: if_splits)
qed

lemma show_int_nonempty [simp]: "show_int f \<noteq> []"
  using show_nat_digits by (auto simp: show_int_def)

lemma stat_fields_print:
  assumes "\<forall>f\<in>set fs. \<bar>f\<bar> < 2 ^ 64" "n \<le> length fs" "case rest of [] \<Rightarrow> True | c # _ \<Rightarrow> \<not> c_isdigit c"
  shows "stat_fields n (proc_stat_fields fs @ rest) = Some (map word_of_int (take n fs))"
  using assms
proof (induction n arbitrary: fs)
  case (Suc n)
  then obtain f gs where fs: "fs = f # gs" by (cases fs) auto
  let ?t = "proc_stat_fields gs @ rest"
  have t: "case ?t of [] \<Rightarrow> True | c # _ \<Rightarrow> \<not> c_isdigit c"
    using Suc.prems(3) by (cases gs) (auto simp: proc_stat_fields_def c_isdigit_def)
  have d: "dropWhile (\<lambda>c. c = CHR '' '') (proc_stat_fields fs @ rest) = show_int f @ ?t"
    using show_int_not_space [of f] show_int_nonempty [of f]
    by (cases "show_int f") (auto simp: fs proc_stat_fields_def)
  have "c_strtoull (show_int f @ ?t) = (word_of_int f, False, ?t)"
    using Suc.prems(1) by (intro strtoull_show_int [OF t]) (simp add: fs)
  moreover have "?t \<noteq> show_int f @ ?t" by simp
  ultimately show ?case
    using Suc.IH [of gs] Suc.prems fs unfolding stat_fields.simps d Let_def by simp
qed simp

lemma show_int_no_paren: "CHR '')'' \<notin> set (show_int i) \<and> CHR 0x0A \<notin> set (show_int i)"
  using show_nat_digits [of "nat i"] show_nat_digits [of "nat (- i)"]
  by (auto simp: show_int_def list_all_iff c_isdigit_def)

lemma stat_fields_no_paren:
  "CHR '')'' \<notin> set (proc_stat_fields fs) \<and> CHR 0x0A \<notin> set (proc_stat_fields fs)"
  by (induction fs) (use show_int_no_paren in \<open>auto simp: proc_stat_fields_def\<close>)

lemma c_fgets_line:
  assumes "CHR 0x0A \<notin> set l" "length l + 1 < n"
  shows "c_fgets n (l @ CHR 0x0A # rest) = Some (l @ [CHR 0x0A], rest)"
proof -
  have "takeWhile (\<lambda>c. c \<noteq> CHR 0x0A) (l @ CHR 0x0A # rest) = l"
    using assms(1) by (subst takeWhile_append2) auto
  with assms(2) show ?thesis by (simp add: c_fgets_def Let_def)
qed

lemma read_proc_stat_line:
  assumes "\<forall>f\<in>set fs. \<bar>f\<bar> < 2 ^ 64" "19 \<le> length fs" "CHR 0x0A \<notin> set comm"
    and "\<not> c_isspace state" "state \<noteq> CHR '')''"
    and "length (proc_stat_line p comm state fs) < 4095"
  shows "read_proc_stat (Some (proc_stat_line p comm state fs @ [CHR 0x0A])) =
      Some (word_of_int (fs ! 10), word_of_int (fs ! 11), word_of_int (fs ! 18))
    \<and> get_process_starttime (\<lambda>_. Some (proc_stat_line p comm state fs @ [CHR 0x0A])) q =
      Some (word_of_int (fs ! 18))"
proof -
  let ?l = "proc_stat_line p comm state fs"
  have nl: "CHR 0x0A \<notin> set ?l"
    using assms(3,4) stat_fields_no_paren [of fs] show_int_no_paren [of "int p"]
    by (auto simp: proc_stat_line_def show_int_def c_isspace_def)
  have get: "c_fgets 4096 (?l @ [CHR 0x0A]) = Some (?l @ [CHR 0x0A], [])"
    using c_fgets_line [OF nl, of 4096 "[]"] assms(6) by simp
  have paren: "c_strrchr (CHR '')'') (?l @ [CHR 0x0A]) =
      Some (show_nat p @ '' ('' @ comm, CHR '' '' # state # proc_stat_fields fs @ [CHR 0x0A])"
    unfolding c_strrchr_Some using assms(5) stat_fields_no_paren [of fs] by (simp add: proc_stat_line_def)
  have cur: "dropWhile (\<lambda>c. c = CHR '' '') (CHR '' '' # state # proc_stat_fields fs @ [CHR 0x0A]) =
      state # proc_stat_fields fs @ [CHR 0x0A]"
    using assms(4) by (auto simp: c_isspace_def)
  have sp: "c_isspace (hd (proc_stat_fields fs @ [CHR 0x0A]))"
    by (cases fs) (simp_all add: proc_stat_fields_def c_isspace_def)
  have "stat_fields 19 (proc_stat_fields fs @ [CHR 0x0A]) = Some (map word_of_int (take 19 fs))"
    using assms(1,2) by (intro stat_fields_print) (simp_all add: c_isdigit_def)
  then have "read_proc_stat (Some (?l @ [CHR 0x0A])) =
      Some (word_of_int (fs ! 10), word_of_int (fs ! 11), word_of_int (fs ! 18))"
    using assms(2,4) sp by (simp add: read_proc_stat_def get paren cur del: dropWhile.simps)
  then show ?thesis by (simp add: get_process_starttime_def)
qed

text \<open>C22: the identity of a process is read back from the kernel's line exactly, whatever
  the process calls itself: a command name with spaces, digits or closing parentheses does
  not shift the fields, and negative fields before the start time do no harm.\<close>

theorem proc_stat_roundtrip:
  assumes "\<forall>f\<in>set fs. \<bar>f\<bar> < 2 ^ 64" "19 \<le> length fs" "CHR 0x0A \<notin> set comm"
    and "\<not> c_isspace state" "state \<noteq> CHR '')''"
    and "length (proc_stat_line p comm state fs) < 4095"
  shows "read_proc_stat (Some (proc_stat_line p comm state fs @ [CHR 0x0A])) =
      Some (word_of_int (fs ! 10), word_of_int (fs ! 11), word_of_int (fs ! 18))
    \<and> get_process_starttime (\<lambda>_. Some (proc_stat_line p comm state fs @ [CHR 0x0A])) q =
      Some (word_of_int (fs ! 18))"
  by (rule read_proc_stat_line [OF assms])

theorem proc_stat_roundtrip_witness:
  "get_process_starttime (\<lambda>_. Some (proc_stat_line 7 '') R 1 (x'' (CHR ''S'')
      [1, 7, 7, 0, -1, 4, 4, 4, 4, 4, 4, 4, 4, 4, 4, 4, 4, 4, 987654, 5] @ [CHR 0x0A])) 7 = Some 987654"
proof -
  let ?fs = "[1, 7, 7, 0, -1, 4, 4, 4, 4, 4, 4, 4, 4, 4, 4, 4, 4, 4, 987654, 5] :: int list"
  have "length (proc_stat_line 7 '') R 1 (x'' (CHR ''S'') ?fs) < 4095"
    by (simp add: proc_stat_line_def proc_stat_fields_def show_int_def show_nat.simps)
  then show ?thesis
    using proc_stat_roundtrip [of ?fs "'') R 1 (x''" "CHR ''S''" 7 7]
    by (simp add: c_isspace_def)
qed

subsection \<open>Directories\<close>

text \<open>\<open>MkBad\<close>: the function returns -1 and leaves \<open>errno\<close> as it was.\<close>

datatype mkdir_result = MkOk | MkErr errno | MkBad

text \<open>One \<open>mkdir\<close> of the function: success, or the directory is already there.\<close>

definition mkdir_one :: "(string \<Rightarrow> errno option) \<Rightarrow> (string \<Rightarrow> bool) \<Rightarrow> string \<Rightarrow> errno option" where
  "mkdir_one mk isdir path =
     (case mk path of
        None \<Rightarrow> None
      | Some e \<Rightarrow> (if e \<noteq> EEXIST then Some e else if \<not> isdir path then Some ENOTDIR else None))"

text \<open>The walk over \<open>tmp\<close> from its second character: \<open>pre\<close> is what is behind the pointer.\<close>

fun mkdir_walk :: "(string \<Rightarrow> errno option) \<Rightarrow> (string \<Rightarrow> bool) \<Rightarrow> string \<Rightarrow> string
    \<Rightarrow> errno option \<times> string list" where
  "mkdir_walk mk isdir pre [] = (None, [])"
| "mkdir_walk mk isdir pre (c # cs) =
     (if c = CHR ''/'' then
        (case mkdir_one mk isdir pre of
           Some e \<Rightarrow> (Some e, [pre])
         | None \<Rightarrow> (case mkdir_walk mk isdir (pre @ [c]) cs of (r, ps) \<Rightarrow> (r, pre # ps)))
      else mkdir_walk mk isdir (pre @ [c]) cs)"

text \<open>The second component lists the paths \<open>mkdir\<close> is called for.\<close>

definition mkdir_recursive :: "(string \<Rightarrow> errno option) \<Rightarrow> (string \<Rightarrow> bool) \<Rightarrow> string
    \<Rightarrow> mkdir_result \<times> string list" where
  "mkdir_recursive mk isdir path =
     (if path = [] then (MkBad, [])
      else if PATH_MAX \<le> length path then (MkErr ENAMETOOLONG, [])
      else
        (let tmp = (if last path = CHR ''/'' then butlast path else path) in
         case mkdir_walk mk isdir (take 1 tmp) (drop 1 tmp) of
           (Some e, ps) \<Rightarrow> (MkErr e, ps)
         | (None, ps) \<Rightarrow>
             (case mkdir_one mk isdir tmp of
                Some e \<Rightarrow> (MkErr e, ps @ [tmp])
              | None \<Rightarrow> (MkOk, ps @ [tmp]))))"

text \<open>The ancestors of a path: its proper prefixes that end before a slash, after the first
  character.\<close>

definition ancestors :: "string \<Rightarrow> string list" where
  "ancestors tmp = map (\<lambda>i. take i tmp) (filter (\<lambda>i. tmp ! i = CHR ''/'') [1..<length tmp])"

lemma filter_map_upt_Suc:
  "map f (filter P [a..<Suc b]) = map f (filter P [a..<b]) @ (if a \<le> b \<and> P b then [f b] else [])"
  by simp

lemma mkdir_walk_ok:
  assumes "mkdir_walk mk isdir pre rest = (r, ps)" "pre \<noteq> []"
  shows "(r = None \<longrightarrow> (\<forall>q\<in>set ps. mkdir_one mk isdir q = None)
           \<and> ps = map (\<lambda>i. take i (pre @ rest))
                    (filter (\<lambda>i. (pre @ rest) ! i = CHR ''/'') [length pre..<length (pre @ rest)]))
       \<and> (\<forall>e. r = Some e \<longrightarrow> (\<exists>qs q. ps = qs @ [q] \<and> mkdir_one mk isdir q = Some e
           \<and> (\<forall>x\<in>set qs. mkdir_one mk isdir x = None)))"
  using assms
proof (induction rest arbitrary: pre r ps)
  case (Cons c cs)
  have upt: "[length pre..<length (pre @ c # cs)] =
      length pre # [length (pre @ [c])..<length ((pre @ [c]) @ cs)]"
    by (simp add: upt_conv_Cons del: upt_Suc)
  show ?case
  proof (cases "c = CHR ''/''")
    case True
    show ?thesis
    proof (cases "mkdir_one mk isdir pre")
      case None
      obtain r' ps' where w: "mkdir_walk mk isdir (pre @ [c]) cs = (r', ps')" by fastforce
      with True None Cons.prems have "r = r'" "ps = pre # ps'" by auto
      with Cons.IH [OF w] True None upt show ?thesis
        by (auto intro: exI [of _ "pre # _"])
    next
      case (Some e)
      with True Cons.prems show ?thesis by auto
    qed
  next
    case False
    with Cons.prems have w: "mkdir_walk mk isdir (pre @ [c]) cs = (r, ps)" by simp
    from Cons.IH [OF w] False upt show ?thesis by simp
  qed
qed simp

text \<open>\<open>mkdir_recursive\<close> creates the path from the outside in: it succeeds exactly when
  \<open>mkdir\<close> succeeds for every ancestor and for the path itself or finds a directory there, the
  calls are made for the ancestors from the shortest on, and after the first failure nothing
  more is tried.\<close>

theorem mkdir_recursive_outside_in:
  assumes "path \<noteq> []" "length path < PATH_MAX" "last path \<noteq> CHR ''/''"
  shows "\<exists>r ps. mkdir_recursive mk isdir path = (r, ps)
    \<and> (r = MkOk \<longleftrightarrow> ps = ancestors path @ [path] \<and> (\<forall>q\<in>set ps. mkdir_one mk isdir q = None))
    \<and> (\<forall>e. r = MkErr e \<longrightarrow> (\<exists>qs q. ps = qs @ [q] \<and> mkdir_one mk isdir q = Some e
          \<and> (\<forall>x\<in>set qs. mkdir_one mk isdir x = None)))
    \<and> r \<noteq> MkBad"
proof -
  obtain c cs where path: "path = [c] @ cs" using assms(1) by (cases path) auto
  obtain w ps where walk: "mkdir_walk mk isdir [c] cs = (w, ps)" by fastforce
  have anc: "ancestors path = map (\<lambda>i. take i ([c] @ cs))
      (filter (\<lambda>i. ([c] @ cs) ! i = CHR ''/'') [length [c]..<length ([c] @ cs)])"
    by (simp add: ancestors_def path del: upt_Suc)
  have m: "mkdir_recursive mk isdir path = (case w of
        Some e \<Rightarrow> (MkErr e, ps)
      | None \<Rightarrow> (case mkdir_one mk isdir path of Some e \<Rightarrow> (MkErr e, ps @ [path]) | None \<Rightarrow> (MkOk, ps @ [path])))"
    using assms walk unfolding path by (simp add: mkdir_recursive_def Let_def split: option.splits)
  show ?thesis
  proof (cases w)
    case None
    with mkdir_walk_ok [OF walk] anc have "\<forall>q\<in>set ps. mkdir_one mk isdir q = None" "ps = ancestors path"
      by (simp_all del: upt_Suc)
    with None m show ?thesis by (cases "mkdir_one mk isdir path") auto
  next
    case (Some e)
    with mkdir_walk_ok [OF walk] obtain qs q where "ps = qs @ [q]" "mkdir_one mk isdir q = Some e"
        "\<forall>x\<in>set qs. mkdir_one mk isdir x = None" by auto
    with Some m show ?thesis by auto
  qed
qed

theorem mkdir_recursive_outside_in_witness:
  "fst (mkdir_recursive (\<lambda>q. if q = ''/a/b'' then Some EACCES else Some EEXIST) (\<lambda>_. True) ''/a/b/c'')
     \<notin> {MkOk, MkBad}"
proof -
  let ?mk = "\<lambda>q. if q = ''/a/b'' then Some EACCES else Some EEXIST"
  have anc: "ancestors ''/a/b/c'' = [''/a'', ''/a/b'']"
    by (simp add: ancestors_def upt_conv_Cons)
  have no: "mkdir_one ?mk (\<lambda>_. True) ''/a/b'' \<noteq> None"
    by (simp add: mkdir_one_def)
  obtain r ps where "mkdir_recursive ?mk (\<lambda>_. True) ''/a/b/c'' = (r, ps)"
      "r = MkOk \<longleftrightarrow> ps = ancestors ''/a/b/c'' @ [''/a/b/c''] \<and> (\<forall>q\<in>set ps. mkdir_one ?mk (\<lambda>_. True) q = None)"
      "r \<noteq> MkBad"
    using mkdir_recursive_outside_in [of "''/a/b/c''" ?mk "\<lambda>_. True"]
    by (auto simp: PATH_MAX_def)
  with no show ?thesis unfolding anc by auto
qed

subsection \<open>Strings\<close>

definition is_number :: "string \<Rightarrow> bool" where
  "is_number s \<longleftrightarrow> s \<noteq> [] \<and> list_all c_isdigit s"

definition starts_with :: "string \<Rightarrow> string \<Rightarrow> bool" where
  "starts_with s pre \<longleftrightarrow> take (length pre) s = pre"

definition ends_with :: "string \<Rightarrow> string \<Rightarrow> bool" where
  "ends_with s suf =
     (if length s < length suf then False else drop (length s - length suf) s = suf)"

definition trim :: "string \<Rightarrow> string" where
  "trim s =
     (let start = dropWhile c_isspace s in
      if start = [] then []
      else rev (dropWhile c_isspace (rev start)))"

lemma trim_ends: "trim s = c # cs \<Longrightarrow> \<not> c_isspace c \<and> \<not> c_isspace (last (c # cs))"
proof -
  assume a: "trim s = c # cs"
  define start where "start = dropWhile c_isspace s"
  define r where "r = dropWhile c_isspace (rev start)"
  from a have st: "start \<noteq> []" "rev r = c # cs"
    by (auto simp: trim_def Let_def start_def r_def split: if_splits)
  then obtain d ds where d: "start = d # ds" by (cases start) auto
  then have nd: "\<not> c_isspace d" unfolding start_def by (metis (mono_tags) dropWhile_eq_Cons_conv)
  have "suffix r (rev start)" by (simp add: r_def suffix_dropWhile)
  then have "prefix (rev r) start" by (simp add: suffix_to_prefix)
  with st(2) d have "c = d" by simp
  moreover have "r \<noteq> []" using st(2) by auto
  moreover from this have "hd r = last (c # cs)" unfolding st(2) [symmetric] by (simp add: last_rev)
  moreover have "\<not> c_isspace (hd r)" using \<open>r \<noteq> []\<close> hd_dropWhile unfolding r_def by blast
  ultimately show ?thesis using nd by simp
qed

lemma trim_id: "s \<noteq> [] \<Longrightarrow> \<not> c_isspace (hd s) \<Longrightarrow> \<not> c_isspace (last s) \<Longrightarrow> trim s = s"
proof -
  assume s: "s \<noteq> []" "\<not> c_isspace (hd s)" "\<not> c_isspace (last s)"
  then have "dropWhile c_isspace s = s" by (cases s) auto
  moreover have "dropWhile c_isspace (rev s) = rev s" using s by (cases s rule: rev_cases) auto
  ultimately show ?thesis by (simp add: trim_def s(1))
qed

lemma trim_trim [simp]: "trim (trim s) = trim s"
proof (cases "trim s")
  case Nil
  then show ?thesis by (simp add: trim_def)
next
  case (Cons c cs)
  with trim_ends [OF Cons] show ?thesis by (intro trim_id) auto
qed

text \<open>The two passes of \<open>str_replace\<close>: counting, then filling the buffer.  \<open>old\<close> is not
  empty there; the guard only serves the termination.\<close>

function replace_count :: "string \<Rightarrow> string \<Rightarrow> nat" where
  "replace_count old p =
     (if old = [] then 0
      else case c_strstr p old of
        None \<Rightarrow> 0
      | Some (_, t) \<Rightarrow> Suc (replace_count old (drop (length old) t)))"
  by auto
termination
  by (relation "measure (length \<circ> snd)") (auto dest!: c_strstr_Some simp: prefix_def)

function replace_fill :: "string \<Rightarrow> string \<Rightarrow> string \<Rightarrow> string" where
  "replace_fill old new src =
     (if old = [] then src
      else case c_strstr src old of
        None \<Rightarrow> src
      | Some (b, t) \<Rightarrow> b @ new @ replace_fill old new (drop (length old) t))"
  by auto
termination
  by (relation "measure (length \<circ> snd \<circ> snd)") (auto dest!: c_strstr_Some simp: prefix_def)

declare replace_count.simps [simp del] replace_fill.simps [simp del]

text \<open>The size of the buffer; \<open>None\<close>: the computation would overflow.\<close>

definition replace_size :: "string \<Rightarrow> string \<Rightarrow> string \<Rightarrow> nat option" where
  "replace_size s old new =
     (let count = replace_count old s in
      if length old \<le> length new then
        (let delta = length new - length old in
         if delta \<noteq> 0 \<and> (SIZE_MAX - length s - 1) div delta < count then None
         else Some (length s + count * delta + 1))
      else
        (let delta = length old - length new in
         if length s div delta < count then None
         else Some (length s - count * delta + 1)))"

definition str_replace :: "(nat \<Rightarrow> bool) \<Rightarrow> string \<Rightarrow> string \<Rightarrow> string \<Rightarrow> string option" where
  "str_replace alloc s old new =
     (if old = [] then (if alloc (length s + 1) then Some s else None)
      else case replace_size s old new of
        None \<Rightarrow> None
      | Some n \<Rightarrow> (if alloc n then Some (replace_fill old new s) else None))"

lemma replace_lengths:
  "old \<noteq> [] \<Longrightarrow>
     length (replace_fill old new s) + replace_count old s * length old
       = length s + replace_count old s * length new
   \<and> replace_count old s * length old \<le> length s"
proof (induction old s rule: replace_count.induct)
  case (1 old p)
  show ?case
  proof (cases "c_strstr p old")
    case None
    then show ?thesis
      by (simp add: replace_count.simps [of old p] replace_fill.simps [of old new p])
  next
    case (Some bt)
    obtain b t where bt: "bt = (b, t)" by (cases bt)
    with Some have p: "p = b @ t" "prefix old t" by (auto dest: c_strstr_Some)
    then have "length old \<le> length t" by (auto dest: prefix_length_le)
    moreover have "replace_count old p = Suc (replace_count old (drop (length old) t))"
        "replace_fill old new p = b @ new @ replace_fill old new (drop (length old) t)"
      using 1(2) Some by (simp_all add: bt replace_count.simps [of old p] replace_fill.simps [of old new p])
    ultimately show ?thesis
      using 1(1) [OF 1(2) Some bt [symmetric] 1(2)] p(1) by (simp add: algebra_simps) linarith
  qed
qed

text \<open>\<open>str_replace\<close> fills exactly the buffer it allocates: the size computed in the
  first pass is the length of the string written in the second plus the terminating NUL, in
  particular nothing is written past the end, whether the string grows or shrinks; it fails
  only when the size does not fit \<open>size_t\<close> or the allocation fails.\<close>

theorem str_replace_fills_buffer:
  assumes "old \<noteq> []" "length s < SIZE_MAX"
  shows "(case replace_size s old new of
       Some n \<Rightarrow> n = length (replace_fill old new s) + 1 \<and> n \<le> SIZE_MAX
         \<and> str_replace alloc s old new = (if alloc n then Some (replace_fill old new s) else None)
     | None \<Rightarrow> SIZE_MAX < length (replace_fill old new s) + 1 \<and> str_replace alloc s old new = None)"
proof -
  define k where "k = replace_count old s"
  have len: "length (replace_fill old new s) + k * length old = length s + k * length new"
      "k * length old \<le> length s"
    using replace_lengths [OF assms(1), of new s] by (simp_all add: k_def)
  show ?thesis
  proof (cases "length old \<le> length new")
    case True
    define d where "d = length new - length old"
    then have new: "length new = length old + d" using True by simp
    have fill: "length (replace_fill old new s) = length s + k * d"
      using len by (simp add: new algebra_simps)
    have "(SIZE_MAX - length s - 1) div d < k \<longleftrightarrow> SIZE_MAX < length s + k * d + 1" if "d \<noteq> 0"
      using that assms(2) by (simp add: div_less_iff_less_mult) (simp add: mult.commute, linarith)
    moreover have "length s + k * d + 1 \<le> SIZE_MAX" if "d = 0" using that assms(2) by simp
    ultimately show ?thesis
      using True assms fill
      by (cases "d = 0")
        (auto simp: replace_size_def str_replace_def Let_def simp flip: k_def d_def)
  next
    case False
    define d where "d = length old - length new"
    then have old: "length old = length new + d" "0 < d" using False by simp_all
    have fill: "length (replace_fill old new s) + k * d = length s"
      using len by (simp add: old algebra_simps)
    then have "\<not> length s div d < k" using old(2)
      by (metis add_leE div_less_iff_less_mult mult.commute not_le le_add2)
    then show ?thesis
      using False assms fill
      by (auto simp: replace_size_def str_replace_def Let_def simp flip: k_def d_def)
  qed
qed

theorem str_replace_fills_buffer_witness:
  "replace_size ''a-b-c'' ''-'' ''::'' = Some 8
   \<and> str_replace (\<lambda>n. n \<le> 8) ''a-b-c'' ''-'' ''::'' = Some ''a::b::c''"
proof -
  have "replace_size ''a-b-c'' ''-'' ''::'' = Some 8" "replace_fill ''-'' ''::'' ''a-b-c'' = ''a::b::c''"
    by (simp_all add: replace_size_def replace_count.simps replace_fill.simps SIZE_MAX_def)
  then show ?thesis
    using str_replace_fills_buffer [of "''-''" "''a-b-c''" "''::''" "\<lambda>n. n \<le> 8"]
    by (simp add: SIZE_MAX_def)
qed

end
