(* ===== verification/Netlink.thy ===== *)
theory Netlink
  imports Reactor Atpd_Context Utils "HOL-Library.Monad_Syntax"
begin

text \<open>
  \<open>src/netlink.c\<close>: the observer of the kernel's network state.  It keeps three netlink
  sockets, turns link, address, route and IPsec events into one debounced refresh timer and
  publishes the VPN interface the refresh finds to the runtime context.

  A datagram is the list of its messages, a message its header fields and decoded attributes
  (the \<open>NLMSG_*\<close>, \<open>RTA_*\<close> walks over the buffer are kernel macros).  Answers of the kernel
  are arguments.  The daemon has one reactor: a reactor pointer is the boolean "not NULL".
\<close>

definition NETLINK_DEBOUNCE_MS :: int where "NETLINK_DEBOUNCE_MS = 500"
definition NETLINK_VPN_SETTLE_MS :: int where "NETLINK_VPN_SETTLE_MS = 1000"
definition IFNAMSIZ :: nat where "IFNAMSIZ = 16"

datatype nl_attr = A_IFNAME string | A_STATS64 bool u64 u64 | A_IF_ID u32 | A_other

record nlmsg =
  m_type :: nat
  m_seq :: u32
  m_error :: int
  m_flags :: u32
  m_attrs :: "nl_attr list"

record nl_link_info =
  li_name :: string
  li_flags :: u32
  li_rx_bytes :: u64
  li_tx_bytes :: u64

record nl_state =
  nl_sync_fd :: fd
  nl_async_fd :: fd
  nl_xfrm_fd :: fd
  nl_xfrm_registered :: bool
  nl_xfrm_reactor :: bool
  nl_callback :: "code_ptr option"
  nl_userdata :: "data_ptr option"
  nl_seq :: u32
  nl_debounce_reactor :: bool
  nl_debounce_timer :: "nat option"

definition nl_zero :: nl_state where
  "nl_zero = \<lparr>nl_sync_fd = -1, nl_async_fd = -1, nl_xfrm_fd = -1, nl_xfrm_registered = False,
     nl_xfrm_reactor = False, nl_callback = None, nl_userdata = None, nl_seq = 0,
     nl_debounce_reactor = False, nl_debounce_timer = None\<rparr>"

subsection \<open>Interface names\<close>

definition proxy_prefixes :: "string list" where
  "proxy_prefixes = [''tun'', ''warp'', ''wg'', ''tailscale'', ''zt'', ''zerotier'', ''utun'', ''vpn'', ''ppp'']"

definition is_proxy_interface :: "string \<Rightarrow> bool" where
  "is_proxy_interface ifname \<longleftrightarrow>
     prefix ''ipsec'' ifname \<or> prefix ''xfrm'' ifname \<or> list_ex (\<lambda>p. prefix p ifname) proxy_prefixes"

definition netlink_get_vpn_type_label :: "string \<Rightarrow> string" where
  "netlink_get_vpn_type_label iface =
     (if iface = [] then ''None''
      else if prefix ''warp'' iface then ''Cloudflare WARP''
      else if prefix ''tun'' iface then ''Cloudflare WARP / TUN''
      else if prefix ''wg'' iface then ''WireGuard''
      else if prefix ''tailscale'' iface then ''Tailscale''
      else if prefix ''zt'' iface \<or> prefix ''zerotier'' iface then ''ZeroTier''
      else if prefix ''ipsec'' iface then ''Google VPN / IPsec''
      else if prefix ''xfrm'' iface then ''IPsec XFRM''
      else if prefix ''utun'' iface then ''User TUN''
      else if prefix ''ppp'' iface then ''PPP Tunnel''
      else ''VPN Tunnel'')"

text \<open>The payload may or may not hold a NUL; the copy always fits and is terminated.\<close>

definition safe_copy_ifname :: "string \<Rightarrow> string" where
  "safe_copy_ifname payload = take (IFNAMSIZ - 1) (takeWhile (\<lambda>c. c \<noteq> CHR 0x00) payload)"

subsection \<open>Requests and answers\<close>

text \<open>\<open>socket\<close> and \<open>bind\<close>; the result is the socket or -1.\<close>

definition open_netlink_socket :: "fd \<Rightarrow> bool \<Rightarrow> fd" where
  "open_netlink_socket sock bind_ok =
     (if sock < 0 then -1 else if \<not> bind_ok then -1 else sock)"

definition netlink_send_request :: "fd \<Rightarrow> bool \<Rightarrow> int" where
  "netlink_send_request fd sent_all = (if fd < 0 then -1 else if \<not> sent_all then -1 else 0)"

definition RTM_NEWLINK :: nat where "RTM_NEWLINK = 16"
definition NLMSG_ERROR :: nat where "NLMSG_ERROR = 2"
definition NLMSG_DONE :: nat where "NLMSG_DONE = 3"

fun link_attrs :: "nl_attr list \<Rightarrow> nl_link_info \<Rightarrow> nl_link_info" where
  "link_attrs [] info = info"
| "link_attrs (A_IFNAME p # as) info =
     link_attrs as (info\<lparr>li_name := (if p = [] then [] else safe_copy_ifname p)\<rparr>)"
| "link_attrs (A_STATS64 long_enough rx tx # as) info =
     link_attrs as (if long_enough then info\<lparr>li_rx_bytes := rx, li_tx_bytes := tx\<rparr> else info)"
| "link_attrs (a # as) info = link_attrs as info"

text \<open>The parse context: capacity and the links stored so far (\<open>count\<close> is their number).\<close>

definition parser_link_sync :: "nlmsg \<Rightarrow> nat \<times> nl_link_info list \<Rightarrow> int \<times> nat \<times> nl_link_info list" where
  "parser_link_sync h ctx =
     (if m_type h \<noteq> RTM_NEWLINK then (0, ctx)
      else if fst ctx \<le> length (snd ctx) then (0, ctx)
      else
        (let info = link_attrs (m_attrs h)
               \<lparr>li_name = [], li_flags = m_flags h, li_rx_bytes = 0, li_tx_bytes = 0\<rparr>
         in if li_name info \<noteq> [] then (0, fst ctx, snd ctx @ [info]) else (0, ctx)))"

text \<open>The walk over one datagram: \<open>Inl rc\<close> leaves the function, \<open>Inr True\<close> ends the loop.\<close>

fun recv_walk :: "u32 \<Rightarrow> nlmsg list \<Rightarrow> nat \<times> nl_link_info list \<Rightarrow> (int + bool) \<times> nat \<times> nl_link_info list" where
  "recv_walk expected [] ctx = (Inr False, ctx)"
| "recv_walk expected (h # hs) ctx =
     (if m_seq h \<noteq> expected then recv_walk expected hs ctx
      else if m_type h = NLMSG_DONE then (Inr True, ctx)
      else if m_type h = NLMSG_ERROR then
        (if m_error h \<noteq> 0 then (Inl (-1), ctx) else (Inr True, ctx))
      else case parser_link_sync h ctx of
        (rc, ctx') \<Rightarrow> (if rc < 0 then (Inl (-1), ctx') else recv_walk expected hs ctx'))"

text \<open>The answers of \<open>recv\<close>: a datagram, or an error (after the receive timeout \<open>EAGAIN\<close>).
  \<open>None\<close>: the list ends while the loop still waits.\<close>

fun netlink_recv_all_with_timeout :: "u32 \<Rightarrow> (errno + nlmsg list) list \<Rightarrow> nat \<times> nl_link_info list
    \<Rightarrow> (int \<times> nat \<times> nl_link_info list) option" where
  "netlink_recv_all_with_timeout expected [] ctx = None"
| "netlink_recv_all_with_timeout expected (Inl e # as) ctx = Some (-1, ctx)"
| "netlink_recv_all_with_timeout expected (Inr msgs # as) ctx =
     (case recv_walk expected msgs ctx of
        (Inl rc, ctx') \<Rightarrow> Some (rc, ctx')
      | (Inr True, ctx') \<Rightarrow> Some (0, ctx')
      | (Inr False, ctx') \<Rightarrow> netlink_recv_all_with_timeout expected as ctx')"

subsection \<open>Finding the VPN interface\<close>

definition IFF_UP :: u32 where "IFF_UP = 1"

definition is_up :: "u32 \<Rightarrow> bool" where
  "is_up flags \<longleftrightarrow> take_bit 1 flags \<noteq> 0"

text \<open>The walk over \<open>getifaddrs\<close>: names (NULL possible) and flags.\<close>

fun getifaddrs_walk :: "(string option \<times> u32) list \<Rightarrow> string option \<Rightarrow> string option" where
  "getifaddrs_walk [] fallback = fallback"
| "getifaddrs_walk ((None, flags) # ifs) fallback = getifaddrs_walk ifs fallback"
| "getifaddrs_walk ((Some name, flags) # ifs) fallback =
     (if \<not> is_up flags then getifaddrs_walk ifs fallback
      else if \<not> is_proxy_interface name then getifaddrs_walk ifs fallback
      else if prefix ''ipsec'' name then Some name
      else getifaddrs_walk ifs (if fallback = None then Some name else fallback))"

definition getifaddrs_find_vpn :: "(string option \<times> u32) list option \<Rightarrow> nat \<Rightarrow> string option" where
  "getifaddrs_find_vpn ifaddrs sz =
     (case ifaddrs of None \<Rightarrow> None | Some ifs \<Rightarrow> map_option (c_trunc sz) (getifaddrs_walk ifs None))"

text \<open>The walk over the dumped links.\<close>

fun links_walk :: "nl_link_info list \<Rightarrow> string option \<Rightarrow> string option" where
  "links_walk [] fallback = fallback"
| "links_walk (l # ls) fallback =
     (if is_up (li_flags l) \<and> is_proxy_interface (li_name l) then
        (if prefix ''ipsec'' (li_name l) then Some (li_name l)
         else links_walk ls (if fallback = None then Some (li_name l) else fallback))
      else links_walk ls fallback)"

text \<open>What the kernel answers to one query.\<close>

record nl_env =
  ne_ifaddrs :: "(string option \<times> u32) list option"
  ne_sock :: fd
  ne_bind_ok :: bool
  ne_sent :: bool
  ne_recv :: "(errno + nlmsg list) list"
  ne_ifindex :: int
  ne_proc_net_dev :: "string option"

definition query_fd :: "nl_env \<Rightarrow> nl_state \<Rightarrow> fd" where
  "query_fd env nl =
     (if nl_sync_fd nl < 0 then open_netlink_socket (ne_sock env) (ne_bind_ok env) else nl_sync_fd nl)"

text \<open>The result is the return code, the interface name and the state (the sequence counter);
  the outer \<open>None\<close>: the query does not return on these answers.\<close>

definition netlink_get_active_vpn :: "nl_env \<Rightarrow> nat \<Rightarrow> nl_state \<Rightarrow> (int \<times> string \<times> nl_state) option" where
  "netlink_get_active_vpn env sz nl =
     (if sz = 0 then Some (-1, [], nl)
      else
        (let fast = getifaddrs_find_vpn (ne_ifaddrs env) sz in
         if fast \<noteq> None \<and> the fast \<noteq> [] then Some (0, the fast, nl)
         else
           (let fd = query_fd env nl in
            if fd < 0 then Some (-1, [], nl)
            else
              (let seq = nl_seq nl; nl1 = nl\<lparr>nl_seq := seq + 1\<rparr> in
               if netlink_send_request fd (ne_sent env) \<noteq> 0 then Some (-1, [], nl1)
               else
                 Option.bind (netlink_recv_all_with_timeout seq (ne_recv env) (32, []))
                   (\<lambda>(rc, ctx).
                      if rc \<noteq> 0 then Some (-1, [], nl1)
                      else case links_walk (snd ctx) None of
                        Some name \<Rightarrow> Some (0, c_trunc sz name, nl1)
                      | None \<Rightarrow> Some (-1, [], nl1))))))"

definition nl_vpn_detect :: "nl_env \<Rightarrow> nl_state \<Rightarrow> (bool \<times> nl_state) option" where
  "nl_vpn_detect env nl =
     map_option (\<lambda>(rc, _, nl'). (rc = 0, nl')) (netlink_get_active_vpn env IFNAMSIZ nl)"

definition nl_link_get_vpn_interface :: "nl_env \<Rightarrow> nat \<Rightarrow> nl_state \<Rightarrow> (int \<times> string \<times> nl_state) option" where
  "nl_link_get_vpn_interface env sz nl = netlink_get_active_vpn env sz nl"

text \<open>A line of \<open>/proc/net/dev\<close>, scanned with \<open>%63[^:]: %llu\<close>, seven skipped numbers and
  \<open>%llu\<close>.\<close>

definition scan_dev_line :: "string \<Rightarrow> (string \<times> u64 \<times> u64) option" where
  "scan_dev_line line =
     (let name = take 63 (takeWhile (\<lambda>c. c \<noteq> CHR '':'') line);
          rest = drop (length name) line
      in if name = [] \<or> rest = [] \<or> hd rest \<noteq> CHR '':'' then None
         else case stat_fields 9 (tl rest) of
           None \<Rightarrow> None
         | Some vs \<Rightarrow> Some (name, vs ! 0, vs ! 8))"

function dev_lines :: "string \<Rightarrow> string \<Rightarrow> (u64 \<times> u64) option" where
  "dev_lines iface s =
     (case c_fgets 512 s of
        None \<Rightarrow> None
      | Some (line, rest) \<Rightarrow>
          (case scan_dev_line line of
             Some (name, rx, tx) \<Rightarrow>
               (if dropWhile (\<lambda>c. c = CHR '' '') name = iface then Some (rx, tx)
                else dev_lines iface rest)
           | None \<Rightarrow> dev_lines iface rest))"
  by auto
termination
  by (relation "measure (length \<circ> snd)") (auto dest: c_fgets_progress)

declare dev_lines.simps [simp del]

definition proc_net_dev :: "string \<Rightarrow> string \<Rightarrow> (u64 \<times> u64) option" where
  "proc_net_dev iface s =
     (case c_fgets 512 s of None \<Rightarrow> None | Some (_, s1) \<Rightarrow>
      (case c_fgets 512 s1 of None \<Rightarrow> None | Some (_, s2) \<Rightarrow> dev_lines iface s2))"

definition netlink_get_iface_stats :: "nl_env \<Rightarrow> string \<Rightarrow> nl_state \<Rightarrow> (int \<times> u64 \<times> u64 \<times> nl_state) option" where
  "netlink_get_iface_stats env iface nl =
     (if iface = [] then Some (-1, 0, 0, nl)
      else
        (case Option.bind (ne_proc_net_dev env) (proc_net_dev iface) of
           Some (rx, tx) \<Rightarrow> Some (0, rx, tx, nl)
         | None \<Rightarrow>
             (let fd = query_fd env nl in
              if fd < 0 then Some (-1, 0, 0, nl)
              else
                (let seq = nl_seq nl; nl1 = nl\<lparr>nl_seq := seq + 1\<rparr> in
                 if ne_ifindex env = 0 then Some (-1, 0, 0, nl1)
                 else if netlink_send_request fd (ne_sent env) \<noteq> 0 then Some (-1, 0, 0, nl1)
                 else
                   Option.bind (netlink_recv_all_with_timeout seq (ne_recv env) (1, []))
                     (\<lambda>(rc, ctx).
                        if rc \<noteq> 0 then Some (-1, 0, 0, nl1)
                        else case snd ctx of
                          l # _ \<Rightarrow> Some (0, li_rx_bytes l, li_tx_bytes l, nl1)
                        | [] \<Rightarrow> Some (-1, 0, 0, nl1))))))"

subsection \<open>The debounced refresh\<close>

text \<open>\<open>r\<close> is the reactor the request names; the answers are the allocations and the clock of
  \<open>reactor_add_timer\<close>.  \<open>None\<close>: a freed handle would be used.\<close>

definition trigger_network_refresh_delay :: "bool \<times> bool \<Rightarrow> u64 \<Rightarrow> bool \<Rightarrow> int \<Rightarrow> reactor_t \<times> nl_state
    \<Rightarrow> (reactor_t \<times> nl_state) option" where
  "trigger_network_refresh_delay alloc now has_r delay_ms w =
     (if \<not> has_r then Some w
      else do {
        r1 \<leftarrow> (if nl_debounce_timer (snd w) = None then Some (fst w)
               else map_option snd (reactor_cancel_timer (nl_debounce_timer (snd w)) (fst w)));
        (case reactor_add_timer alloc now (word_of_int delay_ms) 0 (Some Fn_debounce_timer_cb) None r1 of
           (h, r2) \<Rightarrow> Some (r2, (snd w)\<lparr>nl_debounce_timer := h\<rparr>))
      })"

definition trigger_network_refresh :: "bool \<times> bool \<Rightarrow> u64 \<Rightarrow> bool \<Rightarrow> reactor_t \<times> nl_state
    \<Rightarrow> (reactor_t \<times> nl_state) option" where
  "trigger_network_refresh alloc now has_r w =
     trigger_network_refresh_delay alloc now has_r NETLINK_DEBOUNCE_MS w"

definition netlink_refresh_state :: "bool \<times> bool \<Rightarrow> u64 \<Rightarrow> bool \<Rightarrow> reactor_t \<times> nl_state
    \<Rightarrow> (reactor_t \<times> nl_state) option" where
  "netlink_refresh_state alloc now has_r w =
     trigger_network_refresh_delay alloc now has_r NETLINK_VPN_SETTLE_MS w"

text \<open>The callback: forget the timer, look, publish.\<close>

definition debounce_timer_cb :: "nl_env \<Rightarrow> timespec \<Rightarrow> nl_state \<times> atpd_context
    \<Rightarrow> (nl_state \<times> atpd_context \<times> context_event list) option" where
  "debounce_timer_cb env now w =
     (let nl = (fst w)\<lparr>nl_debounce_timer := None\<rparr> in
      Option.bind (netlink_get_active_vpn env IFNAMSIZ nl)
        (\<lambda>(rc, vpn, nl').
           case (if rc = 0 \<and> vpn \<noteq> []
                 then atpd_vpn_state_transition now 2 0 (Some vpn) (snd w)
                 else atpd_vpn_state_transition now 0 0 None (snd w)) of
             (_, c, evs) \<Rightarrow> Some (nl', c, evs)))"

text \<open>The events on the asynchronous socket; each message may carry its own clock and
  allocation answers.\<close>

definition refresh_types :: "nat list" where
  "refresh_types = [16, 17, 20, 21, 24, 25]"

fun event_walk :: "((bool \<times> bool) \<times> u64 \<times> nlmsg) list \<Rightarrow> reactor_t \<times> nl_state
    \<Rightarrow> (reactor_t \<times> nl_state) option" where
  "event_walk [] w = Some w"
| "event_walk ((alloc, now, h) # hs) w =
     (if m_type h \<in> set refresh_types
      then Option.bind (trigger_network_refresh alloc now (nl_debounce_reactor (snd w)) w) (event_walk hs)
      else event_walk hs w)"

text \<open>\<open>None\<close> as the datagram: nothing to read.\<close>

definition netlink_handle_event :: "((bool \<times> bool) \<times> u64 \<times> nlmsg) list option \<Rightarrow> reactor_t \<times> nl_state
    \<Rightarrow> (reactor_t \<times> nl_state) option" where
  "netlink_handle_event dgram w = (case dgram of None \<Rightarrow> Some w | Some hs \<Rightarrow> event_walk hs w)"

text \<open>The IPsec events.  The first nonzero interface id of a new association predicts the
  interface \<open>ipsec<id - 1>\<close>.\<close>

fun first_if_id :: "nl_attr list \<Rightarrow> u32 option" where
  "first_if_id [] = None"
| "first_if_id (A_IF_ID i # as) = (if i = 0 then first_if_id as else Some i)"
| "first_if_id (a # as) = first_if_id as"

definition XFRM_MSG_NEWSA :: nat where "XFRM_MSG_NEWSA = 16"
definition XFRM_MSG_DELSA :: nat where "XFRM_MSG_DELSA = 17"

fun xfrm_walk :: "((bool \<times> bool) \<times> u64 \<times> timespec \<times> nlmsg) list
    \<Rightarrow> (reactor_t \<times> nl_state) \<times> atpd_context \<times> context_event list
    \<Rightarrow> ((reactor_t \<times> nl_state) \<times> atpd_context \<times> context_event list) option" where
  "xfrm_walk [] s = Some s"
| "xfrm_walk ((alloc, now, ts, h) # hs) (w, c, evs) =
     (if m_type h = XFRM_MSG_NEWSA then
        (case first_if_id (m_attrs h) of
           None \<Rightarrow> xfrm_walk hs (w, c, evs)
         | Some i \<Rightarrow>
             (case atpd_vpn_state_transition ts 1 i
                     (Some (c_trunc IFNAMSIZ (''ipsec'' @ show_nat (unat (i - 1))))) c of
                (_, c', e) \<Rightarrow>
                  Option.bind (trigger_network_refresh_delay alloc now (nl_debounce_reactor (snd w))
                                 NETLINK_VPN_SETTLE_MS w)
                    (\<lambda>w'. xfrm_walk hs (w', c', evs @ e))))
      else if m_type h = XFRM_MSG_DELSA then
        (case atpd_vpn_state_transition ts 3 0 None c of
           (_, c', e) \<Rightarrow>
             Option.bind (trigger_network_refresh_delay alloc now (nl_debounce_reactor (snd w))
                            NETLINK_VPN_SETTLE_MS w)
               (\<lambda>w'. xfrm_walk hs (w', c', evs @ e)))
      else xfrm_walk hs (w, c, evs))"

definition netlink_xfrm_event_cb :: "u32 \<Rightarrow> ((bool \<times> bool) \<times> u64 \<times> timespec \<times> nlmsg) list option
    \<Rightarrow> (reactor_t \<times> nl_state) \<times> atpd_context
    \<Rightarrow> ((reactor_t \<times> nl_state) \<times> atpd_context \<times> context_event list) option" where
  "netlink_xfrm_event_cb events dgram s =
     (if take_bit 1 events \<noteq> REACTOR_EVENT_READ then Some (fst s, snd s, [])
      else case dgram of None \<Rightarrow> Some (fst s, snd s, []) | Some hs \<Rightarrow> xfrm_walk hs (fst s, snd s, []))"

subsection \<open>Initialization and cleanup\<close>

definition netlink_init :: "code_ptr option \<Rightarrow> data_ptr option \<Rightarrow> fd \<times> bool \<Rightarrow> fd \<times> bool \<Rightarrow> nl_state
    \<Rightarrow> int \<times> nl_state \<times> fd list" where
  "netlink_init cb ud sync async nl =
     (let nl1 = nl\<lparr>nl_callback := cb, nl_userdata := ud,
                   nl_sync_fd := open_netlink_socket (fst sync) (snd sync)\<rparr>
      in if nl_sync_fd nl1 < 0 then (-1, nl1, [])
         else
           (let nl2 = nl1\<lparr>nl_async_fd := open_netlink_socket (fst async) (snd async)\<rparr>
            in if nl_async_fd nl2 < 0
               then (-1, nl2\<lparr>nl_sync_fd := -1, nl_callback := None, nl_userdata := None\<rparr>,
                     [nl_sync_fd nl2])
               else (0, nl2, [])))"

text \<open>The last component lists the fds that are closed.\<close>

definition netlink_xfrm_init :: "bool \<Rightarrow> fd \<times> bool \<Rightarrow> bool \<times> bool \<Rightarrow> reactor_t \<times> nl_state
    \<Rightarrow> int \<times> (reactor_t \<times> nl_state) \<times> fd list" where
  "netlink_xfrm_init has_r sock add w =
     (let r = fst w; nl = snd w in
      if 0 \<le> nl_xfrm_fd nl then
        (if has_r \<and> \<not> nl_xfrm_registered nl then
           (case reactor_add_fd (fst add) (snd add) (nl_xfrm_fd nl) REACTOR_EVENT_READ
                   (Some Fn_netlink_xfrm_event_cb) None r of
              (rc, r1, _) \<Rightarrow>
                (if rc \<noteq> 0 then (-1, (r1, nl), [])
                 else (nl_xfrm_fd nl, (r1, nl\<lparr>nl_xfrm_reactor := True, nl_xfrm_registered := True\<rparr>), [])))
         else (nl_xfrm_fd nl, w, []))
      else if fst sock < 0 then (-1, w, [])
      else if \<not> snd sock then (-1, w, [fst sock])
      else
        (let fd = fst sock; nl1 = nl\<lparr>nl_xfrm_fd := fd\<rparr> in
         if has_r then
           (case reactor_add_fd (fst add) (snd add) fd REACTOR_EVENT_READ
                   (Some Fn_netlink_xfrm_event_cb) None r of
              (rc, r1, _) \<Rightarrow>
                (if rc \<noteq> 0 then (-1, (r1, nl1\<lparr>nl_xfrm_fd := -1\<rparr>), [fd])
                 else (fd, (r1, nl1\<lparr>nl_xfrm_reactor := True, nl_xfrm_registered := True\<rparr>), [])))
         else (fd, (r, nl1), [])))"

definition netlink_set_reactor :: "bool \<Rightarrow> bool \<times> bool \<Rightarrow> reactor_t \<times> nl_state \<Rightarrow> reactor_t \<times> nl_state" where
  "netlink_set_reactor has_r add w =
     (let r = fst w; nl = (snd w)\<lparr>nl_debounce_reactor := has_r\<rparr> in
      if 0 \<le> nl_xfrm_fd nl \<and> has_r \<and> \<not> nl_xfrm_registered nl then
        (case reactor_add_fd (fst add) (snd add) (nl_xfrm_fd nl) REACTOR_EVENT_READ
                (Some Fn_netlink_xfrm_event_cb) None r of
           (rc, r1, _) \<Rightarrow>
             (if rc = 0 then (r1, nl\<lparr>nl_xfrm_reactor := True, nl_xfrm_registered := True\<rparr>) else (r1, nl)))
      else (r, nl))"

definition netlink_get_fd :: "nl_state \<Rightarrow> fd" where
  "netlink_get_fd nl = nl_async_fd nl"

definition netlink_cleanup :: "reactor_t \<times> nl_state \<Rightarrow> ((reactor_t \<times> nl_state) \<times> fd list) option" where
  "netlink_cleanup w =
     (let nl = snd w; cancels = nl_debounce_timer nl \<noteq> None \<and> nl_debounce_reactor nl in
      do {
        r1 \<leftarrow> (if cancels then map_option snd (reactor_cancel_timer (nl_debounce_timer nl) (fst w))
               else Some (fst w));
        let r2 = (if 0 \<le> nl_xfrm_fd nl \<and> nl_xfrm_reactor nl
                  then fst (snd (reactor_remove_fd (nl_xfrm_fd nl) r1)) else r1);
        Some ((r2, nl\<lparr>nl_debounce_timer := (if cancels then None else nl_debounce_timer nl),
                      nl_debounce_reactor := False,
                      nl_xfrm_fd := -1, nl_xfrm_registered := False, nl_xfrm_reactor := False,
                      nl_sync_fd := -1, nl_async_fd := -1\<rparr>),
              filter (\<lambda>fd. 0 \<le> fd) [nl_xfrm_fd nl, nl_sync_fd nl, nl_async_fd nl])
      })"

subsection \<open>Which interface is chosen\<close>












definition vpn_env :: nl_env where
  "vpn_env = \<lparr>ne_ifaddrs = Some [(Some ''wlan0'', 1), (Some ''tun0'', 1), (Some ''ipsec1'', 0), (Some ''ipsec2'', 1)],
     ne_sock = 9, ne_bind_ok = True, ne_sent = True, ne_recv = [], ne_ifindex = 0, ne_proc_net_dev = None\<rparr>"

lemma vpn_env_query: "netlink_get_active_vpn vpn_env 16 nl_zero = Some (0, ''ipsec2'', nl_zero)"
  by (simp add: netlink_get_active_vpn_def getifaddrs_find_vpn_def vpn_env_def is_up_def
      is_proxy_interface_def proxy_prefixes_def Let_def)


subsection \<open>One refresh per burst\<close>

definition debounce_as :: armed_as where
  "debounce_as = (Some Fn_debounce_timer_cb, None, 0)"

text \<open>The slot and the reactor agree: the armed debounce timer is the one in the slot.\<close>

definition nl_inv :: "reactor_t \<times> nl_state \<Rightarrow> bool" where
  "nl_inv w \<longleftrightarrow> rx_timers_wf (fst w)
     \<and> (\<forall>h. armed (fst w) h = Some debounce_as \<longleftrightarrow> nl_debounce_timer (snd w) = Some h)"

lemma nl_inv_slot: "nl_inv w \<Longrightarrow> slot_ok (armed (fst w)) debounce_as (nl_debounce_timer (snd w))"
  by (auto simp: nl_inv_def slot_ok_def split: option.split)

lemma refresh_step:
  assumes "nl_inv (r, nl)" "has_r"
  shows "\<exists>r' nl'. trigger_network_refresh_delay alloc now has_r d (r, nl) = Some (r', nl') \<and> nl_inv (r', nl')
    \<and> nl_debounce_reactor nl' = nl_debounce_reactor nl
    \<and> (alloc = (True, True) \<longrightarrow> (\<exists>h t. nl_debounce_timer nl' = Some h \<and> t \<in> set (rx_timers r')
         \<and> t_id t = h \<and> t_active t \<and> t_expires t = now + word_of_int d))"
proof -
  let ?slot = "nl_debounce_timer nl"
  have wf: "rx_timers_wf r" using assms(1) by (simp add: nl_inv_def)
  have "slot_ok (armed r) debounce_as ?slot" using nl_inv_slot [OF assms(1)] by simp
  from timers.cancel_slot [OF wf this] obtain rc r1 where
    r1: "reactor_cancel_timer ?slot r = Some (rc, r1)" "rx_timers_wf r1"
      "\<forall>h. armed r1 h = (if ?slot = Some h then None else armed r h)" by blast
  have none: "armed r1 h \<noteq> Some debounce_as" for h
    using r1(3) assms(1) by (auto simp: nl_inv_def)
  have can: "(if ?slot = None then Some r else map_option snd (reactor_cancel_timer ?slot r)) = Some r1"
    using r1(1) by (auto simp: reactor_cancel_timer_def)
  obtain h r2 where add: "reactor_add_timer alloc now (word_of_int d) 0 (Some Fn_debounce_timer_cb) None r1 = (h, r2)"
    by fastforce
  have tr: "trigger_network_refresh_delay alloc now has_r d (r, nl) = Some (r2, nl\<lparr>nl_debounce_timer := h\<rparr>)"
    unfolding trigger_network_refresh_delay_def using assms(2) by (simp only: fst_conv snd_conv can) (simp add: add)
  have inv: "nl_inv (r2, nl\<lparr>nl_debounce_timer := h\<rparr>)"
  proof (cases h)
    case None
    then have "r2 = r1" using add add_timer_fail by blast
    with None none r1(2) show ?thesis by (simp add: nl_inv_def)
  next
    case (Some i)
    with add_timer_armed [OF r1(2)] add_timer_wf [OF r1(2) add] add none show ?thesis
      by (auto simp: nl_inv_def debounce_as_def)
  qed
  have "\<exists>i t. h = Some i \<and> t \<in> set (rx_timers r2) \<and> t_id t = i \<and> t_active t \<and> t_expires t = now + word_of_int d"
    if "alloc = (True, True)"
    using add that
    by (auto simp: reactor_add_timer_def Let_def timer_list_insert_def intro!: exI [of _ "\<lparr>t_id = rx_next_id r1, t_expires = _,
        t_interval = _, t_callback = _, t_userdata = _, t_public = True, t_active = True, t_pending_delete = _\<rparr>"])
  with tr inv show ?thesis by auto
qed

lemma event_walk_inv:
  assumes "nl_inv (r, nl)"
  shows "\<exists>r' nl'. event_walk hs (r, nl) = Some (r', nl') \<and> nl_inv (r', nl')
    \<and> nl_debounce_reactor nl' = nl_debounce_reactor nl"
  using assms
proof (induction hs arbitrary: r nl)
  case (Cons e hs)
  obtain alloc now h where e: "e = (alloc, now, h)" by (cases e) auto
  show ?case
  proof (cases "m_type h \<in> set refresh_types \<and> nl_debounce_reactor nl")
    case True
    with refresh_step [OF Cons.prems, of "nl_debounce_reactor nl" alloc now NETLINK_DEBOUNCE_MS]
    obtain r1 nl1 where s: "trigger_network_refresh alloc now (nl_debounce_reactor nl) (r, nl) = Some (r1, nl1)"
        "nl_inv (r1, nl1)" "nl_debounce_reactor nl1 = nl_debounce_reactor nl"
      by (auto simp: trigger_network_refresh_def)
    from Cons.IH [OF s(2)] s True show ?thesis by (auto simp: e)
  next
    case False
    then have "event_walk (e # hs) (r, nl) = event_walk hs (r, nl)"
      by (auto simp: e trigger_network_refresh_def trigger_network_refresh_delay_def)
    with Cons show ?thesis by simp
  qed
qed simp

lemma event_walk_append:
  "event_walk (xs @ ys) w = Option.bind (event_walk xs w) (event_walk ys)"
proof (induction xs arbitrary: w)
  case (Cons e xs)
  obtain alloc now h where e: "e = (alloc, now, h)" by (cases e) auto
  have "event_walk (xs @ ys) = (\<lambda>w. Option.bind (event_walk xs w) (event_walk ys))"
    using Cons.IH by (simp add: fun_eq_iff)
  then show ?case by (simp add: e)
qed simp

text \<open>C20: a burst of network events leads to one refresh: the handler of the events returns
  without using a freed timer, and after a datagram that ends in a link, address or route
  message exactly one refresh timer is armed, the one in the slot, 500 ms after that last
  message, whatever was armed before.\<close>

theorem network_events_coalesce:
  assumes "nl_inv (r, nl)" "nl_debounce_reactor nl" "m_type h \<in> set refresh_types"
  shows "\<exists>r' nl' i t. netlink_handle_event (Some (hs @ [((True, True), now, h)])) (r, nl) = Some (r', nl')
    \<and> nl_inv (r', nl') \<and> nl_debounce_timer nl' = Some i \<and> {x. armed r' x = Some debounce_as} = {i}
    \<and> t \<in> set (rx_timers r') \<and> t_id t = i \<and> t_active t \<and> t_expires t = now + 500"
proof -
  obtain r1 nl1 where s1: "event_walk hs (r, nl) = Some (r1, nl1)" "nl_inv (r1, nl1)" "nl_debounce_reactor nl1"
    using event_walk_inv [OF assms(1)] assms(2) by blast
  obtain r2 nl2 i t where s2: "trigger_network_refresh (True, True) now True (r1, nl1) = Some (r2, nl2)"
      "nl_inv (r2, nl2)" "nl_debounce_timer nl2 = Some i" "t \<in> set (rx_timers r2)" "t_id t = i" "t_active t"
      "t_expires t = now + 500"
    using refresh_step [OF s1(2), of True "(True, True)" now NETLINK_DEBOUNCE_MS]
    by (auto simp: trigger_network_refresh_def NETLINK_DEBOUNCE_MS_def)
  have "netlink_handle_event (Some (hs @ [((True, True), now, h)])) (r, nl) = Some (r2, nl2)"
    using s1 s2(1) assms(3) by (simp add: netlink_handle_event_def event_walk_append)
  moreover have "{x. armed r2 x = Some debounce_as} = {i}"
    using s2(2,3) by (auto simp: nl_inv_def)
  ultimately show ?thesis using s2 by blast
qed

lemma nl_inv_zero: "nl_inv (reactor_zero, nl_zero\<lparr>nl_debounce_reactor := True\<rparr>)"
  by (simp add: nl_inv_def rx_timers_wf_def reactor_zero_def all_timers_def armed_def find_timer_def nl_zero_def)

theorem network_events_coalesce_witness:
  "let h = \<lparr>m_type = 24, m_seq = 0, m_error = 0, m_flags = 0, m_attrs = []\<rparr> in
   \<exists>r' nl' i t. netlink_handle_event (Some ([((True, True), 10, h)] @ [((True, True), 20, h)]))
       (reactor_zero, nl_zero\<lparr>nl_debounce_reactor := True\<rparr>) = Some (r', nl')
     \<and> nl_inv (r', nl') \<and> nl_debounce_timer nl' = Some i \<and> {x. armed r' x = Some debounce_as} = {i}
     \<and> t \<in> set (rx_timers r') \<and> t_id t = i \<and> t_active t \<and> t_expires t = 20 + 500"
  unfolding Let_def
  by (intro network_events_coalesce nl_inv_zero) (simp_all add: refresh_types_def)

subsection \<open>The answer to a single request\<close>

lemma recv_walk_no_end:
  assumes "\<forall>m\<in>set ms. m_type m \<noteq> NLMSG_DONE \<and> m_type m \<noteq> NLMSG_ERROR"
  shows "\<exists>ctx'. recv_walk sq ms ctx = (Inr False, ctx')"
  using assms
proof (induction sq ms ctx rule: recv_walk.induct)
  case (2 sq h hs ctx)
  obtain rc ctx1 where p: "parser_link_sync h ctx = (rc, ctx1)" by (cases "parser_link_sync h ctx")
  then have "rc = 0" by (auto simp: parser_link_sync_def Let_def split: if_splits)
  with 2 p show ?case by auto
qed simp

lemma recv_all_no_end:
  assumes "\<forall>ms\<in>set ds. \<forall>m\<in>set ms. m_type m \<noteq> NLMSG_DONE \<and> m_type m \<noteq> NLMSG_ERROR"
  shows "\<exists>ctx'. netlink_recv_all_with_timeout sq (map Inr ds @ Inl e # as) ctx = Some (-1, ctx')"
  using assms
proof (induction ds arbitrary: ctx)
  case (Cons ms ds)
  then obtain ctx1 where "recv_walk sq ms ctx = (Inr False, ctx1)"
    using recv_walk_no_end [of ms sq ctx] by auto
  with Cons show ?case by simp
qed simp

text \<open>C21: the netlink fallback of the interface counters cannot succeed: its request asks for
  one link without \<open>NLM_F_DUMP\<close> or \<open>NLM_F_ACK\<close>, so that the kernel answers with the link
  message alone, and the receive loop waits for an end-of-dump or error message until the
  timeout makes the whole query fail, although the counters have arrived.\<close>

theorem stats_fallback_times_out:
  assumes "Option.bind (ne_proc_net_dev env) (proc_net_dev iface) = None"
    and "ne_recv env = map Inr ds @ [Inl EAGAIN]"
    and "\<forall>ms\<in>set ds. \<forall>m\<in>set ms. m_type m = RTM_NEWLINK"
  shows "\<exists>nl'. netlink_get_iface_stats env iface nl = Some (-1, 0, 0, nl')"
proof -
  have "\<exists>ctx'. netlink_recv_all_with_timeout (nl_seq nl) (ne_recv env) (1, []) = Some (-1, ctx')"
    using recv_all_no_end [of ds "nl_seq nl" EAGAIN "[]" "(1, [])"] assms(2,3)
    by (auto simp: RTM_NEWLINK_def NLMSG_DONE_def NLMSG_ERROR_def)
  with assms(1) show ?thesis by (auto simp: netlink_get_iface_stats_def Let_def)
qed

theorem stats_fallback_times_out_witness:
  "\<exists>nl'. netlink_get_iface_stats
     (vpn_env\<lparr>ne_ifindex := 3, ne_recv := map Inr [[\<lparr>m_type = 16, m_seq = 0, m_error = 0, m_flags = 1,
        m_attrs = [A_IFNAME ''wlan0'', A_STATS64 True 100 200]\<rparr>]] @ [Inl EAGAIN]\<rparr>) ''wlan0'' nl_zero
     = Some (-1, 0, 0, nl')"
  by (rule stats_fallback_times_out [of _ _ "[[\<lparr>m_type = 16, m_seq = 0, m_error = 0, m_flags = 1,
        m_attrs = [A_IFNAME ''wlan0'', A_STATS64 True 100 200]\<rparr>]]"])
    (simp_all add: vpn_env_def RTM_NEWLINK_def)

end
