(* ===== verification/Service_Spawn.thy ===== *)
theory Service_Spawn
  imports Atp_Config Service_Credentials Netlink Reactor_Loop
begin

text \<open>
  The first half of \<open>src/service.c\<close>: the supervisor's context, its backoff and circuit
  breaker, how it recognizes its child, and how it creates it (argument vector, environment,
  the child's path to \<open>execv\<close>, the PID file).

  What the operating system answers is a stream of views, \<open>sw_os\<close>: each helper that asks the
  system uses the head of the stream and drops it, so that two questions at different moments
  have unrelated answers.  A view answers each system call once.  \<open>waitpid\<close> repeated on
  \<open>EINTR\<close> is its first other answer.  What the supervisor does to the outside (signals,
  reaped children, files) is the trace \<open>sw_trace\<close>, in order.
\<close>

datatype service_state_t = SERVICE_STOPPED | SERVICE_STARTING | SERVICE_RUNNING | SERVICE_FAILED
  | SERVICE_STOPPING

record backoff_t =
  bo_base_delay_ms :: int
  bo_max_delay_ms :: int
  bo_current_delay_ms :: int
  bo_multiplier :: int

record circuit_breaker_t =
  cb_consecutive_failures :: int
  cb_threshold :: int
  cb_cooldown_seconds :: int
  cb_last_failure_time :: int
  cb_circuit_open :: bool

record service_native_probe_config_t =
  pr_host :: string
  pr_secret :: string

record service_ctx_t =
  sv_bin_path :: string
  sv_work_dir :: string
  sv_conf_path :: string
  sv_log_path :: string
  sv_pid_path :: string
  sv_user :: string
  sv_group :: string
  sv_service_args :: string
  sv_service_env :: string
  sv_api_port :: int
  sv_child_pid :: pid
  sv_child_starttime_ticks :: u64
  sv_validated_pid :: bool
  sv_state :: service_state_t
  sv_fail_count :: int
  sv_max_failures :: int
  sv_start_timeout_sec :: int
  sv_stop_timeout_sec :: int
  sv_grace_period_sec :: int
  sv_reactor :: bool
  sv_monitor_timer :: "nat option"
  sv_retry_timer :: "nat option"
  sv_health_timer :: "nat option"
  sv_validate_ctx :: "service_native_probe_config_t option"
  sv_backoff :: backoff_t
  sv_breaker :: circuit_breaker_t
  sv_last_health_check :: int
  sv_health_check_interval_ms :: int
  sv_running_healthy :: bool
  sv_stop_attempts :: int
  sv_start_time :: int
  sv_start_time_ms :: u64

datatype exit_status = Exited int | Signaled int

datatype wait_answer = W_nothing | W_pid pid exit_status | W_err errno

text \<open>Opening a file: the fd (negative: failed), \<open>fstat\<close>, and what it says.\<close>

record open_answer =
  oa_fd :: fd
  oa_fstat :: "(bool \<times> nat) option"

record os_view =
  os_mono :: u64
  os_time :: int
  os_kill :: "pid \<Rightarrow> int \<Rightarrow> errno option"
  os_stat :: "pid \<Rightarrow> string option"
  os_exe :: "pid \<Rightarrow> string option"
  os_comm :: "pid \<Rightarrow> string option"
  os_wait :: "pid \<Rightarrow> wait_answer"
  os_exec_ok :: "string \<Rightarrow> bool"
  os_mkdir :: "string \<Rightarrow> errno option"
  os_isdir :: "string \<Rightarrow> bool"
  os_errno :: errno
  os_fork :: pid
  os_log_size :: "int option"
  os_localtime :: "string option"
  os_rename_ok :: bool
  os_open :: open_answer
  os_ftruncate_ok :: bool
  os_dprintf_ok :: bool
  os_fsync_ok :: bool
  os_close_ok :: bool
  os_alloc :: "bool \<times> bool"
  os_calloc :: bool
  os_native_status :: "string \<times> int \<times> string \<Rightarrow> bool"
  os_api_snapshot :: "(bool \<times> u64) option"
  os_nl :: nl_env
  os_ts :: timespec
  os_pid_file :: "string option"

datatype svc_event = E_kill pid int | E_reap pid | E_unlink string | E_fork pid | E_rename string string
  | E_mkdir "string list" | E_write_pid string pid | E_done_cb code_ptr "data_ptr option"
  | E_vpn "context_event list"

record service_stop_state_t =
  ss_attempts :: int
  ss_max_attempts :: int
  ss_done_cb :: "code_ptr option"
  ss_userdata :: "data_ptr option"

record svc_world =
  sw_ctx :: service_ctx_t
  sw_stops :: "data_ptr \<Rightarrow> service_stop_state_t option"
  sw_next :: data_ptr
  sw_nl :: nl_state
  sw_vpn :: atpd_context
  sw_os :: "nat \<Rightarrow> os_view"
  sw_trace :: "svc_event list"

definition os_now :: "svc_world \<Rightarrow> os_view" where
  "os_now u = sw_os u 0"

definition tick :: "svc_world \<Rightarrow> svc_world" where
  "tick u = u\<lparr>sw_os := (\<lambda>i. sw_os u (Suc i))\<rparr>"

definition emit :: "svc_event list \<Rightarrow> svc_world \<Rightarrow> svc_world" where
  "emit es u = u\<lparr>sw_trace := sw_trace u @ es\<rparr>"

abbreviation upd_ctx :: "(service_ctx_t \<Rightarrow> service_ctx_t) \<Rightarrow> svc_world \<Rightarrow> svc_world" where
  "upd_ctx f u \<equiv> u\<lparr>sw_ctx := f (sw_ctx u)\<rparr>"

definition SIGKILL :: int where "SIGKILL = 9"

subsection \<open>Backoff and circuit breaker\<close>

definition backoff_init :: backoff_t where
  "backoff_init = \<lparr>bo_base_delay_ms = 1000, bo_max_delay_ms = 60000, bo_current_delay_ms = 1000,
     bo_multiplier = 2\<rparr>"

definition backoff_reset :: "backoff_t \<Rightarrow> backoff_t" where
  "backoff_reset b = b\<lparr>bo_current_delay_ms := bo_base_delay_ms b\<rparr>"

definition backoff_next :: "backoff_t \<Rightarrow> int \<times> backoff_t" where
  "backoff_next b =
     (let delay = bo_current_delay_ms b; next = bo_current_delay_ms b * bo_multiplier b in
      (delay, b\<lparr>bo_current_delay_ms := (if bo_max_delay_ms b < next then bo_max_delay_ms b else next)\<rparr>))"

definition circuit_breaker_reset :: "circuit_breaker_t \<Rightarrow> circuit_breaker_t" where
  "circuit_breaker_reset cb =
     cb\<lparr>cb_consecutive_failures := 0, cb_circuit_open := False, cb_last_failure_time := 0\<rparr>"

definition circuit_breaker_should_allow :: "int \<Rightarrow> circuit_breaker_t \<Rightarrow> bool \<times> circuit_breaker_t" where
  "circuit_breaker_should_allow now cb =
     (if \<not> cb_circuit_open cb then (True, cb)
      else if cb_cooldown_seconds cb < now - cb_last_failure_time cb
      then (True, cb\<lparr>cb_circuit_open := False, cb_consecutive_failures := 0\<rparr>)
      else (False, cb))"

definition circuit_breaker_record_failure :: "int \<Rightarrow> circuit_breaker_t \<Rightarrow> circuit_breaker_t" where
  "circuit_breaker_record_failure now cb =
     (let cb1 = cb\<lparr>cb_consecutive_failures := cb_consecutive_failures cb + 1, cb_last_failure_time := now\<rparr>
      in if cb_threshold cb1 \<le> cb_consecutive_failures cb1 \<and> \<not> cb_circuit_open cb1
         then cb1\<lparr>cb_circuit_open := True\<rparr> else cb1)"

definition circuit_breaker_record_success :: "circuit_breaker_t \<Rightarrow> circuit_breaker_t" where
  "circuit_breaker_record_success cb =
     (let cb1 = (if 0 < cb_consecutive_failures cb then cb\<lparr>cb_consecutive_failures := 0\<rparr> else cb)
      in if cb_circuit_open cb1 then cb1\<lparr>cb_circuit_open := False\<rparr> else cb1)"

subsection \<open>Recognizing the child\<close>

definition validate_process :: "os_view \<Rightarrow> service_ctx_t \<Rightarrow> pid \<Rightarrow> bool" where
  "validate_process k c p =
     (if p \<le> 0 \<or> \<not> process_exists (os_kill k) p then False
      else case get_process_starttime (os_stat k) p of
        None \<Rightarrow> False
      | Some st \<Rightarrow>
          (if sv_child_starttime_ticks c \<noteq> 0 \<and> st \<noteq> sv_child_starttime_ticks c then False
           else if (case os_exe k p of
                      None \<Rightarrow> False
                    | Some exe \<Rightarrow> exe \<noteq> [] \<and> c_basename (c_trunc PATH_MAX exe) = c_basename (c_trunc PATH_MAX (sv_bin_path c)))
           then True
           else case os_comm k p of
             None \<Rightarrow> False
           | Some f \<Rightarrow> (case c_fgets 64 f of
                 None \<Rightarrow> False
               | Some (comm, _) \<Rightarrow> trim comm = PROXY_BIN_NAME)))"

definition alive_now :: "os_view \<Rightarrow> service_ctx_t \<Rightarrow> bool" where
  "alive_now k c =
     (if sv_child_pid c \<le> 0 \<or> \<not> process_exists (os_kill k) (sv_child_pid c) then False
      else sv_child_starttime_ticks c \<noteq> 0
        \<and> get_process_starttime (os_stat k) (sv_child_pid c) = Some (sv_child_starttime_ticks c))"

definition service_is_alive :: "svc_world \<Rightarrow> bool \<times> svc_world" where
  "service_is_alive u = (alive_now (os_now u) (sw_ctx u), tick u)"

definition service_unlink_pid :: "svc_world \<Rightarrow> svc_world" where
  "service_unlink_pid u = emit [E_unlink (sv_pid_path (sw_ctx u))] u"

definition forget_child :: "svc_world \<Rightarrow> svc_world" where
  "forget_child u = upd_ctx (\<lambda>c. c\<lparr>sv_child_pid := -1, sv_child_starttime_ticks := 0, sv_validated_pid := False\<rparr>) u"

definition service_starting_child_alive :: "svc_world \<Rightarrow> bool \<times> svc_world" where
  "service_starting_child_alive u =
     (case service_is_alive u of (alive, u1) \<Rightarrow>
        if \<not> alive then (False, u1)
        else
          (let p = sv_child_pid (sw_ctx u1); u2 = tick u1 in
           case os_wait (os_now u1) p of
             W_nothing \<Rightarrow> (True, u2)
           | W_pid q st \<Rightarrow>
               (if q = p then (False, service_unlink_pid (forget_child (emit [E_reap p] u2)))
                else (False, u2))
           | W_err e \<Rightarrow>
               (if e = ECHILD then (False, service_unlink_pid (forget_child u2)) else (False, u2))))"

text \<open>The probe of the native API: a status request to the configured host and port while the
  child lives, before and after.\<close>

definition service_probe_native_api :: "svc_world \<Rightarrow> bool \<times> svc_world" where
  "service_probe_native_api u =
     (case service_starting_child_alive u of (alive, u1) \<Rightarrow>
        if \<not> alive then (False, u1)
        else case sv_validate_ctx (sw_ctx u1) of
          None \<Rightarrow> (False, u1)
        | Some pc \<Rightarrow>
            (let port = (if 0 < sv_api_port (sw_ctx u1) then sv_api_port (sw_ctx u1) else DEFAULT_API_PORT)
             in if \<not> os_native_status (os_now u1) (pr_host pc, port, pr_secret pc) then (False, tick u1)
                else service_starting_child_alive (tick u1)))"

definition service_set_native_probe_config :: "bool \<Rightarrow> atp_config_t \<Rightarrow> service_ctx_t \<Rightarrow> int \<times> service_ctx_t" where
  "service_set_native_probe_config calloc_ok cfg c =
     (if sv_validate_ctx c = None \<and> \<not> calloc_ok then (-1, c)
      else (0, c\<lparr>sv_validate_ctx := Some
             \<lparr>pr_host = c_trunc 64 (if api_host (cfg_api cfg) \<noteq> [] then api_host (cfg_api cfg) else DEFAULT_API_HOST),
              pr_secret = c_trunc 128 (api_secret (cfg_api cfg))\<rparr>\<rparr>))"

subsection \<open>Files\<close>

definition open_regular_file :: "open_answer \<Rightarrow> fd" where
  "open_regular_file a =
     (if oa_fd a < 0 then -1
      else case oa_fstat a of
        None \<Rightarrow> -1
      | Some (regular, nlink) \<Rightarrow> (if \<not> regular \<or> nlink \<noteq> 1 then -1 else oa_fd a))"

definition format_path :: "nat \<Rightarrow> string \<Rightarrow> string option" where
  "format_path sz text = (if length text < sz then Some text else None)"

definition MAX_LOG_SIZE :: int where "MAX_LOG_SIZE = 10 * 1024 * 1024"

definition service_rotate_log :: "svc_world \<Rightarrow> svc_world" where
  "service_rotate_log u =
     (let k = os_now u; log = sv_log_path (sw_ctx u); u1 = tick u in
      case os_log_size k of
        None \<Rightarrow> u1
      | Some sz \<Rightarrow>
          (if sz < MAX_LOG_SIZE then u1
           else case os_localtime k of
             None \<Rightarrow> u1
           | Some timestamp \<Rightarrow>
               (case format_path PATH_MAX (log @ ''.'' @ timestamp) of
                  None \<Rightarrow> u1
                | Some backup \<Rightarrow> (if os_rename_ok k then emit [E_rename log backup] u1 else u1))))"

subsection \<open>Arguments and environment of the child\<close>

definition has_custom_c :: "service_ctx_t \<Rightarrow> bool" where
  "has_custom_c c \<longleftrightarrow> sv_service_args c \<noteq> []
     \<and> (c_strstr (sv_service_args c) ''-c'' \<noteq> None \<or> c_strstr (sv_service_args c) ''-C'' \<noteq> None)"

text \<open>The entries of the vector before its NULL; \<open>None\<close>: an allocation failed.\<close>

definition build_service_args :: "bool \<Rightarrow> service_ctx_t \<Rightarrow> string list option" where
  "build_service_args alloc_ok c =
     (if \<not> alloc_ok then None
      else
        (let fixed = [sv_bin_path c, ''run'']
               @ (if sv_work_dir c \<noteq> [] then [''-D'', sv_work_dir c] else [])
               @ (if \<not> has_custom_c c \<and> sv_conf_path c \<noteq> [] then [''-c'', sv_conf_path c] else [])
         in Some (fixed @ (if sv_service_args c \<noteq> []
                           then take (28 - length fixed) (c_tokens (CHR '' '') (c_trunc 512 (sv_service_args c)))
                           else []))))"

text \<open>The \<open>setenv\<close> calls.\<close>

definition set_service_environment :: "service_ctx_t \<Rightarrow> (string \<times> string) list" where
  "set_service_environment c =
     (if sv_service_env c = [] then []
      else map (\<lambda>t. (takeWhile (\<lambda>ch. ch \<noteq> CHR ''='') t, tl (dropWhile (\<lambda>ch. ch \<noteq> CHR ''='') t)))
             (filter (\<lambda>t. CHR ''='' \<in> set t) (c_tokens (CHR '' '') (c_trunc 512 (sv_service_env c)))))"

subsection \<open>The child's side of the fork\<close>

datatype child_event = C_ignore_sigpipe | C_umask int | C_setsid | C_close_std | C_stdio_log | C_stdio_null
  | C_clear_sigmask | C_initgroups string u32 | C_setgroups_none | C_setgid u32 | C_setuid u32
  | C_unsetenv string | C_setenv string string | C_chdir string | C_execv string "string list" | C_exit int

record child_env =
  ch_sigaction_ok :: bool
  ch_setsid_ok :: bool
  ch_log :: open_answer
  ch_dup2_ok :: bool
  ch_sigmask_ok :: bool
  ch_uid :: u32
  ch_gid :: u32
  ch_euid :: u32
  ch_getpwnam :: "string \<Rightarrow> passwd option"
  ch_getgrnam :: "string \<Rightarrow> u32 option"
  ch_groups_ok :: bool
  ch_setgid_ok :: bool
  ch_setuid_ok :: bool
  ch_alloc_ok :: bool
  ch_execv_ok :: bool

text \<open>A system call that ends the child when it fails.\<close>

definition guarded :: "bool \<Rightarrow> child_event \<Rightarrow> child_event list \<Rightarrow> child_event list" where
  "guarded ok e rest = (if ok then e # rest else [C_exit 127])"

definition child_exec :: "child_env \<Rightarrow> service_ctx_t \<Rightarrow> child_event list" where
  "child_exec env c =
     C_unsetenv ''LD_PRELOAD'' # map (\<lambda>(n, v). C_setenv n v) (set_service_environment c)
     @ (if sv_work_dir c \<noteq> [] then [C_chdir (sv_work_dir c)] else [])
     @ (case build_service_args (ch_alloc_ok env) c of
          None \<Rightarrow> [C_exit 127]
        | Some args \<Rightarrow> (if ch_execv_ok env then [C_execv (sv_bin_path c) args] else [C_exit 127]))"

definition child_drop :: "child_env \<Rightarrow> service_ctx_t \<Rightarrow> service_credentials_t \<Rightarrow> child_event list" where
  "child_drop env c cr =
     (if ch_euid env = 0 then
        guarded (ch_groups_ok env)
          (if cr_init_groups cr then C_initgroups (cr_user_name cr) (cr_gid cr) else C_setgroups_none)
        (guarded (ch_setgid_ok env) (C_setgid (cr_gid cr))
        (guarded (ch_setuid_ok env) (C_setuid (cr_uid cr))
        (child_exec env c)))
      else child_exec env c)"

definition service_child :: "child_env \<Rightarrow> service_ctx_t \<Rightarrow> child_event list" where
  "service_child env c =
     guarded (ch_sigaction_ok env) C_ignore_sigpipe
     (C_umask 23 #
     guarded (ch_setsid_ok env) C_setsid
     (C_close_std #
      (let after_stdio =
         guarded (ch_sigmask_ok env) C_clear_sigmask
           (case service_credentials_resolve_with_lookups (sv_user c) (sv_group c) (ch_uid env) (ch_gid env)
                   (ch_getpwnam env) (ch_getgrnam env) of
              Inl _ \<Rightarrow> [C_exit 127]
            | Inr cr \<Rightarrow> child_drop env c cr)
       in if 0 \<le> open_regular_file (ch_log env)
          then guarded (ch_dup2_ok env) C_stdio_log after_stdio
          else C_stdio_null # after_stdio)))"

subsection \<open>The parent's side\<close>

definition mkdir_fails :: "os_view \<Rightarrow> string \<Rightarrow> bool" where
  "mkdir_fails k path = (case fst (mkdir_recursive (os_mkdir k) (os_isdir k) path) of
       MkOk \<Rightarrow> False
     | MkErr e \<Rightarrow> e \<noteq> EEXIST
     | MkBad \<Rightarrow> os_errno k \<noteq> EEXIST)"

definition do_mkdir :: "string \<Rightarrow> svc_world \<Rightarrow> bool \<times> svc_world" where
  "do_mkdir path u =
     (mkdir_fails (os_now u) path,
      tick (emit [E_mkdir (snd (mkdir_recursive (os_mkdir (os_now u)) (os_isdir (os_now u)) path))] u))"

definition pid_file_written :: "os_view \<Rightarrow> bool" where
  "pid_file_written k \<longleftrightarrow> 0 \<le> open_regular_file (os_open k) \<and> os_ftruncate_ok k \<and> os_dprintf_ok k
     \<and> os_fsync_ok k \<and> os_close_ok k"

definition kill_and_reap :: "pid \<Rightarrow> svc_world \<Rightarrow> svc_world" where
  "kill_and_reap p u = emit [E_kill p SIGKILL, E_reap p] u"

text \<open>After a successful \<open>fork\<close>: \<open>p\<close> is the child.\<close>

definition spawn_parent :: "pid \<Rightarrow> svc_world \<Rightarrow> int \<times> svc_world" where
  "spawn_parent p u =
     (let u1 = upd_ctx (\<lambda>c. c\<lparr>sv_child_pid := p\<rparr>) (emit [E_fork p] u); k = os_now u1; u2 = tick u1 in
      case get_process_starttime (os_stat k) p of
        None \<Rightarrow> (-1, upd_ctx (\<lambda>c. c\<lparr>sv_child_pid := -1\<rparr>) (kill_and_reap p u2))
      | Some st \<Rightarrow>
          (let u3 = upd_ctx (\<lambda>c. c\<lparr>sv_child_starttime_ticks := st, sv_validated_pid := True,
                                   sv_start_time := os_time k, sv_start_time_ms := os_mono k\<rparr>) u2
           in if pid_file_written (os_now u3)
              then (0, tick (emit [E_write_pid (sv_pid_path (sw_ctx u3)) p] u3))
              else (-1, forget_child (service_unlink_pid (kill_and_reap p (tick u3))))))"

definition service_spawn :: "svc_world \<Rightarrow> int \<times> svc_world" where
  "service_spawn u =
     (if \<not> os_exec_ok (os_now u) (sv_bin_path (sw_ctx u)) then (-1, tick u)
      else
        (let u1 = service_rotate_log (tick u); c = sw_ctx u1;
             (bad1, u2) = (if sv_work_dir c \<noteq> [] then do_mkdir (sv_work_dir c) u1 else (False, u1))
         in if bad1 then (-1, u2)
            else
              (let (bad2, u3) = (case c_strrchr (CHR ''/'') (sv_pid_path c) of
                                   None \<Rightarrow> (False, u2)
                                 | Some (dir, _) \<Rightarrow> do_mkdir dir u2)
               in if bad2 then (-1, u3)
                  else if os_fork (os_now u3) \<le> 0 then (-1, tick u3)
                  else spawn_parent (os_fork (os_now u3)) (tick u3))))"

subsection \<open>Backoff and circuit breaker: what they promise\<close>

lemma backoff_closed_form:
  "((snd \<circ> backoff_next) ^^ n) backoff_init = backoff_init\<lparr>bo_current_delay_ms := min 60000 (1000 * 2 ^ n)\<rparr>"
proof (induction n)
  case (Suc n)
  have "min 60000 (1000 * 2 ^ n) * 2 \<le> (60000::int) \<Longrightarrow> min 60000 (1000 * 2 ^ Suc n) = min 60000 (1000 * 2 ^ n) * (2::int)"
    "\<not> min 60000 (1000 * 2 ^ n) * 2 \<le> (60000::int) \<Longrightarrow> min 60000 (1000 * 2 ^ Suc n) = (60000::int)"
    by (auto simp: min_def split: if_splits)
  with Suc show ?case
    by (auto simp: backoff_next_def Let_def backoff_init_def not_le)
qed (simp add: backoff_init_def)

text \<open>the delay before the next restart doubles from one second and stays at one minute:
  the n-th consecutive retry waits min(60000, 1000 * 2 ^ n) milliseconds, a reset starts over,
  and no intermediate product leaves the range of an \<open>int\<close>.\<close>

theorem backoff_doubles_capped:
  "let b = ((snd \<circ> backoff_next) ^^ n) backoff_init in
     fst (backoff_next b) = min 60000 (1000 * 2 ^ n)
     \<and> fst (backoff_next (backoff_reset b)) = 1000
     \<and> 0 < bo_current_delay_ms b \<and> bo_current_delay_ms b * bo_multiplier b \<le> INT_MAX"
  unfolding backoff_closed_form Let_def
  by (auto simp: backoff_next_def backoff_reset_def backoff_init_def Let_def INT_MAX_def min_def)

datatype breaker_event = B_failure int | B_success | B_allow int | B_reset

fun breaker_step :: "breaker_event \<Rightarrow> circuit_breaker_t \<Rightarrow> circuit_breaker_t" where
  "breaker_step (B_failure t) cb = circuit_breaker_record_failure t cb"
| "breaker_step B_success cb = circuit_breaker_record_success cb"
| "breaker_step (B_allow now) cb = snd (circuit_breaker_should_allow now cb)"
| "breaker_step B_reset cb = circuit_breaker_reset cb"

text \<open>The contract, on the times of the failures that still count, oldest first: a success or a
  reset forgets them, and so does the question for permission that comes after the cooldown of
  an open breaker.\<close>

definition tripped :: "circuit_breaker_t \<Rightarrow> int list \<Rightarrow> bool" where
  "tripped cb0 fs \<longleftrightarrow> cb_threshold cb0 \<le> int (length fs)"

definition cooled :: "circuit_breaker_t \<Rightarrow> int \<Rightarrow> int list \<Rightarrow> bool" where
  "cooled cb0 now fs \<longleftrightarrow> cb_cooldown_seconds cb0 < now - last fs"

fun counted :: "circuit_breaker_t \<Rightarrow> breaker_event \<Rightarrow> int list \<Rightarrow> int list" where
  "counted cb0 (B_failure t) fs = fs @ [t]"
| "counted cb0 B_success fs = []"
| "counted cb0 (B_allow now) fs = (if tripped cb0 fs \<and> cooled cb0 now fs then [] else fs)"
| "counted cb0 B_reset fs = []"

definition breaker_shows :: "circuit_breaker_t \<Rightarrow> int list \<Rightarrow> circuit_breaker_t \<Rightarrow> bool" where
  "breaker_shows cb0 fs cb \<longleftrightarrow> cb_threshold cb = cb_threshold cb0 \<and> cb_cooldown_seconds cb = cb_cooldown_seconds cb0
     \<and> cb_consecutive_failures cb = int (length fs) \<and> cb_circuit_open cb = tripped cb0 fs
     \<and> (fs \<noteq> [] \<longrightarrow> cb_last_failure_time cb = last fs)"

lemma breaker_step_simulates:
  assumes "0 < cb_threshold cb0" "breaker_shows cb0 fs cb"
  shows "breaker_shows cb0 (counted cb0 e fs) (breaker_step e cb)"
proof (cases e)
  case (B_failure t)
  with assms show ?thesis
    by (auto simp: breaker_shows_def tripped_def circuit_breaker_record_failure_def Let_def)
next
  case B_success
  with assms show ?thesis
    by (auto simp: breaker_shows_def tripped_def circuit_breaker_record_success_def Let_def)
next
  case (B_allow now)
  have "tripped cb0 fs \<Longrightarrow> fs \<noteq> []" using assms(1) by (auto simp: tripped_def)
  with B_allow assms show ?thesis
    by (auto simp: breaker_shows_def tripped_def cooled_def circuit_breaker_should_allow_def)
next
  case B_reset
  with assms show ?thesis by (auto simp: breaker_shows_def tripped_def circuit_breaker_reset_def)
qed

lemma breaker_run:
  assumes "0 < cb_threshold cb0"
  shows "breaker_shows cb0 (fold (counted cb0) h []) (fold breaker_step h (circuit_breaker_reset cb0))"
proof (induction h rule: rev_induct)
  case Nil
  then show ?case using assms by (simp add: breaker_shows_def tripped_def circuit_breaker_reset_def)
next
  case (snoc e h)
  then show ?case using breaker_step_simulates [OF assms] by simp
qed

text \<open>C17: the circuit breaker implements its contract: after any history of recorded failures,
  successes, resets and questions for permission (which are answered in the history too), the
  failures that count are those since the last success, the last reset and the last permission
  that ended an open phase; the breaker's counter is their number and it is open exactly when
  they reach the threshold; a start is allowed exactly when it is closed or more than the
  cooldown has passed since the last failure; the start allowed in the second case closes it and
  forgets all failures, so that the threshold has to be reached anew, and every other answer
  changes nothing.\<close>

theorem circuit_breaker_contract:
  assumes "0 < cb_threshold cb0" "cb = fold breaker_step h (circuit_breaker_reset cb0)"
    and "fs = fold (counted cb0) h []" "circuit_breaker_should_allow now cb = (allow, cb')"
  shows "cb_consecutive_failures cb = int (length fs)
    \<and> (cb_circuit_open cb \<longleftrightarrow> cb_threshold cb0 \<le> int (length fs))
    \<and> (allow \<longleftrightarrow> \<not> cb_circuit_open cb \<or> cb_cooldown_seconds cb0 < now - last fs)
    \<and> (allow \<and> cb_circuit_open cb \<longrightarrow> \<not> cb_circuit_open cb' \<and> cb_consecutive_failures cb' = 0)
    \<and> (\<not> allow \<or> \<not> cb_circuit_open cb \<longrightarrow> cb' = cb)"
proof -
  note run = breaker_run [OF assms(1), of h, folded assms(2,3)]
  have "cb_circuit_open cb \<longrightarrow> fs \<noteq> []" using run assms(1) by (auto simp: breaker_shows_def tripped_def)
  with run assms(4) show ?thesis
    by (auto simp: breaker_shows_def tripped_def circuit_breaker_should_allow_def split: if_splits)
qed

theorem circuit_breaker_contract_witness:
  "let cb0 = \<lparr>cb_consecutive_failures = 7, cb_threshold = 2, cb_cooldown_seconds = 60, cb_last_failure_time = 3,
       cb_circuit_open = True\<rparr>;
       cb = fold breaker_step [B_failure 10, B_failure 12, B_allow 90, B_failure 95, B_allow 96, B_failure 100]
         (circuit_breaker_reset cb0)
   in cb_consecutive_failures cb = 2 \<and> cb_circuit_open cb
     \<and> \<not> fst (circuit_breaker_should_allow 160 cb) \<and> fst (circuit_breaker_should_allow 161 cb)"
proof -
  let ?start = "\<lparr>cb_consecutive_failures = 7, cb_threshold = 2, cb_cooldown_seconds = 60, cb_last_failure_time = 3,
       cb_circuit_open = True\<rparr>"
  let ?h = "[B_failure 10, B_failure 12, B_allow 90, B_failure 95, B_allow 96, B_failure 100]"
  let ?cb = "fold breaker_step ?h (circuit_breaker_reset ?start)"
  have h: "fold (counted ?start) ?h [] = [95, 100]" by (simp add: tripped_def cooled_def)
  have "cb_consecutive_failures ?cb = 2 \<and> cb_circuit_open ?cb
      \<and> (fst (circuit_breaker_should_allow now ?cb) \<longleftrightarrow> 60 < now - 100)" for now
    using circuit_breaker_contract [where h = ?h and ?cb0.0 = ?start and now = now, OF _ refl refl prod.collapse [symmetric]]
    unfolding h by simp
  from this [of 160] this [of 161] show ?thesis by (simp add: Let_def)
qed

subsection \<open>The child\<close>

text \<open>The argument vector fits: the entries and the terminating NULL stay within the 30
  allocated pointers whatever is configured, and the vector starts with the binary and
  \<open>run\<close>.\<close>

theorem service_args_fit:
  assumes "build_service_args alloc_ok c = Some args"
  shows "length args \<le> 28 \<and> take 2 args = [sv_bin_path c, ''run'']
    \<and> (sv_work_dir c \<noteq> [] \<longrightarrow> take 2 (drop 2 args) = [''-D'', sv_work_dir c])
    \<and> (\<not> has_custom_c c \<and> sv_conf_path c \<noteq> [] \<longrightarrow>
         (\<exists>i. i < length args - 1 \<and> args ! i = ''-c'' \<and> args ! Suc i = sv_conf_path c))"
proof -
  define wd where "wd = (if sv_work_dir c \<noteq> [] then [''-D'', sv_work_dir c] else [])"
  define cf where "cf = (if \<not> has_custom_c c \<and> sv_conf_path c \<noteq> [] then [''-c'', sv_conf_path c] else [])"
  define fixed where "fixed = [sv_bin_path c, ''run''] @ wd @ cf"
  obtain extra where args: "args = fixed @ extra" "length extra \<le> 28 - length fixed"
  proof
    show "args = fixed @ (if sv_service_args c \<noteq> []
        then take (28 - length fixed) (c_tokens (CHR '' '') (c_trunc 512 (sv_service_args c))) else [])"
      using assms unfolding build_service_args_def Let_def wd_def [symmetric] cf_def [symmetric] fixed_def [symmetric]
      by (auto split: if_splits)
  qed simp
  have len: "length wd \<le> 2" "length cf \<le> 2" by (simp_all add: wd_def cf_def)
  then have "length args \<le> 28" using args by (simp add: fixed_def)
  moreover have "take 2 args = [sv_bin_path c, ''run'']" by (simp add: args fixed_def)
  moreover have "sv_work_dir c \<noteq> [] \<longrightarrow> take 2 (drop 2 args) = [''-D'', sv_work_dir c]"
    by (simp add: args fixed_def wd_def)
  moreover have "\<exists>i. i < length args - 1 \<and> args ! i = ''-c'' \<and> args ! Suc i = sv_conf_path c"
    if "\<not> has_custom_c c \<and> sv_conf_path c \<noteq> []"
    using that by (intro exI [of _ "2 + length wd"]) (simp add: args fixed_def cf_def nth_append)
  ultimately show ?thesis by blast
qed

definition sample_ctx :: service_ctx_t where
  "sample_ctx = \<lparr>sv_bin_path = ''/a/bin/sing-box'', sv_work_dir = ''/a'', sv_conf_path = ''/a/config.json'',
     sv_log_path = ''/a/sing-box.log'', sv_pid_path = ''/a/run/sing-box.pid'', sv_user = ''1052'', sv_group = ''3003'',
     sv_service_args = ''--x'', sv_service_env = ''A=1'', sv_api_port = 9080, sv_child_pid = -1,
     sv_child_starttime_ticks = 0, sv_validated_pid = False, sv_state = SERVICE_STOPPED, sv_fail_count = 0,
     sv_max_failures = 5, sv_start_timeout_sec = 30, sv_stop_timeout_sec = 10, sv_grace_period_sec = 3,
     sv_reactor = True, sv_monitor_timer = None, sv_retry_timer = None, sv_health_timer = None,
     sv_validate_ctx = Some \<lparr>pr_host = ''127.0.0.1'', pr_secret = ''s''\<rparr>, sv_backoff = backoff_init,
     sv_breaker = \<lparr>cb_consecutive_failures = 0, cb_threshold = 5, cb_cooldown_seconds = 60,
       cb_last_failure_time = 0, cb_circuit_open = False\<rparr>,
     sv_last_health_check = 0, sv_health_check_interval_ms = 5000, sv_running_healthy = False,
     sv_stop_attempts = 0, sv_start_time = 0, sv_start_time_ms = 0\<rparr>"

text \<open>A system in which process 42 is a live proxy whose native API answers.\<close>

definition sample_os :: os_view where
  "sample_os = \<lparr>os_mono = 5000, os_time = 100, os_kill = (\<lambda>_ _. None),
     os_stat = (\<lambda>_. Some (proc_stat_line 42 ''sing-box'' (CHR ''S'')
       [1, 42, 42, 0, -1, 4, 4, 4, 4, 4, 4, 4, 4, 4, 4, 4, 4, 4, 777] @ [CHR 0x0A])),
     os_exe = (\<lambda>_. Some ''/a/bin/sing-box''), os_comm = (\<lambda>_. None), os_wait = (\<lambda>_. W_nothing),
     os_exec_ok = (\<lambda>_. True), os_mkdir = (\<lambda>_. None), os_isdir = (\<lambda>_. True), os_errno = EINVAL, os_fork = 42,
     os_log_size = None, os_localtime = None, os_rename_ok = True,
     os_open = \<lparr>oa_fd = 8, oa_fstat = Some (True, 1)\<rparr>, os_ftruncate_ok = True, os_dprintf_ok = True,
     os_fsync_ok = True, os_close_ok = True, os_alloc = (True, True), os_calloc = True,
     os_native_status = (\<lambda>_. True), os_api_snapshot = Some (True, 5000),
     os_nl = vpn_env\<lparr>ne_recv := [Inl EAGAIN]\<rparr>, os_ts = \<lparr>tv_sec = 1, tv_nsec = 0\<rparr>, os_pid_file = None\<rparr>"

lemma sample_starttime: "get_process_starttime (os_stat sample_os) p = Some 777"
proof -
  let ?fs = "[1, 42, 42, 0, -1, 4, 4, 4, 4, 4, 4, 4, 4, 4, 4, 4, 4, 4, 777] :: int list"
  have "length (proc_stat_line 42 ''sing-box'' (CHR ''S'') ?fs) < 4095"
    by (simp add: proc_stat_line_def proc_stat_fields_def show_int_def show_nat.simps)
  then show ?thesis
    using read_proc_stat_line [of ?fs "''sing-box''" "CHR ''S''" 42 p] by (simp add: sample_os_def c_isspace_def)
qed

lemma sample_args: "build_service_args True sample_ctx =
    Some [''/a/bin/sing-box'', ''run'', ''-D'', ''/a'', ''-c'', ''/a/config.json'', ''--x'']"
  by (simp add: build_service_args_def sample_ctx_def has_custom_c_def c_tokens_def)

theorem service_args_fit_witness:
  "\<exists>args. build_service_args True sample_ctx = Some args \<and> length args \<le> 28
     \<and> take 2 args = [''/a/bin/sing-box'', ''run'']"
  using service_args_fit [OF sample_args] sample_args by (simp add: sample_ctx_def)

lemma child_exec_last:
  assumes "C_execv p a \<in> set (child_exec env c)"
  shows "\<exists>mid. child_exec env c = mid @ [C_execv (sv_bin_path c) a] \<and> p = sv_bin_path c
     \<and> build_service_args (ch_alloc_ok env) c = Some a
     \<and> (\<forall>e\<in>set mid. \<exists>n v. e = C_unsetenv n \<or> e = C_setenv n v \<or> e = C_chdir n)"
  using assms by (auto simp: child_exec_def split: option.splits if_splits)

text \<open>C16: the child reaches \<open>execv\<close> only with its privileges dropped: when it runs as root
  and the program is executed, the credentials were resolved from the configured user and
  group, and the supplementary groups, the gid and the uid were set to them, in this order,
  each call succeeding, with nothing but the environment and the working directory changed in
  between; the program is the configured binary with the vector built for it.\<close>

theorem child_drops_privileges:
  assumes "C_execv p a \<in> set (service_child env c)" "ch_euid env = 0"
  shows "\<exists>cr pre mid. service_credentials_resolve_with_lookups (sv_user c) (sv_group c) (ch_uid env) (ch_gid env)
        (ch_getpwnam env) (ch_getgrnam env) = Inr cr
    \<and> service_child env c = pre @ [if cr_init_groups cr then C_initgroups (cr_user_name cr) (cr_gid cr) else C_setgroups_none,
         C_setgid (cr_gid cr), C_setuid (cr_uid cr)] @ mid @ [C_execv p a]
    \<and> (\<forall>e\<in>set mid. \<exists>n v. e = C_unsetenv n \<or> e = C_setenv n v \<or> e = C_chdir n)
    \<and> C_setsid \<in> set pre \<and> C_clear_sigmask \<in> set pre
    \<and> p = sv_bin_path c \<and> build_service_args (ch_alloc_ok env) c = Some a
    \<and> ch_groups_ok env \<and> ch_setgid_ok env \<and> ch_setuid_ok env"
proof -
  define res where "res = service_credentials_resolve_with_lookups (sv_user c) (sv_group c) (ch_uid env) (ch_gid env)
        (ch_getpwnam env) (ch_getgrnam env)"
  define stdio where "stdio = (if 0 \<le> open_regular_file (ch_log env) then C_stdio_log else C_stdio_null)"
  define tail where "tail = (case res of Inl _ \<Rightarrow> [C_exit 127] | Inr cr \<Rightarrow> child_drop env c cr)"
  have tl: "C_execv p a \<in> set tail" and
    sc: "service_child env c = [C_ignore_sigpipe, C_umask 23, C_setsid, C_close_std, stdio, C_clear_sigmask] @ tail"
    using assms(1) unfolding service_child_def res_def [symmetric] tail_def [symmetric] Let_def stdio_def
    by (auto simp: guarded_def split: if_splits)
  obtain cr where cr: "res = Inr cr" "C_execv p a \<in> set (child_drop env c cr)"
    using tl by (auto simp: tail_def split: sum.splits)
  define g where "g = (if cr_init_groups cr then C_initgroups (cr_user_name cr) (cr_gid cr) else C_setgroups_none)"
  have ok: "ch_groups_ok env \<and> ch_setgid_ok env \<and> ch_setuid_ok env" "C_execv p a \<in> set (child_exec env c)"
    using cr(2) assms(2) by (auto simp: child_drop_def guarded_def split: if_splits)
  then have drop: "child_drop env c cr = [g, C_setgid (cr_gid cr), C_setuid (cr_uid cr)] @ child_exec env c"
    using assms(2) by (simp add: child_drop_def guarded_def g_def)
  obtain mid where mid: "child_exec env c = mid @ [C_execv (sv_bin_path c) a]" "p = sv_bin_path c"
      "build_service_args (ch_alloc_ok env) c = Some a"
      "\<forall>e\<in>set mid. \<exists>n v. e = C_unsetenv n \<or> e = C_setenv n v \<or> e = C_chdir n"
    using child_exec_last [OF ok(2)] by blast
  show ?thesis
    using cr(1) ok(1) mid sc drop unfolding res_def g_def tail_def [unfolded cr(1)] sum.case
    by (intro exI [of _ cr] exI [of _ "[C_ignore_sigpipe, C_umask 23, C_setsid, C_close_std, stdio, C_clear_sigmask]"]
        exI [of _ mid]) (simp add: tail_def cr(1))
qed


definition root_child :: child_env where
  "root_child = \<lparr>ch_sigaction_ok = True, ch_setsid_ok = True, ch_log = \<lparr>oa_fd = 5, oa_fstat = Some (True, 1)\<rparr>,
     ch_dup2_ok = True, ch_sigmask_ok = True, ch_uid = 0, ch_gid = 0, ch_euid = 0, ch_getpwnam = (\<lambda>_. None),
     ch_getgrnam = (\<lambda>_. None), ch_groups_ok = True, ch_setgid_ok = True, ch_setuid_ok = True, ch_alloc_ok = True,
     ch_execv_ok = True\<rparr>"

lemma sample_credentials:
  "service_credentials_resolve_with_lookups ''1052'' ''3003'' 0 0 (\<lambda>_. None) (\<lambda>_. None) =
     Inr \<lparr>cr_uid = 1052, cr_gid = 3003, cr_init_groups = False, cr_user_name = []\<rparr>"
  by (simp add: service_credentials_resolve_with_lookups_def resolve_user_def resolve_group_def parse_uid_def
      parse_gid_def c_strtoull_def c_isdigit_def c_isspace_def digits_val_def c_digit_val_def)

lemma sample_env: "set_service_environment sample_ctx = [(''A'', ''1'')]"
  by (simp add: set_service_environment_def sample_ctx_def c_tokens_def)

lemma sample_child: "service_child root_child sample_ctx =
    [C_ignore_sigpipe, C_umask 23, C_setsid, C_close_std, C_stdio_log, C_clear_sigmask, C_setgroups_none,
     C_setgid 3003, C_setuid 1052, C_unsetenv ''LD_PRELOAD'', C_setenv ''A'' ''1'', C_chdir ''/a'',
     C_execv ''/a/bin/sing-box'' [''/a/bin/sing-box'', ''run'', ''-D'', ''/a'', ''-c'', ''/a/config.json'', ''--x'']]"
proof -
  have c: "sv_user sample_ctx = ''1052''" "sv_group sample_ctx = ''3003''" "sv_work_dir sample_ctx = ''/a''"
      "sv_bin_path sample_ctx = ''/a/bin/sing-box''" by (simp_all add: sample_ctx_def)
  show ?thesis
    by (simp add: service_child_def c sample_credentials root_child_def guarded_def open_regular_file_def
        child_drop_def child_exec_def sample_args sample_env)
qed

theorem child_drops_privileges_witness:
  "\<exists>(cr :: service_credentials_t) pre mid a. service_child root_child sample_ctx = pre @ [C_setgroups_none, C_setgid (cr_gid cr), C_setuid (cr_uid cr)]
       @ mid @ [C_execv ''/a/bin/sing-box'' a] \<and> cr_uid cr = 1052 \<and> \<not> cr_init_groups cr"
proof -
  let ?a = "[''/a/bin/sing-box'', ''run'', ''-D'', ''/a'', ''-c'', ''/a/config.json'', ''--x'']"
  have "C_execv ''/a/bin/sing-box'' ?a \<in> set (service_child root_child sample_ctx)"
    unfolding sample_child by simp
  from child_drops_privileges [OF this]
  obtain cr pre mid where
    cr: "service_credentials_resolve_with_lookups (sv_user sample_ctx) (sv_group sample_ctx) (ch_uid root_child)
        (ch_gid root_child) (ch_getpwnam root_child) (ch_getgrnam root_child) = Inr cr"
    and "service_child root_child sample_ctx = pre @ [if cr_init_groups cr then C_initgroups (cr_user_name cr) (cr_gid cr)
         else C_setgroups_none, C_setgid (cr_gid cr), C_setuid (cr_uid cr)] @ mid @ [C_execv ''/a/bin/sing-box'' ?a]"
    by (auto simp: root_child_def)
  moreover have "cr = \<lparr>cr_uid = 1052, cr_gid = 3003, cr_init_groups = False, cr_user_name = []\<rparr>"
    using cr sample_credentials by (simp add: sample_ctx_def root_child_def)
  ultimately show ?thesis by - (rule exI [of _ cr], rule exI [of _ pre], rule exI [of _ mid], rule exI [of _ ?a], simp)
qed

end
