(* ===== verification/Service.thy ===== *)
theory Service
  imports Service_Spawn
begin

text \<open>
  The second half of \<open>src/service.c\<close>: the supervisor's state machine.  A callback or an
  operation is a function on the pair of the reactor and the supervisor's world; its result is
  \<open>None\<close> when it would touch freed memory (a cancelled timer handle, a freed stop record).

  \<open>SVC\<close> is the address of the context, the user data of its timers; stop records are
  allocated at other addresses.  \<open>sv_reactor\<close> says that the context has the reactor
  (\<open>reactor_add_timer\<close> and \<open>reactor_cancel_timer\<close> fail on a NULL one).
\<close>

type_synonym svc = "svc_world world"

definition SVC :: data_ptr where "SVC = 0"

definition svc_cancel :: "nat option \<Rightarrow> svc \<Rightarrow> svc option" where
  "svc_cancel slot w =
     (if sv_reactor (sw_ctx (snd w)) \<and> slot \<noteq> None
      then map_option (\<lambda>(_, r'). (r', snd w)) (reactor_cancel_timer slot (fst w))
      else Some w)"

definition svc_add_timer :: "u64 \<Rightarrow> u64 \<Rightarrow> fn \<Rightarrow> data_ptr \<Rightarrow> svc \<Rightarrow> nat option \<times> svc" where
  "svc_add_timer timeout interval cb ud w =
     (let u = snd w in
      if \<not> sv_reactor (sw_ctx u) then (None, w)
      else case reactor_add_timer (os_alloc (os_now u)) (os_mono (os_now u)) timeout interval (Some cb) (Some ud) (fst w) of
        (h, r') \<Rightarrow> (h, r', tick u))"

subsection \<open>Retries\<close>

definition service_schedule_retry :: "svc \<Rightarrow> svc option" where
  "service_schedule_retry w =
     (case backoff_next (sv_backoff (sw_ctx (snd w))) of (delay, b) \<Rightarrow> do {
        let slot = sv_retry_timer (sw_ctx (snd w));
        (r1, u1) \<leftarrow> svc_cancel slot (fst w, upd_ctx (\<lambda>c. c\<lparr>sv_backoff := b\<rparr>) (snd w));
        (case svc_add_timer (word_of_int delay) 0 Fn_service_delayed_spawn_cb SVC (r1, u1) of
           (h, r2, u2) \<Rightarrow>
             Some (r2, upd_ctx (\<lambda>c. c\<lparr>sv_retry_timer := h,
                     sv_state := (if h = None then SERVICE_FAILED else sv_state c)\<rparr>) u2))
      })"

definition count_failure :: "svc_world \<Rightarrow> svc_world" where
  "count_failure u =
     tick (upd_ctx (\<lambda>c. c\<lparr>sv_fail_count := sv_fail_count c + 1,
             sv_breaker := circuit_breaker_record_failure (os_time (os_now u)) (sv_breaker c)\<rparr>) u)"

definition retry_or_give_up :: "svc \<Rightarrow> svc option" where
  "retry_or_give_up w =
     (if sv_max_failures (sw_ctx (snd w)) \<le> sv_fail_count (sw_ctx (snd w))
      then Some (fst w, upd_ctx (\<lambda>c. c\<lparr>sv_state := SERVICE_FAILED\<rparr>) (snd w))
      else service_schedule_retry w)"

definition breaker_allows :: "svc_world \<Rightarrow> bool \<times> svc_world" where
  "breaker_allows u =
     (case circuit_breaker_should_allow (os_time (os_now u)) (sv_breaker (sw_ctx u)) of
        (ok, b) \<Rightarrow> (ok, tick (upd_ctx (\<lambda>c. c\<lparr>sv_breaker := b\<rparr>) u)))"

definition service_delayed_spawn_cb :: "svc \<Rightarrow> svc option" where
  "service_delayed_spawn_cb w =
     (if sv_state (sw_ctx (snd w)) = SERVICE_STOPPED then Some w
      else do {
        (r1, u1) \<leftarrow> svc_cancel (sv_retry_timer (sw_ctx (snd w))) w;
        let u2 = upd_ctx (\<lambda>c. c\<lparr>sv_retry_timer := None\<rparr>) u1;
        (case breaker_allows u2 of (ok, u3) \<Rightarrow>
           if \<not> ok then service_schedule_retry (r1, u3)
           else case service_spawn u3 of (rc, u4) \<Rightarrow>
             if rc = 0 then
               (case svc_add_timer 100 0 Fn_service_monitor_cb SVC
                       (r1, upd_ctx (\<lambda>c. c\<lparr>sv_state := SERVICE_STARTING\<rparr>) u4) of
                  (_, w') \<Rightarrow> Some w')
             else retry_or_give_up (r1, count_failure u4))
      })"

subsection \<open>The monitor\<close>

definition start_timeout_ms :: "service_ctx_t \<Rightarrow> u64" where
  "start_timeout_ms c = word_of_int (if 0 < sv_start_timeout_sec c then sv_start_timeout_sec c else 30) * 1000"

text \<open>The probe succeeded: the service is running.\<close>

definition monitor_ready :: "svc \<Rightarrow> svc option" where
  "monitor_ready w =
     (let u = tick (upd_ctx (\<lambda>c. c\<lparr>sv_state := SERVICE_RUNNING, sv_fail_count := 0, sv_running_healthy := True,
                sv_last_health_check := os_time (os_now (snd w)), sv_backoff := backoff_reset (sv_backoff c),
                sv_breaker := circuit_breaker_record_success (sv_breaker c)\<rparr>) (snd w))
      in if \<not> sv_reactor (sw_ctx u) then Some (fst w, u)
         else do {
           (r1, nl) \<leftarrow> netlink_refresh_state (os_alloc (os_now u)) (os_mono (os_now u)) True (fst w, sw_nl u);
           let u1 = tick (u\<lparr>sw_nl := nl\<rparr>);
           if 0 < sv_health_check_interval_ms (sw_ctx u1) then do {
             (r2, u2) \<leftarrow> svc_cancel (sv_health_timer (sw_ctx u1)) (r1, u1);
             (case svc_add_timer (word_of_int (sv_health_check_interval_ms (sw_ctx u2)))
                     (word_of_int (sv_health_check_interval_ms (sw_ctx u2)))
                     Fn_service_health_check_cb SVC (r2, u2) of
                (h, r3, u3) \<Rightarrow>
                  Some (r3, upd_ctx (\<lambda>c. c\<lparr>sv_health_timer := h,
                          sv_state := (if h = None then SERVICE_FAILED else sv_state c)\<rparr>) u3))
           } else Some (r1, u1)
         })"

text \<open>The child is alive: validate its pid once, then probe.\<close>

definition monitor_alive :: "svc \<Rightarrow> svc option" where
  "monitor_alive w =
     (let u = snd w; c = sw_ctx u; p = sv_child_pid c;
          u1 = (if sv_validated_pid c then u
                else if validate_process (os_now u) c p
                then tick (upd_ctx (\<lambda>c. c\<lparr>sv_validated_pid := True\<rparr>) u)
                else tick (upd_ctx (\<lambda>c. c\<lparr>sv_child_pid := -1\<rparr>) (kill_and_reap p u)))
      in if \<not> sv_validated_pid (sw_ctx u1) then Some (fst w, u1)
         else case service_probe_native_api u1 of (ok, u2) \<Rightarrow>
           if ok then monitor_ready (fst w, u2) else Some (fst w, u2))"

definition monitor_starting :: "svc \<Rightarrow> svc option" where
  "monitor_starting w =
     (let u = snd w; c = sw_ctx u in
      if 0 < sv_start_time_ms c \<and> start_timeout_ms c \<le> os_mono (os_now u) - sv_start_time_ms c then
        (let u1 = tick (if 0 < sv_child_pid c then emit [E_kill (sv_child_pid c) SIGKILL] u else u);
             u2 = count_failure (upd_ctx (\<lambda>c. c\<lparr>sv_state := SERVICE_FAILED\<rparr>) u1)
         in if sv_reactor (sw_ctx u2) \<and> sv_fail_count (sw_ctx u2) < sv_max_failures (sw_ctx u2)
            then service_schedule_retry (fst w, u2) else Some (fst w, u2))
      else case service_starting_child_alive (tick u) of (alive, u1) \<Rightarrow>
        if alive then monitor_alive (fst w, u1)
        else retry_or_give_up (fst w, count_failure u1))"

definition service_monitor_cb :: "svc \<Rightarrow> svc option" where
  "service_monitor_cb w =
     (let c = sw_ctx (snd w) in
      case sv_state c of
        SERVICE_STOPPED \<Rightarrow> Some w
      | SERVICE_STARTING \<Rightarrow> monitor_starting w
      | SERVICE_RUNNING \<Rightarrow>
          (case service_is_alive (snd w) of (alive, u1) \<Rightarrow>
             if alive then Some (fst w, u1)
             else retry_or_give_up (fst w, count_failure (upd_ctx (\<lambda>c. c\<lparr>sv_state := SERVICE_FAILED\<rparr>) u1)))
      | SERVICE_FAILED \<Rightarrow>
          (if sv_reactor c \<and> sv_child_pid c \<le> 0 \<and> sv_fail_count c < sv_max_failures c \<and> sv_retry_timer c = None
           then service_schedule_retry w else Some w)
      | SERVICE_STOPPING \<Rightarrow> Some w)"

definition service_health_check_cb :: "svc \<Rightarrow> svc option" where
  "service_health_check_cb w =
     (let u = snd w in
      if sv_state (sw_ctx u) \<noteq> SERVICE_RUNNING then Some w
      else case service_is_alive u of (alive, u1) \<Rightarrow>
        if \<not> alive then Some (fst w, upd_ctx (\<lambda>c. c\<lparr>sv_running_healthy := False\<rparr>) u1)
        else
          (let k = os_now u1;
               healthy = (case os_api_snapshot k of
                            None \<Rightarrow> False
                          | Some (valid, updated) \<Rightarrow> valid \<and> sv_start_time_ms (sw_ctx u1) \<le> updated);
               upd = (\<lambda>c. c\<lparr>sv_running_healthy := healthy, sv_last_health_check := os_time k,
                  sv_breaker := (if healthy then circuit_breaker_record_success (sv_breaker c)
                                 else circuit_breaker_record_failure (os_time k) (sv_breaker c))\<rparr>)
           in Some (fst w, tick (upd_ctx upd u1))))"

text \<open>\<open>SIGCHLD\<close>: only the supervised child is reaped.\<close>

definition service_sigchld_cb :: "svc \<Rightarrow> svc option" where
  "service_sigchld_cb w =
     (let u = snd w; c = sw_ctx u; p = sv_child_pid c;
          waited = (if 0 < p then (case os_wait (os_now u) p of W_nothing \<Rightarrow> 0 | W_pid q _ \<Rightarrow> q | W_err _ \<Rightarrow> -1)
                    else 0);
          u0 = tick u
      in if waited \<noteq> p then Some (fst w, u0)
         else
           (let u1 = service_unlink_pid (upd_ctx (\<lambda>c. c\<lparr>sv_running_healthy := False\<rparr>)
                       (forget_child (if 0 < p then emit [E_reap p] u0 else u0)))
            in if sv_state c = SERVICE_RUNNING \<or> sv_state c = SERVICE_STARTING then
                 (let u2 = tick (upd_ctx (\<lambda>c. c\<lparr>sv_state := SERVICE_FAILED,
                        sv_breaker := circuit_breaker_record_failure (os_time (os_now u1)) (sv_breaker c)\<rparr>) u1)
                  in if sv_reactor (sw_ctx u2) \<and> sv_fail_count (sw_ctx u2) < sv_max_failures (sw_ctx u2)
                     then service_schedule_retry
                            (fst w, upd_ctx (\<lambda>c. c\<lparr>sv_fail_count := sv_fail_count c + 1\<rparr>) u2)
                     else Some (fst w, u2))
               else Some (fst w, u1)))"

subsection \<open>Stopping\<close>

text \<open>The polling loop of \<open>service_stop_sync\<close>: reaped, failed.\<close>

fun stop_wait_loop :: "nat \<Rightarrow> pid \<Rightarrow> svc_world \<Rightarrow> bool \<times> bool \<times> svc_world" where
  "stop_wait_loop 0 p u = (False, False, u)"
| "stop_wait_loop (Suc n) p u =
     (let u1 = tick u in
      case os_wait (os_now u) p of
        W_nothing \<Rightarrow> stop_wait_loop n p u1
      | W_pid q _ \<Rightarrow> (if q = p then (True, False, emit [E_reap p] u1) else stop_wait_loop n p u1)
      | W_err e \<Rightarrow>
          (if e = ECHILD then (True, False, u1)
           else if e \<noteq> EINTR then (False, True, u1)
           else stop_wait_loop n p u1))"

definition stop_child :: "svc_world \<Rightarrow> int \<times> svc_world" where
  "stop_child u =
     (let c = sw_ctx u; p = sv_child_pid c in
      if p \<le> 0 then (0, u)
      else
        (let attempts = nat (if 0 < sv_stop_timeout_sec c then sv_stop_timeout_sec c * 10 else 10);
             term = os_kill (os_now u) p SIGTERM;
             bad1 = (term \<noteq> None \<and> term \<noteq> Some ESRCH)
         in case stop_wait_loop attempts p (tick (emit [E_kill p SIGTERM] u)) of
              (reaped, bad2, u1) \<Rightarrow>
                (if reaped then (if bad1 \<or> bad2 then -1 else 0, u1)
                 else
                   (let k = os_kill (os_now u1) p SIGKILL; bad3 = (k \<noteq> None \<and> k \<noteq> Some ESRCH)
                    in (if bad1 \<or> bad2 \<or> bad3 then -1 else 0, tick (kill_and_reap p u1))))))"

definition cancel_all :: "svc \<Rightarrow> svc option" where
  "cancel_all w =
     (if \<not> sv_reactor (sw_ctx (snd w)) then Some w
      else do {
        (r1, u1) \<leftarrow> svc_cancel (sv_monitor_timer (sw_ctx (snd w))) w;
        (r2, u2) \<leftarrow> svc_cancel (sv_retry_timer (sw_ctx u1)) (r1, u1);
        (r3, u3) \<leftarrow> svc_cancel (sv_health_timer (sw_ctx u2)) (r2, u2);
        Some (r3, upd_ctx (\<lambda>c. c\<lparr>sv_monitor_timer := None, sv_retry_timer := None, sv_health_timer := None,
                sv_reactor := False\<rparr>) u3)
      })"

definition mark_stopped :: "svc_world \<Rightarrow> svc_world" where
  "mark_stopped u =
     service_unlink_pid (upd_ctx (\<lambda>c. c\<lparr>sv_state := SERVICE_STOPPED, sv_running_healthy := False\<rparr>) (forget_child u))"

definition service_stop_sync :: "svc \<Rightarrow> (int \<times> svc) option" where
  "service_stop_sync w = do {
     (r1, u1) \<leftarrow> cancel_all (fst w, upd_ctx (\<lambda>c. c\<lparr>sv_state := SERVICE_STOPPING\<rparr>) (snd w));
     (case stop_child u1 of (result, u2) \<Rightarrow> Some (result, r1, mark_stopped u2))
   }"

text \<open>After \<open>service_destroy\<close> the context is freed: what remains is the reactor and the trace.\<close>

definition service_destroy :: "svc \<Rightarrow> (reactor_t \<times> svc_event list) option" where
  "service_destroy w = map_option (\<lambda>(_, r, u). (r, sw_trace u)) (service_stop_sync w)"

definition done_events :: "service_stop_state_t \<Rightarrow> svc_event list" where
  "done_events st = (case ss_done_cb st of None \<Rightarrow> [] | Some f \<Rightarrow> [E_done_cb f (ss_userdata st)])"

definition free_stop :: "data_ptr \<Rightarrow> svc_world \<Rightarrow> svc_world" where
  "free_stop p u = u\<lparr>sw_stops := (sw_stops u)(p := None)\<rparr>"

definition service_stop_wait_cb :: "data_ptr \<Rightarrow> svc \<Rightarrow> svc option" where
  "service_stop_wait_cb p w =
     (case sw_stops (snd w) p of
        None \<Rightarrow> None
      | Some st \<Rightarrow>
          (case service_is_alive (snd w) of (alive, u1) \<Rightarrow>
             if \<not> alive then Some (fst w, free_stop p (emit (done_events st) (mark_stopped u1)))
             else
               (let st1 = st\<lparr>ss_attempts := ss_attempts st + 1\<rparr>;
                    u2 = u1\<lparr>sw_stops := (sw_stops u1)(p \<mapsto> st1)\<rparr>
                in if ss_max_attempts st1 \<le> ss_attempts st1
                   then Some (fst w, free_stop p (emit (done_events st1)
                          (mark_stopped (kill_and_reap (sv_child_pid (sw_ctx u2)) u2))))
                   else
                     (case reactor_add_timer (os_alloc (os_now u2)) (os_mono (os_now u2)) 100 0
                             (Some Fn_service_stop_wait_cb) (Some p) (fst w) of
                        (h, r1) \<Rightarrow>
                          (if h = None then map_option snd (service_stop_sync (r1, free_stop p (tick u2)))
                           else Some (r1, tick u2))))))"

definition service_stop_async :: "code_ptr option \<Rightarrow> data_ptr option \<Rightarrow> svc \<Rightarrow> (int \<times> svc) option" where
  "service_stop_async done_cb userdata w0 =
     (let w = (fst w0, upd_ctx (\<lambda>c. c\<lparr>sv_state := SERVICE_STOPPING\<rparr>) (snd w0));
          st = \<lparr>ss_attempts = 0, ss_max_attempts = sv_stop_timeout_sec (sw_ctx (snd w)) * 10,
                ss_done_cb = done_cb, ss_userdata = userdata\<rparr>
      in do {
        (r1, u1) \<leftarrow> svc_cancel (sv_health_timer (sw_ctx (snd w))) w;
        let u2 = (if sv_reactor (sw_ctx u1) then upd_ctx (\<lambda>c. c\<lparr>sv_health_timer := None\<rparr>) u1 else u1);
        let p = sv_child_pid (sw_ctx u2);
        let e = (if 0 < p then os_kill (os_now u2) p SIGTERM else None);
        let u3 = (if 0 < p then tick (emit [E_kill p SIGTERM] u2) else u2);
        if e \<noteq> None \<and> e \<noteq> Some ESRCH then Some (-1, r1, u3)
        else if \<not> sv_reactor (sw_ctx u3) then
          map_option (\<lambda>(rc, r2, u4). (rc, r2, emit (done_events st) u4)) (service_stop_sync (r1, u3))
        else do {
          (r2, u4) \<leftarrow> svc_cancel (sv_monitor_timer (sw_ctx u3)) (r1, u3);
          (r3, u5) \<leftarrow> svc_cancel (sv_retry_timer (sw_ctx u4)) (r2, u4);
          let u6 = upd_ctx (\<lambda>c. c\<lparr>sv_monitor_timer := None, sv_retry_timer := None\<rparr>) u5;
          let k = os_now u6;
          if \<not> os_calloc k then
            Some (-1, r3, emit (done_events st) (service_unlink_pid
              (upd_ctx (\<lambda>c. c\<lparr>sv_state := SERVICE_STOPPED, sv_fail_count := 0, sv_running_healthy := False\<rparr>) (tick u6))))
          else
            (let p = sw_next u6; u7 = (tick u6)\<lparr>sw_next := p + 1, sw_stops := (sw_stops u6)(p \<mapsto> st)\<rparr> in
             case svc_add_timer 100 0 Fn_service_stop_wait_cb p (r3, u7) of
               (h, r4, u8) \<Rightarrow> (if h = None then Some (-1, r4, free_stop p u8) else Some (0, r4, u8)))
        }
      })"

subsection \<open>Starting, configuration, queries\<close>

definition service_start_async :: "svc \<Rightarrow> int \<times> svc" where
  "service_start_async w =
     (let u = snd w; c = sw_ctx u in
      if sv_state c = SERVICE_RUNNING \<or> sv_state c = SERVICE_STARTING then (0, w)
      else case breaker_allows u of (ok, u1) \<Rightarrow>
        if \<not> ok then (-1, fst w, u1)
        else case service_is_alive u1 of (alive, u2) \<Rightarrow>
          if alive then (0, fst w, upd_ctx (\<lambda>c. c\<lparr>sv_state := SERVICE_STARTING\<rparr>) u2)
          else if \<not> os_exec_ok (os_now u2) (sv_bin_path (sw_ctx u2))
          then (-1, fst w, tick (upd_ctx (\<lambda>c. c\<lparr>sv_state := SERVICE_FAILED\<rparr>) u2))
          else case service_spawn (tick u2) of (rc, u3) \<Rightarrow>
            if rc = 0
            then (0, fst w, tick (upd_ctx (\<lambda>c. c\<lparr>sv_state := SERVICE_STARTING, sv_start_time := os_time (os_now u3),
                    sv_start_time_ms := os_mono (os_now u3), sv_fail_count := 0,
                    sv_backoff := backoff_reset (sv_backoff c)\<rparr>) u3))
            else (-1, fst w, tick (upd_ctx (\<lambda>c. c\<lparr>sv_state := SERVICE_FAILED,
                    sv_breaker := circuit_breaker_record_failure (os_time (os_now u3)) (sv_breaker c)\<rparr>) u3)))"

text \<open>The reactor argument: whether it is not NULL.\<close>

definition service_set_reactor :: "bool \<Rightarrow> svc \<Rightarrow> (int \<times> svc) option" where
  "service_set_reactor has_r w =
     (let w1 = (fst w, upd_ctx (\<lambda>c. c\<lparr>sv_reactor := has_r\<rparr>) (snd w)) in
      if \<not> has_r then Some (0, w1)
      else do {
        (r1, u1) \<leftarrow> svc_cancel (sv_monitor_timer (sw_ctx (snd w1))) w1;
        (case svc_add_timer 100 1000 Fn_service_monitor_cb SVC (r1, u1) of
           (h, r2, u2) \<Rightarrow> Some (if h = None then -1 else 0, r2, upd_ctx (\<lambda>c. c\<lparr>sv_monitor_timer := h\<rparr>) u2))
      })"

definition or_default :: "int \<Rightarrow> int \<Rightarrow> int" where
  "or_default v d = (if 0 < v then v else d)"

definition apply_values :: "atp_config_t \<Rightarrow> service_ctx_t \<Rightarrow> service_ctx_t" where
  "apply_values cfg c =
     c\<lparr>sv_max_failures := or_default (max_failures (cfg_service cfg)) 5,
       sv_start_timeout_sec := or_default (start_timeout_sec (cfg_service cfg)) 30,
       sv_stop_timeout_sec := or_default (stop_timeout_sec (cfg_service cfg)) 10,
       sv_health_check_interval_ms := or_default (health_check_interval_ms (cfg_service cfg)) 5000\<rparr>"

definition service_apply_config :: "atp_config_t \<Rightarrow> svc \<Rightarrow> (int \<times> svc) option" where
  "service_apply_config cfg w =
     (let u = snd w; c = sw_ctx u;
          interval = or_default (health_check_interval_ms (cfg_service cfg)) 5000
      in if interval \<noteq> sv_health_check_interval_ms c \<and> sv_reactor c \<and> sv_state c = SERVICE_RUNNING then
           (case svc_add_timer (word_of_int interval) (word_of_int interval) Fn_service_health_check_cb SVC w of
              (replacement, r1, u1) \<Rightarrow>
                (if replacement = None then Some (-1, r1, u1)
                 else do {
                   (rc, r2) \<leftarrow> (if sv_health_timer c = None then Some (0, r1)
                                else reactor_cancel_timer (sv_health_timer c) r1);
                   if rc \<noteq> 0 then
                     map_option (\<lambda>(_, r3). (-1, r3, u1)) (reactor_cancel_timer replacement r2)
                   else Some (0, r2, upd_ctx (\<lambda>c. (apply_values cfg c)\<lparr>sv_health_timer := replacement\<rparr>) u1)
                 }))
         else Some (0, fst w, upd_ctx (apply_values cfg) u))"

definition ctx_zero :: service_ctx_t where
  "ctx_zero = \<lparr>sv_bin_path = [], sv_work_dir = [], sv_conf_path = [], sv_log_path = [], sv_pid_path = [],
     sv_user = [], sv_group = [], sv_service_args = [], sv_service_env = [], sv_api_port = 0, sv_child_pid = 0,
     sv_child_starttime_ticks = 0, sv_validated_pid = False, sv_state = SERVICE_STOPPED, sv_fail_count = 0,
     sv_max_failures = 0, sv_start_timeout_sec = 0, sv_stop_timeout_sec = 0, sv_grace_period_sec = 0,
     sv_reactor = False, sv_monitor_timer = None, sv_retry_timer = None, sv_health_timer = None,
     sv_validate_ctx = None,
     sv_backoff = \<lparr>bo_base_delay_ms = 0, bo_max_delay_ms = 0, bo_current_delay_ms = 0, bo_multiplier = 0\<rparr>,
     sv_breaker = \<lparr>cb_consecutive_failures = 0, cb_threshold = 0, cb_cooldown_seconds = 0,
       cb_last_failure_time = 0, cb_circuit_open = False\<rparr>,
     sv_last_health_check = 0, sv_health_check_interval_ms = 0, sv_running_healthy = False,
     sv_stop_attempts = 0, sv_start_time = 0, sv_start_time_ms = 0\<rparr>"

definition service_base_dir :: "atp_config_t \<Rightarrow> string" where
  "service_base_dir cfg = (if data_dir (cfg_core cfg) \<noteq> [] then data_dir (cfg_core cfg) else ''.'')"

definition service_pid_text :: "atp_config_t \<Rightarrow> string" where
  "service_pid_text cfg =
     (let run = (if run_dir (cfg_core cfg) \<noteq> [] then run_dir (cfg_core cfg) else ATP_RUN_DIR) in
      if hd run = CHR ''/'' then run @ ''/sing-box.pid''
      else service_base_dir cfg @ ''/'' @ run @ ''/sing-box.pid'')"

text \<open>The assignments after the paths have been built.\<close>

definition init_values :: "atp_config_t \<Rightarrow> service_ctx_t \<Rightarrow> service_ctx_t" where
  "init_values cfg c =
     c\<lparr>sv_user := c_trunc 64 (core_user (cfg_core cfg)), sv_group := c_trunc 64 (core_group (cfg_core cfg)),
       sv_api_port := api_port (cfg_api cfg), sv_child_pid := -1, sv_child_starttime_ticks := 0,
       sv_validated_pid := False, sv_state := SERVICE_STOPPED, sv_fail_count := 0,
       sv_max_failures := or_default (max_failures (cfg_service cfg)) 5,
       sv_start_timeout_sec := or_default (start_timeout_sec (cfg_service cfg)) 30,
       sv_stop_timeout_sec := or_default (stop_timeout_sec (cfg_service cfg)) 10,
       sv_grace_period_sec := or_default (grace_period_sec (cfg_service cfg)) 3,
       sv_health_check_interval_ms := or_default (health_check_interval_ms (cfg_service cfg)) 5000,
       sv_stop_attempts := 0, sv_start_time := 0, sv_start_time_ms := 0, sv_running_healthy := False,
       sv_last_health_check := 0, sv_retry_timer := None, sv_health_timer := None\<rparr>"

definition init_breaker :: "atp_config_t \<Rightarrow> service_ctx_t \<Rightarrow> service_ctx_t" where
  "init_breaker cfg c =
     c\<lparr>sv_service_args := (if sc_args (cfg_service cfg) \<noteq> [] then c_trunc 512 (sc_args (cfg_service cfg)) else sv_service_args c),
       sv_service_env := (if sc_env (cfg_service cfg) \<noteq> [] then c_trunc 512 (sc_env (cfg_service cfg)) else sv_service_env c),
       sv_backoff := backoff_init,
       sv_breaker := circuit_breaker_reset ((sv_breaker c)
         \<lparr>cb_threshold := or_default (circuit_threshold (cfg_service cfg)) 5,
          cb_cooldown_seconds := or_default (circuit_cooldown_sec (cfg_service cfg)) 60\<rparr>)\<rparr>"

definition service_init :: "bool \<Rightarrow> atp_config_t \<Rightarrow> int \<times> service_ctx_t" where
  "service_init calloc_ok cfg =
     (let base = service_base_dir cfg; c0 = ctx_zero\<lparr>sv_work_dir := c_trunc PATH_MAX base\<rparr> in
      case format_path PATH_MAX (base @ ''/bin/'' @ PROXY_BIN_NAME) of
        None \<Rightarrow> (-1, c0)
      | Some bin \<Rightarrow>
          (let c1 = c0\<lparr>sv_bin_path := bin\<rparr> in
           case format_path PATH_MAX (base @ ''/config.json'') of
             None \<Rightarrow> (-1, c1\<lparr>sv_conf_path := c_trunc PATH_MAX (base @ ''/config.json'')\<rparr>)
           | Some conf \<Rightarrow>
               (let c2 = c1\<lparr>sv_conf_path := conf\<rparr> in
                case format_path PATH_MAX (base @ ''/sing-box.log'') of
                  None \<Rightarrow> (-1, c2\<lparr>sv_log_path := c_trunc PATH_MAX (base @ ''/sing-box.log'')\<rparr>)
                | Some log \<Rightarrow>
                    (let c3 = c2\<lparr>sv_log_path := log\<rparr> in
                     case format_path PATH_MAX (service_pid_text cfg) of
                       None \<Rightarrow> (-1, c3\<lparr>sv_pid_path := c_trunc PATH_MAX (service_pid_text cfg)\<rparr>)
                     | Some pidp \<Rightarrow>
                         (case service_set_native_probe_config calloc_ok cfg (init_values cfg (c3\<lparr>sv_pid_path := pidp\<rparr>)) of
                            (rc, c4) \<Rightarrow> (if rc \<noteq> 0 then (-1, c4) else (0, init_breaker cfg c4)))))))"

definition service_get_pid :: "svc_world \<Rightarrow> int \<times> svc_world" where
  "service_get_pid u =
     (if 0 < sv_child_pid (sw_ctx u) then (sv_child_pid (sw_ctx u), u)
      else
        (let k = os_now u; u1 = tick u in
         case os_pid_file k of
           None \<Rightarrow> (-1, u1)
         | Some text \<Rightarrow>
             (case c_strtol text of (p, _, e) \<Rightarrow>
                if e = text \<or> p \<le> 0 then (-1, u1)
                else case get_process_starttime (os_stat (os_now u1)) p of
                  None \<Rightarrow> (-1, tick u1)
                | Some st \<Rightarrow>
                    (let u2 = tick (upd_ctx (\<lambda>c. c\<lparr>sv_child_starttime_ticks := st\<rparr>) u1) in
                     if validate_process (os_now u2) (sw_ctx u2) p
                     then (p, tick (upd_ctx (\<lambda>c. c\<lparr>sv_child_pid := p, sv_validated_pid := True\<rparr>) u2))
                     else (-1, tick (upd_ctx (\<lambda>c. c\<lparr>sv_child_starttime_ticks := 0\<rparr>) u2))))))"

definition service_is_running :: "svc_world \<Rightarrow> bool \<times> svc_world" where
  "service_is_running u =
     (if sv_state (sw_ctx u) \<noteq> SERVICE_RUNNING then (False, u) else service_is_alive u)"

definition service_is_healthy :: "svc_world \<Rightarrow> bool \<times> svc_world" where
  "service_is_healthy u =
     (case service_is_running u of (b, u1) \<Rightarrow> (b \<and> sv_running_healthy (sw_ctx u1), u1))"

record service_snapshot_t =
  sn_child_pid :: pid
  sn_state :: service_state_t
  sn_healthy :: bool
  sn_start_time :: int

definition service_get_snapshot :: "service_ctx_t option \<Rightarrow> service_snapshot_t" where
  "service_get_snapshot ctx = (case ctx of
       None \<Rightarrow> \<lparr>sn_child_pid = -1, sn_state = SERVICE_STOPPED, sn_healthy = False, sn_start_time = 0\<rparr>
     | Some c \<Rightarrow> \<lparr>sn_child_pid = sv_child_pid c, sn_state = sv_state c, sn_healthy = sv_running_healthy c,
                  sn_start_time = sv_start_time c\<rparr>)"

definition service_state_string :: "service_state_t \<Rightarrow> string" where
  "service_state_string s = (case s of
       SERVICE_STOPPED \<Rightarrow> ''STOPPED'' | SERVICE_STARTING \<Rightarrow> ''STARTING'' | SERVICE_RUNNING \<Rightarrow> ''RUNNING''
     | SERVICE_FAILED \<Rightarrow> ''FAILED'' | SERVICE_STOPPING \<Rightarrow> ''STOPPING'')"

subsection \<open>Waiting for readiness\<close>

text \<open>At most \<open>n\<close> rounds of the polling loop; \<open>None\<close>: not finished after \<open>n\<close> rounds.\<close>

fun wait_ready_loop :: "nat \<Rightarrow> u64 \<Rightarrow> svc \<Rightarrow> (int \<times> svc) option" where
  "wait_ready_loop 0 deadline w = None"
| "wait_ready_loop (Suc n) deadline w =
     (if os_mono (os_now (snd w)) < deadline then do {
        (r1, u1) \<leftarrow> service_monitor_cb (fst w, tick (snd w));
        (case service_is_running u1 of (running, u2) \<Rightarrow>
           if running then Some (0, r1, u2)
           else if sv_state (sw_ctx u2) = SERVICE_FAILED \<or> sv_child_pid (sw_ctx u2) \<le> 0 then Some (-1, r1, u2)
           else wait_ready_loop n deadline (r1, u2))
      }
      else do {
        (r1, u1) \<leftarrow> service_monitor_cb (fst w, tick (snd w));
        (case service_is_running u1 of (running, u2) \<Rightarrow> Some (if running then 0 else -1, r1, u2))
      })"

definition service_wait_ready :: "nat \<Rightarrow> svc \<Rightarrow> (int \<times> svc) option" where
  "service_wait_ready n w =
     wait_ready_loop n (os_mono (os_now (snd w)) + start_timeout_ms (sw_ctx (snd w))) (fst w, tick (snd w))"

subsection \<open>Checking the proxy's configuration\<close>

text \<open>One round of the loop of \<open>service_validate_config\<close>: the output forwarded, the answer of
  \<open>waitpid\<close>, the clock at the end of the round, and the status after a kill.\<close>

record check_round =
  cr_output :: string
  cr_wait :: wait_answer
  cr_now :: u64
  cr_kill_status :: exit_status

fun check_loop :: "u64 \<Rightarrow> pid \<Rightarrow> check_round list \<Rightarrow> string \<Rightarrow> (bool \<times> exit_status \<times> string) option" where
  "check_loop deadline p [] out = None"
| "check_loop deadline p (x # xs) out =
     (let out1 = out @ cr_output x;
          continue = (if deadline \<le> cr_now x then Some (True, cr_kill_status x, out1)
                      else check_loop deadline p xs out1)
      in case cr_wait x of
           W_pid q st \<Rightarrow> (if q = p then Some (False, st, out1) else continue)
         | W_err e \<Rightarrow> (if e \<noteq> EINTR then Some (False, Exited 0, out1) else continue)
         | W_nothing \<Rightarrow> continue)"

record check_env =
  ck_exec_ok :: bool
  ck_alloc_ok :: bool
  ck_pipe_ok :: bool
  ck_nonblock_ok :: bool
  ck_fork :: pid
  ck_start :: u64
  ck_rounds :: "check_round list"
  ck_rest :: string

definition service_validate_config :: "check_env \<Rightarrow> service_ctx_t \<Rightarrow> (int \<times> string list \<times> string) option" where
  "service_validate_config env c =
     (if \<not> ck_exec_ok env then Some (-1, [], [])
      else case build_service_args (ck_alloc_ok env) c of
        None \<Rightarrow> Some (-1, [], [])
      | Some args \<Rightarrow>
          (let argv = args[1 := ''check''] in
           if \<not> ck_pipe_ok env \<or> \<not> ck_nonblock_ok env \<or> ck_fork env \<le> 0 then Some (-1, [], [])
           else
             map_option (\<lambda>(timed_out, status, out).
                 (if timed_out then -1 else if status = Exited 0 then 0 else -1, argv, out @ ck_rest env))
               (check_loop (ck_start env + 5000) (ck_fork env) (ck_rounds env) [])))"

end
