(* ===== verification/Service_Inv.thy ===== *)
theory Service_Inv
  imports Service
begin

text \<open>
  The supervisor and the reactor's timers together: the invariant that ties the timer slots of
  the context, the netlink debounce slot and the pending stop records to what the reactor has
  armed, and its preservation by every timer callback.  The callbacks are an instance of the
  \<open>timer_callbacks\<close> interface of the event loop, so that a whole timer pass over them is
  memory safe.
\<close>

subsection \<open>Steps that leave the control part alone\<close>

definition same_ctl :: "service_ctx_t \<Rightarrow> service_ctx_t \<Rightarrow> bool" where
  "same_ctl c c' \<longleftrightarrow> sv_monitor_timer c' = sv_monitor_timer c \<and> sv_retry_timer c' = sv_retry_timer c
     \<and> sv_health_timer c' = sv_health_timer c \<and> sv_state c' = sv_state c \<and> sv_reactor c' = sv_reactor c
     \<and> sv_backoff c' = sv_backoff c \<and> sv_health_check_interval_ms c' = sv_health_check_interval_ms c"

definition keeps :: "svc_world \<Rightarrow> svc_world \<Rightarrow> bool" where
  "keeps u u' \<longleftrightarrow> same_ctl (sw_ctx u) (sw_ctx u') \<and> sw_stops u' = sw_stops u \<and> sw_next u' = sw_next u
     \<and> sw_nl u' = sw_nl u \<and> range (sw_os u') \<subseteq> range (sw_os u)"

lemma same_ctl_refl [simp]: "same_ctl c c"
  by (simp add: same_ctl_def)

lemma same_ctl_trans: "same_ctl a b \<Longrightarrow> same_ctl b c \<Longrightarrow> same_ctl a c"
  by (simp add: same_ctl_def)

lemma keeps_refl [simp]: "keeps u u"
  by (simp add: keeps_def)

lemma keeps_trans: "keeps u v \<Longrightarrow> keeps v w \<Longrightarrow> keeps u w"
  unfolding keeps_def using same_ctl_trans by (metis subset_trans)

lemma keeps_tick [simp]: "keeps u (tick u)"
  by (auto simp: keeps_def tick_def)

lemma keeps_emit [simp]: "keeps u (emit es u)"
  by (simp add: keeps_def emit_def)

lemma keeps_upd_ctx: "same_ctl (sw_ctx u) (f (sw_ctx u)) \<Longrightarrow> keeps u (upd_ctx f u)"
  by (simp add: keeps_def)

lemma keeps_tickI: "keeps u v \<Longrightarrow> keeps u (tick v)"
  using keeps_tick keeps_trans by blast

lemma keeps_emitI: "keeps u v \<Longrightarrow> keeps u (emit es v)"
  using keeps_emit keeps_trans by blast

lemma keeps_updI: "keeps u v \<Longrightarrow> same_ctl (sw_ctx v) (f (sw_ctx v)) \<Longrightarrow> keeps u (upd_ctx f v)"
  using keeps_upd_ctx keeps_trans by blast

lemma keeps_forgetI: "keeps u v \<Longrightarrow> keeps u (forget_child v)"
  unfolding forget_child_def by (erule keeps_updI) (simp add: same_ctl_def)

lemma keeps_unlinkI: "keeps u v \<Longrightarrow> keeps u (service_unlink_pid v)"
  unfolding service_unlink_pid_def by (rule keeps_emitI)

lemma keeps_reapI: "keeps u v \<Longrightarrow> keeps u (kill_and_reap p v)"
  unfolding kill_and_reap_def by (rule keeps_emitI)

lemmas keeps_intros = keeps_refl keeps_tickI keeps_emitI keeps_forgetI keeps_unlinkI keeps_reapI

lemma keeps_is_alive: "service_is_alive u = (b, u') \<Longrightarrow> keeps u u'"
  by (auto simp: service_is_alive_def)

lemma keeps_child_alive: "service_starting_child_alive u = (b, u') \<Longrightarrow> keeps u u'"
  by (auto simp: service_starting_child_alive_def service_is_alive_def Let_def intro!: keeps_intros
      split: if_splits wait_answer.splits)

lemma keeps_probe: "service_probe_native_api u = (b, u') \<Longrightarrow> keeps u u'"
  by (auto simp: service_probe_native_api_def Let_def
      dest!: keeps_child_alive intro: keeps_tickI keeps_trans
      split: if_splits option.splits prod.splits)

lemma keeps_rotate: "keeps u (service_rotate_log u)"
  by (auto simp: service_rotate_log_def Let_def intro!: keeps_intros split: option.splits)

lemma keeps_mkdir: "do_mkdir path u = (b, u') \<Longrightarrow> keeps u u'"
  by (auto simp: do_mkdir_def intro!: keeps_intros)

lemma keeps_spawn_parent: "spawn_parent p u = (rc, u') \<Longrightarrow> keeps u u'"
  by (auto simp: spawn_parent_def Let_def same_ctl_def intro!: keeps_intros keeps_updI
      split: option.splits if_splits)

lemma keeps_spawn: "service_spawn u = (rc, u') \<Longrightarrow> keeps u u'"
proof -
  assume a: "service_spawn u = (rc, u')"
  define u1 where "u1 = service_rotate_log (tick u)"
  have k1: "keeps u u1" unfolding u1_def by (meson keeps_rotate keeps_tick keeps_trans)
  obtain b2 u2 where w2: "(if sv_work_dir (sw_ctx u1) \<noteq> [] then do_mkdir (sv_work_dir (sw_ctx u1)) u1 else (False, u1)) = (b2, u2)"
    by fastforce
  then have k2: "keeps u u2" using k1 by (metis keeps_mkdir keeps_trans prod.inject)
  obtain b3 u3 where w3: "(case c_strrchr (CHR ''/'') (sv_pid_path (sw_ctx u1)) of None \<Rightarrow> (False, u2)
      | Some (dir, _) \<Rightarrow> do_mkdir dir u2) = (b3, u3)" by fastforce
  then have k3: "keeps u u3" using k2 by (auto split: option.splits dest!: keeps_mkdir intro: keeps_trans)
  from a show ?thesis
    unfolding service_spawn_def Let_def u1_def [symmetric] w2 prod.case w3
    using k2 k3 by (auto split: if_splits dest!: keeps_spawn_parent intro: keeps_tickI keeps_trans)
qed

lemma keeps_breaker: "breaker_allows u = (b, u') \<Longrightarrow> keeps u u'"
  by (auto simp: breaker_allows_def same_ctl_def intro!: keeps_intros keeps_updI split: prod.splits)

lemma keeps_count: "keeps u v \<Longrightarrow> keeps u (count_failure v)"
  unfolding count_failure_def by (intro keeps_tickI keeps_updI) (simp_all add: same_ctl_def)

lemma keeps_wait_loop: "stop_wait_loop n p u = (a, b, u') \<Longrightarrow> keeps u u'"
proof (induction n arbitrary: u)
  case (Suc n)
  then show ?case
    by (auto simp: Let_def intro!: keeps_intros split: wait_answer.splits if_splits)
      (meson Suc.IH keeps_tick keeps_trans)+
qed simp

lemma keeps_stop_child: "stop_child u = (rc, u') \<Longrightarrow> keeps u u'"
  by (auto simp: stop_child_def Let_def dest!: keeps_wait_loop split: if_splits prod.splits
      intro!: keeps_tickI keeps_reapI) (meson keeps_emit keeps_tickI keeps_trans)+

subsection \<open>The invariant\<close>

definition monitor_as :: armed_as where
  "monitor_as = (Some Fn_service_monitor_cb, Some SVC, 1000)"

definition retry_as :: armed_as where
  "retry_as = (Some Fn_service_delayed_spawn_cb, Some SVC, 0)"

definition health_as :: "u64 \<Rightarrow> armed_as" where
  "health_as iv = (Some Fn_service_health_check_cb, Some SVC, iv)"

definition stop_as :: "data_ptr \<Rightarrow> armed_as" where
  "stop_as p = (Some Fn_service_stop_wait_cb, Some p, 0)"

definition recheck_as :: armed_as where
  "recheck_as = (Some Fn_service_monitor_cb, Some SVC, 0)"

lemmas as_defs = monitor_as_def retry_as_def health_as_def stop_as_def recheck_as_def debounce_as_def

text \<open>Which timers there are.\<close>

definition known_timer :: "armed_as \<Rightarrow> bool" where
  "known_timer x \<longleftrightarrow> x \<in> {monitor_as, recheck_as, retry_as, debounce_as} \<or> x \<in> range stop_as
     \<or> (\<exists>iv. iv \<noteq> 0 \<and> x = health_as iv)"

definition stop_timers_ok :: "(nat \<Rightarrow> armed_as option) \<Rightarrow> svc_world \<Rightarrow> bool" where
  "stop_timers_ok a u \<longleftrightarrow>
     (\<forall>h p. a h = Some (stop_as p) \<longrightarrow> p < sw_next u \<and> sw_stops u p \<noteq> None
        \<and> sv_state (sw_ctx u) \<in> {SERVICE_STOPPING, SERVICE_STOPPED} \<and> sv_retry_timer (sw_ctx u) = None
        \<and> (\<forall>h'. a h' = Some (stop_as p) \<longrightarrow> h' = h))"

definition slots_ok :: "(nat \<Rightarrow> armed_as option) \<Rightarrow> svc_world \<Rightarrow> bool" where
  "slots_ok a u \<longleftrightarrow>
     slot_ok a monitor_as (sv_monitor_timer (sw_ctx u))
     \<and> (\<forall>h. a h = Some retry_as \<longleftrightarrow> sv_retry_timer (sw_ctx u) = Some h)
     \<and> (case sv_health_timer (sw_ctx u) of None \<Rightarrow> True | Some h \<Rightarrow> \<exists>iv. iv \<noteq> 0 \<and> a h = Some (health_as iv))
     \<and> slot_ok a debounce_as (nl_debounce_timer (sw_nl u))"

definition backoff_ok :: "backoff_t \<Rightarrow> bool" where
  "backoff_ok b \<longleftrightarrow> bo_base_delay_ms b = 1000 \<and> bo_max_delay_ms b = 60000 \<and> bo_multiplier b = 2
     \<and> 1000 \<le> bo_current_delay_ms b \<and> bo_current_delay_ms b \<le> 60000"

text \<open>What the operating system guarantees: the clock does not go back behind the time of the
  pass and is nowhere near its end, and a netlink query ends (it has a receive timeout).\<close>

definition os_ok :: "u64 \<Rightarrow> (nat \<Rightarrow> os_view) \<Rightarrow> bool" where
  "os_ok now s \<longleftrightarrow> (\<forall>k\<in>range s. now \<le> os_mono k \<and> uint (os_mono k) < 2 ^ 63
     \<and> (\<exists>as e bs. ne_recv (os_nl k) = as @ Inl e # bs))"

definition svc_inv :: "u64 \<Rightarrow> (nat \<Rightarrow> armed_as option) \<Rightarrow> svc_world \<Rightarrow> bool" where
  "svc_inv now a u \<longleftrightarrow> os_ok now (sw_os u) \<and> slots_ok a u \<and> stop_timers_ok a u
     \<and> (\<forall>h x. a h = Some x \<longrightarrow> known_timer x)
     \<and> (sv_state (sw_ctx u) = SERVICE_STOPPED \<longrightarrow> sv_retry_timer (sw_ctx u) = None)
     \<and> (sv_retry_timer (sw_ctx u) \<noteq> None \<longrightarrow> sv_reactor (sw_ctx u))
     \<and> backoff_ok (sv_backoff (sw_ctx u))
     \<and> 0 < sv_health_check_interval_ms (sw_ctx u) \<and> sv_health_check_interval_ms (sw_ctx u) \<le> INT_MAX"

lemma svc_inv_keeps:
  assumes "svc_inv now a u" "keeps u u'"
  shows "svc_inv now a u'"
proof -
  have "slots_ok a u' = slots_ok a u" "stop_timers_ok a u' = stop_timers_ok a u"
    using assms(2) by (simp_all add: keeps_def same_ctl_def slots_ok_def stop_timers_ok_def)
  moreover have "os_ok now (sw_os u) \<Longrightarrow> os_ok now (sw_os u')"
    using assms(2) unfolding keeps_def os_ok_def by blast
  ultimately show ?thesis
    using assms by (simp add: svc_inv_def keeps_def same_ctl_def)
qed

text \<open>Everything a step needs to know and has to keep.\<close>

definition svc_ok :: "u64 \<Rightarrow> svc \<Rightarrow> bool" where
  "svc_ok now w \<longleftrightarrow> loop_inv now (fst w) \<and> svc_inv now (armed (fst w)) (snd w)"

text \<open>A step is good when it returns, uses the reactor through its operations, and keeps the
  invariant; the retry slot afterwards is empty, fresh or untouched.\<close>

definition good :: "u64 \<Rightarrow> svc \<Rightarrow> svc option \<Rightarrow> bool" where
  "good now w res \<longleftrightarrow> (\<exists>w'. res = Some w' \<and> (client_step now)\<^sup>*\<^sup>* (fst w) (fst w') \<and> svc_ok now w'
     \<and> (\<forall>h. sv_retry_timer (sw_ctx (snd w')) = Some h \<longrightarrow>
           sv_retry_timer (sw_ctx (snd w)) = Some h \<or> rx_next_id (fst w) \<le> h))"

lemma good_Some: "svc_ok now (r, u') \<Longrightarrow> (\<forall>h. sv_retry_timer (sw_ctx u') = Some h \<longrightarrow> sv_retry_timer (sw_ctx u) = Some h)
    \<Longrightarrow> good now (r, u) (Some (r, u'))"
  by (auto simp: good_def)

lemma svc_ok_keeps: "svc_ok now (r, u) \<Longrightarrow> keeps u u' \<Longrightarrow> svc_ok now (r, u')"
  by (auto simp: svc_ok_def intro: svc_inv_keeps)

lemma good_keeps: "svc_ok now (r, u) \<Longrightarrow> keeps u u' \<Longrightarrow> good now (r, u) (Some (r, u'))"
  by (rule good_Some) (auto intro: svc_ok_keeps simp: keeps_def same_ctl_def)

lemma good_after:
  assumes "(client_step now)\<^sup>*\<^sup>* r r1" "loop_inv now r" "good now (r1, u1) res"
    and "\<forall>h. sv_retry_timer (sw_ctx u1) = Some h \<longrightarrow> sv_retry_timer (sw_ctx u) = Some h \<or> rx_next_id r \<le> h"
  shows "good now (r, u) res"
proof -
  have "rx_next_id r \<le> rx_next_id r1" using client_steps_inv [OF assms(1,2)] by simp
  with assms(1,3,4) show ?thesis unfolding good_def by (auto intro: rtranclp_trans order_trans)
qed

lemma good_keeps_after:
  "loop_inv now r \<Longrightarrow> keeps u u1 \<Longrightarrow> good now (r, u1) res \<Longrightarrow> good now (r, u) res"
  by (rule good_after [of now r r u1]) (auto simp: keeps_def same_ctl_def)

subsection \<open>Cancelling and arming\<close>

lemma os_okD:
  assumes "os_ok now (sw_os u)" "0 < d" "d \<le> INT_MAX"
  shows "now < os_mono (os_now u) + word_of_int d" "small_interval now (word_of_int d)"
proof -
  have k: "now \<le> os_mono (os_now u)" "uint (os_mono (os_now u)) < 2 ^ 63"
    using assms(1) by (auto simp: os_ok_def os_now_def)
  have d: "uint (word_of_int d :: u64) = d" using assms(2,3) by (simp add: uint_u64_of_int INT_MAX_def)
  have "uint (os_mono (os_now u) + word_of_int d) = uint (os_mono (os_now u)) + d"
    using k(2) d assms(2,3) by (subst uint_add_lem [THEN iffD1]) (simp_all add: INT_MAX_def)
  then show "now < os_mono (os_now u) + word_of_int d"
    using k(1) assms(2) by (simp add: word_less_def word_le_def)
  show "small_interval now (word_of_int d)"
    using k d assms(2,3) by (simp add: small_interval_def INT_MAX_def word_le_def)
qed

lemma small_interval_0 [simp]: "small_interval now 0"
  using uint_lt2p [of now] by (simp add: small_interval_def)

lemma svc_cancel_step:
  assumes "loop_inv now r" "\<And>h. slot = Some h \<Longrightarrow> armed r h \<noteq> None"
  shows "\<exists>r'. svc_cancel slot (r, u) = Some (r', u) \<and> (client_step now)\<^sup>*\<^sup>* r r' \<and> loop_inv now r'
     \<and> (if sv_reactor (sw_ctx u) then \<forall>h. armed r' h = (if slot = Some h then None else armed r h) else r' = r)"
proof (cases "sv_reactor (sw_ctx u) \<and> slot \<noteq> None")
  case True
  then obtain h where h: "slot = Some h" by auto
  have wf: "rx_timers_wf r" using assms(1) by (simp add: loop_inv_def)
  obtain r' where r': "reactor_cancel_timer (Some h) r = Some (0, r')" "armed r' = (armed r)(h := None)"
    using cancel_timer_armed [OF wf assms(2) [OF h]] by blast
  have step: "(client_step now)\<^sup>*\<^sup>* r r'" using cs_cancel [OF r'(1)] by (rule r_into_rtranclp)
  moreover have "loop_inv now r'" using client_steps_inv [OF step assms(1)] by simp
  ultimately show ?thesis using True h r' by (auto simp: svc_cancel_def)
next
  case False
  with assms(1) show ?thesis by (auto simp: svc_cancel_def)
qed

lemma svc_add_step:
  assumes "loop_inv now r" "os_ok now (sw_os u)" "0 < d" "d \<le> INT_MAX"
    and "iv = 0 \<or> iv = word_of_int j \<and> 0 < j \<and> j \<le> INT_MAX"
  shows "\<exists>h r' u'. svc_add_timer (word_of_int d) iv f ud (r, u) = (h, r', u') \<and> keeps u u'
     \<and> (client_step now)\<^sup>*\<^sup>* r r' \<and> loop_inv now r'
     \<and> (case h of None \<Rightarrow> r' = r
        | Some i \<Rightarrow> i = rx_next_id r \<and> armed r i = None \<and> armed r' = (armed r)(i \<mapsto> (Some f, Some ud, iv))
            \<and> sv_reactor (sw_ctx u))"
proof (cases "sv_reactor (sw_ctx u)")
  case True
  obtain h r' where add: "reactor_add_timer (os_alloc (os_now u)) (os_mono (os_now u)) (word_of_int d) iv (Some f) (Some ud) r = (h, r')"
    by fastforce
  have "small_interval now iv"
    using assms(5) os_okD(2) [OF assms(2), of j] by auto
  then have step: "(client_step now)\<^sup>*\<^sup>* r r'"
    using cs_add [OF add os_okD(1) [OF assms(2-4)]] by blast
  moreover have "loop_inv now r'" using client_steps_inv [OF step assms(1)] by simp
  moreover have wf: "rx_timers_wf r" using assms(1) by (simp add: loop_inv_def)
  have "case h of None \<Rightarrow> r' = r
        | Some i \<Rightarrow> i = rx_next_id r \<and> armed r i = None \<and> armed r' = (armed r)(i \<mapsto> (Some f, Some ud, iv))"
  proof (cases h)
    case None
    with add show ?thesis by (simp add: add_timer_fail)
  next
    case (Some i)
    with add have "i = rx_next_id r" by (auto simp: reactor_add_timer_def Let_def split: if_splits)
    with add_timer_armed [OF wf] add Some show ?thesis by auto
  qed
  ultimately show ?thesis using True add by (auto simp: svc_add_timer_def split: option.splits)
next
  case False
  with assms(1) show ?thesis by (auto simp: svc_add_timer_def)
qed

subsection \<open>Retries\<close>

definition no_stops :: "(nat \<Rightarrow> armed_as option) \<Rightarrow> bool" where
  "no_stops a \<longleftrightarrow> (\<forall>h p. a h \<noteq> Some (stop_as p))"

lemma no_stops_state:
  "svc_inv now a u \<Longrightarrow> sv_state (sw_ctx u) \<in> {SERVICE_STARTING, SERVICE_RUNNING, SERVICE_FAILED} \<Longrightarrow> no_stops a"
  by (fastforce simp: svc_inv_def stop_timers_ok_def no_stops_def)

lemma no_stops_retry:
  "svc_inv now a u \<Longrightarrow> sv_retry_timer (sw_ctx u) \<noteq> None \<Longrightarrow> no_stops a"
  by (fastforce simp: svc_inv_def stop_timers_ok_def no_stops_def)

lemma as_distinct [simp]:
  "monitor_as \<noteq> retry_as" "retry_as \<noteq> monitor_as" "health_as iv \<noteq> retry_as" "retry_as \<noteq> health_as iv"
  "debounce_as \<noteq> retry_as" "retry_as \<noteq> debounce_as" "stop_as p \<noteq> retry_as" "retry_as \<noteq> stop_as p"
  "monitor_as \<noteq> health_as iv" "health_as iv \<noteq> monitor_as" "monitor_as \<noteq> debounce_as" "debounce_as \<noteq> monitor_as"
  "monitor_as \<noteq> stop_as p" "stop_as p \<noteq> monitor_as" "health_as iv \<noteq> debounce_as" "debounce_as \<noteq> health_as iv"
  "health_as iv \<noteq> stop_as p" "stop_as p \<noteq> health_as iv" "debounce_as \<noteq> stop_as p" "stop_as p \<noteq> debounce_as"
  "recheck_as \<noteq> stop_as p" "stop_as p \<noteq> recheck_as" "recheck_as \<noteq> retry_as" "retry_as \<noteq> recheck_as"
  "recheck_as \<noteq> health_as iv" "health_as iv \<noteq> recheck_as" "recheck_as \<noteq> debounce_as" "debounce_as \<noteq> recheck_as"
  "recheck_as \<noteq> monitor_as" "monitor_as \<noteq> recheck_as"
  by (simp_all add: as_defs)

lemma not_health_as [simp]:
  "debounce_as \<notin> range health_as" "retry_as \<notin> range health_as" "monitor_as \<notin> range health_as"
  "stop_as p \<notin> range health_as" "recheck_as \<notin> range health_as"
  by (auto simp: as_defs)

lemma stop_as_inject [simp]: "stop_as p = stop_as q \<longleftrightarrow> p = q"
  by (simp add: stop_as_def)

text \<open>The armed timers after a slot has been emptied.\<close>

definition unslot :: "nat option \<Rightarrow> (nat \<Rightarrow> armed_as option) \<Rightarrow> nat \<Rightarrow> armed_as option" where
  "unslot slot a h = (if slot = Some h then None else a h)"

lemma retry_slot_armed: "svc_inv now a u \<Longrightarrow> sv_retry_timer (sw_ctx u) = Some h \<Longrightarrow> a h = Some retry_as"
  by (simp add: svc_inv_def slots_ok_def)

lemma monitor_slot_armed: "svc_inv now a u \<Longrightarrow> sv_monitor_timer (sw_ctx u) = Some h \<Longrightarrow> a h = Some monitor_as"
  by (simp add: svc_inv_def slots_ok_def slot_ok_def)

lemma health_slot_armed: "svc_inv now a u \<Longrightarrow> sv_health_timer (sw_ctx u) = Some h \<Longrightarrow> \<exists>iv. iv \<noteq> 0 \<and> a h = Some (health_as iv)"
  by (simp add: svc_inv_def slots_ok_def)

lemma debounce_slot_armed: "svc_inv now a u \<Longrightarrow> nl_debounce_timer (sw_nl u) = Some h \<Longrightarrow> a h = Some debounce_as"
  by (simp add: svc_inv_def slots_ok_def slot_ok_def)

lemma slots_okI:
  assumes "\<And>h. sv_monitor_timer (sw_ctx u) = Some h \<Longrightarrow> a h = Some monitor_as"
    and "\<And>h. sv_retry_timer (sw_ctx u) = Some h \<Longrightarrow> a h = Some retry_as"
    and "\<And>h. a h = Some retry_as \<Longrightarrow> sv_retry_timer (sw_ctx u) = Some h"
    and "\<And>h. sv_health_timer (sw_ctx u) = Some h \<Longrightarrow> \<exists>iv. iv \<noteq> 0 \<and> a h = Some (health_as iv)"
    and "\<And>h. nl_debounce_timer (sw_nl u) = Some h \<Longrightarrow> a h = Some debounce_as"
  shows "slots_ok a u"
  unfolding slots_ok_def slot_ok_def
proof (intro conjI allI iffI)
  show "case sv_monitor_timer (sw_ctx u) of None \<Rightarrow> True | Some h \<Rightarrow> a h = Some monitor_as"
    using assms(1) by (simp split: option.split)
  show "case sv_health_timer (sw_ctx u) of None \<Rightarrow> True | Some h \<Rightarrow> \<exists>iv. iv \<noteq> 0 \<and> a h = Some (health_as iv)"
    using assms(4) by (simp split: option.split)
  show "case nl_debounce_timer (sw_nl u) of None \<Rightarrow> True | Some h \<Rightarrow> a h = Some debounce_as"
    using assms(5) by (simp split: option.split)
qed (erule assms(3), erule assms(2))

lemma retry_armed_slot: "svc_inv now a u \<Longrightarrow> a h = Some retry_as \<Longrightarrow> sv_retry_timer (sw_ctx u) = Some h"
  by (simp add: svc_inv_def slots_ok_def)

lemmas slots_armed = retry_slot_armed monitor_slot_armed health_slot_armed debounce_slot_armed

text \<open>Changing the retry slot only.\<close>

lemma slots_ok_retry:
  assumes inv: "svc_inv now a u"
    and other: "\<And>h x. a h = Some x \<Longrightarrow> x \<noteq> retry_as \<Longrightarrow> a' h = Some x"
    and retry: "\<And>h. sv_retry_timer (sw_ctx u') = Some h \<Longrightarrow> a' h = Some retry_as"
      "\<And>h. a' h = Some retry_as \<Longrightarrow> sv_retry_timer (sw_ctx u') = Some h"
    and same: "sv_monitor_timer (sw_ctx u') = sv_monitor_timer (sw_ctx u)"
      "sv_health_timer (sw_ctx u') = sv_health_timer (sw_ctx u)" "sw_nl u' = sw_nl u"
  shows "slots_ok a' u'"
proof (rule slots_okI)
  show "a' h = Some monitor_as" if "sv_monitor_timer (sw_ctx u') = Some h" for h
    using other [OF monitor_slot_armed [OF inv]] that same by simp
  show "\<exists>iv. iv \<noteq> 0 \<and> a' h = Some (health_as iv)" if "sv_health_timer (sw_ctx u') = Some h" for h
    using health_slot_armed [OF inv] other [of h] that same by fastforce
  show "a' h = Some debounce_as" if "nl_debounce_timer (sw_nl u') = Some h" for h
    using other [OF debounce_slot_armed [OF inv]] that same by simp
qed (use retry in blast)+

text \<open>Emptying the retry slot.\<close>

lemma svc_inv_unretry:
  assumes "svc_inv now a u" "no_stops a"
    and "u' = upd_ctx (\<lambda>c. c\<lparr>sv_retry_timer := None, sv_state := st, sv_backoff := b\<rparr>) u" "backoff_ok b"
  shows "svc_inv now (unslot (sv_retry_timer (sw_ctx u)) a) u'"
proof -
  have ns: "no_stops (unslot (sv_retry_timer (sw_ctx u)) a)"
    using assms(2) by (simp add: no_stops_def unslot_def)
  have "slots_ok (unslot (sv_retry_timer (sw_ctx u)) a) u'"
  proof (rule slots_ok_retry [OF assms(1)])
    show "unslot (sv_retry_timer (sw_ctx u)) a h = Some x" if "a h = Some x" "x \<noteq> retry_as" for h x
      using retry_slot_armed [OF assms(1), of h] that by (auto simp: unslot_def)
    show "sv_retry_timer (sw_ctx u') = Some h" if "unslot (sv_retry_timer (sw_ctx u)) a h = Some retry_as" for h
      using retry_armed_slot [OF assms(1), of h] that by (simp add: unslot_def split: if_splits)
  qed (simp_all add: assms(3))
  moreover have "stop_timers_ok (unslot (sv_retry_timer (sw_ctx u)) a) u'"
    using ns by (simp add: stop_timers_ok_def no_stops_def)
  ultimately show ?thesis
    using assms(1,4) unfolding assms(3) svc_inv_def by (auto simp: unslot_def)
qed

text \<open>Filling it with a new timer.\<close>

lemma svc_inv_retry:
  assumes "svc_inv now a u" "no_stops a" "sv_retry_timer (sw_ctx u) = None" "sv_reactor (sw_ctx u)"
    and "a i = None" "sv_state (sw_ctx u) \<noteq> SERVICE_STOPPED"
    and "u' = upd_ctx (\<lambda>c. c\<lparr>sv_retry_timer := Some i\<rparr>) u"
  shows "svc_inv now (a(i \<mapsto> retry_as)) u'"
proof -
  have "slots_ok (a(i \<mapsto> retry_as)) u'"
  proof (rule slots_ok_retry [OF assms(1)])
    show "(a(i \<mapsto> retry_as)) h = Some x" if "a h = Some x" for h x using assms(5) that by auto
    show "sv_retry_timer (sw_ctx u') = Some h" if "(a(i \<mapsto> retry_as)) h = Some retry_as" for h
      using retry_armed_slot [OF assms(1), of h] that assms(3,7) by (simp split: if_splits)
  qed (simp_all add: assms(7))
  moreover have "stop_timers_ok (a(i \<mapsto> retry_as)) u'"
    using assms(2) by (simp add: stop_timers_ok_def no_stops_def)
  ultimately show ?thesis
    using assms unfolding svc_inv_def by (auto simp: known_timer_def)
qed

lemma backoff_next_ok:
  "backoff_ok b \<Longrightarrow> backoff_next b = (d, b') \<Longrightarrow> backoff_ok b' \<and> 0 < d \<and> d \<le> INT_MAX"
  by (auto simp: backoff_ok_def backoff_next_def Let_def INT_MAX_def)

lemma schedule_retry_good:
  assumes ok: "svc_ok now (r, u)" and st: "sv_state (sw_ctx u) \<noteq> SERVICE_STOPPED" and ns: "no_stops (armed r)"
  shows "good now (r, u) (service_schedule_retry (r, u))"
proof -
  let ?c = "sw_ctx u"
  obtain d b where b: "backoff_next (sv_backoff ?c) = (d, b)" by fastforce
  have inv: "loop_inv now r" "svc_inv now (armed r) u" using ok by (simp_all add: svc_ok_def)
  have db: "backoff_ok b" "0 < d" "d \<le> INT_MAX"
    using backoff_next_ok [OF _ b] inv(2) by (auto simp: svc_inv_def)
  let ?u1 = "upd_ctx (\<lambda>c. c\<lparr>sv_backoff := b\<rparr>) u"
  obtain r1 where r1: "svc_cancel (sv_retry_timer ?c) (r, ?u1) = Some (r1, ?u1)" "(client_step now)\<^sup>*\<^sup>* r r1"
      "loop_inv now r1" "if sv_reactor ?c then \<forall>h. armed r1 h = (if sv_retry_timer ?c = Some h then None else armed r h) else r1 = r"
    using svc_cancel_step [OF inv(1), of "sv_retry_timer ?c" ?u1] retry_slot_armed [OF inv(2)] by force
  have a1: "armed r1 = unslot (sv_retry_timer ?c) (armed r)"
    using r1(4) inv(2) by (auto simp: unslot_def fun_eq_iff svc_inv_def split: if_splits)
  let ?v = "\<lambda>st. upd_ctx (\<lambda>c. c\<lparr>sv_retry_timer := None, sv_state := st, sv_backoff := b\<rparr>) u"
  have v: "svc_inv now (armed r1) (?v st)" for st
    unfolding a1 by (rule svc_inv_unretry [OF inv(2) ns refl db(1)])
  have ns1: "no_stops (armed r1)" using ns by (simp add: a1 no_stops_def unslot_def)
  have "os_ok now (sw_os ?u1)" using inv(2) by (simp add: svc_inv_def)
  from svc_add_step [OF r1(3) this db(2,3), of 0 0 Fn_service_delayed_spawn_cb SVC, folded retry_as_def]
  obtain h r2 u2 where add: "svc_add_timer (word_of_int d) 0 Fn_service_delayed_spawn_cb SVC (r1, ?u1) = (h, r2, u2)"
    and k: "keeps ?u1 u2" and s2: "(client_step now)\<^sup>*\<^sup>* r1 r2" "loop_inv now r2"
    and h: "case h of None \<Rightarrow> r2 = r1 | Some i \<Rightarrow> i = rx_next_id r1 \<and> armed r1 i = None
        \<and> armed r2 = (armed r1)(i \<mapsto> retry_as) \<and> sv_reactor (sw_ctx ?u1)"
    by blast
  let ?u3 = "upd_ctx (\<lambda>c. c\<lparr>sv_retry_timer := h, sv_state := (if h = None then SERVICE_FAILED else sv_state c)\<rparr>) u2"
  have res: "service_schedule_retry (r, u) = Some (r2, ?u3)"
    using b r1(1) add by (simp add: service_schedule_retry_def)
  have st2: "sv_state (sw_ctx u2) = sv_state ?c" using k by (simp add: keeps_def same_ctl_def)
  have "svc_inv now (armed r2) ?u3"
  proof (cases h)
    case None
    have "keeps (?v SERVICE_FAILED) ?u3" using k None by (simp add: keeps_def same_ctl_def)
    with v h None show ?thesis by (auto intro: svc_inv_keeps)
  next
    case (Some i)
    let ?w = "upd_ctx (\<lambda>c. c\<lparr>sv_retry_timer := Some i\<rparr>) (?v (sv_state ?c))"
    have "svc_inv now ((armed r1)(i \<mapsto> retry_as)) ?w"
      using h Some st by (intro svc_inv_retry [OF v ns1]) auto
    moreover have "keeps ?w ?u3" using k Some by (simp add: keeps_def same_ctl_def)
    ultimately show ?thesis using h Some by (auto intro: svc_inv_keeps)
  qed
  moreover have "rx_next_id r \<le> rx_next_id r1" using client_steps_inv [OF r1(2) inv(1)] by simp
  ultimately show ?thesis
    unfolding good_def res svc_ok_def using r1(2) s2 h
    by (auto intro: rtranclp_trans split: option.splits)
qed

lemma svc_inv_state:
  assumes "svc_inv now a u" "no_stops a" "st \<noteq> SERVICE_STOPPED"
  shows "svc_inv now a (upd_ctx (\<lambda>c. c\<lparr>sv_state := st\<rparr>) u)"
proof -
  have "slots_ok a (upd_ctx (\<lambda>c. c\<lparr>sv_state := st\<rparr>) u) = slots_ok a u" by (simp add: slots_ok_def)
  moreover have "stop_timers_ok a (upd_ctx (\<lambda>c. c\<lparr>sv_state := st\<rparr>) u)"
    using assms(2) by (simp add: stop_timers_ok_def no_stops_def)
  ultimately show ?thesis using assms(1,3) by (simp add: svc_inv_def)
qed

lemma svc_ok_state:
  "svc_ok now (r, u) \<Longrightarrow> no_stops (armed r) \<Longrightarrow> st \<noteq> SERVICE_STOPPED \<Longrightarrow>
     svc_ok now (r, upd_ctx (\<lambda>c. c\<lparr>sv_state := st\<rparr>) u)"
  by (simp add: svc_ok_def svc_inv_state)

lemma retry_or_give_up_good:
  assumes "svc_ok now (r, u)" "sv_state (sw_ctx u) \<noteq> SERVICE_STOPPED" "no_stops (armed r)"
  shows "good now (r, u) (retry_or_give_up (r, u))"
  unfolding retry_or_give_up_def fst_conv snd_conv
  using assms by (auto intro!: schedule_retry_good good_Some svc_ok_state)

text \<open>Changing timers of a class that the retry, stop and monitor slots do not use.\<close>

lemma svc_inv_change:
  assumes inv: "svc_inv now a u"
    and keep: "\<And>h x. a h = Some x \<Longrightarrow> \<not> C x \<Longrightarrow> a' h = Some x"
    and new: "\<And>h x. a' h = Some x \<Longrightarrow> a h = Some x \<or> C x \<and> known_timer x"
    and cls: "\<not> C retry_as" "\<not> C monitor_as" "\<And>p. \<not> C (stop_as p)"
    and health: "\<And>h. sv_health_timer (sw_ctx u') = Some h \<Longrightarrow> \<exists>iv. iv \<noteq> 0 \<and> a' h = Some (health_as iv)"
    and debounce: "\<And>h. nl_debounce_timer (sw_nl u') = Some h \<Longrightarrow> a' h = Some debounce_as"
    and same: "sv_monitor_timer (sw_ctx u') = sv_monitor_timer (sw_ctx u)"
      "sv_retry_timer (sw_ctx u') = sv_retry_timer (sw_ctx u)" "sv_state (sw_ctx u') = sv_state (sw_ctx u)"
      "sv_reactor (sw_ctx u') = sv_reactor (sw_ctx u)" "sv_backoff (sw_ctx u') = sv_backoff (sw_ctx u)"
      "sv_health_check_interval_ms (sw_ctx u') = sv_health_check_interval_ms (sw_ctx u)"
      "sw_stops u' = sw_stops u" "sw_next u' = sw_next u" "range (sw_os u') \<subseteq> range (sw_os u)"
  shows "svc_inv now a' u'"
proof -
  have iff: "a' h = Some x \<longleftrightarrow> a h = Some x" if "\<not> C x" for h x
    using keep new that by blast
  have "slots_ok a' u'"
  proof (rule slots_okI)
    show "a' h = Some monitor_as" if "sv_monitor_timer (sw_ctx u') = Some h" for h
      using monitor_slot_armed [OF inv] iff [OF cls(2)] that same by simp
    show "a' h = Some retry_as" if "sv_retry_timer (sw_ctx u') = Some h" for h
      using retry_slot_armed [OF inv] iff [OF cls(1)] that same by simp
    show "sv_retry_timer (sw_ctx u') = Some h" if "a' h = Some retry_as" for h
      using retry_armed_slot [OF inv] iff [OF cls(1)] that same by simp
  qed (use health debounce in blast)+
  moreover have "stop_timers_ok a' u'"
    using inv same by (simp add: svc_inv_def stop_timers_ok_def iff [OF cls(3)])
  moreover have "known_timer x" if "a' h = Some x" for h x
    using new [OF that] inv unfolding svc_inv_def by blast
  moreover have "os_ok now (sw_os u')"
    using inv same unfolding svc_inv_def os_ok_def by blast
  ultimately show ?thesis
    using inv same by (simp add: svc_inv_def)
qed

lemma svc_inv_recheck:
  assumes "svc_inv now a u" "a i = None"
  shows "svc_inv now (a(i \<mapsto> recheck_as)) u"
  by (rule svc_inv_change [OF assms(1), of "\<lambda>x. x = recheck_as"])
    (use health_slot_armed [OF assms(1)] debounce_slot_armed [OF assms(1)] assms(2)
      in \<open>auto simp: known_timer_def split: if_splits\<close>)

lemma delayed_spawn_good:
  assumes ok: "svc_ok now (r, u)" and ns: "no_stops (armed r)"
  shows "good now (r, u) (service_delayed_spawn_cb (r, u))
    \<and> (\<forall>r' u' h. service_delayed_spawn_cb (r, u) = Some (r', u') \<longrightarrow> sv_retry_timer (sw_ctx u') = Some h
         \<longrightarrow> rx_next_id r \<le> h)"
proof (cases "sv_state (sw_ctx u) = SERVICE_STOPPED")
  case True
  then have "sv_retry_timer (sw_ctx u) = None" using ok by (simp add: svc_ok_def svc_inv_def)
  with True ok show ?thesis by (auto simp: service_delayed_spawn_cb_def intro!: good_Some)
next
  case False
  let ?c = "sw_ctx u"
  have inv: "loop_inv now r" "svc_inv now (armed r) u" using ok by (simp_all add: svc_ok_def)
  obtain r1 where r1: "svc_cancel (sv_retry_timer ?c) (r, u) = Some (r1, u)" "(client_step now)\<^sup>*\<^sup>* r r1"
      "loop_inv now r1" "if sv_reactor ?c then \<forall>h. armed r1 h = (if sv_retry_timer ?c = Some h then None else armed r h) else r1 = r"
    using svc_cancel_step [OF inv(1), of "sv_retry_timer ?c" u] retry_slot_armed [OF inv(2)] by force
  have a1: "armed r1 = unslot (sv_retry_timer ?c) (armed r)"
    using r1(4) inv(2) by (auto simp: unslot_def fun_eq_iff svc_inv_def split: if_splits)
  define u2 where "u2 = upd_ctx (\<lambda>c. c\<lparr>sv_retry_timer := None\<rparr>) u"
  have ns1: "no_stops (armed r1)" using ns by (simp add: a1 no_stops_def unslot_def)
  have u2: "svc_ok now (r1, u2)"
  proof -
    have "u2 = upd_ctx (\<lambda>c. c\<lparr>sv_retry_timer := None, sv_state := sv_state ?c, sv_backoff := sv_backoff ?c\<rparr>) u"
      by (simp add: u2_def)
    from svc_inv_unretry [OF inv(2) ns this] inv(2) r1(3) show ?thesis
      by (simp add: svc_ok_def a1) (simp add: svc_inv_def)
  qed
  obtain ok3 u3 where u3: "breaker_allows u2 = (ok3, u3)" by fastforce
  obtain rc u4 where u4: "service_spawn u3 = (rc, u4)" by fastforce
  have k3: "keeps u2 u3" and k4: "keeps u2 u4"
    using keeps_breaker [OF u3] keeps_spawn [OF u4] by (blast intro: keeps_trans)+
  have none: "sv_retry_timer (sw_ctx v) = None" "sv_state (sw_ctx v) = sv_state ?c" if "keeps u2 v" for v
    using that by (simp_all add: keeps_def same_ctl_def u2_def)
  define res where "res = (if \<not> ok3 then service_schedule_retry (r1, u3)
      else if rc = 0 then Some (snd (svc_add_timer 100 0 Fn_service_monitor_cb SVC
                 (r1, upd_ctx (\<lambda>c. c\<lparr>sv_state := SERVICE_STARTING\<rparr>) u4)))
      else retry_or_give_up (r1, count_failure u4))"
  have eq: "service_delayed_spawn_cb (r, u) = res"
    using False r1(1) u3 u4 by (simp add: service_delayed_spawn_cb_def res_def flip: u2_def split: prod.split)
  have "good now (r1, u2) res"
  proof (cases "\<not> ok3 \<or> rc \<noteq> 0")
    case True
    have k5: "keeps u2 (count_failure u4)" by (rule keeps_count [OF k4])
    have "good now (r1, u3) (service_schedule_retry (r1, u3))"
      using none [OF k3] False by (intro schedule_retry_good svc_ok_keeps [OF u2 k3] ns1) simp
    moreover have "good now (r1, count_failure u4) (retry_or_give_up (r1, count_failure u4))"
      using none [OF k5] False by (intro retry_or_give_up_good svc_ok_keeps [OF u2 k5] ns1) simp
    ultimately show ?thesis
      using True good_keeps_after [OF r1(3)] k3 k5 by (auto simp: res_def)
  next
    case False
    let ?u5 = "upd_ctx (\<lambda>c. c\<lparr>sv_state := SERVICE_STARTING\<rparr>) u4"
    have u5: "svc_ok now (r1, ?u5)" by (rule svc_ok_state [OF svc_ok_keeps [OF u2 k4] ns1]) simp
    then have "os_ok now (sw_os ?u5)" by (simp add: svc_ok_def svc_inv_def)
    from svc_add_step [OF r1(3) this, of 100 0 0 Fn_service_monitor_cb SVC, folded recheck_as_def]
    obtain h r2 u6 where add: "svc_add_timer 100 0 Fn_service_monitor_cb SVC (r1, ?u5) = (h, r2, u6)" "keeps ?u5 u6"
        "(client_step now)\<^sup>*\<^sup>* r1 r2" "loop_inv now r2"
        "case h of None \<Rightarrow> r2 = r1 | Some i \<Rightarrow> i = rx_next_id r1 \<and> armed r1 i = None
           \<and> armed r2 = (armed r1)(i \<mapsto> recheck_as) \<and> sv_reactor (sw_ctx ?u5)"
      by (auto simp: INT_MAX_def)
    have "svc_inv now (armed r2) ?u5"
      using u5 add(5) svc_inv_recheck by (auto simp: svc_ok_def split: option.splits)
    then have "svc_ok now (r2, u6)" using add(2,4) by (auto simp: svc_ok_def intro: svc_inv_keeps)
    moreover have "sv_retry_timer (sw_ctx u6) = None" using add(2) none [OF k4] by (simp add: keeps_def same_ctl_def)
    ultimately show ?thesis using False add(1,3) by (simp add: res_def good_def)
  qed
  moreover from this have "sv_retry_timer (sw_ctx (snd w')) = Some h \<Longrightarrow> rx_next_id r1 \<le> h" if "res = Some w'" for w' h
    using that by (auto simp: good_def u2_def)
  moreover have "rx_next_id r \<le> rx_next_id r1" using client_steps_inv [OF r1(2) inv(1)] by simp
  ultimately show ?thesis
    unfolding eq using good_after [OF r1(2) inv(1), of u2 res u] by (fastforce simp: u2_def)
qed

subsection \<open>The monitor\<close>

lemma refresh_good:
  assumes ok: "svc_ok now (r, u)"
  shows "\<exists>r' nl. netlink_refresh_state (os_alloc (os_now u)) (os_mono (os_now u)) True (r, sw_nl u) = Some (r', nl)
     \<and> (client_step now)\<^sup>*\<^sup>* r r' \<and> svc_ok now (r', tick (u\<lparr>sw_nl := nl\<rparr>))"
proof -
  have inv: "loop_inv now r" "svc_inv now (armed r) u" using ok by (simp_all add: svc_ok_def)
  let ?slot = "nl_debounce_timer (sw_nl u)"
  have "slot_ok (armed r) debounce_as ?slot"
    using debounce_slot_armed [OF inv(2)] by (simp add: slot_ok_def split: option.split)
  then obtain rc r1 where r1: "reactor_cancel_timer ?slot r = Some (rc, r1)"
      "\<forall>h. armed r1 h = (if ?slot = Some h then None else armed r h)"
    using timers.cancel_slot [of r] inv(1) unfolding loop_inv_def by blast
  have s1: "(client_step now)\<^sup>*\<^sup>* r r1" using cs_cancel [OF r1(1)] by (rule r_into_rtranclp)
  have l1: "loop_inv now r1" using client_steps_inv [OF s1 inv(1)] by simp
  have can: "(if ?slot = None then Some r else map_option snd (reactor_cancel_timer ?slot r)) = Some r1"
    using r1(1) by (auto simp: reactor_cancel_timer_def)
  obtain h r2 where add: "reactor_add_timer (os_alloc (os_now u)) (os_mono (os_now u))
      (word_of_int NETLINK_VPN_SETTLE_MS) 0 (Some Fn_debounce_timer_cb) None r1 = (h, r2)" by fastforce
  have res: "netlink_refresh_state (os_alloc (os_now u)) (os_mono (os_now u)) True (r, sw_nl u) =
      Some (r2, (sw_nl u)\<lparr>nl_debounce_timer := h\<rparr>)"
    unfolding netlink_refresh_state_def trigger_network_refresh_delay_def by (simp only: fst_conv snd_conv can) (simp add: add)
  have "now < os_mono (os_now u) + word_of_int NETLINK_VPN_SETTLE_MS"
    using inv(2) by (intro os_okD) (auto simp: svc_inv_def NETLINK_VPN_SETTLE_MS_def INT_MAX_def)
  then have s2: "(client_step now)\<^sup>*\<^sup>* r1 r2" by (intro r_into_rtranclp cs_add [OF add]) simp_all
  have l2: "loop_inv now r2" using client_steps_inv [OF s2 l1] by simp
  have a2: "case h of None \<Rightarrow> armed r2 = armed r1
      | Some i \<Rightarrow> armed r1 i = None \<and> armed r2 = (armed r1)(i \<mapsto> debounce_as)"
  proof (cases h)
    case None
    with add have "r2 = r1" by (auto dest: add_timer_fail)
    with None show ?thesis by simp
  next
    case (Some i)
    have "rx_timers_wf r1" using l1 by (simp add: loop_inv_def)
    from add_timer_armed [OF this add [unfolded Some]] Some show ?thesis by (simp add: debounce_as_def)
  qed
  have "svc_inv now (armed r2) (tick (u\<lparr>sw_nl := (sw_nl u)\<lparr>nl_debounce_timer := h\<rparr>\<rparr>))"
  proof (rule svc_inv_change [OF inv(2), of "\<lambda>x. x = debounce_as"])
    show keep: "armed r2 i = Some x" if "armed r i = Some x" "x \<noteq> debounce_as" for i x
      using that a2 spec [OF r1(2), of i] debounce_slot_armed [OF inv(2), of i] by (cases h) auto
    show "armed r i = Some x \<or> x = debounce_as \<and> known_timer x" if "armed r2 i = Some x" for i x
      using that a2 spec [OF r1(2), of i] by (cases h) (auto simp: known_timer_def split: if_splits)
    show "\<exists>iv. iv \<noteq> 0 \<and> armed r2 i = Some (health_as iv)"
      if "sv_health_timer (sw_ctx (tick (u\<lparr>sw_nl := (sw_nl u)\<lparr>nl_debounce_timer := h\<rparr>\<rparr>))) = Some i" for i
      using that health_slot_armed [OF inv(2), of i] keep [of i] by (fastforce simp: tick_def)
    show "armed r2 i = Some debounce_as"
      if "nl_debounce_timer (sw_nl (tick (u\<lparr>sw_nl := (sw_nl u)\<lparr>nl_debounce_timer := h\<rparr>\<rparr>))) = Some i" for i
      using that a2 by (simp add: tick_def)
  qed (auto simp: tick_def)
  with s1 s2 l2 res show ?thesis by (auto simp: svc_ok_def intro: rtranclp_trans)
qed

lemma health_timer_good:
  assumes ok: "svc_ok now (r, u)" and ns: "no_stops (armed r)" and st: "sv_state (sw_ctx u) = SERVICE_RUNNING"
  shows "\<exists>r1. svc_cancel (sv_health_timer (sw_ctx u)) (r, u) = Some (r1, u) \<and>
    good now (r, u) (case svc_add_timer (word_of_int (sv_health_check_interval_ms (sw_ctx u)))
        (word_of_int (sv_health_check_interval_ms (sw_ctx u))) Fn_service_health_check_cb SVC (r1, u) of
      (h, r3, u3) \<Rightarrow> Some (r3, upd_ctx (\<lambda>c. c\<lparr>sv_health_timer := h,
          sv_state := (if h = None then SERVICE_FAILED else sv_state c)\<rparr>) u3))"
proof -
  have inv: "loop_inv now r" "svc_inv now (armed r) u" using ok by (simp_all add: svc_ok_def)
  let ?slot = "sv_health_timer (sw_ctx u)"
  let ?iv = "word_of_int (sv_health_check_interval_ms (sw_ctx u)) :: u64"
  obtain r1 where r1: "svc_cancel ?slot (r, u) = Some (r1, u)" "(client_step now)\<^sup>*\<^sup>* r r1"
      "loop_inv now r1" "if sv_reactor (sw_ctx u) then \<forall>h. armed r1 h = (if ?slot = Some h then None else armed r h) else r1 = r"
    using svc_cancel_step [OF inv(1), of ?slot u] health_slot_armed [OF inv(2)] by fastforce
  have iv: "0 < sv_health_check_interval_ms (sw_ctx u)" "sv_health_check_interval_ms (sw_ctx u) \<le> INT_MAX"
      "os_ok now (sw_os u)" using inv(2) by (simp_all add: svc_inv_def)
  have "uint ?iv = sv_health_check_interval_ms (sw_ctx u)" using iv by (simp add: uint_u64_of_int INT_MAX_def)
  then have iv0: "?iv \<noteq> 0" using iv(1) by auto
  obtain h r2 u2 where add: "svc_add_timer ?iv ?iv Fn_service_health_check_cb SVC (r1, u) = (h, r2, u2)" "keeps u u2"
      "(client_step now)\<^sup>*\<^sup>* r1 r2" "loop_inv now r2"
      "case h of None \<Rightarrow> r2 = r1 | Some i \<Rightarrow> i = rx_next_id r1 \<and> armed r1 i = None
           \<and> armed r2 = (armed r1)(i \<mapsto> health_as ?iv) \<and> sv_reactor (sw_ctx u)"
    using svc_add_step [OF r1(3) iv(3,1,2), of ?iv _ Fn_service_health_check_cb SVC, folded health_as_def] iv by blast
  have a1: "armed r1 i = (if sv_reactor (sw_ctx u) \<and> ?slot = Some i then None else armed r i)" for i
    using r1(4) by (auto split: if_splits)
  let ?v = "upd_ctx (\<lambda>c. c\<lparr>sv_health_timer := h\<rparr>) u2"
  have v: "svc_inv now (armed r2) ?v"
  proof (rule svc_inv_change [OF inv(2), of "\<lambda>x. x \<in> range health_as"])
    show keep: "armed r2 i = Some x" if "armed r i = Some x" "x \<notin> range health_as" for i x
      using that add(5) a1 [of i] health_slot_armed [OF inv(2), of i] by (cases h) auto
    show "armed r i = Some x \<or> x \<in> range health_as \<and> known_timer x" if "armed r2 i = Some x" for i x
      using that add(5) a1 [of i] iv0 by (cases h) (auto simp: known_timer_def split: if_splits)
    show "\<exists>j. j \<noteq> 0 \<and> armed r2 i = Some (health_as j)" if "sv_health_timer (sw_ctx ?v) = Some i" for i
      using that add(5) iv0 by auto
    show "armed r2 i = Some debounce_as" if "nl_debounce_timer (sw_nl ?v) = Some i" for i
      using that add(2) debounce_slot_armed [OF inv(2), of i] keep [of i debounce_as] by (auto simp: keeps_def)
  qed (use add(2) in \<open>auto simp: keeps_def same_ctl_def\<close>)
  have ns2: "no_stops (armed r2)"
    using ns add(5) a1 by (cases h) (simp_all add: no_stops_def)
  let ?w = "upd_ctx (\<lambda>c. c\<lparr>sv_health_timer := h, sv_state := (if h = None then SERVICE_FAILED else sv_state c)\<rparr>) u2"
  have "svc_inv now (armed r2) ?w"
  proof (cases "h = None")
    case True
    then have "?w = upd_ctx (\<lambda>c. c\<lparr>sv_state := SERVICE_FAILED\<rparr>) ?v" by simp
    then show ?thesis using svc_inv_state [OF v ns2, of SERVICE_FAILED] by (simp only:) blast
  next
    case False
    then obtain i where "h = Some i" by auto
    then show ?thesis using v by simp
  qed
  with r1(1,2) add show ?thesis
    by (auto simp: good_def svc_ok_def keeps_def same_ctl_def intro: rtranclp_trans)
qed

lemma good_Some_retry: "good now (r, u) (Some (r', u')) \<Longrightarrow> keeps u v \<Longrightarrow> loop_inv now r \<Longrightarrow> good now (r, v) (Some (r', u'))"
  by (auto simp: good_def keeps_def same_ctl_def)

lemma monitor_ready_good:
  assumes ok: "svc_ok now (r, u)" and ns: "no_stops (armed r)"
  shows "good now (r, u) (monitor_ready (r, u))"
proof -
  define v where "v = tick (upd_ctx (\<lambda>c. c\<lparr>sv_state := SERVICE_RUNNING, sv_fail_count := 0, sv_running_healthy := True,
                sv_last_health_check := os_time (os_now u), sv_backoff := backoff_reset (sv_backoff c),
                sv_breaker := circuit_breaker_record_success (sv_breaker c)\<rparr>) u)"
  let ?p = "upd_ctx (\<lambda>c. c\<lparr>sv_state := SERVICE_RUNNING\<rparr>) u"
  have inv: "loop_inv now r" "svc_inv now (armed r) u" using ok by (simp_all add: svc_ok_def)
  have p: "svc_inv now (armed r) ?p" by (rule svc_inv_state [OF inv(2) ns]) simp
  have "slots_ok (armed r) v = slots_ok (armed r) ?p" "stop_timers_ok (armed r) v = stop_timers_ok (armed r) ?p"
    by (simp_all add: v_def tick_def slots_ok_def stop_timers_ok_def)
  moreover have "os_ok now (sw_os v)"
    using p by (auto simp: svc_inv_def v_def tick_def os_ok_def)
  moreover have "backoff_ok (sv_backoff (sw_ctx v))"
    using p by (simp add: svc_inv_def v_def tick_def backoff_ok_def backoff_reset_def)
  ultimately have v: "svc_ok now (r, v)" "sv_state (sw_ctx v) = SERVICE_RUNNING"
      "sv_retry_timer (sw_ctx v) = sv_retry_timer (sw_ctx u)"
    using p inv(1) by (simp_all add: svc_ok_def svc_inv_def v_def tick_def)
  have "good now (r, v) (monitor_ready (r, u))"
  proof (cases "sv_reactor (sw_ctx v)")
    case False
    then have "monitor_ready (r, u) = Some (r, v)" by (simp add: monitor_ready_def Let_def flip: v_def)
    then show ?thesis using v by (auto intro!: good_Some)
  next
    case True
    obtain r1 nl where rf: "netlink_refresh_state (os_alloc (os_now v)) (os_mono (os_now v)) True (r, sw_nl v) = Some (r1, nl)"
        "(client_step now)\<^sup>*\<^sup>* r r1" "svc_ok now (r1, tick (v\<lparr>sw_nl := nl\<rparr>))"
      using refresh_good [OF v(1)] by blast
    define u1 where "u1 = tick (v\<lparr>sw_nl := nl\<rparr>)"
    have u1: "sw_ctx u1 = sw_ctx v" "svc_ok now (r1, u1)" using rf(3) by (simp_all add: u1_def tick_def)
    then have ns1: "no_stops (armed r1)" using v(2) by (auto simp: svc_ok_def intro: no_stops_state)
    have pos: "0 < sv_health_check_interval_ms (sw_ctx u1)" using u1(2) by (simp add: svc_ok_def svc_inv_def)
    obtain r2 where r2: "svc_cancel (sv_health_timer (sw_ctx u1)) (r1, u1) = Some (r2, u1)"
      and g: "good now (r1, u1) (case svc_add_timer (word_of_int (sv_health_check_interval_ms (sw_ctx u1)))
        (word_of_int (sv_health_check_interval_ms (sw_ctx u1))) Fn_service_health_check_cb SVC (r2, u1) of
      (h, r3, u3) \<Rightarrow> Some (r3, upd_ctx (\<lambda>c. c\<lparr>sv_health_timer := h,
          sv_state := (if h = None then SERVICE_FAILED else sv_state c)\<rparr>) u3))"
      using health_timer_good [OF u1(2) ns1] v(2) u1(1) by auto
    have "monitor_ready (r, u) = (case svc_add_timer (word_of_int (sv_health_check_interval_ms (sw_ctx u1)))
        (word_of_int (sv_health_check_interval_ms (sw_ctx u1))) Fn_service_health_check_cb SVC (r2, u1) of
      (h, r3, u3) \<Rightarrow> Some (r3, upd_ctx (\<lambda>c. c\<lparr>sv_health_timer := h,
          sv_state := (if h = None then SERVICE_FAILED else sv_state c)\<rparr>) u3))"
      using True rf(1) pos r2 by (simp add: monitor_ready_def Let_def flip: v_def u1_def)
    with g have "good now (r1, u1) (monitor_ready (r, u))" by simp
    then show ?thesis using good_after [OF rf(2) inv(1), of u1 _ v] u1(1) by auto
  qed
  then show ?thesis using good_after [of now r r v _ u] inv(1) v(3) by auto
qed

lemma monitor_alive_good:
  assumes ok: "svc_ok now (r, u)" and ns: "no_stops (armed r)"
  shows "good now (r, u) (monitor_alive (r, u))"
proof -
  have l: "loop_inv now r" using ok by (simp add: svc_ok_def)
  define u1 where "u1 = (if sv_validated_pid (sw_ctx u) then u
                else if validate_process (os_now u) (sw_ctx u) (sv_child_pid (sw_ctx u))
                then tick (upd_ctx (\<lambda>c. c\<lparr>sv_validated_pid := True\<rparr>) u)
                else tick (upd_ctx (\<lambda>c. c\<lparr>sv_child_pid := -1\<rparr>) (kill_and_reap (sv_child_pid (sw_ctx u)) u)))"
  have k1: "keeps u u1" by (auto simp: u1_def same_ctl_def intro!: keeps_intros keeps_updI)
  obtain b u2 where pr: "service_probe_native_api u1 = (b, u2)" by fastforce
  have k2: "keeps u u2" using keeps_probe [OF pr] k1 by (blast intro: keeps_trans)
  have eq: "monitor_alive (r, u) = (if \<not> sv_validated_pid (sw_ctx u1) then Some (r, u1)
      else if b then monitor_ready (r, u2) else Some (r, u2))"
    by (simp add: monitor_alive_def Let_def pr flip: u1_def)
  show ?thesis
    unfolding eq using good_keeps [OF ok k1] good_keeps [OF ok k2]
      good_keeps_after [OF l k2 monitor_ready_good [OF svc_ok_keeps [OF ok k2] ns]] by simp
qed

lemma monitor_starting_good:
  assumes ok: "svc_ok now (r, u)" and st: "sv_state (sw_ctx u) = SERVICE_STARTING"
  shows "good now (r, u) (monitor_starting (r, u))"
proof -
  have l: "loop_inv now r" using ok by (simp add: svc_ok_def)
  have ns: "no_stops (armed r)" using ok st by (auto simp: svc_ok_def intro: no_stops_state)
  let ?c = "sw_ctx u"
  define u1 where "u1 = tick (if 0 < sv_child_pid ?c then emit [E_kill (sv_child_pid ?c) SIGKILL] u else u)"
  define u2 where "u2 = count_failure (upd_ctx (\<lambda>c. c\<lparr>sv_state := SERVICE_FAILED\<rparr>) u1)"
  have k1: "keeps u u1" by (auto simp: u1_def intro!: keeps_intros)
  let ?u1f = "upd_ctx (\<lambda>c. c\<lparr>sv_state := SERVICE_FAILED\<rparr>) u1"
  have o2: "svc_ok now (r, ?u1f)" by (rule svc_ok_state [OF svc_ok_keeps [OF ok k1] ns]) simp
  have k2: "keeps ?u1f u2" by (simp add: u2_def keeps_count)
  have o2': "svc_ok now (r, u2)" by (rule svc_ok_keeps [OF o2 k2])
  have s2: "sv_state (sw_ctx u2) = SERVICE_FAILED" "sv_retry_timer (sw_ctx u2) = sv_retry_timer ?c"
    using k2 k1 by (simp_all add: keeps_def same_ctl_def)
  obtain b u3 where u3: "service_starting_child_alive (tick u) = (b, u3)" by fastforce
  have k3: "keeps u u3" using keeps_child_alive [OF u3] keeps_tick by (blast intro: keeps_trans)
  have k4: "keeps u (count_failure u3)" by (rule keeps_count [OF k3])
  have eq: "monitor_starting (r, u) = (if 0 < sv_start_time_ms ?c \<and> start_timeout_ms ?c \<le> os_mono (os_now u) - sv_start_time_ms ?c
      then (if sv_reactor (sw_ctx u2) \<and> sv_fail_count (sw_ctx u2) < sv_max_failures (sw_ctx u2)
            then service_schedule_retry (r, u2) else Some (r, u2))
      else if b then monitor_alive (r, u3) else retry_or_give_up (r, count_failure u3))"
    by (simp add: monitor_starting_def Let_def u3 flip: u1_def u2_def)
  have g2: "good now (r, u2) (service_schedule_retry (r, u2))" "good now (r, u2) (Some (r, u2))"
    using s2 o2' by (auto intro!: schedule_retry_good good_Some ns)
  have g3: "good now (r, u3) (monitor_alive (r, u3))"
    by (rule monitor_alive_good [OF svc_ok_keeps [OF ok k3] ns])
  have g4: "good now (r, count_failure u3) (retry_or_give_up (r, count_failure u3))"
    using k4 st by (intro retry_or_give_up_good svc_ok_keeps [OF ok k4] ns) (simp add: keeps_def same_ctl_def)
  show ?thesis
    unfolding eq using good_after [of now r r u2 _ u] g2 s2 l
      good_keeps_after [OF l k3 g3] good_keeps_after [OF l k4 g4] by auto
qed

lemma monitor_good:
  assumes ok: "svc_ok now (r, u)"
  shows "good now (r, u) (service_monitor_cb (r, u))"
proof (cases "sv_state (sw_ctx u)")
  case SERVICE_RUNNING
  have l: "loop_inv now r" using ok by (simp add: svc_ok_def)
  have ns: "no_stops (armed r)" using ok SERVICE_RUNNING by (auto simp: svc_ok_def intro: no_stops_state)
  obtain b u1 where u1: "service_is_alive u = (b, u1)" by fastforce
  have k1: "keeps u u1" by (rule keeps_is_alive [OF u1])
  let ?f = "upd_ctx (\<lambda>c. c\<lparr>sv_state := SERVICE_FAILED\<rparr>) u1"
  have of: "svc_ok now (r, ?f)" by (rule svc_ok_state [OF svc_ok_keeps [OF ok k1] ns]) simp
  have kf: "keeps ?f (count_failure ?f)" by (simp add: keeps_count)
  have "good now (r, count_failure ?f) (retry_or_give_up (r, count_failure ?f))"
    using kf by (intro retry_or_give_up_good svc_ok_keeps [OF of kf] ns) (simp add: keeps_def same_ctl_def)
  then have "good now (r, u) (retry_or_give_up (r, count_failure ?f))"
    using good_after [of now r r "count_failure ?f" _ u] l kf k1 by (auto simp: keeps_def same_ctl_def)
  with SERVICE_RUNNING u1 good_keeps [OF ok k1] show ?thesis by (simp add: service_monitor_cb_def)
next
  case SERVICE_FAILED
  then have "no_stops (armed r)" using ok by (auto simp: svc_ok_def intro: no_stops_state)
  with SERVICE_FAILED ok show ?thesis
    by (auto simp: service_monitor_cb_def Let_def intro!: schedule_retry_good good_Some)
next
  case SERVICE_STARTING
  then show ?thesis using monitor_starting_good [OF ok] by (simp add: service_monitor_cb_def)
qed (use ok in \<open>auto simp: service_monitor_cb_def intro!: good_Some\<close>)

lemma health_good:
  assumes ok: "svc_ok now (r, u)"
  shows "good now (r, u) (service_health_check_cb (r, u))"
proof -
  obtain b u1 where u1: "service_is_alive u = (b, u1)" by fastforce
  have k1: "keeps u u1" by (rule keeps_is_alive [OF u1])
  show ?thesis
    unfolding service_health_check_cb_def Let_def snd_conv fst_conv u1 prod.case
    using ok by (auto intro!: good_keeps [OF ok] keeps_tickI keeps_updI [OF k1] simp: same_ctl_def)
qed

subsection \<open>Stopping\<close>

text \<open>Stopping only removes timers.\<close>

lemma svc_inv_shrink:
  assumes inv: "svc_inv now a u"
    and sub: "\<And>h x. a' h = Some x \<Longrightarrow> a h = Some x"
    and monitor: "\<And>h. sv_monitor_timer (sw_ctx u') = Some h \<Longrightarrow> a' h = Some monitor_as"
    and health: "\<And>h. sv_health_timer (sw_ctx u') = Some h \<Longrightarrow> \<exists>iv. iv \<noteq> 0 \<and> a' h = Some (health_as iv)"
    and debounce: "\<And>h. nl_debounce_timer (sw_nl u') = Some h \<Longrightarrow> a' h = Some debounce_as"
    and retry: "sv_retry_timer (sw_ctx u') = None" "\<And>h. a' h \<noteq> Some retry_as"
    and st: "sv_state (sw_ctx u') \<in> {SERVICE_STOPPING, SERVICE_STOPPED}"
    and stops: "\<And>h q. a' h = Some (stop_as q) \<Longrightarrow> sw_stops u' q \<noteq> None"
    and same: "sw_next u' = sw_next u" "sv_backoff (sw_ctx u') = sv_backoff (sw_ctx u)"
      "sv_health_check_interval_ms (sw_ctx u') = sv_health_check_interval_ms (sw_ctx u)"
      "range (sw_os u') \<subseteq> range (sw_os u)"
  shows "svc_inv now a' u'"
proof -
  have "slots_ok a' u'"
  proof (rule slots_okI)
    show "a' h = Some retry_as" if "sv_retry_timer (sw_ctx u') = Some h" for h using that retry(1) by simp
    show "sv_retry_timer (sw_ctx u') = Some h" if "a' h = Some retry_as" for h using that retry(2) [of h] by simp
  qed (fact monitor, fact health, fact debounce)
  moreover have "stop_timers_ok a' u'"
    unfolding stop_timers_ok_def
  proof (intro allI impI conjI)
    fix h p assume ap: "a' h = Some (stop_as p)"
    have "stop_timers_ok a u" using inv by (simp add: svc_inv_def)
    note old = this [unfolded stop_timers_ok_def, rule_format, OF sub [OF ap]]
    show "p < sw_next u'" using old same(1) by simp
    show "sw_stops u' p \<noteq> None" by (rule stops [OF ap])
    show "h' = h" if "a' h' = Some (stop_as p)" for h'
      using sub [OF that] old by blast
  qed (use st retry in auto)
  moreover have "os_ok now (sw_os u')"
    using inv same unfolding svc_inv_def os_ok_def by blast
  moreover have "known_timer x" if "a' h = Some x" for h x
    using sub [OF that] inv unfolding svc_inv_def by blast
  ultimately show ?thesis
    using inv same retry by (simp add: svc_inv_def)
qed

lemma cancel_all_step:
  assumes inv: "loop_inv now r"
    and armed: "\<And>h. sv_monitor_timer (sw_ctx u) = Some h \<Longrightarrow> armed r h = Some monitor_as"
      "sv_retry_timer (sw_ctx u) = None"
      "\<And>h. sv_health_timer (sw_ctx u) = Some h \<Longrightarrow> \<exists>iv. iv \<noteq> 0 \<and> armed r h = Some (health_as iv)"
  shows "\<exists>r'. cancel_all (r, u) = Some (r', if sv_reactor (sw_ctx u) then upd_ctx (\<lambda>c. c\<lparr>sv_monitor_timer := None,
           sv_retry_timer := None, sv_health_timer := None, sv_reactor := False\<rparr>) u else u)
     \<and> (client_step now)\<^sup>*\<^sup>* r r' \<and> loop_inv now r'
     \<and> (\<forall>h x. armed r' h = Some x \<longrightarrow> armed r h = Some x)
     \<and> (\<forall>h x. armed r h = Some x \<longrightarrow> x \<noteq> monitor_as \<and> x \<notin> range health_as \<longrightarrow> armed r' h = Some x)
     \<and> (\<not> sv_reactor (sw_ctx u) \<longrightarrow> r' = r)"
proof (cases "sv_reactor (sw_ctx u)")
  case True
  let ?m = "sv_monitor_timer (sw_ctx u)" and ?h = "sv_health_timer (sw_ctx u)"
  have arm: "armed r h \<noteq> None" if "?m = Some h" for h using armed(1) [OF that] by simp
  obtain r1 where r1: "svc_cancel ?m (r, u) = Some (r1, u)" "(client_step now)\<^sup>*\<^sup>* r r1" "loop_inv now r1"
      "\<forall>h. armed r1 h = (if ?m = Some h then None else armed r h)"
    using svc_cancel_step [OF inv arm, where u = u] True by auto
  have arm1: "armed r1 h \<noteq> None" if "?h = Some h" for h
    using armed(3) [OF that] armed(1) [of h] r1(4) by fastforce
  have r2: "svc_cancel (sv_retry_timer (sw_ctx u)) (r1, u) = Some (r1, u)" by (simp add: svc_cancel_def armed(2))
  obtain r3 where r3: "svc_cancel ?h (r1, u) = Some (r3, u)" "(client_step now)\<^sup>*\<^sup>* r1 r3" "loop_inv now r3"
      "\<forall>h. armed r3 h = (if ?h = Some h then None else armed r1 h)"
    using svc_cancel_step [OF r1(3) arm1, where u = u] True by auto
  have a3: "armed r3 h = (if ?h = Some h \<or> ?m = Some h then None else armed r h)" for h
    using r3(4) r1(4) by simp
  have sub: "armed r h = Some x" if "armed r3 h = Some x" for h x
    using that a3 by (simp split: if_splits)
  have keep: "armed r3 h = Some x" if "armed r h = Some x" "x \<noteq> monitor_as \<and> x \<notin> range health_as" for h x
    using that a3 [of h] armed(1) [of h] armed(3) [of h] by auto
  show ?thesis
  proof (intro exI [of _ r3] conjI)
    show "cancel_all (r, u) = Some (r3, if sv_reactor (sw_ctx u) then upd_ctx (\<lambda>c. c\<lparr>sv_monitor_timer := None,
           sv_retry_timer := None, sv_health_timer := None, sv_reactor := False\<rparr>) u else u)"
      using True r1(1) r2 r3(1) by (simp add: cancel_all_def)
    show "(client_step now)\<^sup>*\<^sup>* r r3" using r1(2) r3(2) by (rule rtranclp_trans)
    show "\<forall>h x. armed r3 h = Some x \<longrightarrow> armed r h = Some x" using sub by blast
    show "\<forall>h x. armed r h = Some x \<longrightarrow> x \<noteq> monitor_as \<and> x \<notin> range health_as \<longrightarrow> armed r3 h = Some x"
      using keep by blast
  qed (use True r3(3) in simp_all)
next
  case False
  then show ?thesis using inv by (simp add: cancel_all_def)
qed

text \<open>What \<open>service_stop_sync\<close> leaves, whoever calls it.\<close>

lemma stop_sync_shape:
  assumes "cancel_all (r, upd_ctx (\<lambda>c. c\<lparr>sv_state := SERVICE_STOPPING\<rparr>) u) = Some (r', u1)"
  shows "\<exists>rc u2. service_stop_sync (r, u) = Some (rc, r', mark_stopped u2) \<and> keeps u1 u2"
proof -
  obtain rc u2 where "stop_child u1 = (rc, u2)" by fastforce
  moreover from this have "keeps u1 u2" by (rule keeps_stop_child)
  ultimately show ?thesis using assms by (intro exI [of _ rc] exI [of _ u2]) (simp add: service_stop_sync_def)
qed

lemma mark_stopped_fields [simp]:
  "sv_state (sw_ctx (mark_stopped u)) = SERVICE_STOPPED" "sw_stops (mark_stopped u) = sw_stops u"
  "sw_next (mark_stopped u) = sw_next u" "sw_nl (mark_stopped u) = sw_nl u" "sw_os (mark_stopped u) = sw_os u"
  "sv_monitor_timer (sw_ctx (mark_stopped u)) = sv_monitor_timer (sw_ctx u)"
  "sv_retry_timer (sw_ctx (mark_stopped u)) = sv_retry_timer (sw_ctx u)"
  "sv_health_timer (sw_ctx (mark_stopped u)) = sv_health_timer (sw_ctx u)"
  "sv_reactor (sw_ctx (mark_stopped u)) = sv_reactor (sw_ctx u)"
  "sv_backoff (sw_ctx (mark_stopped u)) = sv_backoff (sw_ctx u)"
  "sv_health_check_interval_ms (sw_ctx (mark_stopped u)) = sv_health_check_interval_ms (sw_ctx u)"
  by (simp_all add: mark_stopped_def service_unlink_pid_def emit_def forget_child_def)

text \<open>The facts a fired stop timer rests on.\<close>

lemma stop_timer_facts:
  assumes "svc_inv now a u" "a h = Some (stop_as p)"
  shows "sw_stops u p \<noteq> None" "sv_state (sw_ctx u) \<in> {SERVICE_STOPPING, SERVICE_STOPPED}"
    and "sv_retry_timer (sw_ctx u) = None" "\<And>h'. a h' \<noteq> Some retry_as"
    and "\<And>h'. a h' = Some (stop_as p) \<Longrightarrow> h' = h" "\<And>h' q. a h' = Some (stop_as q) \<Longrightarrow> sw_stops u q \<noteq> None"
    and "p < sw_next u"
proof -
  have old: "stop_timers_ok a u" using assms(1) by (simp add: svc_inv_def)
  then show "sw_stops u p \<noteq> None" "sv_state (sw_ctx u) \<in> {SERVICE_STOPPING, SERVICE_STOPPED}"
      "\<And>h'. a h' = Some (stop_as p) \<Longrightarrow> h' = h" "\<And>h' q. a h' = Some (stop_as q) \<Longrightarrow> sw_stops u q \<noteq> None" "p < sw_next u"
    using assms(2) unfolding stop_timers_ok_def by blast+
  show r: "sv_retry_timer (sw_ctx u) = None" using old assms(2) unfolding stop_timers_ok_def by blast
  show "a h' \<noteq> Some retry_as" for h' using retry_armed_slot [OF assms(1), of h'] r by auto
qed

text \<open>The record \<open>p\<close> is freed and its timer gone: the cases in which the service is stopped.\<close>

lemma svc_inv_stopped:
  assumes inv: "svc_inv now (armed r) u" and h: "armed r h = Some (stop_as p)" and k: "keeps u u1"
    and u': "sw_ctx u' = sw_ctx (mark_stopped u1)" "sw_stops u' = (sw_stops u)(p := None)" "sw_next u' = sw_next u"
      "sw_nl u' = sw_nl u" "range (sw_os u') \<subseteq> range (sw_os u)"
  shows "svc_inv now ((armed r)(h := None)) u'"
proof (rule svc_inv_shrink [OF inv])
  note f = stop_timer_facts [OF inv h]
  show "((armed r)(h := None)) i = Some monitor_as" if "sv_monitor_timer (sw_ctx u') = Some i" for i
    using that k u' monitor_slot_armed [OF inv, of i] h by (auto simp: keeps_def same_ctl_def)
  show "\<exists>iv. iv \<noteq> 0 \<and> ((armed r)(h := None)) i = Some (health_as iv)" if "sv_health_timer (sw_ctx u') = Some i" for i
    using that k u' health_slot_armed [OF inv, of i] h by (auto simp: keeps_def same_ctl_def)
  show "((armed r)(h := None)) i = Some debounce_as" if "nl_debounce_timer (sw_nl u') = Some i" for i
    using that u' debounce_slot_armed [OF inv, of i] h by auto
  show "sw_stops u' q \<noteq> None" if "((armed r)(h := None)) i = Some (stop_as q)" for i q
    using that f(5) f(6) [of i q] u'(2) by (auto split: if_splits)
qed (use k u' stop_timer_facts [OF inv h] in \<open>auto simp: keeps_def same_ctl_def split: if_splits\<close>)

lemma svc_inv_stop_again:
  assumes inv: "svc_inv now a u" and h: "a h = Some (stop_as p)" and i: "a i = None"
    and a': "a' = (a(i \<mapsto> stop_as p))(h := None)" and k: "keeps u u1"
    and u': "sw_ctx u' = sw_ctx u1" "sw_stops u' = (sw_stops u)(p \<mapsto> st)" "sw_next u' = sw_next u"
      "sw_nl u' = sw_nl u" "range (sw_os u') \<subseteq> range (sw_os u)"
  shows "svc_inv now a' u'"
proof -
  note f = stop_timer_facts [OF inv h]
  have other: "a' j = Some x \<longleftrightarrow> a j = Some x" if "x \<noteq> stop_as p" for j x
    using that h i a' by auto
  have ih: "i \<noteq> h" using h i by auto
  have sp: "a' j = Some (stop_as p) \<longleftrightarrow> j = i" for j using f(5) [of j] ih a' by auto
  have c: "same_ctl (sw_ctx u) (sw_ctx u')" using k u'(1) by (simp add: keeps_def)
  have "slots_ok a' u' = slots_ok a u"
    using c u'(4) unfolding slots_ok_def slot_ok_def by (simp add: same_ctl_def other cong: option.case_cong)
  moreover have "stop_timers_ok a' u'"
    unfolding stop_timers_ok_def
  proof (intro allI impI)
    fix j q assume j: "a' j = Some (stop_as q)"
    show "q < sw_next u' \<and> sw_stops u' q \<noteq> None \<and> sv_state (sw_ctx u') \<in> {SERVICE_STOPPING, SERVICE_STOPPED}
      \<and> sv_retry_timer (sw_ctx u') = None \<and> (\<forall>h'. a' h' = Some (stop_as q) \<longrightarrow> h' = j)"
    proof (cases "q = p")
      case True
      with j sp f u'(2,3) c show ?thesis by (simp add: same_ctl_def)
    next
      case False
      then have "a j = Some (stop_as q)" using j other by simp
      from stop_timer_facts [OF inv this] False u'(2,3) c show ?thesis by (simp add: same_ctl_def other)
    qed
  qed
  moreover have "known_timer x" if "a' j = Some x" for j x
  proof (cases "x = stop_as p")
    case False
    then have "a j = Some x" using that other by blast
    then show ?thesis using inv unfolding svc_inv_def by blast
  qed (simp add: known_timer_def)
  moreover have "os_ok now (sw_os u')"
    using inv u'(5) unfolding svc_inv_def os_ok_def by blast
  ultimately show ?thesis using inv c by (simp add: svc_inv_def same_ctl_def)
qed

lemma stop_sync_from_timer:
  assumes ok: "svc_ok now (r, u)" and h: "armed r h = Some (stop_as p)" and k: "keeps u u1"
  shows "\<exists>rc r' u'. service_stop_sync (r, free_stop p u1) = Some (rc, r', u') \<and> (client_step now)\<^sup>*\<^sup>* r r'
    \<and> svc_inv now ((armed r')(h := None)) u'"
proof -
  have inv: "loop_inv now r" "svc_inv now (armed r) u" using ok by (simp_all add: svc_ok_def)
  note f = stop_timer_facts [OF inv(2) h]
  let ?v = "upd_ctx (\<lambda>c. c\<lparr>sv_state := SERVICE_STOPPING\<rparr>) (free_stop p u1)"
  have c: "sw_ctx ?v = (sw_ctx u1)\<lparr>sv_state := SERVICE_STOPPING\<rparr>" by (simp add: free_stop_def)
  have slots: "sv_monitor_timer (sw_ctx ?v) = sv_monitor_timer (sw_ctx u)" "sv_retry_timer (sw_ctx ?v) = None"
      "sv_health_timer (sw_ctx ?v) = sv_health_timer (sw_ctx u)" "sv_reactor (sw_ctx ?v) = sv_reactor (sw_ctx u)"
    using k f(3) unfolding c by (simp_all add: keeps_def same_ctl_def)
  obtain r' where r': "cancel_all (r, ?v) = Some (r', if sv_reactor (sw_ctx ?v) then upd_ctx (\<lambda>c. c\<lparr>sv_monitor_timer := None,
           sv_retry_timer := None, sv_health_timer := None, sv_reactor := False\<rparr>) ?v else ?v)"
      "(client_step now)\<^sup>*\<^sup>* r r'" "\<forall>h x. armed r' h = Some x \<longrightarrow> armed r h = Some x"
      "\<forall>h x. armed r h = Some x \<longrightarrow> x \<noteq> monitor_as \<and> x \<notin> range health_as \<longrightarrow> armed r' h = Some x"
      "\<not> sv_reactor (sw_ctx ?v) \<longrightarrow> r' = r"
    using cancel_all_step [OF inv(1) monitor_slot_armed [OF inv(2)] slots(2) health_slot_armed [OF inv(2)]]
    unfolding slots(1,3) by blast
  define v1 where "v1 = (if sv_reactor (sw_ctx ?v) then upd_ctx (\<lambda>c. c\<lparr>sv_monitor_timer := None,
           sv_retry_timer := None, sv_health_timer := None, sv_reactor := False\<rparr>) ?v else ?v)"
  obtain rc u2 where st: "service_stop_sync (r, free_stop p u1) = Some (rc, r', mark_stopped u2)" "keeps v1 u2"
    using stop_sync_shape [of r "free_stop p u1" r' v1] r'(1) unfolding v1_def by blast
  have v1: "sw_stops v1 = (sw_stops u)(p := None)" "sw_next v1 = sw_next u" "sw_nl v1 = sw_nl u"
      "range (sw_os v1) \<subseteq> range (sw_os u)" "sv_backoff (sw_ctx v1) = sv_backoff (sw_ctx u)"
      "sv_health_check_interval_ms (sw_ctx v1) = sv_health_check_interval_ms (sw_ctx u)"
      "sv_retry_timer (sw_ctx v1) = None"
    using k slots(2) by (auto simp: v1_def free_stop_def keeps_def same_ctl_def)
  have "svc_inv now ((armed r')(h := None)) (mark_stopped u2)"
  proof (rule svc_inv_shrink [OF inv(2)])
    show "armed r i = Some x" if "((armed r')(h := None)) i = Some x" for i x
      using that r'(3) [rule_format, of i x] by (simp split: if_splits)
    show "((armed r')(h := None)) i = Some monitor_as" if "sv_monitor_timer (sw_ctx (mark_stopped u2)) = Some i" for i
    proof -
      have "sv_monitor_timer (sw_ctx v1) = Some i" using that st(2) by (simp add: keeps_def same_ctl_def)
      then have "\<not> sv_reactor (sw_ctx ?v)" "sv_monitor_timer (sw_ctx u) = Some i"
        using slots by (auto simp: v1_def split: if_splits)
      with r'(5) monitor_slot_armed [OF inv(2), of i] h show ?thesis by auto
    qed
    show "\<exists>iv. iv \<noteq> 0 \<and> ((armed r')(h := None)) i = Some (health_as iv)"
      if "sv_health_timer (sw_ctx (mark_stopped u2)) = Some i" for i
    proof -
      have "sv_health_timer (sw_ctx v1) = Some i" using that st(2) by (simp add: keeps_def same_ctl_def)
      then have "\<not> sv_reactor (sw_ctx ?v)" "sv_health_timer (sw_ctx u) = Some i"
        using slots by (auto simp: v1_def split: if_splits)
      with r'(5) health_slot_armed [OF inv(2), of i] h show ?thesis by auto
    qed
    show "((armed r')(h := None)) i = Some debounce_as" if "nl_debounce_timer (sw_nl (mark_stopped u2)) = Some i" for i
    proof -
      have "nl_debounce_timer (sw_nl u) = Some i" using that st(2) v1(3) by (simp add: keeps_def)
      then have "armed r i = Some debounce_as" by (rule debounce_slot_armed [OF inv(2)])
      then have "armed r' i = Some debounce_as" "i \<noteq> h"
        using r'(4) [rule_format, of i debounce_as] h by auto
      then show ?thesis by simp
    qed
    show "((armed r')(h := None)) i \<noteq> Some retry_as" for i
      using r'(3) [rule_format, of i retry_as] f(4) [of i] by auto
    show "sw_stops (mark_stopped u2) q \<noteq> None" if "((armed r')(h := None)) i = Some (stop_as q)" for i q
    proof -
      have "armed r i = Some (stop_as q)" "i \<noteq> h"
        using that r'(3) [rule_format, of i "stop_as q"] by (auto split: if_splits)
      with f(5) [of i] f(6) [of i q] show ?thesis using st(2) v1(1) by (auto simp: keeps_def)
    qed
    show "range (sw_os (mark_stopped u2)) \<subseteq> range (sw_os u)"
      using st(2) v1(4) subset_trans unfolding keeps_def mark_stopped_fields by blast
  qed (use st(2) v1 in \<open>simp_all add: keeps_def same_ctl_def\<close>)
  with st(1) r'(2) show ?thesis by blast
qed

lemma stop_wait_good:
  assumes ok: "svc_ok now (r, u)" and h: "armed r h = Some (stop_as p)"
  shows "\<exists>r' u'. service_stop_wait_cb p (r, u) = Some (r', u') \<and> (client_step now)\<^sup>*\<^sup>* r r'
    \<and> svc_inv now ((armed r')(h := None)) u'"
proof -
  have inv: "loop_inv now r" "svc_inv now (armed r) u" using ok by (simp_all add: svc_ok_def)
  note f = stop_timer_facts [OF inv(2) h]
  obtain st where st: "sw_stops u p = Some st" using f(1) by blast
  obtain b u1 where u1: "service_is_alive u = (b, u1)" by fastforce
  have k1: "keeps u u1" by (rule keeps_is_alive [OF u1])
  define st1 where "st1 = st\<lparr>ss_attempts := ss_attempts st + 1\<rparr>"
  define u2 where "u2 = u1\<lparr>sw_stops := (sw_stops u1)(p \<mapsto> st1)\<rparr>"
  have os: "os_ok now (sw_os u2)" using svc_inv_keeps [OF inv(2) k1] by (simp add: svc_inv_def u2_def)
  obtain i r1 where add: "reactor_add_timer (os_alloc (os_now u2)) (os_mono (os_now u2)) 100 0
      (Some Fn_service_stop_wait_cb) (Some p) r = (i, r1)" by fastforce
  have eq: "service_stop_wait_cb p (r, u) =
      (if \<not> b then Some (r, free_stop p (emit (done_events st) (mark_stopped u1)))
       else if ss_max_attempts st1 \<le> ss_attempts st1 then Some (r, free_stop p (emit (done_events st1)
                          (mark_stopped (kill_and_reap (sv_child_pid (sw_ctx u2)) u2))))
       else if i = None then map_option snd (service_stop_sync (r1, free_stop p (tick u2)))
       else Some (r1, tick u2))"
    by (simp add: service_stop_wait_cb_def st u1 Let_def add flip: st1_def u2_def)
  show ?thesis
  proof (cases "b \<and> \<not> ss_max_attempts st1 \<le> ss_attempts st1")
    case False
    define u' where "u' = (if \<not> b then free_stop p (emit (done_events st) (mark_stopped u1))
        else free_stop p (emit (done_events st1) (mark_stopped (kill_and_reap (sv_child_pid (sw_ctx u2)) u2))))"
    have res: "service_stop_wait_cb p (r, u) = Some (r, u')" using False by (simp add: eq u'_def)
    have "svc_inv now ((armed r)(h := None)) u'"
      by (rule svc_inv_stopped [OF inv(2) h k1])
        (use k1 in \<open>auto simp: u'_def free_stop_def emit_def u2_def kill_and_reap_def mark_stopped_def keeps_def
          service_unlink_pid_def forget_child_def\<close>)
    with res show ?thesis by blast
  next
    case True
    show ?thesis
    proof (cases i)
      case None
      then have "r1 = r" using add by (auto dest: add_timer_fail)
      have k: "keeps u (tick u1)" using k1 by (rule keeps_tickI)
      have "free_stop p (tick u2) = free_stop p (tick u1)" by (simp add: free_stop_def tick_def u2_def)
      with stop_sync_from_timer [OF ok h k] \<open>r1 = r\<close> None True show ?thesis by (auto simp: eq)
    next
      case (Some j)
      have "now < os_mono (os_now u2) + word_of_int 100" by (rule os_okD [OF os]) (simp_all add: INT_MAX_def)
      then have "client_step now r r1" by (intro cs_add [OF add]) simp_all
      moreover have "armed r j = None" "armed r1 = (armed r)(j \<mapsto> stop_as p)"
        using add_timer_armed [of r] add Some inv(1) by (auto simp: loop_inv_def stop_as_def)
      then have "svc_inv now ((armed r1)(h := None)) (tick u2)"
        by (intro svc_inv_stop_again [OF inv(2) h _ _ k1, where st = st1 and i = j])
          (use k1 in \<open>auto simp: u2_def tick_def keeps_def\<close>)
      ultimately show ?thesis using Some True by (auto simp: eq)
    qed
  qed
qed

subsection \<open>The refresh callback\<close>

lemma recv_returns:
  "\<exists>res. netlink_recv_all_with_timeout sq (as @ Inl e # bs) ctx = Some res"
proof (induction as arbitrary: ctx)
  case (Cons x as)
  show ?case
  proof (cases x)
    case (Inr ms)
    obtain y ctx' where w: "recv_walk sq ms ctx = (y, ctx')" by (cases "recv_walk sq ms ctx")
    show ?thesis
      using Cons [of ctx'] by (cases y) (auto simp: Inr w split: bool.split)
  qed simp
qed simp

lemma active_vpn_returns:
  assumes "ne_recv env = as @ Inl e # bs"
  shows "\<exists>res. netlink_get_active_vpn env sz nl = Some res"
proof -
  obtain rc ctx where "netlink_recv_all_with_timeout (nl_seq nl) (ne_recv env) (32, []) = Some (rc, ctx)"
    using recv_returns [of "nl_seq nl" as e bs "(32, [])"] assms by fastforce
  then show ?thesis by (auto simp: netlink_get_active_vpn_def Let_def split: option.split)
qed

lemma active_vpn_slot:
  "netlink_get_active_vpn env sz nl = Some (rc, name, nl') \<Longrightarrow> nl_debounce_timer nl' = nl_debounce_timer nl"
  by (auto simp: netlink_get_active_vpn_def Let_def elim!: bind_SomeE split: if_splits option.splits)

definition svc_debounce_cb :: "svc \<Rightarrow> svc option" where
  "svc_debounce_cb w =
     (let u = snd w in
      map_option (\<lambda>(nl, c, evs). (fst w, tick (emit [E_vpn evs] (u\<lparr>sw_nl := nl, sw_vpn := c\<rparr>))))
        (debounce_timer_cb (os_nl (os_now u)) (os_ts (os_now u)) (sw_nl u, sw_vpn u)))"

lemma debounce_good:
  assumes ok: "svc_ok now (r, u)"
  shows "\<exists>u'. svc_debounce_cb (r, u) = Some (r, u') \<and> svc_ok now (r, u') \<and> nl_debounce_timer (sw_nl u') = None"
proof -
  have inv: "loop_inv now r" "svc_inv now (armed r) u" using ok by (simp_all add: svc_ok_def)
  obtain as e bs where "ne_recv (os_nl (os_now u)) = as @ Inl e # bs"
    using inv(2) unfolding svc_inv_def os_ok_def os_now_def by blast
  then obtain rc name nl where q: "netlink_get_active_vpn (os_nl (os_now u)) IFNAMSIZ ((sw_nl u)\<lparr>nl_debounce_timer := None\<rparr>)
      = Some (rc, name, nl)"
    using active_vpn_returns by (metis prod_cases3)
  have nl: "nl_debounce_timer nl = None" using active_vpn_slot [OF q] by simp
  obtain d c evs where t: "(if rc = 0 \<and> name \<noteq> []
      then atpd_vpn_state_transition (os_ts (os_now u)) 2 0 (Some name) (sw_vpn u)
      else atpd_vpn_state_transition (os_ts (os_now u)) 0 0 None (sw_vpn u)) = (d, c, evs)"
    by (rule prod_cases3)
  have "debounce_timer_cb (os_nl (os_now u)) (os_ts (os_now u)) (sw_nl u, sw_vpn u) = Some (nl, c, evs)"
    unfolding debounce_timer_cb_def Let_def fst_conv snd_conv q bind.simps prod.case t by (rule refl)
  then have res: "svc_debounce_cb (r, u) = Some (r, tick (emit [E_vpn evs] (u\<lparr>sw_nl := nl, sw_vpn := c\<rparr>)))"
    by (simp add: svc_debounce_cb_def Let_def)
  have "svc_inv now (armed r) (tick (emit [E_vpn evs] (u\<lparr>sw_nl := nl, sw_vpn := c\<rparr>)))"
    by (rule svc_inv_change [OF inv(2), of "\<lambda>_. False"])
      (use nl health_slot_armed [OF inv(2)] in \<open>auto simp: tick_def emit_def\<close>)
  with inv(1) nl res show ?thesis by (simp add: svc_ok_def tick_def emit_def)
qed

subsection \<open>The callbacks as a client of the event loop\<close>

definition svc_cb :: "fn \<Rightarrow> nat \<Rightarrow> data_ptr option \<Rightarrow> svc \<Rightarrow> svc option" where
  "svc_cb f h ud w = (case f of
       Fn_service_monitor_cb \<Rightarrow> service_monitor_cb w
     | Fn_service_health_check_cb \<Rightarrow> service_health_check_cb w
     | Fn_service_delayed_spawn_cb \<Rightarrow> service_delayed_spawn_cb w
     | Fn_service_stop_wait_cb \<Rightarrow> (case ud of None \<Rightarrow> None | Some p \<Rightarrow> service_stop_wait_cb p w)
     | Fn_debounce_timer_cb \<Rightarrow> svc_debounce_cb w
     | _ \<Rightarrow> None)"

lemma client_step_armed:
  assumes "client_step now r r'" "loop_inv now r" "h < rx_next_id r"
  shows "armed r' h = None \<or> armed r' h = armed r h"
  using assms
proof (induction rule: client_step.induct)
  case (cs_add alloc t0 timeout interval cb ud r i r')
  have wf: "rx_timers_wf r" using cs_add(4) by (simp add: loop_inv_def)
  show ?case
  proof (cases i)
    case None
    then show ?thesis using cs_add(1) add_timer_fail by blast
  next
    case (Some j)
    then have "j = rx_next_id r" using cs_add(1) by (auto simp: reactor_add_timer_def Let_def split: if_splits)
    with add_timer_armed [OF wf] cs_add(1,5) Some show ?thesis by auto
  qed
next
  case (cs_cancel i r rc r')
  have wf: "rx_timers_wf r" using cs_cancel(2) by (simp add: loop_inv_def)
  show ?case
  proof (cases i)
    case None
    then show ?thesis using cs_cancel(1) by (simp add: reactor_cancel_timer_def)
  next
    case (Some j)
    then have "armed r j \<noteq> None" using cs_cancel(1) cancel_needs_live by blast
    from cancel_timer_armed [OF wf this] cs_cancel(1) Some show ?thesis by auto
  qed
next
  case (cs_other r' r)
  then have "all_timers r = all_timers r'" by (simp add: all_timers_def)
  then show ?case using armed_cong by metis
qed

lemma client_steps_armed:
  assumes "(client_step now)\<^sup>*\<^sup>* r r'" "loop_inv now r" "h < rx_next_id r"
  shows "armed r' h = None \<or> armed r' h = armed r h"
  using assms(1)
proof (induction rule: rtranclp_induct)
  case (step y z)
  have "loop_inv now y" "rx_next_id r \<le> rx_next_id y" using client_steps_inv [OF step(1) assms(2)] by simp_all
  with client_step_armed [OF step(2), of h] assms(3) step(3) show ?case by auto
qed simp

text \<open>The timer that fired goes away when no slot names it.\<close>

lemma svc_inv_remove:
  assumes inv: "svc_inv now a u"
    and slots: "sv_monitor_timer (sw_ctx u) \<noteq> Some h" "sv_retry_timer (sw_ctx u) \<noteq> Some h"
      "sv_health_timer (sw_ctx u) \<noteq> Some h" "nl_debounce_timer (sw_nl u) \<noteq> Some h"
  shows "svc_inv now (a(h := None)) u"
proof -
  have "slots_ok (a(h := None)) u"
  proof (rule slots_okI)
    show "(a(h := None)) i = Some monitor_as" if "sv_monitor_timer (sw_ctx u) = Some i" for i
      using that slots monitor_slot_armed [OF inv, of i] by auto
    show "(a(h := None)) i = Some retry_as" if "sv_retry_timer (sw_ctx u) = Some i" for i
      using that slots retry_slot_armed [OF inv, of i] by auto
    show "sv_retry_timer (sw_ctx u) = Some i" if "(a(h := None)) i = Some retry_as" for i
      using that retry_armed_slot [OF inv, of i] by (simp split: if_splits)
    show "\<exists>iv. iv \<noteq> 0 \<and> (a(h := None)) i = Some (health_as iv)" if "sv_health_timer (sw_ctx u) = Some i" for i
      using that slots health_slot_armed [OF inv, of i] by auto
    show "(a(h := None)) i = Some debounce_as" if "nl_debounce_timer (sw_nl u) = Some i" for i
      using that slots debounce_slot_armed [OF inv, of i] by auto
  qed
  moreover have "stop_timers_ok (a(h := None)) u"
    using inv unfolding svc_inv_def stop_timers_ok_def by (metis fun_upd_apply option.distinct(1))
  moreover have "known_timer x" if "(a(h := None)) i = Some x" for i x
    using that inv unfolding svc_inv_def by (metis fun_upd_apply option.distinct(1))
  ultimately show ?thesis using inv by (simp add: svc_inv_def)
qed

lemma popped_armed:
  assumes "loop_inv now r" "rx_popped r = Some t" "t_active t"
  shows "armed r (t_id t) = Some (t_callback t, t_userdata t, t_interval t)" "t_id t < rx_next_id r"
proof -
  have "t \<in> set (all_timers r)" using assms(2) by (simp add: in_all_timers)
  with assms show "armed r (t_id t) = Some (t_callback t, t_userdata t, t_interval t)" "t_id t < rx_next_id r"
    using armed_iff [of r "t_id t"] by (auto simp: loop_inv_def rx_timers_wf_def timer_ok_def)
qed

lemma svc_callback:
  assumes l: "loop_inv now r" and t: "rx_popped r = Some t" "t_active t" "t_callback t = Some f"
    and inv: "svc_inv now (armed r) u"
  shows "\<exists>r' u'. svc_cb f (t_id t) (t_userdata t) (r, u) = Some (r', u') \<and> (client_step now)\<^sup>*\<^sup>* r r'
    \<and> svc_inv now (if t_interval t = 0 then (armed r')(t_id t := None) else armed r') u'"
proof -
  let ?h = "t_id t"
  note arm = popped_armed [OF l t(1,2), unfolded t(3)]
  have ok: "svc_ok now (r, u)" using l inv by (simp add: svc_ok_def)
  have goodD: "\<exists>r' u'. res = Some (r', u') \<and> (client_step now)\<^sup>*\<^sup>* r r' \<and> svc_inv now (armed r') u'
      \<and> (armed r' ?h = None \<or> armed r' ?h = armed r ?h)" if "good now (r, u) res" for res
    using that client_steps_armed [OF _ l arm(2)] unfolding good_def svc_ok_def by fastforce
  have "known_timer (Some f, t_userdata t, t_interval t)" using arm(1) inv unfolding svc_inv_def by blast
  then consider (monitor) "(Some f, t_userdata t, t_interval t) = monitor_as"
    | (recheck) "(Some f, t_userdata t, t_interval t) = recheck_as"
    | (retry) "(Some f, t_userdata t, t_interval t) = retry_as"
    | (debounce) "(Some f, t_userdata t, t_interval t) = debounce_as"
    | (stop) p where "(Some f, t_userdata t, t_interval t) = stop_as p"
    | (health) iv where "iv \<noteq> 0" "(Some f, t_userdata t, t_interval t) = health_as iv"
    unfolding known_timer_def by auto
  then show ?thesis
  proof cases
    case monitor
    then show ?thesis using goodD [OF monitor_good [OF ok]] by (auto simp: monitor_as_def svc_cb_def)
  next
    case health
    then show ?thesis using goodD [OF health_good [OF ok]] by (auto simp: health_as_def svc_cb_def)
  next
    case recheck
    obtain r' u' where g: "service_monitor_cb (r, u) = Some (r', u')" "(client_step now)\<^sup>*\<^sup>* r r'" "svc_inv now (armed r') u'"
        "armed r' ?h = None \<or> armed r' ?h = Some recheck_as"
      using goodD [OF monitor_good [OF ok]] arm(1) recheck by auto
    have "svc_inv now ((armed r')(?h := None)) u'"
      using g(4) monitor_slot_armed [OF g(3), of ?h] retry_slot_armed [OF g(3), of ?h]
        health_slot_armed [OF g(3), of ?h] debounce_slot_armed [OF g(3), of ?h]
      by (intro svc_inv_remove [OF g(3)]) auto
    with g(1,2) recheck show ?thesis by (auto simp: recheck_as_def svc_cb_def)
  next
    case retry
    then have ns: "no_stops (armed r)" using arm(1) retry_armed_slot [OF inv, of ?h] no_stops_retry [OF inv] by simp
    note dg = delayed_spawn_good [OF ok ns]
    obtain r' u' where g: "service_delayed_spawn_cb (r, u) = Some (r', u')" "(client_step now)\<^sup>*\<^sup>* r r'" "svc_inv now (armed r') u'"
        "armed r' ?h = None \<or> armed r' ?h = Some retry_as"
      using goodD [OF conjunct1 [OF dg]] arm(1) retry by auto
    have "sv_retry_timer (sw_ctx u') \<noteq> Some ?h" using dg g(1) arm(2) by fastforce
    then have "svc_inv now ((armed r')(?h := None)) u'"
      using g(4) monitor_slot_armed [OF g(3), of ?h]
        health_slot_armed [OF g(3), of ?h] debounce_slot_armed [OF g(3), of ?h]
      by (intro svc_inv_remove [OF g(3)]) auto
    with g(1,2) retry show ?thesis by (auto simp: retry_as_def svc_cb_def)
  next
    case debounce
    obtain u' where g: "svc_debounce_cb (r, u) = Some (r, u')" "svc_inv now (armed r) u'" "nl_debounce_timer (sw_nl u') = None"
      using debounce_good [OF ok] by (auto simp: svc_ok_def)
    have "svc_inv now ((armed r)(?h := None)) u'"
      using g(3) arm(1) debounce monitor_slot_armed [OF g(2), of ?h] retry_slot_armed [OF g(2), of ?h]
        health_slot_armed [OF g(2), of ?h]
      by (intro svc_inv_remove [OF g(2)]) auto
    with g(1) debounce show ?thesis by (auto simp: debounce_as_def svc_cb_def)
  next
    case stop
    then show ?thesis using stop_wait_good [OF ok, of ?h p] arm(1) by (auto simp: stop_as_def svc_cb_def)
  qed
qed

interpretation svc_loop: timer_callbacks now "svc_inv now" svc_cb for now
proof (unfold_locales, goal_cases)
  case (1 r t f u)
  then show ?case by (rule svc_callback)
next
  case (2 a u h ud iv)
  then have "known_timer (None, ud, iv)" unfolding svc_inv_def by blast
  then show ?case by (auto simp: known_timer_def as_defs)
qed

text \<open>C14: the supervisor's timers are memory safe and consistent: a whole timer pass over its
  monitor, health, retry, stop and network-refresh callbacks returns, whatever the operating
  system answers to each of them, without ever using a freed timer handle or stop record, and
  afterwards every timer slot is empty or names a live timer with its own callback, the retry
  timer is armed exactly when its slot is set, and a pending stop excludes a retry.\<close>

theorem service_timers_safe:
  assumes "loop_inv now r" "rx_popped r = None" "svc_inv now (armed r) u"
  shows "\<exists>r' u'. process_expired_timers svc_cb now (r, u) = Some (r', u')
     \<and> loop_inv now r' \<and> rx_popped r' = None \<and> svc_inv now (armed r') u'
     \<and> (\<forall>t\<in>set (rx_timers r'). now < t_expires t)"
  using svc_loop.process_expired_total [OF assms] by blast

definition retrying_world :: svc_world where
  "retrying_world = \<lparr>sw_ctx = sample_ctx\<lparr>sv_state := SERVICE_FAILED, sv_retry_timer := Some 0\<rparr>,
     sw_stops = (\<lambda>_. None), sw_next = 1, sw_nl = nl_zero, sw_vpn = g_context, sw_os = (\<lambda>_. sample_os), sw_trace = []\<rparr>"

theorem service_timers_safe_witness:
  "\<exists>r r' u'. reactor_add_timer (True, True) 0 1000 0 (Some Fn_service_delayed_spawn_cb) (Some SVC) reactor_zero = (Some 0, r)
     \<and> process_expired_timers svc_cb 2000 (r, retrying_world) = Some (r', u') \<and> svc_inv 2000 (armed r') u'"
proof -
  define r where "r = snd (reactor_add_timer (True, True) 0 1000 0 (Some Fn_service_delayed_spawn_cb) (Some SVC) reactor_zero)"
  have a: "reactor_add_timer (True, True) 0 1000 0 (Some Fn_service_delayed_spawn_cb) (Some SVC) reactor_zero = (Some 0, r)"
    by (simp add: r_def reactor_add_timer_def Let_def reactor_zero_def)
  have wf0: "rx_timers_wf reactor_zero" by (simp add: rx_timers_wf_def reactor_zero_def all_timers_def)
  then have wf: "rx_timers_wf r" using a by (metis add_timer_wf)
  have pop: "rx_popped r = None" "loop_inv 2000 r"
    using wf by (simp_all add: loop_inv_def r_def reactor_add_timer_def Let_def reactor_zero_def all_timers_def timer_list_insert_def)
  have "armed reactor_zero = (\<lambda>_. None)"
    by (simp add: fun_eq_iff armed_def find_timer_def reactor_zero_def all_timers_def)
  then have arm: "armed r = [0 \<mapsto> retry_as]"
    using add_timer_armed [OF wf0 a] by (simp add: retry_as_def)
  have "svc_inv 2000 (armed r) retrying_world"
    unfolding svc_inv_def arm
    by (auto simp: os_ok_def retrying_world_def sample_ctx_def sample_os_def slots_ok_def stop_timers_ok_def
        known_timer_def slot_ok_def nl_zero_def backoff_ok_def backoff_init_def INT_MAX_def as_defs split: if_splits
        intro!: exI [of _ "[]"])
  from service_timers_safe [OF pop(2,1) this] a show ?thesis by blast
qed

end
