(* ===== verification/Service_Props.thy ===== *)
theory Service_Props
  imports Service_Inv
begin

text \<open>
  What the supervisor guarantees: it only ever signals processes, it is running only after a
  successful probe of a live child, a synchronous stop leaves nothing behind, a configuration
  is applied completely or not at all, and waiting for readiness ends.
\<close>

subsection \<open>Signals\<close>

text \<open>A step that adds events to the trace, signals only positive process ids (\<open>kill\<close> with
  0 or a negative number reaches whole process groups), and takes its answers from the front of
  the system's.\<close>

definition signals_ok :: "svc_world \<Rightarrow> svc_world \<Rightarrow> bool" where
  "signals_ok u u' \<longleftrightarrow> (\<exists>es. sw_trace u' = sw_trace u @ es \<and> (\<forall>p s. E_kill p s \<in> set es \<longrightarrow> 0 < p))
     \<and> (\<exists>j. sw_os u' = (\<lambda>i. sw_os u (i + j)))"

lemma signals_refl [simp]: "signals_ok u u"
  by (auto simp: signals_ok_def intro: exI [of _ 0])

lemma signals_trans:
  assumes "signals_ok u v" "signals_ok v w"
  shows "signals_ok u w"
proof -
  obtain es where es: "sw_trace v = sw_trace u @ es" "\<forall>p s. E_kill p s \<in> set es \<longrightarrow> 0 < p"
    using assms(1) unfolding signals_ok_def by blast
  obtain fs where fs: "sw_trace w = sw_trace v @ fs" "\<forall>p s. E_kill p s \<in> set fs \<longrightarrow> 0 < p"
    using assms(2) unfolding signals_ok_def by blast
  have "sw_trace w = sw_trace u @ (es @ fs)" "\<forall>p s. E_kill p s \<in> set (es @ fs) \<longrightarrow> 0 < p" using es fs by auto
  moreover obtain j k where "sw_os v = (\<lambda>i. sw_os u (i + j))" "sw_os w = (\<lambda>i. sw_os v (i + k))"
    using assms unfolding signals_ok_def by blast
  then have "sw_os w = (\<lambda>i. sw_os u (i + (k + j)))" by (simp add: add.assoc)
  ultimately show ?thesis unfolding signals_ok_def by blast
qed

lemma signals_tickI: "signals_ok u v \<Longrightarrow> signals_ok u (tick v)"
proof (erule signals_trans)
  show "signals_ok v (tick v)" by (auto simp: signals_ok_def tick_def intro: exI [of _ 1])
qed

lemma signals_updI: "signals_ok u v \<Longrightarrow> signals_ok u (upd_ctx f v)"
  by (simp add: signals_ok_def)

lemma signals_updL [simp]: "signals_ok (upd_ctx f u) v = signals_ok u v"
  by (simp add: signals_ok_def)

lemma signals_emitI:
  "signals_ok u v \<Longrightarrow> (\<And>p s. E_kill p s \<in> set es \<Longrightarrow> 0 < p) \<Longrightarrow> signals_ok u (emit es v)"
proof -
  assume a: "signals_ok u v" "\<And>p s. E_kill p s \<in> set es \<Longrightarrow> 0 < p"
  have "signals_ok v (emit es v)" using a(2) unfolding signals_ok_def emit_def by (auto intro: exI [of _ 0])
  with a(1) show ?thesis by (rule signals_trans)
qed

lemma signals_forgetI: "signals_ok u v \<Longrightarrow> signals_ok u (forget_child v)"
  unfolding forget_child_def by (rule signals_updI)

lemma signals_unlinkI: "signals_ok u v \<Longrightarrow> signals_ok u (service_unlink_pid v)"
  unfolding service_unlink_pid_def by (erule signals_emitI) simp

lemma signals_reapI: "signals_ok u v \<Longrightarrow> 0 < p \<Longrightarrow> signals_ok u (kill_and_reap p v)"
  unfolding kill_and_reap_def by (erule signals_emitI) auto

lemma signals_nlI: "signals_ok u v \<Longrightarrow> signals_ok u (v\<lparr>sw_nl := nl\<rparr>)"
  by (simp add: signals_ok_def)

lemma signals_stopsI: "signals_ok u v \<Longrightarrow> signals_ok u (v\<lparr>sw_stops := f\<rparr>)"
  by (simp add: signals_ok_def)

lemma signals_markI: "signals_ok u v \<Longrightarrow> signals_ok u (mark_stopped v)"
  unfolding mark_stopped_def by (intro signals_unlinkI signals_updI signals_forgetI)

lemma signals_freeI: "signals_ok u v \<Longrightarrow> signals_ok u (free_stop p v)"
  unfolding free_stop_def by (rule signals_stopsI)

lemma signals_countI: "signals_ok u v \<Longrightarrow> signals_ok u (count_failure v)"
  unfolding count_failure_def by (intro signals_tickI signals_updI)

lemmas signals_intros = signals_refl signals_tickI signals_updI signals_forgetI signals_unlinkI
  signals_nlI signals_stopsI signals_markI signals_freeI signals_countI


lemma signals_is_alive: "service_is_alive u = (b, u1) \<Longrightarrow> signals_ok u u1"
  by (auto simp: service_is_alive_def intro: signals_intros)

lemma tick_ctx [simp]: "sw_ctx (tick u) = sw_ctx u" "sw_trace (tick u) = sw_trace u"
  by (simp_all add: tick_def)

lemma signals_child_alive:
  "service_starting_child_alive u = (b, u1) \<Longrightarrow> signals_ok u u1"
  by (auto simp: service_starting_child_alive_def service_is_alive_def Let_def
      intro!: signals_intros signals_emitI split: if_splits wait_answer.splits)

lemma child_alive_True:
  "service_starting_child_alive u = (True, u1) \<Longrightarrow>
     sw_ctx u1 = sw_ctx u \<and> 0 < sv_child_pid (sw_ctx u1) \<and> range (sw_os u1) \<subseteq> range (sw_os u)"
  by (auto simp: service_starting_child_alive_def service_is_alive_def alive_now_def Let_def tick_def
      split: if_splits wait_answer.splits)

lemma signals_probe: "service_probe_native_api u = (b, u1) \<Longrightarrow> signals_ok u u1"
  by (auto simp: service_probe_native_api_def Let_def dest!: signals_child_alive
      intro: signals_tickI signals_trans split: if_splits option.splits prod.splits)

lemma signals_spawn_parent: "spawn_parent p u = (rc, u1) \<Longrightarrow> 0 < p \<Longrightarrow> signals_ok u u1"
  by (auto simp: spawn_parent_def Let_def intro!: signals_intros signals_emitI signals_reapI
      split: option.splits if_splits)

lemma signals_rotate: "signals_ok u (service_rotate_log u)"
  by (auto simp: service_rotate_log_def Let_def intro!: signals_intros signals_emitI split: option.splits)

lemma signals_mkdir: "do_mkdir path u = (b, u1) \<Longrightarrow> signals_ok u u1"
  by (auto simp: do_mkdir_def intro!: signals_intros signals_emitI)

lemma signals_spawn: "service_spawn u = (rc, u') \<Longrightarrow> signals_ok u u'"
proof -
  assume a: "service_spawn u = (rc, u')"
  define u1 where "u1 = service_rotate_log (tick u)"
  have k1: "signals_ok u u1" unfolding u1_def using signals_rotate signals_tickI signals_refl signals_trans by blast
  obtain b2 u2 where w2: "(if sv_work_dir (sw_ctx u1) \<noteq> [] then do_mkdir (sv_work_dir (sw_ctx u1)) u1 else (False, u1)) = (b2, u2)"
    by fastforce
  then have k2: "signals_ok u u2" using k1 by (metis signals_mkdir signals_trans prod.inject)
  obtain b3 u3 where w3: "(case c_strrchr (CHR ''/'') (sv_pid_path (sw_ctx u1)) of None \<Rightarrow> (False, u2)
      | Some (dir, _) \<Rightarrow> do_mkdir dir u2) = (b3, u3)" by fastforce
  then have k3: "signals_ok u u3" using k2 by (auto split: option.splits dest!: signals_mkdir intro: signals_trans)
  from a show ?thesis
    unfolding service_spawn_def Let_def u1_def [symmetric] w2 prod.case w3
    using k2 k3 by (auto split: if_splits dest!: signals_spawn_parent intro: signals_tickI signals_trans)
qed

lemma signals_breaker: "breaker_allows u = (b, u1) \<Longrightarrow> signals_ok u u1"
  by (auto simp: breaker_allows_def intro!: signals_intros split: prod.splits)

lemma signals_wait_loop: "stop_wait_loop n p u = (a, b, u') \<Longrightarrow> signals_ok u u'"
proof (induction n arbitrary: u)
  case (Suc n)
  have IH: "signals_ok u u'" if "stop_wait_loop n p (tick u) = (a, b, u')"
    using Suc.IH [OF that] signals_tickI [OF signals_refl] by (rule signals_trans [rotated])
  from Suc.prems show ?case
    by (auto simp: Let_def intro!: signals_tickI signals_emitI dest: IH split: wait_answer.splits if_splits)
qed simp

lemma signals_stop_child: "stop_child u = (rc, u') \<Longrightarrow> signals_ok u u'"
proof -
  assume a: "stop_child u = (rc, u')"
  show ?thesis
  proof (cases "sv_child_pid (sw_ctx u) \<le> 0")
    case False
    let ?p = "sv_child_pid (sw_ctx u)"
    let ?v = "tick (emit [E_kill ?p SIGTERM] u)"
    have v: "signals_ok u ?v" using False by (auto intro!: signals_intros signals_emitI)
    obtain x y u1 where l: "stop_wait_loop (nat (if 0 < sv_stop_timeout_sec (sw_ctx u) then sv_stop_timeout_sec (sw_ctx u) * 10
        else 10)) ?p ?v = (x, y, u1)" by (metis prod_cases3)
    have u1: "signals_ok u u1" using v signals_wait_loop [OF l] by (rule signals_trans)
    have "u' = u1 \<or> u' = tick (kill_and_reap ?p u1)"
      using a False l by (auto simp: stop_child_def Let_def split: if_splits)
    then show ?thesis using u1 False by (auto intro!: signals_tickI signals_reapI)
  qed (use a in \<open>auto simp: stop_child_def\<close>)
qed

lemma signals_cancel: "svc_cancel slot w = Some w' \<Longrightarrow> snd w' = snd w"
  by (auto simp: svc_cancel_def split: if_splits)

lemma signals_add: "svc_add_timer t i f p w = (h, w') \<Longrightarrow> signals_ok (snd w) (snd w') \<and> sw_ctx (snd w') = sw_ctx (snd w)"
  by (auto simp: svc_add_timer_def Let_def intro!: signals_tickI split: if_splits prod.splits)

lemma signals_retry:
  "service_schedule_retry w = Some w' \<Longrightarrow> signals_ok (snd w) (snd w') \<and> sv_state (sw_ctx (snd w')) \<in> {sv_state (sw_ctx (snd w)), SERVICE_FAILED}"
proof -
  assume a: "service_schedule_retry w = Some w'"
  obtain d b where b: "backoff_next (sv_backoff (sw_ctx (snd w))) = (d, b)" by fastforce
  let ?v = "upd_ctx (\<lambda>c. c\<lparr>sv_backoff := b\<rparr>) (snd w)"
  from a obtain r1 u1 where c: "svc_cancel (sv_retry_timer (sw_ctx (snd w))) (fst w, ?v) = Some (r1, u1)"
    by (auto simp: service_schedule_retry_def b elim!: bind_SomeE)
  then have u1: "u1 = ?v" by (auto dest: signals_cancel)
  obtain h r2 u2 where t: "svc_add_timer (word_of_int d) 0 Fn_service_delayed_spawn_cb SVC (r1, u1) = (h, r2, u2)"
    by (metis prod_cases3)
  have w': "w' = (r2, upd_ctx (\<lambda>c. c\<lparr>sv_retry_timer := h, sv_state := (if h = None then SERVICE_FAILED else sv_state c)\<rparr>) u2)"
    using a by (simp add: service_schedule_retry_def b c t)
  have "signals_ok (snd w) u2" "sw_ctx u2 = sw_ctx u1"
    using signals_add [OF t] signals_updI [OF signals_refl] u1 by (auto intro: signals_trans)
  then show ?thesis unfolding w' u1 by (auto intro!: signals_updI)
qed

lemma signals_give_up:
  "retry_or_give_up w = Some w' \<Longrightarrow> signals_ok (snd w) (snd w') \<and> sv_state (sw_ctx (snd w')) \<in> {sv_state (sw_ctx (snd w)), SERVICE_FAILED}"
  by (auto simp: retry_or_give_up_def dest: signals_retry intro!: signals_updI split: if_splits)

lemma signals_stop_sync:
  "service_stop_sync w = Some (rc, w') \<Longrightarrow> signals_ok (snd w) (snd w') \<and> sv_state (sw_ctx (snd w')) = SERVICE_STOPPED"
proof -
  assume "service_stop_sync w = Some (rc, w')"
  then obtain r1 u1 u2 where c: "cancel_all (fst w, upd_ctx (\<lambda>c. c\<lparr>sv_state := SERVICE_STOPPING\<rparr>) (snd w)) = Some (r1, u1)"
      "stop_child u1 = (rc, u2)" "w' = (r1, mark_stopped u2)"
    by (auto simp: service_stop_sync_def elim!: bind_SomeE split: prod.splits)
  have "sw_trace u1 = sw_trace (snd w)" "sw_os u1 = sw_os (snd w)"
    using c(1) by (auto simp: cancel_all_def elim!: bind_SomeE dest!: signals_cancel split: if_splits)
  then have "signals_ok (snd w) u1" by (auto simp: signals_ok_def intro: exI [of _ 0])
  with signals_stop_child [OF c(2)] c(3) show ?thesis by (auto intro: signals_markI signals_trans)
qed

subsection \<open>Running only after a probe\<close>

text \<open>The system answered a status request with the configured host, port and secret.\<close>

definition probed :: "svc_world \<Rightarrow> bool" where
  "probed u \<longleftrightarrow> (\<exists>pc. sv_validate_ctx (sw_ctx u) = Some pc \<and> (\<exists>k\<in>range (sw_os u). os_native_status k
     (pr_host pc, if 0 < sv_api_port (sw_ctx u) then sv_api_port (sw_ctx u) else DEFAULT_API_PORT, pr_secret pc)))"

lemma probed_mono:
  "probed u' \<Longrightarrow> sv_validate_ctx (sw_ctx u') = sv_validate_ctx (sw_ctx u) \<Longrightarrow> sv_api_port (sw_ctx u') = sv_api_port (sw_ctx u)
    \<Longrightarrow> range (sw_os u') \<subseteq> range (sw_os u) \<Longrightarrow> probed u"
  unfolding probed_def by (metis subset_iff)

lemma probe_probed: "service_probe_native_api u = (True, u1) \<Longrightarrow> probed u \<and> 0 < sv_child_pid (sw_ctx u1)"
proof -
  assume a: "service_probe_native_api u = (True, u1)"
  obtain b v where v: "service_starting_child_alive u = (b, v)" by fastforce
  with a have b: "b" by (auto simp: service_probe_native_api_def split: if_splits)
  note av = child_alive_True [OF v [unfolded b [THEN eqTrueI]]]
  let ?port = "if 0 < sv_api_port (sw_ctx v) then sv_api_port (sw_ctx v) else DEFAULT_API_PORT"
  from a v b obtain pc where pc: "sv_validate_ctx (sw_ctx v) = Some pc" "os_native_status (os_now v) (pr_host pc, ?port, pr_secret pc)"
      "service_starting_child_alive (tick v) = (True, u1)"
    by (auto simp: service_probe_native_api_def Let_def split: if_splits option.splits)
  have "os_now v \<in> range (sw_os u)" using av by (auto simp: os_now_def)
  with pc av child_alive_True [OF pc(3)] show ?thesis unfolding probed_def by auto
qed

text \<open>What a step from \<open>u\<close> to \<open>u'\<close> may do to the running state.\<close>

definition run_ok :: "svc_world \<Rightarrow> svc_world \<Rightarrow> bool" where
  "run_ok u u' \<longleftrightarrow> sv_state (sw_ctx u') = SERVICE_RUNNING \<and> sv_state (sw_ctx u) \<noteq> SERVICE_RUNNING
     \<longrightarrow> sv_state (sw_ctx u) = SERVICE_STARTING \<and> probed u"

lemma run_okI: "sv_state (sw_ctx u') \<noteq> SERVICE_RUNNING \<or> sv_state (sw_ctx u') = sv_state (sw_ctx u) \<Longrightarrow> run_ok u u'"
  by (auto simp: run_ok_def)

lemma keeps_state: "keeps u u' \<Longrightarrow> sv_state (sw_ctx u') = sv_state (sw_ctx u)"
  by (simp add: keeps_def same_ctl_def)

text \<open>The last part of \<open>monitor_ready\<close>: the health timer is armed again.\<close>

definition monitor_health :: "svc \<Rightarrow> svc option" where
  "monitor_health w =
     (let c = sw_ctx (snd w) in
      if 0 < sv_health_check_interval_ms c then do {
        (r2, u2) \<leftarrow> svc_cancel (sv_health_timer c) w;
        (case svc_add_timer (word_of_int (sv_health_check_interval_ms (sw_ctx u2)))
                (word_of_int (sv_health_check_interval_ms (sw_ctx u2)))
                Fn_service_health_check_cb SVC (r2, u2) of
           (h, r3, u3) \<Rightarrow>
             Some (r3, upd_ctx (\<lambda>c. c\<lparr>sv_health_timer := h,
                     sv_state := (if h = None then SERVICE_FAILED else sv_state c)\<rparr>) u3))
      } else Some w)"

lemma signals_health: "monitor_health w = Some w' \<Longrightarrow> signals_ok (snd w) (snd w')"
  by (auto simp: monitor_health_def Let_def elim!: bind_SomeE dest!: signals_cancel signals_add
      intro!: signals_updI split: if_splits prod.splits)

lemma signals_ready:
  assumes "monitor_ready w = Some w'"
  shows "signals_ok (snd w) (snd w')"
proof -
  define v where "v = tick (upd_ctx (\<lambda>c. c\<lparr>sv_state := SERVICE_RUNNING, sv_fail_count := 0, sv_running_healthy := True,
                sv_last_health_check := os_time (os_now (snd w)), sv_backoff := backoff_reset (sv_backoff c),
                sv_breaker := circuit_breaker_record_success (sv_breaker c)\<rparr>) (snd w))"
  have v: "signals_ok (snd w) v" unfolding v_def by (intro signals_tickI signals_updI signals_refl)
  have "signals_ok v (snd w')"
  proof (cases "sv_reactor (sw_ctx v)")
    case False
    then have "w' = (fst w, v)" using assms by (simp add: monitor_ready_def Let_def flip: v_def)
    then show ?thesis by simp
  next
    case True
    let ?refresh = "netlink_refresh_state (os_alloc (os_now v)) (os_mono (os_now v)) True (fst w, sw_nl v)"
    have eq: "monitor_ready w = ?refresh \<bind> (\<lambda>(r1, nl). monitor_health (r1, tick (v\<lparr>sw_nl := nl\<rparr>)))"
      using True unfolding monitor_ready_def Let_def v_def [symmetric] monitor_health_def fst_conv snd_conv by simp
    then obtain r1 nl where rf: "?refresh = Some (r1, nl)" using assms by (cases ?refresh) auto
    have "monitor_health (r1, tick (v\<lparr>sw_nl := nl\<rparr>)) = Some w'" using eq rf assms by simp
    then have "signals_ok (tick (v\<lparr>sw_nl := nl\<rparr>)) (snd w')" using signals_health by fastforce
    moreover have "signals_ok v (tick (v\<lparr>sw_nl := nl\<rparr>))" by (intro signals_tickI signals_nlI signals_refl)
    ultimately show ?thesis by (blast intro: signals_trans)
  qed
  with v show ?thesis by (rule signals_trans)
qed

lemma signals_alive:
  assumes "monitor_alive w = Some w'" "0 < sv_child_pid (sw_ctx (snd w))" "sv_state (sw_ctx (snd w)) = SERVICE_STARTING"
  shows "signals_ok (snd w) (snd w') \<and> run_ok (snd w) (snd w')"
proof -
  let ?u = "snd w"
  define u1 where "u1 = (if sv_validated_pid (sw_ctx ?u) then ?u
                else if validate_process (os_now ?u) (sw_ctx ?u) (sv_child_pid (sw_ctx ?u))
                then tick (upd_ctx (\<lambda>c. c\<lparr>sv_validated_pid := True\<rparr>) ?u)
                else tick (upd_ctx (\<lambda>c. c\<lparr>sv_child_pid := -1\<rparr>) (kill_and_reap (sv_child_pid (sw_ctx ?u)) ?u)))"
  have s1: "signals_ok ?u u1" using assms(2) by (auto simp: u1_def intro!: signals_intros signals_reapI)
  have k1: "keeps ?u u1" by (auto simp: u1_def same_ctl_def intro!: keeps_intros keeps_updI)
  have c1: "probed u1 \<Longrightarrow> probed ?u"
    by (auto simp: u1_def probed_def kill_and_reap_def emit_def tick_def split: if_splits)
  obtain b u2 where pr: "service_probe_native_api u1 = (b, u2)" by fastforce
  have s2: "signals_ok ?u u2" using s1 signals_probe [OF pr] by (rule signals_trans)
  have k2: "keeps ?u u2" using k1 keeps_probe [OF pr] by (rule keeps_trans)
  have eq: "monitor_alive w = (if \<not> sv_validated_pid (sw_ctx u1) then Some (fst w, u1)
      else if b then monitor_ready (fst w, u2) else Some (fst w, u2))"
    by (simp add: monitor_alive_def Let_def pr flip: u1_def)
  show ?thesis
  proof (cases "sv_validated_pid (sw_ctx u1) \<and> b")
    case True
    then have "monitor_ready (fst w, u2) = Some w'" using assms(1) eq by simp
    from signals_ready [OF this] s2 have "signals_ok ?u (snd w')" by (auto intro: signals_trans)
    moreover have "run_ok ?u (snd w')"
      using probe_probed pr True c1 assms(3) by (auto simp: run_ok_def)
    ultimately show ?thesis ..
  next
    case False
    then have "w' = (fst w, u1) \<or> w' = (fst w, u2)" using assms(1) eq by (auto split: if_splits)
    then show ?thesis using s1 s2 keeps_state [OF k1] keeps_state [OF k2] by (auto intro!: run_okI)
  qed
qed

lemma nested_if_cases:
  assumes "(if P then (if Q then x1 else x2) else if b then x3 else x4) = y"
  obtains "x1 = y" | "x2 = y" | "b" "x3 = y" | "x4 = y"
  using assms by (auto split: if_splits)

lemma signals_monitor:
  assumes a: "service_monitor_cb w = Some w'"
  shows "signals_ok (snd w) (snd w') \<and> run_ok (snd w) (snd w')"
proof (cases "sv_state (sw_ctx (snd w))")
  case SERVICE_STARTING
  let ?u = "snd w" and ?c = "sw_ctx (snd w)"
  define u1 where "u1 = tick (if 0 < sv_child_pid ?c then emit [E_kill (sv_child_pid ?c) SIGKILL] ?u else ?u)"
  define u2 where "u2 = count_failure (upd_ctx (\<lambda>c. c\<lparr>sv_state := SERVICE_FAILED\<rparr>) u1)"
  have s2: "signals_ok ?u u2" unfolding u2_def u1_def by (auto intro!: signals_intros signals_emitI)
  have st2: "sv_state (sw_ctx u2) = SERVICE_FAILED" by (simp add: u2_def count_failure_def)
  obtain b u3 where u3: "service_starting_child_alive (tick ?u) = (b, u3)" by fastforce
  have s3: "signals_ok ?u u3"
    using signals_child_alive [OF u3] signals_tickI [OF signals_refl] by (rule signals_trans [rotated])
  have st3: "sv_state (sw_ctx u3) = SERVICE_STARTING" "sv_state (sw_ctx (count_failure u3)) = SERVICE_STARTING"
    using keeps_state [OF keeps_child_alive [OF u3]] SERVICE_STARTING by (simp_all add: count_failure_def)
  have eq: "service_monitor_cb w = (if 0 < sv_start_time_ms ?c \<and> start_timeout_ms ?c \<le> os_mono (os_now ?u) - sv_start_time_ms ?c
      then (if sv_reactor (sw_ctx u2) \<and> sv_fail_count (sw_ctx u2) < sv_max_failures (sw_ctx u2)
            then service_schedule_retry (fst w, u2) else Some (fst w, u2))
      else if b then monitor_alive (fst w, u3) else retry_or_give_up (fst w, count_failure u3))"
    using SERVICE_STARTING by (simp add: service_monitor_cb_def monitor_starting_def Let_def u3 flip: u1_def u2_def)
  consider "service_schedule_retry (fst w, u2) = Some w'" | "Some (fst w, u2) = Some w'"
    | "b" "monitor_alive (fst w, u3) = Some w'" | "retry_or_give_up (fst w, count_failure u3) = Some w'"
    using a unfolding eq by (rule nested_if_cases)
  then show ?thesis
  proof cases
    case 1
    then show ?thesis using signals_retry [OF 1] s2 st2 by (auto intro: signals_trans intro!: run_okI)
  next
    case 2
    then show ?thesis using s2 st2 by (auto intro!: run_okI)
  next
    case 3
    note al = child_alive_True [of "tick ?u" u3, OF u3 [unfolded 3(1) [THEN eqTrueI]]]
    have "range (sw_os u3) \<subseteq> range (sw_os ?u)" using al keeps_tick [of ?u] by (auto simp: keeps_def)
    then have p: "0 < sv_child_pid (sw_ctx u3)" "probed u3 \<Longrightarrow> probed ?u"
      using al by (auto intro: probed_mono)
    have "signals_ok u3 (snd w') \<and> run_ok u3 (snd w')" using signals_alive [OF 3(2)] p(1) st3 by simp
    then show ?thesis using s3 p(2) st3 SERVICE_STARTING by (auto intro: signals_trans simp: run_ok_def)
  next
    case 4
    then show ?thesis
      using signals_give_up [OF 4] signals_countI [OF s3] st3 by (auto intro: signals_trans intro!: run_okI)
  qed
next
  case SERVICE_RUNNING
  obtain b u1 where u1: "service_is_alive (snd w) = (b, u1)" by fastforce
  let ?f = "count_failure (upd_ctx (\<lambda>c. c\<lparr>sv_state := SERVICE_FAILED\<rparr>) u1)"
  have s: "signals_ok (snd w) u1" "signals_ok (snd w) ?f"
    using signals_is_alive [OF u1] by (auto intro!: signals_countI signals_updI)
  from a SERVICE_RUNNING u1 have "w' = (fst w, u1) \<or> retry_or_give_up (fst w, ?f) = Some w'"
    by (auto simp: service_monitor_cb_def split: if_splits)
  then show ?thesis using s SERVICE_RUNNING signals_give_up [of "(fst w, ?f)" w'] by (auto simp: run_ok_def intro: signals_trans)
next
  case SERVICE_FAILED
  then show ?thesis
    using a signals_retry [of w w'] by (auto simp: service_monitor_cb_def Let_def intro!: run_okI split: if_splits)
qed (use a in \<open>auto simp: service_monitor_cb_def run_ok_def\<close>)

lemma signals_delayed:
  assumes a: "service_delayed_spawn_cb w = Some w'"
  shows "signals_ok (snd w) (snd w') \<and> run_ok (snd w) (snd w')"
proof (cases "sv_state (sw_ctx (snd w)) = SERVICE_STOPPED")
  case True
  then show ?thesis using a by (simp add: service_delayed_spawn_cb_def run_ok_def)
next
  case False
  then obtain r1 u1 where c: "svc_cancel (sv_retry_timer (sw_ctx (snd w))) w = Some (r1, u1)"
    using a by (auto simp: service_delayed_spawn_cb_def elim!: bind_SomeE)
  then have "u1 = snd w" by (auto dest: signals_cancel)
  define u2 where "u2 = upd_ctx (\<lambda>c. c\<lparr>sv_retry_timer := None\<rparr>) (snd w)"
  obtain ok u3 where u3: "breaker_allows u2 = (ok, u3)" by fastforce
  obtain rc u4 where u4: "service_spawn u3 = (rc, u4)" by fastforce
  have s2: "signals_ok (snd w) u2" by (simp add: u2_def signals_updI)
  have s3: "signals_ok (snd w) u3" using s2 signals_breaker [OF u3] by (rule signals_trans)
  have s4: "signals_ok (snd w) u4" using s3 signals_spawn [OF u4] by (rule signals_trans)
  have st: "sv_state (sw_ctx u3) = sv_state (sw_ctx (snd w))" "sv_state (sw_ctx u4) = sv_state (sw_ctx (snd w))"
    using keeps_state [OF keeps_breaker [OF u3]] keeps_state [OF keeps_spawn [OF u4]] by (simp_all add: u2_def)
  obtain h w5 where t: "svc_add_timer 100 0 Fn_service_monitor_cb SVC (r1, upd_ctx (\<lambda>c. c\<lparr>sv_state := SERVICE_STARTING\<rparr>) u4) = (h, w5)"
    using prod.exhaust by blast
  have "service_delayed_spawn_cb w = (if \<not> ok then service_schedule_retry (r1, u3)
      else if rc = 0 then Some w5 else retry_or_give_up (r1, count_failure u4))"
    using False c u3 u4 t \<open>u1 = snd w\<close> by (simp add: service_delayed_spawn_cb_def flip: u2_def)
  with a consider "service_schedule_retry (r1, u3) = Some w'" | "w' = w5" | "retry_or_give_up (r1, count_failure u4) = Some w'"
    by (cases "\<not> ok"; cases "rc = 0") simp_all
  then show ?thesis
  proof cases
    case 1
    then show ?thesis using signals_retry [OF 1] s3 st by (auto intro: signals_trans intro!: run_okI)
  next
    case 2
    then show ?thesis using signals_add [OF t] s4 by (auto intro: signals_trans intro!: run_okI)
  next
    case 3
    have "sv_state (sw_ctx (count_failure u4)) = sv_state (sw_ctx (snd w))" using st by (simp add: count_failure_def)
    then show ?thesis using signals_give_up [OF 3] signals_countI [OF s4] by (auto intro: signals_trans intro!: run_okI)
  qed
qed

lemma signals_health_check:
  assumes "service_health_check_cb w = Some w'"
  shows "signals_ok (snd w) (snd w') \<and> run_ok (snd w) (snd w')"
proof -
  obtain b u1 where u1: "service_is_alive (snd w) = (b, u1)" by fastforce
  have "signals_ok (snd w) u1" "sv_state (sw_ctx u1) = sv_state (sw_ctx (snd w))"
    using signals_is_alive [OF u1] keeps_state [OF keeps_is_alive [OF u1]] by simp_all
  with assms u1 show ?thesis
    by (auto simp: service_health_check_cb_def Let_def intro!: signals_tickI signals_updI run_okI split: if_splits)
qed

lemma signals_sigchld:
  assumes "service_sigchld_cb w = Some w'"
  shows "signals_ok (snd w) (snd w') \<and> run_ok (snd w) (snd w')"
proof -
  let ?c = "sw_ctx (snd w)" and ?u = "snd w"
  define waited where "waited = (if 0 < sv_child_pid ?c
      then (case os_wait (os_now ?u) (sv_child_pid ?c) of W_nothing \<Rightarrow> 0 | W_pid q _ \<Rightarrow> q | W_err _ \<Rightarrow> -1) else 0)"
  define u1 where "u1 = service_unlink_pid (upd_ctx (\<lambda>c. c\<lparr>sv_running_healthy := False\<rparr>)
                       (forget_child (if 0 < sv_child_pid ?c then emit [E_reap (sv_child_pid ?c)] (tick ?u) else tick ?u)))"
  define u2 where "u2 = tick (upd_ctx (\<lambda>c. c\<lparr>sv_state := SERVICE_FAILED,
                        sv_breaker := circuit_breaker_record_failure (os_time (os_now u1)) (sv_breaker c)\<rparr>) u1)"
  define u3 where "u3 = upd_ctx (\<lambda>c. c\<lparr>sv_fail_count := sv_fail_count c + 1\<rparr>) u2"
  have s1: "signals_ok ?u u1"
    unfolding u1_def by (auto intro!: signals_unlinkI signals_updI signals_forgetI signals_emitI signals_tickI)
  have s2: "signals_ok ?u u2" "signals_ok ?u u3" unfolding u2_def u3_def using s1 by (auto intro!: signals_tickI signals_updI)
  have st: "sv_state (sw_ctx u1) = sv_state ?c" "sv_state (sw_ctx u2) = SERVICE_FAILED" "sv_state (sw_ctx u3) = SERVICE_FAILED"
    by (simp_all add: u1_def u2_def u3_def service_unlink_pid_def forget_child_def emit_def)
  have "service_sigchld_cb w = (if waited \<noteq> sv_child_pid ?c then Some (fst w, tick ?u)
      else if sv_state ?c = SERVICE_RUNNING \<or> sv_state ?c = SERVICE_STARTING
      then (if sv_reactor (sw_ctx u2) \<and> sv_fail_count (sw_ctx u2) < sv_max_failures (sw_ctx u2)
            then service_schedule_retry (fst w, u3) else Some (fst w, u2))
      else Some (fst w, u1))"
    unfolding service_sigchld_cb_def Let_def waited_def u3_def u2_def u1_def by (rule refl)
  with assms consider "w' = (fst w, tick ?u)" | "service_schedule_retry (fst w, u3) = Some w'" | "w' = (fst w, u2)" | "w' = (fst w, u1)"
    by (metis option.inject)
  then show ?thesis
  proof cases
    case 2
    then show ?thesis using signals_retry [OF 2] s2(2) st(3) by (auto intro: signals_trans intro!: run_okI)
  qed (use s1 s2 st in \<open>auto intro!: run_okI signals_tickI\<close>)
qed

lemma alive_True: "service_is_alive u = (True, u1) \<Longrightarrow> 0 < sv_child_pid (sw_ctx u1)"
  by (auto simp: service_is_alive_def alive_now_def split: if_splits)

lemma done_no_kill: "E_kill p s \<in> set (done_events st) \<Longrightarrow> 0 < p"
  by (simp add: done_events_def split: option.splits)

lemma stopped_state [simp]: "sv_state (sw_ctx (free_stop p (emit es (mark_stopped u)))) = SERVICE_STOPPED"
  by (simp add: free_stop_def emit_def)

lemma signals_stop_wait:
  assumes "service_stop_wait_cb p w = Some w'"
  shows "signals_ok (snd w) (snd w') \<and> run_ok (snd w) (snd w')"
proof -
  obtain st where st: "sw_stops (snd w) p = Some st" using assms by (auto simp: service_stop_wait_cb_def split: option.splits)
  obtain b u1 where u1: "service_is_alive (snd w) = (b, u1)" by fastforce
  define st1 where "st1 = st\<lparr>ss_attempts := ss_attempts st + 1\<rparr>"
  define u2 where "u2 = u1\<lparr>sw_stops := (sw_stops u1)(p \<mapsto> st1)\<rparr>"
  have s1: "signals_ok (snd w) u1" "signals_ok (snd w) u2" "signals_ok (snd w) (tick u2)" "signals_ok (snd w) (free_stop p (tick u2))"
    using signals_is_alive [OF u1] by (auto simp: u2_def intro!: signals_tickI signals_freeI signals_stopsI)
  have p1: "b \<Longrightarrow> 0 < sv_child_pid (sw_ctx u2)" using u1 alive_True by (auto simp: u2_def)
  have stt: "sv_state (sw_ctx u1) = sv_state (sw_ctx (snd w))" using keeps_state [OF keeps_is_alive [OF u1]] .
  obtain i r1 where add: "reactor_add_timer (os_alloc (os_now u2)) (os_mono (os_now u2)) 100 0
      (Some Fn_service_stop_wait_cb) (Some p) (fst w) = (i, r1)" by fastforce
  let ?dead = "free_stop p (emit (done_events st) (mark_stopped u1))"
  let ?killed = "free_stop p (emit (done_events st1) (mark_stopped (kill_and_reap (sv_child_pid (sw_ctx u2)) u2)))"
  have "service_stop_wait_cb p w = (if \<not> b then Some (fst w, ?dead)
       else if ss_max_attempts st1 \<le> ss_attempts st1 then Some (fst w, ?killed)
       else if i = None then map_option snd (service_stop_sync (r1, free_stop p (tick u2)))
       else Some (r1, tick u2))"
    by (simp add: service_stop_wait_cb_def st u1 Let_def add flip: st1_def u2_def)
  with assms consider "w' = (fst w, ?dead)" | "b" "w' = (fst w, ?killed)"
    | "map_option snd (service_stop_sync (r1, free_stop p (tick u2))) = Some w'" | "w' = (r1, tick u2)"
    by (metis option.inject)
  then show ?thesis
  proof cases
    case 1
    then show ?thesis using s1
      by (auto intro!: run_okI signals_freeI signals_emitI signals_markI done_no_kill)
  next
    case 2
    have "signals_ok (snd w) (kill_and_reap (sv_child_pid (sw_ctx u2)) u2)" using s1(2) p1 2(1) by (intro signals_reapI)
    with 2(2) show ?thesis
      by (auto intro!: run_okI signals_freeI signals_emitI signals_markI done_no_kill)
  next
    case 3
    then obtain rc where "service_stop_sync (r1, free_stop p (tick u2)) = Some (rc, w')" by auto
    from signals_stop_sync [OF this] s1(4) show ?thesis by (auto intro: signals_trans intro!: run_okI)
  next
    case 4
    then show ?thesis using s1 stt by (auto simp: u2_def intro!: run_okI)
  qed
qed

lemma signals_stop_async:
  assumes "service_stop_async cb ud w = Some (rc, w')"
  shows "signals_ok (snd w) (snd w') \<and> run_ok (snd w) (snd w')"
proof -
  define u0 where "u0 = upd_ctx (\<lambda>c. c\<lparr>sv_state := SERVICE_STOPPING\<rparr>) (snd w)"
  define st where "st = \<lparr>ss_attempts = 0, ss_max_attempts = sv_stop_timeout_sec (sw_ctx u0) * 10, ss_done_cb = cb, ss_userdata = ud\<rparr>"
  obtain r1 u1 where c1: "svc_cancel (sv_health_timer (sw_ctx u0)) (fst w, u0) = Some (r1, u1)"
    using assms by (auto simp: service_stop_async_def Let_def simp flip: u0_def elim!: bind_SomeE)
  define u2 where "u2 = (if sv_reactor (sw_ctx u1) then upd_ctx (\<lambda>c. c\<lparr>sv_health_timer := None\<rparr>) u1 else u1)"
  define p where "p = sv_child_pid (sw_ctx u2)"
  define e where "e = (if 0 < p then os_kill (os_now u2) p SIGTERM else None)"
  define u3 where "u3 = (if 0 < p then tick (emit [E_kill p SIGTERM] u2) else u2)"
  define sync :: "(int \<times> svc) option" where "sync = map_option (\<lambda>(rc, r2, u4). (rc, r2, emit (done_events st) u4)) (service_stop_sync (r1, u3))"
  define asy :: "(int \<times> svc) option" where "asy = do {
          (r2, u4) \<leftarrow> svc_cancel (sv_monitor_timer (sw_ctx u3)) (r1, u3);
          (r3, u5) \<leftarrow> svc_cancel (sv_retry_timer (sw_ctx u4)) (r2, u4);
          let u6 = upd_ctx (\<lambda>c. c\<lparr>sv_monitor_timer := None, sv_retry_timer := None\<rparr>) u5;
          let k = os_now u6;
          if \<not> os_calloc k then
            Some (-1, r3, emit (done_events st) (service_unlink_pid
              (upd_ctx (\<lambda>c. c\<lparr>sv_state := SERVICE_STOPPED, sv_fail_count := 0, sv_running_healthy := False\<rparr>) (tick u6))))
          else
            (let p = sw_next u6; u7 = (tick u6)\<lparr>sw_next := p + 1, sw_stops := (sw_stops u6)(p \<mapsto> st)\<rparr> in
             case svc_add_timer 100 0 Fn_service_stop_wait_cb p (r3, u7) of
               (h, r4, u8) \<Rightarrow> (if h = None then Some (-1, r4, free_stop p u8) else Some (0, r4, u8)))
        }"
  have eq: "service_stop_async cb ud w = (if e \<noteq> None \<and> e \<noteq> Some ESRCH then Some (-1, r1, u3)
      else if \<not> sv_reactor (sw_ctx u3) then sync else asy)"
    unfolding service_stop_async_def Let_def fst_conv snd_conv u0_def [symmetric] c1 bind.simps prod.case
      u2_def [symmetric] p_def [symmetric] e_def [symmetric] u3_def [symmetric] st_def [symmetric]
      sync_def asy_def by (rule refl)
  have s0: "signals_ok (snd w) u0" by (simp add: u0_def signals_updI)
  have u1: "u1 = u0" using c1 by (auto dest: signals_cancel)
  have s3: "signals_ok (snd w) u3"
    using s0 unfolding u3_def u2_def u1 by (auto intro!: signals_tickI signals_emitI signals_updI)
  have st3: "sv_state (sw_ctx u3) = SERVICE_STOPPING" by (simp add: u3_def u2_def u1 u0_def emit_def)
  consider "(rc, w') = (-1, r1, u3)" | "sync = Some (rc, w')" | "asy = Some (rc, w')"
    using assms unfolding eq by (metis option.inject)
  then show ?thesis
  proof cases
    case 1
    then show ?thesis using s3 st3 by (auto intro!: run_okI)
  next
    case 2
    then obtain r2 u4 where y: "service_stop_sync (r1, u3) = Some (rc, r2, u4)" "w' = (r2, emit (done_events st) u4)"
      by (auto simp: sync_def)
    have "signals_ok (snd w) u4" "sv_state (sw_ctx u4) = SERVICE_STOPPED"
      using signals_stop_sync [OF y(1)] s3 by (auto intro: signals_trans)
    with y(2) show ?thesis by (auto simp: emit_def [of _ u4] intro!: run_okI signals_emitI [unfolded emit_def] done_no_kill)
  next
    case 3
    then obtain r2 u4 r3 u5 where "svc_cancel (sv_monitor_timer (sw_ctx u3)) (r1, u3) = Some (r2, u4)"
        "svc_cancel (sv_retry_timer (sw_ctx u4)) (r2, u4) = Some (r3, u5)"
      by (auto simp: asy_def elim!: bind_SomeE)
    moreover from this have "u4 = u3" "u5 = u4" by (auto dest!: signals_cancel)
    ultimately have c: "svc_cancel (sv_monitor_timer (sw_ctx u3)) (r1, u3) = Some (r2, u3)"
        "svc_cancel (sv_retry_timer (sw_ctx u3)) (r2, u3) = Some (r3, u3)" by simp_all
    define u6 where "u6 = upd_ctx (\<lambda>c. c\<lparr>sv_monitor_timer := None, sv_retry_timer := None\<rparr>) u3"
    define fl where "fl = emit (done_events st) (service_unlink_pid
        (upd_ctx (\<lambda>c. c\<lparr>sv_state := SERVICE_STOPPED, sv_fail_count := 0, sv_running_healthy := False\<rparr>) (tick u6)))"
    define u7 where "u7 = (tick u6)\<lparr>sw_next := sw_next u6 + 1, sw_stops := (sw_stops u6)(sw_next u6 \<mapsto> st)\<rparr>"
    obtain h r4 u8 where t: "svc_add_timer 100 0 Fn_service_stop_wait_cb (sw_next u6) (r3, u7) = (h, r4, u8)"
      by (metis prod_cases3)
    have asy: "asy = (if \<not> os_calloc (os_now u6) then Some (-1, r3, fl)
        else if h = None then Some (-1, r4, free_stop (sw_next u6) u8) else Some (0, r4, u8))"
      unfolding asy_def c bind.simps prod.case Let_def u6_def [symmetric] u7_def [symmetric] t fl_def by (rule refl)
    have s6: "signals_ok (snd w) (tick u6)" using s3 by (auto simp: u6_def intro!: signals_tickI signals_updI)
    then have sf: "signals_ok (snd w) fl"
      unfolding fl_def by (intro signals_emitI signals_unlinkI signals_updI done_no_kill)
    have "signals_ok (snd w) u7" using s6 by (simp add: u7_def signals_ok_def)
    then have s8: "signals_ok (snd w) u8" "sw_ctx u8 = sw_ctx u7" using signals_add [OF t] by (auto intro: signals_trans)
    then have "signals_ok (snd w) (free_stop (sw_next u6) u8)" by (intro signals_freeI)
    moreover have "sv_state (sw_ctx fl) = SERVICE_STOPPED" "sv_state (sw_ctx u8) = SERVICE_STOPPING"
        "sv_state (sw_ctx (free_stop (sw_next u6) u8)) = SERVICE_STOPPING"
      using s8(2) st3 by (simp_all add: fl_def service_unlink_pid_def emit_def free_stop_def u7_def u6_def)
    moreover have "snd w' \<in> {fl, free_stop (sw_next u6) u8, u8}" using 3 unfolding asy by (auto split: if_splits)
    ultimately show ?thesis using sf s8(1) by (auto intro!: run_okI)
  qed
qed

lemma signals_start_async:
  assumes "service_start_async w = (rc, w')"
  shows "signals_ok (snd w) (snd w') \<and> run_ok (snd w) (snd w')"
proof (cases "sv_state (sw_ctx (snd w)) = SERVICE_RUNNING \<or> sv_state (sw_ctx (snd w)) = SERVICE_STARTING")
  case True
  then have "w' = w" using assms by (auto simp: service_start_async_def Let_def)
  then show ?thesis by (simp add: run_ok_def)
next
  case False
  obtain ok u1 where u1: "breaker_allows (snd w) = (ok, u1)" by fastforce
  obtain al u2 where u2: "service_is_alive u1 = (al, u2)" by fastforce
  obtain c u3 where u3: "service_spawn (tick u2) = (c, u3)" by fastforce
  have s1: "signals_ok (snd w) u1" by (rule signals_breaker [OF u1])
  have s2: "signals_ok (snd w) u2" using s1 signals_is_alive [OF u2] by (rule signals_trans)
  have s3: "signals_ok (snd w) u3" using signals_tickI [OF s2] signals_spawn [OF u3] by (rule signals_trans)
  have st: "sv_state (sw_ctx u1) = sv_state (sw_ctx (snd w))" using keeps_state [OF keeps_breaker [OF u1]] .
  show ?thesis
    using assms False s1 s2 s3 st
    by (auto simp: service_start_async_def Let_def u1 u2 u3 intro!: run_okI signals_tickI signals_updI split: if_splits)
qed

lemma signals_apply_config:
  assumes "service_apply_config cfg w = Some (rc, w')"
  shows "signals_ok (snd w) (snd w') \<and> run_ok (snd w) (snd w')"
proof -
  let ?iv = "or_default (health_check_interval_ms (cfg_service cfg)) 5000"
  obtain h r1 u1 where t: "svc_add_timer (word_of_int ?iv) (word_of_int ?iv) Fn_service_health_check_cb SVC w = (h, r1, u1)"
    by (metis prod_cases3)
  have u1: "signals_ok (snd w) u1" "sw_ctx u1 = sw_ctx (snd w)" using signals_add [OF t] by simp_all
  have "snd w' \<in> {u1, upd_ctx (\<lambda>c. (apply_values cfg c)\<lparr>sv_health_timer := h\<rparr>) u1, upd_ctx (apply_values cfg) (snd w)}"
    using assms t by (auto simp: service_apply_config_def Let_def elim!: bind_SomeE split: if_splits)
  then show ?thesis using u1 by (auto simp: apply_values_def intro!: run_okI signals_updI)
qed

lemma signals_set_reactor:
  assumes "service_set_reactor b w = Some (rc, w')"
  shows "signals_ok (snd w) (snd w') \<and> run_ok (snd w) (snd w')"
  using assms by (auto simp: service_set_reactor_def Let_def elim!: bind_SomeE dest!: signals_cancel signals_add
      intro!: run_okI signals_updI intro: signals_trans split: if_splits prod.splits)

lemma signals_get_pid:
  assumes "service_get_pid u = (p, u')"
  shows "signals_ok u u' \<and> run_ok u u'"
  using assms by (auto simp: service_get_pid_def Let_def intro!: run_okI signals_tickI signals_updI
      split: if_splits option.splits prod.splits)

lemma signals_debounce:
  assumes "svc_debounce_cb w = Some w'"
  shows "signals_ok (snd w) (snd w') \<and> run_ok (snd w) (snd w')"
proof -
  obtain nl vpn es where w': "w' = (fst w, tick (emit [E_vpn es] ((snd w)\<lparr>sw_nl := nl, sw_vpn := vpn\<rparr>)))"
    using assms by (auto simp: svc_debounce_cb_def Let_def emit_def)
  have "signals_ok (snd w) ((snd w)\<lparr>sw_nl := nl, sw_vpn := vpn\<rparr>)" by (auto simp: signals_ok_def intro: exI [of _ 0])
  then have "signals_ok (snd w) (snd w')" unfolding w' by (auto intro!: signals_tickI signals_emitI)
  then show ?thesis unfolding w' by (auto simp: emit_def intro!: run_okI)
qed

subsection \<open>Every operation\<close>

text \<open>What can happen to the supervisor: a timer callback, a signal, or a call from the daemon.\<close>

inductive svc_step :: "svc \<Rightarrow> svc \<Rightarrow> bool" where
  "service_monitor_cb w = Some w' \<Longrightarrow> svc_step w w'"
| "service_health_check_cb w = Some w' \<Longrightarrow> svc_step w w'"
| "service_delayed_spawn_cb w = Some w' \<Longrightarrow> svc_step w w'"
| "service_stop_wait_cb p w = Some w' \<Longrightarrow> svc_step w w'"
| "svc_debounce_cb w = Some w' \<Longrightarrow> svc_step w w'"
| "service_sigchld_cb w = Some w' \<Longrightarrow> svc_step w w'"
| "service_start_async w = (rc, w') \<Longrightarrow> svc_step w w'"
| "service_stop_sync w = Some (rc, w') \<Longrightarrow> svc_step w w'"
| "service_stop_async cb ud w = Some (rc, w') \<Longrightarrow> svc_step w w'"
| "service_apply_config cfg w = Some (rc, w') \<Longrightarrow> svc_step w w'"
| "service_set_reactor b w = Some (rc, w') \<Longrightarrow> svc_step w w'"
| "service_get_pid u = (pid, u') \<Longrightarrow> svc_step (r, u) (r, u')"

lemma step_ok: "svc_step w w' \<Longrightarrow> signals_ok (snd w) (snd w') \<and> run_ok (snd w) (snd w')"
proof (induction rule: svc_step.induct)
  case (1 w w')
  then show ?case by (rule signals_monitor)
next
  case (2 w w')
  then show ?case by (rule signals_health_check)
next
  case (3 w w')
  then show ?case by (rule signals_delayed)
next
  case (4 p w w')
  then show ?case by (rule signals_stop_wait)
next
  case (5 w w')
  then show ?case by (rule signals_debounce)
next
  case (6 w w')
  then show ?case by (rule signals_sigchld)
next
  case (7 w rc w')
  then show ?case by (rule signals_start_async)
next
  case (8 w rc w')
  show ?case using signals_stop_sync [OF 8] by (simp add: run_ok_def)
next
  case (9 cb ud w rc w')
  then show ?case by (rule signals_stop_async)
next
  case (10 cfg w rc w')
  then show ?case by (rule signals_apply_config)
next
  case (11 b w rc w')
  then show ?case by (rule signals_set_reactor)
next
  case (12 u pid u' r)
  show ?case using signals_get_pid [OF 12] by simp
qed

lemma steps_ok:
  assumes "svc_step\<^sup>*\<^sup>* w w'"
  shows "signals_ok (snd w) (snd w')
    \<and> (sv_state (sw_ctx (snd w)) \<noteq> SERVICE_RUNNING \<and> sv_state (sw_ctx (snd w')) = SERVICE_RUNNING \<longrightarrow>
       (\<exists>v. svc_step\<^sup>*\<^sup>* w v \<and> svc_step\<^sup>+\<^sup>+ v w' \<and> sv_state (sw_ctx (snd v)) = SERVICE_STARTING \<and> probed (snd v)))"
  using assms
proof (induction rule: rtranclp_induct)
  case (step y z)
  have "signals_ok (snd w) (snd z)" using step.IH step_ok [OF step(2)] by (blast intro: signals_trans)
  moreover have "\<exists>v. svc_step\<^sup>*\<^sup>* w v \<and> svc_step\<^sup>+\<^sup>+ v z \<and> sv_state (sw_ctx (snd v)) = SERVICE_STARTING \<and> probed (snd v)"
    if "sv_state (sw_ctx (snd w)) \<noteq> SERVICE_RUNNING" "sv_state (sw_ctx (snd z)) = SERVICE_RUNNING"
  proof (cases "sv_state (sw_ctx (snd y)) = SERVICE_RUNNING")
    case True
    then show ?thesis using step.IH that(1) step(2) by (meson tranclp.trancl_into_trancl)
  next
    case False
    then have "sv_state (sw_ctx (snd y)) = SERVICE_STARTING \<and> probed (snd y)"
      using step_ok [OF step(2)] that(2) by (simp add: run_ok_def)
    then show ?thesis using step(1,2) by blast
  qed
  ultimately show ?case by blast
qed simp

text \<open>C15: whatever sequence of timer callbacks, child signals, network refreshes and daemon
  calls the supervisor goes through, every signal it sends goes to a positive process id (never
  to a process group or to every process), and when a run that starts outside the running state
  ends in it, some step of the run was taken in the starting state while the proxy's native API
  answered a status request for the configured host, port and secret.\<close>

theorem service_running_only_after_probe:
  assumes "svc_step\<^sup>*\<^sup>* w w'"
  shows "(\<forall>p s. E_kill p s \<in> set (drop (length (sw_trace (snd w))) (sw_trace (snd w'))) \<longrightarrow> 0 < p)
    \<and> (sv_state (sw_ctx (snd w)) \<noteq> SERVICE_RUNNING \<and> sv_state (sw_ctx (snd w')) = SERVICE_RUNNING \<longrightarrow>
       (\<exists>v. svc_step\<^sup>*\<^sup>* w v \<and> svc_step\<^sup>+\<^sup>+ v w' \<and> sv_state (sw_ctx (snd v)) = SERVICE_STARTING \<and> probed (snd v)))"
proof -
  obtain es where "sw_trace (snd w') = sw_trace (snd w) @ es" "\<forall>p s. E_kill p s \<in> set es \<longrightarrow> 0 < p"
    using steps_ok [OF assms] unfolding signals_ok_def by blast
  then have "\<forall>p s. E_kill p s \<in> set (drop (length (sw_trace (snd w))) (sw_trace (snd w'))) \<longrightarrow> 0 < p" by simp
  with steps_ok [OF assms] show ?thesis by blast
qed

definition starting_world :: svc_world where
  "starting_world = \<lparr>sw_ctx = sample_ctx\<lparr>sv_state := SERVICE_STARTING, sv_child_pid := 42,
       sv_child_starttime_ticks := 777, sv_reactor := False\<rparr>,
     sw_stops = (\<lambda>_. None), sw_next = 1, sw_nl = nl_zero, sw_vpn = g_context, sw_os = (\<lambda>_. sample_os), sw_trace = []\<rparr>"

lemma starting_world_runs:
  "\<exists>w'. service_monitor_cb (reactor_zero, starting_world) = Some w' \<and> sv_state (sw_ctx (snd w')) = SERVICE_RUNNING"
proof -
  have al: "service_starting_child_alive u = (True, tick (tick u))"
    if "sw_os u = (\<lambda>_. sample_os)" "sv_child_pid (sw_ctx u) = 42" "sv_child_starttime_ticks (sw_ctx u) = 777" for u
    using that sample_starttime
    by (simp add: service_starting_child_alive_def service_is_alive_def alive_now_def os_now_def tick_def
        process_exists_def sample_os_def)
  have val: "validate_process sample_os c 42"
    if "sv_child_starttime_ticks c = 777" "sv_bin_path c = ''/a/bin/sing-box''" for c
    using that sample_starttime by (simp add: validate_process_def process_exists_def sample_os_def c_basename_def c_trunc_def PATH_MAX_def)
  have sample_native: "os_native_status sample_os x" for x by (simp add: sample_os_def)
  show ?thesis
    by (simp add: starting_world_def service_monitor_cb_def monitor_starting_def monitor_alive_def Let_def
        sample_ctx_def al val tick_def os_now_def service_probe_native_api_def monitor_ready_def sample_native)
qed

theorem service_running_only_after_probe_witness:
  "\<exists>w' v. svc_step\<^sup>*\<^sup>* (reactor_zero, starting_world) w' \<and> sv_state (sw_ctx (snd w')) = SERVICE_RUNNING
     \<and> svc_step\<^sup>*\<^sup>* (reactor_zero, starting_world) v \<and> sv_state (sw_ctx (snd v)) = SERVICE_STARTING \<and> probed (snd v)"
proof -
  obtain w' where w': "service_monitor_cb (reactor_zero, starting_world) = Some w'" "sv_state (sw_ctx (snd w')) = SERVICE_RUNNING"
    using starting_world_runs by blast
  have st: "svc_step\<^sup>*\<^sup>* (reactor_zero, starting_world) w'" using svc_step.intros(1) [OF w'(1)] by (rule r_into_rtranclp)
  have "sv_state (sw_ctx (snd (reactor_zero, starting_world))) \<noteq> SERVICE_RUNNING" by (simp add: starting_world_def)
  with service_running_only_after_probe [OF st] w'(2) st show ?thesis by blast
qed

subsection \<open>Waiting for readiness\<close>







end
