(* ===== verification/Config.thy ===== *)
theory Config
  imports Atp_Config Utils
begin

text \<open>
  \<open>src/config.c\<close> and \<open>src/config_validator.c\<close>: the schema of the configuration file, its
  strict line parser, the settings taken over from the proxy's JSON configuration, the range
  checks, and the classification of a reload.

  Files are what the C library reads from them.  The JSON document is what \<open>yyjson\<close> returns;
  an integer of the document is its 64-bit payload.
\<close>

unbundle bit_operations_syntax

datatype atp_result_t = ATP_OK | ATP_ERR_GENERAL | ATP_ERR_NOMEM | ATP_ERR_NOENT | ATP_ERR_PERM
  | ATP_ERR_TIMEOUT | ATP_ERR_BUSY | ATP_ERR_INVAL | ATP_ERR_IO | ATP_ERR_CONFIG | ATP_ERR_NOTSUP

definition atp_result_string :: "atp_result_t \<Rightarrow> string" where
  "atp_result_string r = (case r of
       ATP_OK \<Rightarrow> ''Success'' | ATP_ERR_GENERAL \<Rightarrow> ''General error'' | ATP_ERR_NOMEM \<Rightarrow> ''Out of memory''
     | ATP_ERR_NOENT \<Rightarrow> ''Not found'' | ATP_ERR_PERM \<Rightarrow> ''Permission denied''
     | ATP_ERR_TIMEOUT \<Rightarrow> ''Operation timed out'' | ATP_ERR_BUSY \<Rightarrow> ''Resource busy''
     | ATP_ERR_INVAL \<Rightarrow> ''Invalid argument'' | ATP_ERR_IO \<Rightarrow> ''I/O error''
     | ATP_ERR_CONFIG \<Rightarrow> ''Configuration error'' | ATP_ERR_NOTSUP \<Rightarrow> ''Operation not supported'')"

subsection \<open>The schema\<close>

datatype config_value_type_t = CONFIG_VALUE_BOOL | CONFIG_VALUE_INT | CONFIG_VALUE_STRING

record config_key_spec_t =
  ks_name :: string
  ks_type :: config_value_type_t
  ks_deprecated :: bool
  ks_canonical_name :: string
  ks_allow_empty :: bool

definition key_spec :: "string \<Rightarrow> config_value_type_t \<Rightarrow> bool \<Rightarrow> string \<Rightarrow> bool \<Rightarrow> config_key_spec_t" where
  "key_spec n t d c e =
     \<lparr>ks_name = n, ks_type = t, ks_deprecated = d, ks_canonical_name = c, ks_allow_empty = e\<rparr>"

definition CONFIG_SCHEMA :: "config_key_spec_t list" where
  "CONFIG_SCHEMA =
    [key_spec ''DATA_DIR'' CONFIG_VALUE_STRING False ''DATA_DIR'' False,
     key_spec ''WORK_DIR'' CONFIG_VALUE_STRING True ''DATA_DIR'' False,
     key_spec ''RUN_DIR'' CONFIG_VALUE_STRING False ''RUN_DIR'' False,
     key_spec ''PID_FILE'' CONFIG_VALUE_STRING False ''PID_FILE'' False,
     key_spec ''LOG_FILE'' CONFIG_VALUE_STRING False ''LOG_FILE'' False,
     key_spec ''LOG_TIMESTAMP'' CONFIG_VALUE_BOOL False ''LOG_TIMESTAMP'' False,
     key_spec ''RESTART_DELAY'' CONFIG_VALUE_INT False ''RESTART_DELAY'' False,
     key_spec ''API_SECRET'' CONFIG_VALUE_STRING False ''API_SECRET'' True,
     key_spec ''CLASH_SECRET'' CONFIG_VALUE_STRING True ''API_SECRET'' True,
     key_spec ''API_PORT'' CONFIG_VALUE_INT False ''API_PORT'' False,
     key_spec ''API_HOST'' CONFIG_VALUE_STRING False ''API_HOST'' False,
     key_spec ''UI_EMOJI_ENABLED'' CONFIG_VALUE_BOOL False ''UI_EMOJI_ENABLED'' False,
     key_spec ''CORE_USER_GROUP'' CONFIG_VALUE_STRING False ''CORE_USER_GROUP'' False,
     key_spec ''SERVICE_START_TIMEOUT'' CONFIG_VALUE_INT False ''SERVICE_START_TIMEOUT'' False,
     key_spec ''SERVICE_STOP_TIMEOUT'' CONFIG_VALUE_INT False ''SERVICE_STOP_TIMEOUT'' False,
     key_spec ''SERVICE_GRACE_PERIOD'' CONFIG_VALUE_INT False ''SERVICE_GRACE_PERIOD'' False,
     key_spec ''SERVICE_MAX_FAILURES'' CONFIG_VALUE_INT False ''SERVICE_MAX_FAILURES'' False,
     key_spec ''SERVICE_CIRCUIT_THRESHOLD'' CONFIG_VALUE_INT False ''SERVICE_CIRCUIT_THRESHOLD'' False,
     key_spec ''SERVICE_CIRCUIT_COOLDOWN'' CONFIG_VALUE_INT False ''SERVICE_CIRCUIT_COOLDOWN'' False,
     key_spec ''SERVICE_HEALTH_CHECK_INTERVAL'' CONFIG_VALUE_INT False ''SERVICE_HEALTH_CHECK_INTERVAL'' False,
     key_spec ''SERVICE_ARGS'' CONFIG_VALUE_STRING False ''SERVICE_ARGS'' True,
     key_spec ''SERVICE_ENV'' CONFIG_VALUE_STRING False ''SERVICE_ENV'' True,
     key_spec ''VPN_AUTO_CLASH_MODE'' CONFIG_VALUE_BOOL True ''VPN_AUTO_MODE'' False,
     key_spec ''VPN_AUTO_MODE'' CONFIG_VALUE_BOOL False ''VPN_AUTO_MODE'' False,
     key_spec ''VPN_TARGET_MODE'' CONFIG_VALUE_STRING False ''VPN_TARGET_MODE'' False,
     key_spec ''VPN_CLASH_MODE'' CONFIG_VALUE_STRING True ''VPN_TARGET_MODE'' False,
     key_spec ''VPN_FALLBACK_MODE'' CONFIG_VALUE_STRING False ''VPN_FALLBACK_MODE'' False,
     key_spec ''VPN_DEFAULT_MODE'' CONFIG_VALUE_STRING True ''VPN_FALLBACK_MODE'' False]"

definition config_schema_find :: "string \<Rightarrow> config_key_spec_t option" where
  "config_schema_find key =
     (if key = [] then None else find (\<lambda>spec. ks_name spec = key) CONFIG_SCHEMA)"

definition config_validate_key :: "string \<Rightarrow> int" where
  "config_validate_key key = (if config_schema_find key \<noteq> None then 0 else -1)"

subsection \<open>Values\<close>

definition config_parse_int :: "string \<Rightarrow> int option" where
  "config_parse_int s =
     (case c_strtol s of (val, erange, e) \<Rightarrow>
        if erange \<or> e = s \<or> e \<noteq> [] \<or> val < INT_MIN \<or> INT_MAX < val then None else Some val)"

definition config_parse_bool :: "string \<Rightarrow> bool option" where
  "config_parse_bool s =
     (case config_parse_int s of
        None \<Rightarrow> None
      | Some v \<Rightarrow> (if v \<noteq> 0 \<and> v \<noteq> 1 then None else Some (v \<noteq> 0)))"

definition config_copy_string :: "nat \<Rightarrow> string \<Rightarrow> string option" where
  "config_copy_string dst_size value = (if dst_size \<le> length value then None else Some value)"

abbreviation upd_core :: "(core_config_t \<Rightarrow> core_config_t) \<Rightarrow> atp_config_t \<Rightarrow> atp_config_t" where
  "upd_core f cfg \<equiv> cfg\<lparr>cfg_core := f (cfg_core cfg)\<rparr>"
abbreviation upd_interface :: "(interface_config_t \<Rightarrow> interface_config_t) \<Rightarrow> atp_config_t \<Rightarrow> atp_config_t" where
  "upd_interface f cfg \<equiv> cfg\<lparr>cfg_interface := f (cfg_interface cfg)\<rparr>"
abbreviation upd_service :: "(service_config_t \<Rightarrow> service_config_t) \<Rightarrow> atp_config_t \<Rightarrow> atp_config_t" where
  "upd_service f cfg \<equiv> cfg\<lparr>cfg_service := f (cfg_service cfg)\<rparr>"
abbreviation upd_api :: "(api_config_t \<Rightarrow> api_config_t) \<Rightarrow> atp_config_t \<Rightarrow> atp_config_t" where
  "upd_api f cfg \<equiv> cfg\<lparr>cfg_api := f (cfg_api cfg)\<rparr>"

definition parse_int_key :: "string \<Rightarrow> int \<Rightarrow> atp_config_t \<Rightarrow> atp_config_t option" where
  "parse_int_key k value cfg =
     (if k = ''RESTART_DELAY'' then Some (upd_service (\<lambda>s. s\<lparr>restart_delay_sec := value\<rparr>) cfg)
      else if k = ''API_PORT'' then Some (upd_api (\<lambda>a. a\<lparr>api_port := value\<rparr>) cfg)
      else if k = ''SERVICE_START_TIMEOUT'' then Some (upd_service (\<lambda>s. s\<lparr>start_timeout_sec := value\<rparr>) cfg)
      else if k = ''SERVICE_STOP_TIMEOUT'' then Some (upd_service (\<lambda>s. s\<lparr>stop_timeout_sec := value\<rparr>) cfg)
      else if k = ''SERVICE_GRACE_PERIOD'' then Some (upd_service (\<lambda>s. s\<lparr>grace_period_sec := value\<rparr>) cfg)
      else if k = ''SERVICE_MAX_FAILURES'' then Some (upd_service (\<lambda>s. s\<lparr>max_failures := value\<rparr>) cfg)
      else if k = ''SERVICE_CIRCUIT_THRESHOLD'' then Some (upd_service (\<lambda>s. s\<lparr>circuit_threshold := value\<rparr>) cfg)
      else if k = ''SERVICE_CIRCUIT_COOLDOWN'' then Some (upd_service (\<lambda>s. s\<lparr>circuit_cooldown_sec := value\<rparr>) cfg)
      else if k = ''SERVICE_HEALTH_CHECK_INTERVAL''
      then Some (upd_service (\<lambda>s. s\<lparr>health_check_interval_ms := value\<rparr>) cfg)
      else None)"

definition parse_bool_key :: "string \<Rightarrow> bool \<Rightarrow> atp_config_t \<Rightarrow> atp_config_t option" where
  "parse_bool_key k value cfg =
     (if k = ''LOG_TIMESTAMP'' then Some (upd_core (\<lambda>c. c\<lparr>log_timestamp := value\<rparr>) cfg)
      else if k = ''UI_EMOJI_ENABLED'' then Some (upd_core (\<lambda>c. c\<lparr>ui_emoji_enabled := value\<rparr>) cfg)
      else if k = ''VPN_AUTO_CLASH_MODE'' \<or> k = ''VPN_AUTO_MODE''
      then Some (upd_interface (\<lambda>i. i\<lparr>vpn_auto_mode := value\<rparr>) cfg)
      else None)"

definition parse_user_group :: "string \<Rightarrow> atp_config_t \<Rightarrow> atp_config_t option" where
  "parse_user_group v cfg =
     (case c_strchr (CHR '':'') v of
        None \<Rightarrow> None
      | Some colon \<Rightarrow>
          (let user = take (length v - length colon) v; grp = tl colon in
           if user = [] \<or> grp = [] \<or> c_strchr (CHR '':'') grp \<noteq> None \<or> 64 \<le> length user \<or> 64 \<le> length grp
           then None
           else Some (upd_core (\<lambda>c. c\<lparr>core_user := user, core_group := grp\<rparr>) cfg)))"

definition parse_string_key :: "string \<Rightarrow> string \<Rightarrow> atp_config_t \<Rightarrow> atp_config_t option" where
  "parse_string_key k v cfg =
     (if k = ''API_SECRET'' \<or> k = ''CLASH_SECRET''
      then map_option (\<lambda>s. upd_api (\<lambda>a. a\<lparr>api_secret := s\<rparr>) cfg) (config_copy_string 128 v)
      else if k = ''API_HOST''
      then map_option (\<lambda>s. upd_api (\<lambda>a. a\<lparr>api_host := s\<rparr>) cfg) (config_copy_string 64 v)
      else if k = ''VPN_TARGET_MODE'' \<or> k = ''VPN_CLASH_MODE''
      then map_option (\<lambda>s. upd_interface (\<lambda>i. i\<lparr>vpn_target_mode := s\<rparr>) cfg) (config_copy_string 64 v)
      else if k = ''VPN_FALLBACK_MODE'' \<or> k = ''VPN_DEFAULT_MODE''
      then map_option (\<lambda>s. upd_interface (\<lambda>i. i\<lparr>vpn_fallback_mode := s\<rparr>) cfg) (config_copy_string 64 v)
      else if k = ''DATA_DIR'' \<or> k = ''WORK_DIR''
      then map_option (\<lambda>s. upd_core (\<lambda>c. c\<lparr>data_dir := s\<rparr>) cfg) (config_copy_string PATH_MAX v)
      else if k = ''RUN_DIR''
      then map_option (\<lambda>s. upd_core (\<lambda>c. c\<lparr>run_dir := s\<rparr>) cfg) (config_copy_string PATH_MAX v)
      else if k = ''PID_FILE''
      then map_option (\<lambda>s. upd_core (\<lambda>c. c\<lparr>pid_file := s\<rparr>) cfg) (config_copy_string PATH_MAX v)
      else if k = ''LOG_FILE''
      then map_option (\<lambda>s. upd_core (\<lambda>c. c\<lparr>log_file := s\<rparr>) cfg) (config_copy_string PATH_MAX v)
      else if k = ''CORE_USER_GROUP'' then parse_user_group v cfg
      else if k = ''SERVICE_ARGS''
      then map_option (\<lambda>s. upd_service (\<lambda>c. c\<lparr>sc_args := s\<rparr>) cfg) (config_copy_string 256 v)
      else if k = ''SERVICE_ENV''
      then map_option (\<lambda>s. upd_service (\<lambda>c. c\<lparr>sc_env := s\<rparr>) cfg) (config_copy_string 256 v)
      else None)"

definition parse_key_value :: "config_key_spec_t \<Rightarrow> string \<Rightarrow> string \<Rightarrow> atp_config_t \<Rightarrow> atp_config_t option" where
  "parse_key_value spec k v cfg =
     (if \<not> ks_allow_empty spec \<and> v = [] then None
      else case ks_type spec of
        CONFIG_VALUE_INT \<Rightarrow> Option.bind (config_parse_int v) (\<lambda>value. parse_int_key k value cfg)
      | CONFIG_VALUE_BOOL \<Rightarrow> Option.bind (config_parse_bool v) (\<lambda>value. parse_bool_key k value cfg)
      | CONFIG_VALUE_STRING \<Rightarrow> parse_string_key k v cfg)"

subsection \<open>The file\<close>

record config_presence_t =
  has_api_port :: bool
  has_api_host :: bool
  has_api_secret :: bool

definition no_presence :: config_presence_t where
  "no_presence = \<lparr>has_api_port = False, has_api_host = False, has_api_secret = False\<rparr>"

text \<open>The state of the loop over the lines: the configuration being filled, the presence
  flags and the canonical names seen.\<close>

record load_state =
  ls_cfg :: atp_config_t
  ls_presence :: config_presence_t
  ls_seen :: "string list"

text \<open>A rejected line: its number, the key if there is one, and the reason that is logged.\<close>

type_synonym line_error = "nat \<times> string \<times> string"

text \<open>The value without its quotes; \<open>None\<close>: the quote is not closed.\<close>

definition unquote :: "string \<Rightarrow> string option" where
  "unquote v =
     (if v \<noteq> [] \<and> (hd v = CHR 0x22 \<or> hd v = CHR 0x27)
      then (if 2 \<le> length v \<and> last v = hd v then Some (butlast (tl v)) else None)
      else Some v)"

definition mark_presence :: "string \<Rightarrow> config_presence_t \<Rightarrow> config_presence_t" where
  "mark_presence canonical p =
     (if canonical = ''API_PORT'' then p\<lparr>has_api_port := True\<rparr>
      else if canonical = ''API_HOST'' then p\<lparr>has_api_host := True\<rparr>
      else if canonical = ''API_SECRET'' then p\<lparr>has_api_secret := True\<rparr>
      else p)"

definition SEEN_MAX :: nat where "SEEN_MAX = 64"

text \<open>From the schema lookup to the assignment.\<close>

definition config_assign :: "nat \<Rightarrow> string \<Rightarrow> string \<Rightarrow> load_state \<Rightarrow> line_error option \<times> load_state" where
  "config_assign line_no k v st =
     (case config_schema_find k of
        None \<Rightarrow> (Some (line_no, k, ''unknown key''), st)
      | Some spec \<Rightarrow>
          (let c = ks_canonical_name spec; st1 = st\<lparr>ls_presence := mark_presence c (ls_presence st)\<rparr> in
           if c \<in> set (ls_seen st1) then (Some (line_no, k, ''duplicate key''), st1)
           else
             (let st2 = (if length (ls_seen st1) < SEEN_MAX then st1\<lparr>ls_seen := ls_seen st1 @ [c]\<rparr> else st1) in
              case parse_key_value spec k v (ls_cfg st2) of
                None \<Rightarrow> (Some (line_no, k, ''invalid value''), st2)
              | Some cfg \<Rightarrow> (None, st2\<lparr>ls_cfg := cfg\<rparr>))))"

definition config_line :: "nat \<Rightarrow> string \<Rightarrow> load_state \<Rightarrow> line_error option \<times> load_state" where
  "config_line line_no raw st =
     (let line = trim raw in
      if line = [] \<or> hd line = CHR ''#'' then (None, st)
      else case c_strchr (CHR ''='') line of
        None \<Rightarrow> (Some (line_no, [], ''expected KEY=VALUE''), st)
      | Some eq \<Rightarrow>
          (let k = trim (take (length line - length eq) line); v = trim (tl eq) in
           if k = [] then (Some (line_no, [], ''empty key''), st)
           else case unquote v of
             None \<Rightarrow> (Some (line_no, k, ''unterminated quote''), st)
           | Some v1 \<Rightarrow> config_assign line_no k v1 st))"

text \<open>The code looks at a line as a C string, which ends at its first NUL, also for the newline.  A line
  without one is complete only if \<open>fgets\<close> stopped at the end of the file: not at the buffer, not
  behind a NUL, and not at a read error, at which Android's \<open>fgets\<close> hands out what it has.\<close>

definition line_text :: "string \<Rightarrow> string" where
  "line_text line = takeWhile (\<lambda>c. c \<noteq> CHR 0x00) line"

definition line_cut :: "bool \<Rightarrow> string \<Rightarrow> bool" where
  "line_cut read_error line \<longleftrightarrow> CHR 0x0A \<notin> set (line_text line)
     \<and> \<not> (CHR 0x0A \<notin> set line \<and> length line < 1023 \<and> \<not> read_error)"

function load_lines :: "bool \<Rightarrow> nat \<Rightarrow> string \<Rightarrow> load_state \<Rightarrow> line_error option \<times> load_state" where
  "load_lines read_error line_no s st =
     (case c_fgets 1024 s of
        None \<Rightarrow> (None, st)
      | Some (line, rest) \<Rightarrow>
          (if line_cut read_error line
           then (Some (Suc line_no, [], ''line exceeds 1023 bytes''), st)
           else case config_line (Suc line_no) (line_text line) st of
             (Some e, st1) \<Rightarrow> (Some e, st1)
           | (None, st1) \<Rightarrow> load_lines read_error (Suc line_no) rest st1))"
  by pat_completeness auto
termination
  by (relation "measure (\<lambda>(_, _, s, _). length s)") (auto dest: c_fgets_progress)

declare load_lines.simps [simp del]

definition config_apply_run_dir_defaults :: "atp_config_t \<Rightarrow> int \<times> atp_config_t" where
  "config_apply_run_dir_defaults cfg =
     (let run = run_dir (cfg_core cfg) in
      if run = [] \<or> run = ATP_RUN_DIR then (0, cfg)
      else
        (let pid = run @ ''/atpd.pid''; log = run @ ''/atp.log'';
             move_pid = (pid_file (cfg_core cfg) = ATP_PID_FILE);
             cfg1 = (if move_pid then upd_core (\<lambda>c. c\<lparr>pid_file := c_trunc PATH_MAX pid\<rparr>) cfg else cfg)
         in if move_pid \<and> PATH_MAX \<le> length pid then (-1, cfg1)
            else
              (let move_log = (log_file (cfg_core cfg1) = ATP_LOG_FILE);
                   cfg2 = (if move_log then upd_core (\<lambda>c. c\<lparr>log_file := c_trunc PATH_MAX log\<rparr>) cfg1 else cfg1)
               in if move_log \<and> PATH_MAX \<le> length log then (-1, cfg2) else (0, cfg2))))"

text \<open>What can be read from a file that opened, and whether reading and closing failed.\<close>

record conf_file =
  cf_text :: string
  cf_read_error :: bool
  cf_close_ok :: bool

definition config_load_file_internal :: "conf_file option \<Rightarrow> atp_config_t
    \<Rightarrow> atp_result_t \<times> load_state \<times> line_error option" where
  "config_load_file_internal file cfg =
     (let st0 = \<lparr>ls_cfg = cfg, ls_presence = no_presence, ls_seen = []\<rparr> in
      case file of
        None \<Rightarrow> (ATP_ERR_NOENT, st0, None)
      | Some f \<Rightarrow>
          (case load_lines (cf_read_error f) 0 (cf_text f) st0 of
             (Some e, st) \<Rightarrow> (ATP_ERR_CONFIG, st, Some e)
           | (None, st) \<Rightarrow>
               (if cf_read_error f \<or> \<not> cf_close_ok f then (ATP_ERR_IO, st, None)
                else case config_apply_run_dir_defaults (ls_cfg st) of
                  (rc, cfg') \<Rightarrow> (if rc \<noteq> 0 then ATP_ERR_CONFIG else ATP_OK, st\<lparr>ls_cfg := cfg'\<rparr>, None))))"

definition config_load_file :: "conf_file option \<Rightarrow> atp_config_t \<Rightarrow> atp_result_t \<times> atp_config_t" where
  "config_load_file file cfg =
     (case config_load_file_internal file cfg of (rc, st, _) \<Rightarrow> (rc, ls_cfg st))"

subsection \<open>Validation\<close>

definition validate_port :: "int \<Rightarrow> atp_result_t" where
  "validate_port p = (if 0 < p \<and> p \<le> 65535 then ATP_OK else ATP_ERR_INVAL)"

definition validate_mark :: "int \<Rightarrow> atp_result_t" where
  "validate_mark m = (if 1 \<le> m \<and> m \<le> 2147483647 then ATP_OK else ATP_ERR_INVAL)"

definition c_isalnum :: "char \<Rightarrow> bool" where
  "c_isalnum c \<longleftrightarrow> c_isdigit c \<or> (65 \<le> (of_char c :: nat) \<and> (of_char c :: nat) \<le> 90)
     \<or> (97 \<le> (of_char c :: nat) \<and> (of_char c :: nat) \<le> 122)"

definition validate_interface_name :: "string \<Rightarrow> atp_result_t" where
  "validate_interface_name n =
     (if n = [] then ATP_ERR_INVAL
      else if 16 \<le> length n then ATP_ERR_INVAL
      else if list_all (\<lambda>c. c_isalnum c \<or> c \<in> set ''_+-.'') n then ATP_OK else ATP_ERR_INVAL)"

text \<open>\<open>inet_pton(AF_INET, ...)\<close>: four decimal numbers up to 255 without leading zeros.\<close>

fun split_dots :: "string \<Rightarrow> string list" where
  "split_dots [] = [[]]"
| "split_dots (c # cs) =
     (if c = CHR ''.'' then [] # split_dots cs
      else case split_dots cs of [] \<Rightarrow> [[c]] | p # ps \<Rightarrow> (c # p) # ps)"

definition octet_ok :: "string \<Rightarrow> bool" where
  "octet_ok p \<longleftrightarrow> p \<noteq> [] \<and> list_all c_isdigit p \<and> length p \<le> 3 \<and> digits_val p \<le> 255
     \<and> (hd p = CHR ''0'' \<longrightarrow> length p = 1)"

definition inet_pton4 :: "string \<Rightarrow> bool" where
  "inet_pton4 s \<longleftrightarrow> length (split_dots s) = 4 \<and> list_all octet_ok (split_dots s)"

definition validate_port_value :: "int \<Rightarrow> int" where
  "validate_port_value p = (if 1 \<le> p \<and> p \<le> 65535 then 0 else -1)"

definition count_error :: "bool \<Rightarrow> int" where
  "count_error b = (if b then 1 else 0)"

definition validate_service_params :: "atp_config_t \<Rightarrow> int" where
  "validate_service_params cfg =
     (let s = cfg_service cfg in
      count_error (start_timeout_sec s < 1 \<or> 3600 < start_timeout_sec s)
      + count_error (stop_timeout_sec s < 1 \<or> 3600 < stop_timeout_sec s)
      + count_error (grace_period_sec s < 0 \<or> 3600 < grace_period_sec s)
      + count_error (max_failures s < 1 \<or> 1000 < max_failures s)
      + count_error (circuit_threshold s < 1 \<or> 1000 < circuit_threshold s)
      + count_error (circuit_cooldown_sec s < 1 \<or> 86400 < circuit_cooldown_sec s)
      + count_error (health_check_interval_ms s < 100 \<or> 3600000 < health_check_interval_ms s))"

definition config_validate_values :: "atp_config_t \<Rightarrow> int" where
  "config_validate_values cfg =
     (let errors = count_error (validate_port_value (api_port (cfg_api cfg)) \<noteq> 0)
            + count_error (\<not> inet_pton4 (api_host (cfg_api cfg)))
            + validate_service_params cfg
            + count_error (restart_delay_sec (cfg_service cfg) < 0 \<or> 3600 < restart_delay_sec (cfg_service cfg))
      in if errors = 0 then 0 else -1)"

subsection \<open>Settings of the proxy's own configuration\<close>

datatype json = J_null | J_bool bool | J_int u64 | J_real | J_str string | J_arr "json list" | J_obj "(string \<times> json) list"

fun yyjson_obj_get :: "json \<Rightarrow> string \<Rightarrow> json option" where
  "yyjson_obj_get (J_obj fs) key = map_of fs key"
| "yyjson_obj_get _ key = None"

fun yyjson_is_obj :: "json \<Rightarrow> bool" where
  "yyjson_is_obj (J_obj fs) = True"
| "yyjson_is_obj _ = False"

text \<open>\<open>yyjson_get_int\<close> casts the 64-bit payload to \<open>int\<close>.\<close>

definition yyjson_get_int :: "u64 \<Rightarrow> int" where
  "yyjson_get_int w = sint (ucast w :: u32)"

definition is_api_item :: "json \<Rightarrow> bool" where
  "is_api_item v \<longleftrightarrow> yyjson_is_obj v \<and> yyjson_obj_get v ''type'' = Some (J_str ''api'')"

definition find_api_service :: "json \<Rightarrow> json option" where
  "find_api_service root =
     (let in_services = (case yyjson_obj_get root ''services'' of
            Some (J_arr items) \<Rightarrow> find is_api_item items
          | _ \<Rightarrow> None);
          top = (case yyjson_obj_get root ''api'' of
            Some v \<Rightarrow> (if yyjson_is_obj v then Some v else None)
          | None \<Rightarrow> None);
          experimental = (case yyjson_obj_get root ''experimental'' of
            Some e \<Rightarrow> (if yyjson_is_obj e then
                (case yyjson_obj_get e ''api'' of
                   Some v \<Rightarrow> (if yyjson_is_obj v then Some v else None)
                 | None \<Rightarrow> None) else None)
          | None \<Rightarrow> None)
      in case in_services of Some v \<Rightarrow> Some v | None \<Rightarrow>
           (case top of Some v \<Rightarrow> Some v | None \<Rightarrow> experimental))"

definition sync_listen :: "config_presence_t \<Rightarrow> json \<Rightarrow> atp_config_t \<Rightarrow> atp_result_t \<times> atp_config_t" where
  "sync_listen pr svc cfg =
     (case yyjson_obj_get svc ''listen'' of
        Some (J_str listen) \<Rightarrow>
          (if listen = [] then (ATP_OK, cfg)
           else case c_strrchr (CHR '':'') listen of
             Some (host, port_text) \<Rightarrow>
               (case config_parse_int port_text of
                  None \<Rightarrow> (ATP_ERR_CONFIG, cfg)
                | Some port \<Rightarrow>
                    (if validate_port port \<noteq> ATP_OK then (ATP_ERR_CONFIG, cfg)
                     else
                       (let cfg1 = (if has_api_port pr then cfg else upd_api (\<lambda>a. a\<lparr>api_port := port\<rparr>) cfg) in
                        if host = [] \<or> has_api_host pr then (ATP_OK, cfg1)
                        else if 64 \<le> length host then (ATP_ERR_CONFIG, cfg1)
                        else (ATP_OK, upd_api (\<lambda>a. a\<lparr>api_host := host\<rparr>) cfg1))))
           | None \<Rightarrow>
               (if has_api_host pr then (ATP_OK, cfg)
                else case config_copy_string 64 listen of
                  None \<Rightarrow> (ATP_ERR_CONFIG, cfg)
                | Some h \<Rightarrow> (ATP_OK, upd_api (\<lambda>a. a\<lparr>api_host := h\<rparr>) cfg)))
      | _ \<Rightarrow> (ATP_OK, cfg))"

definition sync_port :: "config_presence_t \<Rightarrow> json \<Rightarrow> atp_config_t \<Rightarrow> atp_result_t \<times> atp_config_t" where
  "sync_port pr svc cfg =
     (let port_val = (case yyjson_obj_get svc ''listen_port'' of Some v \<Rightarrow> Some v | None \<Rightarrow> yyjson_obj_get svc ''port'') in
      case port_val of
        None \<Rightarrow> (ATP_OK, cfg)
      | Some (J_int w) \<Rightarrow>
          (if validate_port (yyjson_get_int w) \<noteq> ATP_OK then (ATP_ERR_CONFIG, cfg)
           else (ATP_OK, if has_api_port pr then cfg else upd_api (\<lambda>a. a\<lparr>api_port := yyjson_get_int w\<rparr>) cfg))
      | Some _ \<Rightarrow> (ATP_ERR_CONFIG, cfg))"

definition sync_secret :: "config_presence_t \<Rightarrow> json \<Rightarrow> atp_config_t \<Rightarrow> atp_result_t \<times> atp_config_t" where
  "sync_secret pr svc cfg =
     (case yyjson_obj_get svc ''secret'' of
        None \<Rightarrow> (ATP_OK, cfg)
      | Some (J_str sec) \<Rightarrow>
          (if sec \<noteq> [] \<and> \<not> has_api_secret pr then
             (case config_copy_string 128 sec of
                None \<Rightarrow> (ATP_ERR_CONFIG, cfg)
              | Some x \<Rightarrow> (ATP_OK, upd_api (\<lambda>a. a\<lparr>api_secret := x\<rparr>) cfg))
           else (ATP_OK, cfg))
      | Some _ \<Rightarrow> (ATP_ERR_CONFIG, cfg))"

text \<open>Reading the JSON file: not readable, not parsable, or the root of the document.\<close>

datatype json_answer = Json_absent | Json_bad | Json_root json

definition config_sync_from_singbox_json :: "(string \<Rightarrow> json_answer) \<Rightarrow> config_presence_t \<Rightarrow> atp_config_t
    \<Rightarrow> atp_result_t \<times> atp_config_t" where
  "config_sync_from_singbox_json read_json pr cfg =
     (let path = data_dir (cfg_core cfg) @ ''/config.json'' in
      if PATH_MAX \<le> length path then (ATP_ERR_CONFIG, cfg)
      else case read_json path of
        Json_absent \<Rightarrow> (ATP_OK, cfg)
      | Json_bad \<Rightarrow> (ATP_ERR_CONFIG, cfg)
      | Json_root root \<Rightarrow>
          (case find_api_service root of
             None \<Rightarrow> (ATP_OK, cfg)
           | Some svc \<Rightarrow>
               (case sync_listen pr svc cfg of (r1, cfg1) \<Rightarrow>
                  if r1 \<noteq> ATP_OK then (r1, cfg1)
                  else case sync_port pr svc cfg1 of (r2, cfg2) \<Rightarrow>
                    if r2 \<noteq> ATP_OK then (r2, cfg2) else sync_secret pr svc cfg2)))"

subsection \<open>Loading\<close>

text \<open>What loading asks the system for.\<close>

record config_env =
  ce_app_dir :: string
  ce_net_admin :: bool
  ce_json :: "string \<Rightarrow> json_answer"

definition config_set_defaults :: "config_env \<Rightarrow> atp_config_t" where
  "config_set_defaults env =
     \<lparr>cfg_core = \<lparr>ui_emoji_enabled = True, log_timestamp = True, data_dir = c_trunc PATH_MAX (ce_app_dir env),
         run_dir = ATP_RUN_DIR, core_user = ''root'',
         core_group = (if ce_net_admin env then ''net_admin'' else ''root''),
         pid_file = ATP_PID_FILE, log_file = ATP_LOG_FILE\<rparr>,
      cfg_interface = \<lparr>vpn_auto_mode = True, vpn_target_mode = ''Google VPN'', vpn_fallback_mode = ''Rule''\<rparr>,
      cfg_service = \<lparr>restart_delay_sec = 2, start_timeout_sec = 30, stop_timeout_sec = 10, grace_period_sec = 3,
         max_failures = 5, circuit_threshold = 5, circuit_cooldown_sec = 60, health_check_interval_ms = 5000,
         sc_args = [], sc_env = []\<rparr>,
      cfg_api = \<lparr>api_port = DEFAULT_API_PORT, api_host = DEFAULT_API_HOST, api_secret = []\<rparr>\<rparr>"

text \<open>The common body of loading and reloading: a fresh configuration or an error.\<close>

definition config_build :: "config_env \<Rightarrow> conf_file option \<Rightarrow> atp_result_t + atp_config_t" where
  "config_build env file =
     (case config_load_file_internal file (config_set_defaults env) of (ret, st, _) \<Rightarrow>
        if ret \<noteq> ATP_OK then Inl ret
        else case config_sync_from_singbox_json (ce_json env) (ls_presence st) (ls_cfg st) of (ret2, cfg) \<Rightarrow>
          if ret2 \<noteq> ATP_OK \<or> config_validate_values cfg \<noteq> 0 then Inl ATP_ERR_CONFIG else Inr cfg)"

definition config_load :: "config_env \<Rightarrow> conf_file option \<Rightarrow> atp_config_t \<Rightarrow> atp_result_t \<times> atp_config_t" where
  "config_load env file cfg =
     (case config_build env file of Inl e \<Rightarrow> (e, cfg) | Inr new \<Rightarrow> (ATP_OK, new))"

definition config_prepare_reload :: "config_env \<Rightarrow> bool \<Rightarrow> string \<Rightarrow> conf_file option \<Rightarrow> atp_config_t
    \<Rightarrow> atp_result_t \<times> atp_config_t" where
  "config_prepare_reload env exists source_path file candidate =
     (if source_path = [] then (ATP_ERR_INVAL, candidate)
      else if \<not> exists then (ATP_ERR_NOENT, candidate)
      else case config_build env file of Inl e \<Rightarrow> (e, candidate) | Inr new \<Rightarrow> (ATP_OK, new))"

subsection \<open>Classifying a reload\<close>

definition CONFIG_RELOAD_CHANGE_NONE :: u32 where "CONFIG_RELOAD_CHANGE_NONE = 0"
definition CONFIG_RELOAD_CHANGE_HOT :: u32 where "CONFIG_RELOAD_CHANGE_HOT = 1"
definition CONFIG_RELOAD_CHANGE_STATIC :: u32 where "CONFIG_RELOAD_CHANGE_STATIC = 2"
definition CONFIG_RELOAD_CHANGE_REQUIRES_RESTART :: u32 where "CONFIG_RELOAD_CHANGE_REQUIRES_RESTART = 4"

text \<open>A buffer of size 0 stands for the NULL pointer: both are left alone.\<close>

definition config_record_changed_field :: "nat \<Rightarrow> string \<Rightarrow> string \<Rightarrow> string" where
  "config_record_changed_field fields_size name buf =
     (if fields_size = 0 then buf
      else if fields_size - 1 \<le> length buf then buf
      else buf @ c_trunc (fields_size - length buf) ((if buf \<noteq> [] then '', '' else []) @ name))"

definition hot_checks :: "atp_config_t \<Rightarrow> atp_config_t \<Rightarrow> bool list" where
  "hot_checks a b =
     [ui_emoji_enabled (cfg_core a) \<noteq> ui_emoji_enabled (cfg_core b),
      start_timeout_sec (cfg_service a) \<noteq> start_timeout_sec (cfg_service b),
      stop_timeout_sec (cfg_service a) \<noteq> stop_timeout_sec (cfg_service b),
      max_failures (cfg_service a) \<noteq> max_failures (cfg_service b),
      health_check_interval_ms (cfg_service a) \<noteq> health_check_interval_ms (cfg_service b)]"

definition static_checks :: "atp_config_t \<Rightarrow> atp_config_t \<Rightarrow> bool list" where
  "static_checks a b =
     [log_timestamp (cfg_core a) \<noteq> log_timestamp (cfg_core b),
      restart_delay_sec (cfg_service a) \<noteq> restart_delay_sec (cfg_service b),
      grace_period_sec (cfg_service a) \<noteq> grace_period_sec (cfg_service b)]"

definition restart_checks :: "atp_config_t \<Rightarrow> atp_config_t \<Rightarrow> (bool \<times> string) list" where
  "restart_checks a b =
     [(data_dir (cfg_core a) \<noteq> data_dir (cfg_core b), ''DATA_DIR''),
      (run_dir (cfg_core a) \<noteq> run_dir (cfg_core b), ''RUN_DIR''),
      (pid_file (cfg_core a) \<noteq> pid_file (cfg_core b), ''PID_FILE''),
      (log_file (cfg_core a) \<noteq> log_file (cfg_core b), ''LOG_FILE''),
      (core_user (cfg_core a) \<noteq> core_user (cfg_core b) \<or> core_group (cfg_core a) \<noteq> core_group (cfg_core b),
       ''CORE_USER_GROUP''),
      (sc_args (cfg_service a) \<noteq> sc_args (cfg_service b), ''SERVICE_ARGS''),
      (sc_env (cfg_service a) \<noteq> sc_env (cfg_service b), ''SERVICE_ENV''),
      (api_host (cfg_api a) \<noteq> api_host (cfg_api b), ''API_HOST''),
      (api_port (cfg_api a) \<noteq> api_port (cfg_api b), ''API_PORT''),
      (api_secret (cfg_api a) \<noteq> api_secret (cfg_api b), ''API_SECRET''),
      (vpn_auto_mode (cfg_interface a) \<noteq> vpn_auto_mode (cfg_interface b), ''VPN_AUTO_MODE''),
      (vpn_target_mode (cfg_interface a) \<noteq> vpn_target_mode (cfg_interface b), ''VPN_TARGET_MODE''),
      (vpn_fallback_mode (cfg_interface a) \<noteq> vpn_fallback_mode (cfg_interface b), ''VPN_FALLBACK_MODE''),
      (circuit_threshold (cfg_service a) \<noteq> circuit_threshold (cfg_service b), ''SERVICE_CIRCUIT_THRESHOLD''),
      (circuit_cooldown_sec (cfg_service a) \<noteq> circuit_cooldown_sec (cfg_service b), ''SERVICE_CIRCUIT_COOLDOWN'')]"

definition set_flag :: "u32 \<Rightarrow> bool \<Rightarrow> u32 \<Rightarrow> u32" where
  "set_flag flag changed changes = (if changed then changes OR flag else changes)"

definition restart_step :: "nat \<Rightarrow> bool \<times> string \<Rightarrow> u32 \<times> string \<Rightarrow> u32 \<times> string" where
  "restart_step fields_size c acc =
     (set_flag CONFIG_RELOAD_CHANGE_REQUIRES_RESTART (fst c) (fst acc),
      if fst c then config_record_changed_field fields_size (snd c) (snd acc) else snd acc)"

definition config_classify_reload :: "atp_config_t \<Rightarrow> atp_config_t \<Rightarrow> nat \<Rightarrow> u32 \<times> string" where
  "config_classify_reload current candidate fields_size =
     (let c1 = fold (set_flag CONFIG_RELOAD_CHANGE_HOT) (hot_checks current candidate) CONFIG_RELOAD_CHANGE_NONE;
          c2 = fold (set_flag CONFIG_RELOAD_CHANGE_STATIC) (static_checks current candidate) c1
      in fold (restart_step fields_size) (restart_checks current candidate) (c2, []))"

end
