(* ===== verification/Config_Props.thy ===== *)
theory Config_Props
  imports Config
begin

text \<open>
  What loading a configuration guarantees: strings fit the buffers of the record and values are
  in range or nothing changes, the file is read strictly, and the classification of a reload
  compares every field.
\<close>

subsection \<open>Every string fits\<close>

definition cfg_fits :: "atp_config_t \<Rightarrow> bool" where
  "cfg_fits cfg \<longleftrightarrow>
     length (data_dir (cfg_core cfg)) < PATH_MAX \<and> length (run_dir (cfg_core cfg)) < PATH_MAX
     \<and> length (pid_file (cfg_core cfg)) < PATH_MAX \<and> length (log_file (cfg_core cfg)) < PATH_MAX
     \<and> length (core_user (cfg_core cfg)) < 64 \<and> length (core_group (cfg_core cfg)) < 64
     \<and> length (vpn_target_mode (cfg_interface cfg)) < 64 \<and> length (vpn_fallback_mode (cfg_interface cfg)) < 64
     \<and> length (sc_args (cfg_service cfg)) < 256 \<and> length (sc_env (cfg_service cfg)) < 256
     \<and> length (api_host (cfg_api cfg)) < 64 \<and> length (api_secret (cfg_api cfg)) < 128"

lemma copy_string_Some [simp]: "config_copy_string n v = Some s \<longleftrightarrow> s = v \<and> length v < n"
  by (auto simp: config_copy_string_def)

text \<open>Case analysis on a chain of comparisons that forgets them.\<close>

lemma if_eqE: "(if c then a else b) = y \<Longrightarrow> (a = y \<Longrightarrow> P) \<Longrightarrow> (b = y \<Longrightarrow> P) \<Longrightarrow> P"
  by (cases c) auto

lemma fits_int_key: "parse_int_key k v cfg = Some cfg' \<Longrightarrow> cfg_fits cfg \<Longrightarrow> cfg_fits cfg'"
  unfolding parse_int_key_def by (elim if_eqE) (auto simp: cfg_fits_def)

lemma fits_bool_key: "parse_bool_key k v cfg = Some cfg' \<Longrightarrow> cfg_fits cfg \<Longrightarrow> cfg_fits cfg'"
  unfolding parse_bool_key_def by (elim if_eqE) (auto simp: cfg_fits_def)

lemma fits_user_group: "parse_user_group v cfg = Some cfg' \<Longrightarrow> cfg_fits cfg \<Longrightarrow> cfg_fits cfg'"
  by (auto simp: parse_user_group_def Let_def cfg_fits_def split: option.splits if_splits)

lemma fits_string_key: "parse_string_key k v cfg = Some cfg' \<Longrightarrow> cfg_fits cfg \<Longrightarrow> cfg_fits cfg'"
  unfolding parse_string_key_def by (elim if_eqE) (auto simp: cfg_fits_def dest: fits_user_group [unfolded cfg_fits_def])

lemma fits_key_value: "parse_key_value spec k v cfg = Some cfg' \<Longrightarrow> cfg_fits cfg \<Longrightarrow> cfg_fits cfg'"
  by (auto simp: parse_key_value_def bind_eq_Some_conv split: if_splits config_value_type_t.splits
      dest: fits_int_key fits_bool_key fits_string_key)

lemma fits_assign: "config_assign n k v st = (e, st') \<Longrightarrow> cfg_fits (ls_cfg st) \<Longrightarrow> cfg_fits (ls_cfg st')"
  by (auto simp: config_assign_def Let_def dest: fits_key_value split: option.splits if_splits)

lemma fits_line: "config_line n raw st = (e, st') \<Longrightarrow> cfg_fits (ls_cfg st) \<Longrightarrow> cfg_fits (ls_cfg st')"
  by (auto simp: config_line_def Let_def dest: fits_assign split: option.splits if_splits)

lemma fits_lines: "load_lines err n s st = (e, st') \<Longrightarrow> cfg_fits (ls_cfg st) \<Longrightarrow> cfg_fits (ls_cfg st')"
proof (induction err n s st rule: load_lines.induct)
  case (1 err n s st)
  show ?case
  proof (cases "c_fgets 1024 s")
    case None
    then show ?thesis using "1.prems" by (subst (asm) load_lines.simps) simp
  next
    case (Some p)
    obtain line rest where p: "p = (line, rest)" by (cases p)
    obtain e1 st1 where l: "config_line (Suc n) (line_text line) st = (e1, st1)" by fastforce
    have f1: "cfg_fits (ls_cfg st1)" using fits_line [OF l] "1.prems"(2) by simp
    show ?thesis
      using "1.prems" "1.IH" [OF Some p [symmetric] _ l [symmetric]] f1 Some p l
      by (subst (asm) load_lines.simps) (auto split: if_splits option.splits)
  qed
qed

lemma fits_run_dir:
  assumes "config_apply_run_dir_defaults cfg = (rc, cfg')" "cfg_fits cfg"
  shows "cfg_fits cfg'"
proof -
  have "length (c_trunc PATH_MAX s) < PATH_MAX" for s by (simp add: c_trunc_def PATH_MAX_def)
  with assms show ?thesis
    by (auto simp: config_apply_run_dir_defaults_def Let_def cfg_fits_def split: if_splits)
qed

lemma fits_sync_listen: "sync_listen pr svc cfg = (r, cfg') \<Longrightarrow> cfg_fits cfg \<Longrightarrow> cfg_fits cfg'"
  by (auto simp: sync_listen_def Let_def cfg_fits_def split: option.splits json.splits prod.splits if_splits)

lemma fits_sync_port: "sync_port pr svc cfg = (r, cfg') \<Longrightarrow> cfg_fits cfg \<Longrightarrow> cfg_fits cfg'"
  by (auto simp: sync_port_def Let_def cfg_fits_def split: option.splits json.splits if_splits)

lemma fits_sync_secret: "sync_secret pr svc cfg = (r, cfg') \<Longrightarrow> cfg_fits cfg \<Longrightarrow> cfg_fits cfg'"
  by (auto simp: sync_secret_def cfg_fits_def split: option.splits json.splits if_splits)

lemma fits_sync:
  assumes "config_sync_from_singbox_json rd pr cfg = (r, cfg')" "cfg_fits cfg"
  shows "cfg_fits cfg'"
  using assms by (auto simp: config_sync_from_singbox_json_def Let_def split: if_splits json_answer.splits option.splits prod.splits
      dest: fits_sync_listen fits_sync_port fits_sync_secret)

lemma fits_defaults: "cfg_fits (config_set_defaults env)"
  by (auto simp: cfg_fits_def config_set_defaults_def c_trunc_def PATH_MAX_def ATP_RUN_DIR_def ATP_PID_FILE_def
      ATP_LOG_FILE_def DEFAULT_API_HOST_def)

subsection \<open>Every value is in range\<close>

definition config_ranges :: "atp_config_t \<Rightarrow> bool" where
  "config_ranges cfg \<longleftrightarrow>
     1 \<le> api_port (cfg_api cfg) \<and> api_port (cfg_api cfg) \<le> 65535 \<and> inet_pton4 (api_host (cfg_api cfg))
     \<and> start_timeout_sec (cfg_service cfg) \<in> {1..3600} \<and> stop_timeout_sec (cfg_service cfg) \<in> {1..3600}
     \<and> grace_period_sec (cfg_service cfg) \<in> {0..3600} \<and> restart_delay_sec (cfg_service cfg) \<in> {0..3600}
     \<and> max_failures (cfg_service cfg) \<in> {1..1000} \<and> circuit_threshold (cfg_service cfg) \<in> {1..1000}
     \<and> circuit_cooldown_sec (cfg_service cfg) \<in> {1..86400}
     \<and> health_check_interval_ms (cfg_service cfg) \<in> {100..3600000}"

lemma count_error_nonneg: "0 \<le> count_error b"
  by (simp add: count_error_def)

lemma count_error_0 [simp]: "count_error b = 0 \<longleftrightarrow> \<not> b"
  by (simp add: count_error_def)

lemma sum_zero_iff: "0 \<le> (a :: int) \<Longrightarrow> 0 \<le> b \<Longrightarrow> a + b = 0 \<longleftrightarrow> a = 0 \<and> b = 0"
  by auto

lemma validate_ranges: "config_validate_values cfg = 0 \<longleftrightarrow> config_ranges cfg"
  by (auto simp: config_validate_values_def validate_service_params_def Let_def config_ranges_def
      validate_port_value_def sum_zero_iff count_error_nonneg not_less)

text \<open>C23: loading a configuration is all or nothing: when it reports success every string of the
  new configuration fits its buffer and every value is in its documented range (a port up to
  65535, an IPv4 API address, positive timeouts and thresholds), and when it reports an error
  the caller's configuration is unchanged; preparing a reload computes the same.\<close>

theorem config_load_all_or_nothing:
  assumes "config_load env file cfg0 = (rc, cfg)"
  shows "(if rc = ATP_OK then cfg_fits cfg \<and> config_ranges cfg else cfg = cfg0)
    \<and> (path \<noteq> [] \<longrightarrow> config_prepare_reload env True path file cfg0 = (rc, cfg))"
proof -
  have "cfg_fits new \<and> config_ranges new" if "config_build env file = Inr new" for new
  proof -
    obtain ret st e where l: "config_load_file_internal file (config_set_defaults env) = (ret, st, e)"
      by (metis prod_cases3)
    obtain r2 c2 where s: "config_sync_from_singbox_json (ce_json env) (ls_presence st) (ls_cfg st) = (r2, c2)"
      by fastforce
    have new: "new = c2" "config_validate_values c2 = 0" using that by (auto simp: config_build_def l s split: if_splits)
    have "cfg_fits (ls_cfg st)"
      using l fits_defaults [of env]
      by (auto simp: config_load_file_internal_def Let_def split: option.splits prod.splits if_splits
          dest!: fits_lines dest: fits_run_dir)
    with fits_sync [OF s] new show ?thesis by (simp add: validate_ranges)
  qed
  moreover have "config_build env file \<noteq> Inl ATP_OK"
    by (auto simp: config_build_def split: prod.splits if_splits)
  ultimately show ?thesis
    using assms by (auto simp: config_load_def config_prepare_reload_def split: sum.splits)
qed

definition plain_env :: config_env where
  "plain_env = \<lparr>ce_app_dir = ''/data/adb/atp'', ce_net_admin = True, ce_json = (\<lambda>_. Json_absent)\<rparr>"

definition port_file :: conf_file where
  "port_file = \<lparr>cf_text = ''API_PORT = \"9090\"'', cf_read_error = False, cf_close_ok = True\<rparr>"

definition plain_state :: load_state where
  "plain_state = \<lparr>ls_cfg = config_set_defaults plain_env, ls_presence = no_presence, ls_seen = []\<rparr>"

lemma port_line:
  "config_line 1 ''API_PORT = \"9090\"'' st = config_assign 1 ''API_PORT'' ''9090'' st"
  by (simp add: config_line_def trim_def c_isspace_def c_strchr_def unquote_def)

lemma find_api_port: "config_schema_find ''API_PORT'' = Some (key_spec ''API_PORT'' CONFIG_VALUE_INT False ''API_PORT'' False)"
  by (simp add: config_schema_find_def CONFIG_SCHEMA_def key_spec_def)

lemma parse_9090: "config_parse_int ''9090'' = Some 9090"
  by (simp add: config_parse_int_def c_strtol_def c_isspace_def c_isdigit_def digits_val_def c_digit_val_def
      INT_MIN_def INT_MAX_def)

definition port_cfg :: atp_config_t where
  "port_cfg = upd_api (\<lambda>a. a\<lparr>api_port := 9090\<rparr>) (config_set_defaults plain_env)"

lemma port_file_internal:
  "config_load_file_internal (Some port_file) (config_set_defaults plain_env) =
      (ATP_OK, plain_state\<lparr>ls_cfg := port_cfg, ls_presence := no_presence\<lparr>has_api_port := True\<rparr>, ls_seen := [''API_PORT'']\<rparr>, None)"
proof -
  have get: "c_fgets 1024 (cf_text port_file) = Some (cf_text port_file, [])" "c_fgets 1024 [] = None"
    by (simp_all add: c_fgets_def port_file_def)
  have "config_assign 1 ''API_PORT'' ''9090'' plain_state = (None, plain_state\<lparr>ls_cfg := port_cfg,
      ls_presence := no_presence\<lparr>has_api_port := True\<rparr>, ls_seen := [''API_PORT'']\<rparr>)"
    by (simp add: config_assign_def find_api_port key_spec_def plain_state_def SEEN_MAX_def parse_key_value_def
        parse_9090 parse_int_key_def mark_presence_def port_cfg_def)
  moreover have "line_text (cf_text port_file) = cf_text port_file" "\<not> line_cut False (cf_text port_file)"
    by (simp_all add: line_text_def line_cut_def port_file_def)
  ultimately have "load_lines False 0 (cf_text port_file) plain_state = (None, plain_state\<lparr>ls_cfg := port_cfg,
      ls_presence := no_presence\<lparr>has_api_port := True\<rparr>, ls_seen := [''API_PORT'']\<rparr>)"
    by (subst load_lines.simps, simp add: get, subst load_lines.simps)
      (simp add: get port_file_def port_line [unfolded One_nat_def])
  moreover have "config_apply_run_dir_defaults port_cfg = (0, port_cfg)"
    by (simp add: config_apply_run_dir_defaults_def port_cfg_def config_set_defaults_def)
  ultimately show ?thesis
    by (simp add: config_load_file_internal_def flip: plain_state_def) (simp add: port_file_def)
qed

lemma port_file_loads: "config_load plain_env (Some port_file) cfg0 = (ATP_OK, port_cfg)"
proof -
  have "config_sync_from_singbox_json (ce_json plain_env) pr port_cfg = (ATP_OK, port_cfg)" for pr
    by (simp add: config_sync_from_singbox_json_def plain_env_def port_cfg_def config_set_defaults_def PATH_MAX_def)
  moreover have "config_validate_values port_cfg = 0"
    by (simp add: validate_ranges config_ranges_def port_cfg_def config_set_defaults_def DEFAULT_API_HOST_def inet_pton4_def
        octet_ok_def c_isdigit_def digits_val_def c_digit_val_def)
  ultimately show ?thesis by (simp add: config_load_def config_build_def port_file_internal)
qed

theorem config_load_all_or_nothing_witness:
  "config_load plain_env (Some port_file) (config_set_defaults plain_env) = (ATP_OK, port_cfg)
     \<and> cfg_fits port_cfg \<and> config_ranges port_cfg"
  using config_load_all_or_nothing [OF port_file_loads] port_file_loads by simp

subsection \<open>Strictness\<close>

text \<open>The lines of a file, without their newlines.\<close>

function raw_lines :: "string \<Rightarrow> string list" where
  "raw_lines s =
     (if s = [] then []
      else takeWhile (\<lambda>c. c \<noteq> CHR 0x0A) s # raw_lines (tl (dropWhile (\<lambda>c. c \<noteq> CHR 0x0A) s)))"
  by auto
termination
proof (relation "measure length", goal_cases)
  case (2 s)
  have "length (dropWhile (\<lambda>c. c \<noteq> CHR 0x0A) s) \<le> length s" by (rule length_dropWhile_le)
  with 2 show ?case by (cases s) auto
qed simp

declare raw_lines.simps [simp del]

text \<open>What a line says (up to a NUL): nothing, an assignment, or something malformed (\<open>None\<close>).\<close>

definition line_says :: "string \<Rightarrow> (string \<times> string) list option" where
  "line_says raw =
     (let line = trim (line_text raw) in
      if line = [] \<or> hd line = CHR ''#'' then Some []
      else case c_strchr (CHR ''='') line of
        None \<Rightarrow> None
      | Some eq \<Rightarrow>
          (let k = trim (take (length line - length eq) line) in
           if k = [] then None else map_option (\<lambda>v. [(k, v)]) (unquote (trim (tl eq)))))"

fun assign_all :: "(string \<times> string) list \<Rightarrow> atp_config_t \<Rightarrow> atp_config_t option" where
  "assign_all [] cfg = Some cfg"
| "assign_all ((k, v) # kvs) cfg =
     Option.bind (config_schema_find k) (\<lambda>spec. Option.bind (parse_key_value spec k v cfg) (assign_all kvs))"

definition canonical :: "string \<Rightarrow> string" where
  "canonical k = (case config_schema_find k of None \<Rightarrow> k | Some spec \<Rightarrow> ks_canonical_name spec)"

lemma trim_newline: "c_isspace c \<Longrightarrow> trim (s @ [c]) = trim s"
  by (auto simp: trim_def Let_def dropWhile_append)

lemma fgets_raw_lines:
  assumes "c_fgets 1024 s = Some (line, rest)" "CHR 0x0A \<in> set line \<or> length line \<noteq> 1023"
  shows "\<exists>l. raw_lines s = l # raw_lines rest \<and> (line = l \<or> line = l @ [CHR 0x0A]) \<and> CHR 0x0A \<notin> set l"
proof -
  let ?p = "\<lambda>c. c \<noteq> CHR 0x0A"
  have s: "s \<noteq> []" using assms(1) by (auto simp: c_fgets_def split: if_splits)
  define body where "body = takeWhile ?p s"
  have split: "s = body @ dropWhile ?p s" by (simp add: body_def)
  have nb: "CHR 0x0A \<notin> set body" unfolding body_def using set_takeWhileD by fastforce
  show ?thesis
  proof (cases "dropWhile ?p s")
    case Nil
    then have "body = s" using split by (metis append_Nil2)
    then have "line = take 1023 s" "rest = drop (length line) s"
      using assms(1) s by (auto simp: c_fgets_def Let_def simp flip: body_def)
    moreover from this have "CHR 0x0A \<notin> set line" using nb \<open>body = s\<close> by (metis in_set_takeD)
    ultimately have "line = s" "rest = []" using assms(2) by auto
    moreover have "raw_lines s = [s]"
      using s \<open>body = s\<close> unfolding body_def by (subst raw_lines.simps) (simp only: Nil, simp add: raw_lines.simps)
    ultimately show ?thesis using nb \<open>body = s\<close> by (simp add: raw_lines.simps)
  next
    case (Cons c cs)
    then have c: "c = CHR 0x0A" by (metis (mono_tags) dropWhile_eq_Cons_conv)
    have len: "length body < length s" using split Cons by (metis length_append less_add_same_cancel1 length_greater_0_conv list.distinct(1))
    have line: "line = take 1023 (body @ [CHR 0x0A])"
      using assms(1) s len by (auto simp: c_fgets_def Let_def simp flip: body_def)
    have "length body < 1023"
    proof (rule ccontr)
      assume "\<not> length body < 1023"
      then have "line = take 1023 body" "length line = 1023" using line by simp_all
      then show False using assms(2) nb by (metis in_set_takeD)
    qed
    then have l: "line = body @ [CHR 0x0A]" using line by simp
    have "s = line @ rest" using c_fgets_splits [OF assms(1)] by simp
    then have "body @ c # cs = (body @ [CHR 0x0A]) @ rest" using split Cons l by simp
    then have "rest = cs" using c by simp
    then show ?thesis using s Cons l nb by (subst raw_lines.simps) (simp flip: body_def)
  qed
qed

lemma line_says_line:
  assumes "config_line n (line_text raw) st = (None, st')"
  shows "\<exists>kvs. line_says raw = Some kvs \<and> (case kvs of [] \<Rightarrow> st' = st | (k, v) # _ \<Rightarrow> kvs = [(k, v)] \<and> config_assign n k v st = (None, st'))"
  using assms by (auto simp: config_line_def line_says_def Let_def split: if_splits option.splits)

lemma line_says_newline:
  assumes "line = l \<or> line = l @ [CHR 0x0A]" "\<not> line_cut err line" "CHR 0x0A \<notin> set l"
  shows "line_says line = line_says l"
proof (cases "line = l")
  case False
  with assms have l: "line = l @ [CHR 0x0A]" by simp
  with assms(2,3) have "CHR 0x00 \<notin> set l"
    by (auto simp: line_cut_def line_text_def takeWhile_append split: if_splits dest: set_takeWhileD)
  then have "line_text l = l" "line_text line = line"
    unfolding l line_text_def takeWhile_eq_all_conv by auto
  then show ?thesis unfolding line_says_def l using trim_newline [of "CHR 0x0A" l] by (simp add: c_isspace_def)
qed simp

text \<open>The names seen are those of the assignments so far; the schema has fewer than 64.\<close>

definition seen_ok :: "load_state \<Rightarrow> bool" where
  "seen_ok st \<longleftrightarrow> distinct (ls_seen st) \<and> set (ls_seen st) \<subseteq> set (map ks_canonical_name CONFIG_SCHEMA)"

lemma seen_small:
  assumes "seen_ok st"
  shows "length (ls_seen st) < SEEN_MAX"
proof -
  have "length (ls_seen st) = card (set (ls_seen st))" using assms distinct_card by (metis seen_ok_def)
  also have "\<dots> \<le> card (set (map ks_canonical_name CONFIG_SCHEMA))"
    using assms by (intro card_mono) (simp_all add: seen_ok_def)
  also have "\<dots> \<le> length (map ks_canonical_name CONFIG_SCHEMA)" by (rule card_length)
  also have "\<dots> < SEEN_MAX" by (simp add: CONFIG_SCHEMA_def SEEN_MAX_def)
  finally show ?thesis .
qed

lemma schema_find_canonical: "config_schema_find k = Some spec \<Longrightarrow> ks_canonical_name spec \<in> set (map ks_canonical_name CONFIG_SCHEMA)"
  by (auto simp: config_schema_find_def find_Some_iff split: if_splits)

lemma assign_step:
  assumes "config_assign n k v st = (None, st')" "seen_ok st"
  shows "\<exists>spec. config_schema_find k = Some spec \<and> parse_key_value spec k v (ls_cfg st) = Some (ls_cfg st')
    \<and> canonical k \<notin> set (ls_seen st) \<and> ls_seen st' = ls_seen st @ [canonical k] \<and> seen_ok st'"
proof -
  obtain spec where s: "config_schema_find k = Some spec" using assms(1) by (auto simp: config_assign_def split: option.splits)
  have c: "canonical k = ks_canonical_name spec" by (simp add: canonical_def s)
  have "canonical k \<in> set (map ks_canonical_name CONFIG_SCHEMA)" unfolding c by (rule schema_find_canonical [OF s])
  then show ?thesis
    using assms(1) s c seen_small [OF assms(2)] assms(2)
    by (auto simp: config_assign_def Let_def seen_ok_def split: if_splits option.splits)
qed

lemma lines_strict:
  assumes "load_lines err n s st = (None, st')" "seen_ok st"
  shows "\<exists>kvs. those (map line_says (raw_lines s)) = Some kvs \<and> assign_all (concat kvs) (ls_cfg st) = Some (ls_cfg st')
    \<and> ls_seen st' = ls_seen st @ map (canonical \<circ> fst) (concat kvs) \<and> seen_ok st'"
  using assms
proof (induction err n s st rule: load_lines.induct)
  case (1 err n s st)
  show ?case
  proof (cases "c_fgets 1024 s")
    case None
    then have "s = []" by (auto simp: c_fgets_def Let_def split: if_splits)
    moreover have "st' = st" using "1.prems"(1) None by (subst (asm) load_lines.simps) simp
    ultimately show ?thesis using "1.prems"(2) by (simp add: raw_lines.simps)
  next
    case (Some p)
    obtain line rest where p: "p = (line, rest)" by (cases p)
    obtain e1 st1 where l: "config_line (Suc n) (line_text line) st = (e1, st1)" by fastforce
    have cut: "\<not> line_cut err line" and e1: "e1 = None" and rest: "load_lines err (Suc n) rest st1 = (None, st')"
      using "1.prems"(1) Some p l by (subst (asm) load_lines.simps; auto split: if_splits option.splits)+
    have long: "CHR 0x0A \<in> set line \<or> length line \<noteq> 1023"
      using cut by (auto simp: line_cut_def line_text_def dest: set_takeWhileD)
    obtain l0 where l0: "raw_lines s = l0 # raw_lines rest" "line = l0 \<or> line = l0 @ [CHR 0x0A]" "CHR 0x0A \<notin> set l0"
      using fgets_raw_lines [OF _ long, of s rest] Some p by auto
    obtain kv where kv: "line_says l0 = Some kv" and
        st: "case kv of [] \<Rightarrow> st1 = st | (k, v) # _ \<Rightarrow> kv = [(k, v)] \<and> config_assign (Suc n) k v st = (None, st1)"
      using line_says_line [OF l [unfolded e1]] line_says_newline [OF l0(2) cut l0(3)] by auto
    have ok1: "seen_ok st1" and head: "assign_all (kv @ kvs) (ls_cfg st) = assign_all kvs (ls_cfg st1)"
      "ls_seen st1 = ls_seen st @ map (canonical \<circ> fst) kv" for kvs
      using st "1.prems"(2) assign_step [of "Suc n" _ _ st st1] by (fastforce split: list.splits)+
    from "1.IH" [OF Some p [symmetric] cut l [symmetric] e1 rest ok1] l0(1) kv head
    show ?thesis by auto
  qed
qed

text \<open>C24: the configuration file is read strictly: it is accepted only if every line is blank, a
  comment or a well-formed assignment to a key of the schema, no setting is assigned twice (not
  even once under its name and once under a deprecated alias), and then the result is exactly
  the assignments applied in order, followed by the run-directory defaults.\<close>

theorem config_file_strict:
  assumes "config_load_file_internal (Some f) cfg = (ATP_OK, st, e)"
  shows "\<exists>kvs cfg1. those (map line_says (raw_lines (cf_text f))) = Some kvs
    \<and> (\<forall>(k, v)\<in>set (concat kvs). config_schema_find k \<noteq> None)
    \<and> distinct (map (canonical \<circ> fst) (concat kvs))
    \<and> assign_all (concat kvs) cfg = Some cfg1 \<and> config_apply_run_dir_defaults cfg1 = (0, ls_cfg st)"
proof -
  let ?st0 = "\<lparr>ls_cfg = cfg, ls_presence = no_presence, ls_seen = []\<rparr>"
  obtain st1 where l: "load_lines (cf_read_error f) 0 (cf_text f) ?st0 = (None, st1)" "config_apply_run_dir_defaults (ls_cfg st1) = (0, ls_cfg st)"
    using assms by (auto simp: config_load_file_internal_def split: option.splits prod.splits if_splits)
  have "seen_ok ?st0" by (simp add: seen_ok_def)
  from lines_strict [OF l(1) this] obtain kvs where k: "those (map line_says (raw_lines (cf_text f))) = Some kvs"
      "assign_all (concat kvs) cfg = Some (ls_cfg st1)" "ls_seen st1 = map (canonical \<circ> fst) (concat kvs)" "seen_ok st1"
    by auto
  have "config_schema_find k \<noteq> None" if "(k, v) \<in> set xs" "assign_all xs c = Some c'" for k v xs c c'
    using that by (induction xs arbitrary: c) (auto simp: bind_eq_Some_conv)
  then have "\<forall>(k, v)\<in>set (concat kvs). config_schema_find k \<noteq> None" using k(2) by blast
  moreover have "distinct (map (canonical \<circ> fst) (concat kvs))" using k(3,4) unfolding seen_ok_def by simp
  ultimately show ?thesis using k(1,2) l(2) by blast
qed

theorem config_file_strict_witness:
  "\<exists>kvs. those (map line_says (raw_lines (cf_text port_file))) = Some kvs
     \<and> distinct (map (canonical \<circ> fst) (concat kvs)) \<and> assign_all (concat kvs) (config_set_defaults plain_env) \<noteq> None"
  using config_file_strict [OF port_file_internal] by auto

subsection \<open>Classification\<close>

text \<open>The current configuration with the settings a reload can apply at once, and with the ones
  that wait for the next start.\<close>

definition take_hot :: "atp_config_t \<Rightarrow> atp_config_t \<Rightarrow> atp_config_t" where
  "take_hot a b =
     upd_core (\<lambda>c. c\<lparr>ui_emoji_enabled := ui_emoji_enabled (cfg_core b)\<rparr>)
       (upd_service (\<lambda>s. s\<lparr>start_timeout_sec := start_timeout_sec (cfg_service b),
          stop_timeout_sec := stop_timeout_sec (cfg_service b), max_failures := max_failures (cfg_service b),
          health_check_interval_ms := health_check_interval_ms (cfg_service b)\<rparr>) a)"

definition take_static :: "atp_config_t \<Rightarrow> atp_config_t \<Rightarrow> atp_config_t" where
  "take_static a b =
     upd_core (\<lambda>c. c\<lparr>log_timestamp := log_timestamp (cfg_core b)\<rparr>)
       (upd_service (\<lambda>s. s\<lparr>restart_delay_sec := restart_delay_sec (cfg_service b),
          grace_period_sec := grace_period_sec (cfg_service b)\<rparr>) a)"

lemma fold_set_flag: "fold (set_flag f) bs c = (if True \<in> set bs then c OR f else c)"
  by (induction bs arbitrary: c) (auto simp: set_flag_def or.assoc)

lemma fold_restart: "fst (fold (restart_step sz) cs acc) = fold (set_flag CONFIG_RELOAD_CHANGE_REQUIRES_RESTART) (map fst cs) (fst acc)"
  by (induction cs arbitrary: acc) (auto simp: restart_step_def)

lemma classify_flags:
  "fst (config_classify_reload a b sz) =
     (if True \<in> set (hot_checks a b) then 1 else 0) OR (if True \<in> set (static_checks a b) then 2 else 0)
     OR (if True \<in> set (map fst (restart_checks a b)) then 4 else 0)"
  by (simp add: config_classify_reload_def fold_restart fold_set_flag CONFIG_RELOAD_CHANGE_HOT_def
      CONFIG_RELOAD_CHANGE_STATIC_def CONFIG_RELOAD_CHANGE_REQUIRES_RESTART_def CONFIG_RELOAD_CHANGE_NONE_def)

text \<open>Equality of configurations, field by field.\<close>

lemma core_eq_iff:
  "(c :: core_config_t) = d \<longleftrightarrow> ui_emoji_enabled c = ui_emoji_enabled d \<and> log_timestamp c = log_timestamp d
     \<and> data_dir c = data_dir d \<and> run_dir c = run_dir d \<and> core_user c = core_user d \<and> core_group c = core_group d
     \<and> pid_file c = pid_file d \<and> log_file c = log_file d"
  by (auto intro: core_config_t.equality)

lemma service_eq_iff:
  "(c :: service_config_t) = d \<longleftrightarrow> restart_delay_sec c = restart_delay_sec d \<and> start_timeout_sec c = start_timeout_sec d
     \<and> stop_timeout_sec c = stop_timeout_sec d \<and> grace_period_sec c = grace_period_sec d
     \<and> max_failures c = max_failures d \<and> circuit_threshold c = circuit_threshold d
     \<and> circuit_cooldown_sec c = circuit_cooldown_sec d \<and> health_check_interval_ms c = health_check_interval_ms d
     \<and> sc_args c = sc_args d \<and> sc_env c = sc_env d"
  by (auto intro: service_config_t.equality)

lemma cfg_eq_iff:
  "(a :: atp_config_t) = b \<longleftrightarrow> cfg_core a = cfg_core b \<and> cfg_service a = cfg_service b
     \<and> (vpn_auto_mode (cfg_interface a) = vpn_auto_mode (cfg_interface b)
        \<and> vpn_target_mode (cfg_interface a) = vpn_target_mode (cfg_interface b)
        \<and> vpn_fallback_mode (cfg_interface a) = vpn_fallback_mode (cfg_interface b))
     \<and> api_port (cfg_api a) = api_port (cfg_api b) \<and> api_host (cfg_api a) = api_host (cfg_api b)
     \<and> api_secret (cfg_api a) = api_secret (cfg_api b)"
  by (auto intro!: atp_config_t.equality intro: interface_config_t.equality api_config_t.equality)

lemma hot_none: "True \<notin> set (hot_checks a b) \<longleftrightarrow> take_hot a b = a"
  by (auto simp: hot_checks_def take_hot_def cfg_eq_iff core_eq_iff service_eq_iff)

lemma static_none: "True \<notin> set (static_checks a b) \<longleftrightarrow> take_static a b = a"
  by (auto simp: static_checks_def take_static_def cfg_eq_iff core_eq_iff service_eq_iff)

lemma restart_none: "True \<notin> set (map fst (restart_checks a b)) \<longleftrightarrow> take_static (take_hot a b) b = b"
  by (auto simp: restart_checks_def take_hot_def take_static_def cfg_eq_iff core_eq_iff service_eq_iff)

text \<open>C25: the classification of a reload compares every field and reports each class of change on its
  own, whatever else changed: the flag for settings that apply at once is set exactly when one of
  them differs, the flag for settings that wait for the next start exactly when one of those
  differs, and the flag for a restart exactly when the configurations differ in anything else; no
  other bit is set, and no flag at all exactly when the two configurations are equal.\<close>

theorem reload_classification_exact:
  "let changes = fst (config_classify_reload a b sz) in
     (changes AND CONFIG_RELOAD_CHANGE_HOT \<noteq> 0 \<longleftrightarrow> take_hot a b \<noteq> a)
     \<and> (changes AND CONFIG_RELOAD_CHANGE_STATIC \<noteq> 0 \<longleftrightarrow> take_static a b \<noteq> a)
     \<and> (changes AND CONFIG_RELOAD_CHANGE_REQUIRES_RESTART \<noteq> 0 \<longleftrightarrow> take_static (take_hot a b) b \<noteq> b)
     \<and> changes AND NOT (CONFIG_RELOAD_CHANGE_HOT OR CONFIG_RELOAD_CHANGE_STATIC OR CONFIG_RELOAD_CHANGE_REQUIRES_RESTART) = 0
     \<and> (changes = CONFIG_RELOAD_CHANGE_NONE \<longleftrightarrow> a = b)"
proof -
  let ?c = "fst (config_classify_reload a b sz)"
  let ?h = "True \<in> set (hot_checks a b)" and ?s = "True \<in> set (static_checks a b)"
    and ?r = "True \<in> set (map fst (restart_checks a b))"
  have flags: "(?c AND 1 \<noteq> 0) = ?h" "(?c AND 2 \<noteq> 0) = ?s" "(?c AND 4 \<noteq> 0) = ?r" "?c AND NOT (1 OR 2 OR 4) = 0"
      "(?c = 0) = (\<not> ?h \<and> \<not> ?s \<and> \<not> ?r)"
    unfolding classify_flags by (cases ?h; cases ?s; cases ?r; simp)+
  have "(\<not> ?h \<and> \<not> ?s \<and> \<not> ?r) = (a = b)"
    unfolding hot_none static_none restart_none
    by (auto simp: take_hot_def take_static_def cfg_eq_iff core_eq_iff service_eq_iff)
  then show ?thesis
    using flags hot_none [of a b] static_none [of a b] restart_none [of a b]
    unfolding Let_def CONFIG_RELOAD_CHANGE_NONE_def CONFIG_RELOAD_CHANGE_STATIC_def CONFIG_RELOAD_CHANGE_HOT_def
      CONFIG_RELOAD_CHANGE_REQUIRES_RESTART_def by blast
qed

subsection \<open>The integer cast\<close>

text \<open>a port in the proxy's JSON configuration is checked after it has been cut to 32 bits:
  a number beyond the range of an \<open>int\<close> is accepted as a port whenever its low 32 bits are
  one, so a document with port 4294976376 (2 ^ 32 + 9080) configures port 9080.\<close>

theorem json_port_wraps:
  "let svc = J_obj [(''listen_port'', J_int 4294976376)] in
     sync_port no_presence svc cfg = (ATP_OK, upd_api (\<lambda>a. a\<lparr>api_port := 9080\<rparr>) cfg)"
  by (simp add: sync_port_def yyjson_get_int_def validate_port_def no_presence_def Let_def)

end
