(* ===== verification/Pid_File.thy ===== *)
theory Pid_File
  imports Atp_Config Utils
begin

text \<open>
  The part of \<open>src/main.c\<close> that identifies the daemon across processes: the PID file with the
  process id and its start time, the check that a process is the one the file names, and the
  commands \<open>stop\<close> and \<open>reload\<close> that signal it.

  Answers of the kernel are arguments: the chunks \<open>read\<close> returns, the attempts of
  \<open>readlink\<close>, and for \<open>do_stop\<close> a stream of observations, one per identity check.
\<close>

definition SAFE_PATH_MAX :: nat where "SAFE_PATH_MAX = PATH_MAX + 256"

record pid_identity_t =
  id_pid :: pid
  id_starttime :: u64

subsection \<open>Paths\<close>

definition resolve_socket_path :: "nat \<Rightarrow> atp_config_t \<Rightarrow> string" where
  "resolve_socket_path sz cfg =
     (let run = (if run_dir (cfg_core cfg) \<noteq> [] then run_dir (cfg_core cfg) else ATP_RUN_DIR) in
      if hd run = CHR ''/'' then c_trunc sz (run @ ''/atpd.sock'')
      else c_trunc sz ((if data_dir (cfg_core cfg) \<noteq> [] then data_dir (cfg_core cfg) else ''.'')
                       @ ''/'' @ run @ ''/atpd.sock''))"

text \<open>\<open>cwd\<close> is the answer of \<open>getcwd\<close>.\<close>

definition resolve_config_source_path :: "string option \<Rightarrow> string \<Rightarrow> nat \<Rightarrow> string option" where
  "resolve_config_source_path cwd path sz =
     (if path = [] \<or> sz = 0 then None
      else if hd path = CHR ''/'' then (if length path < sz then Some path else None)
      else case cwd of
        None \<Rightarrow> None
      | Some dir \<Rightarrow> (if length (dir @ ''/'' @ path) < sz then Some (dir @ ''/'' @ path) else None))"

text \<open>The first argument is the \<open>--pid-file\<close> option (empty: not given).\<close>

definition resolve_pid_path :: "string \<Rightarrow> nat \<Rightarrow> atp_config_t \<Rightarrow> string" where
  "resolve_pid_path opt sz cfg =
     (if opt \<noteq> [] then c_trunc sz opt
      else
        (let configured = (if pid_file (cfg_core cfg) \<noteq> [] then pid_file (cfg_core cfg) else ATP_PID_FILE) in
         if hd configured = CHR ''/'' then c_trunc sz configured
         else c_trunc sz ((if data_dir (cfg_core cfg) \<noteq> [] then data_dir (cfg_core cfg) else ''.'')
                          @ ''/'' @ configured)))"

subsection \<open>Recognizing the daemon\<close>

text \<open>Up to three attempts of \<open>readlink\<close>.\<close>

fun exe_attempts :: "nat \<Rightarrow> (nat \<Rightarrow> errno + string) \<Rightarrow> nat \<Rightarrow> string option" where
  "exe_attempts 0 answers i = None"
| "exe_attempts (Suc n) answers i =
     (case answers i of
        Inr target \<Rightarrow> Some target
      | Inl e \<Rightarrow> (if e \<noteq> EINTR then None else exe_attempts n answers (Suc i)))"

definition process_is_atpd :: "(nat \<Rightarrow> errno + string) \<Rightarrow> bool" where
  "process_is_atpd answers =
     (case exe_attempts 3 answers 0 of
        None \<Rightarrow> False
      | Some exe \<Rightarrow>
          (if exe = [] then False
           else (let base = c_basename (c_trunc PATH_MAX exe) in base = ''atpd'' \<or> base = ''atpd (deleted)'')))"

text \<open>One identity check observes the start time, the executable and the start time again.\<close>

record id_view =
  iv_before :: "string option"
  iv_exe :: "nat \<Rightarrow> errno + string"
  iv_after :: "string option"

definition process_matches_identity :: "id_view \<Rightarrow> pid_identity_t \<Rightarrow> bool" where
  "process_matches_identity k ident =
     (if id_pid ident \<le> 0 \<or> id_starttime ident = 0 then False
      else if get_process_starttime (\<lambda>_. iv_before k) (id_pid ident) \<noteq> Some (id_starttime ident) then False
      else if \<not> process_is_atpd (iv_exe k) then False
      else get_process_starttime (\<lambda>_. iv_after k) (id_pid ident) = Some (id_starttime ident))"

subsection \<open>The file\<close>

text \<open>The answers of \<open>read\<close>: a chunk (empty: end of file) or an error.  \<open>None\<close>: the answers end
  before the loop does.\<close>

fun pid_read :: "string \<Rightarrow> (errno + string) list \<Rightarrow> (errno + string) option" where
  "pid_read buf [] = None"
| "pid_read buf (a # as) =
     (if length buf < 127 then
        (case a of
           Inr chunk \<Rightarrow> (if chunk = [] then Some (Inr buf) else pid_read (buf @ take (127 - length buf) chunk) as)
         | Inl e \<Rightarrow> (if e = EINTR then pid_read buf as else Some (Inl e)))
      else
        (case a of
           Inr chunk \<Rightarrow> (if chunk = [] then Some (Inr buf) else Some (Inl EINVAL))
         | Inl e \<Rightarrow> (if e = EINTR then pid_read buf as else Some (Inl EINVAL))))"

text \<open>\<open>sscanf\<close> with \<open>" %ld %llu %c"\<close>: two numbers and nothing but white space behind them.\<close>

definition scan_identity :: "string \<Rightarrow> errno + pid_identity_t" where
  "scan_identity buf =
     (case c_strtol buf of (p, _, e1) \<Rightarrow>
      case c_strtoull e1 of (st, _, e2) \<Rightarrow>
        if e1 = buf \<or> e2 = e1 \<or> dropWhile c_isspace e2 \<noteq> [] \<or> p \<le> 0 \<or> INT_MAX < p \<or> st = 0 then Inl EINVAL
        else Inr \<lparr>id_pid = p, id_starttime = st\<rparr>)"

text \<open>The first argument is the answer of \<open>open\<close>.\<close>

definition read_pid_identity :: "errno option \<Rightarrow> (errno + string) list \<Rightarrow> (errno + pid_identity_t) option" where
  "read_pid_identity open_error reads =
     (case open_error of
        Some e \<Rightarrow> Some (Inl e)
      | None \<Rightarrow>
          map_option (\<lambda>res. case res of
              Inl e \<Rightarrow> Inl e
            | Inr buf \<Rightarrow> (if buf = [] then Inl EINVAL else scan_identity buf)) (pid_read [] reads))"

text \<open>\<open>P_check i b\<close>: the identity check on the \<open>i\<close>-th view of the process answered \<open>b\<close>.\<close>

datatype pid_event = P_mkdir "string list" | P_open fd | P_lock bool | P_write string | P_close fd | P_unlink string
  | P_check nat bool | P_kill pid int

record pid_env =
  pe_pid :: pid
  pe_stat :: "string option"
  pe_mkdir :: "string \<Rightarrow> errno option"
  pe_isdir :: "string \<Rightarrow> bool"
  pe_errno :: errno
  pe_open :: fd
  pe_lock_ok :: bool
  pe_write_ok :: bool

definition pid_dir_fails :: "pid_env \<Rightarrow> string \<Rightarrow> bool" where
  "pid_dir_fails env dir = (case fst (mkdir_recursive (pe_mkdir env) (pe_isdir env) dir) of
       MkOk \<Rightarrow> False
     | MkErr e \<Rightarrow> e \<noteq> EEXIST
     | MkBad \<Rightarrow> pe_errno env \<noteq> EEXIST)"

definition pid_text :: "pid \<Rightarrow> u64 \<Rightarrow> string" where
  "pid_text p st = show_int p @ [CHR 0x0A] @ show_nat (unat st) @ [CHR 0x0A]"

text \<open>The result: the return code, \<open>g_pid_fd\<close> and what happened.\<close>

definition write_pid_file :: "pid_env \<Rightarrow> string \<Rightarrow> int \<times> fd \<times> pid_event list" where
  "write_pid_file env path =
     (case get_process_starttime (\<lambda>_. pe_stat env) (pe_pid env) of
        None \<Rightarrow> (-1, -1, [])
      | Some st \<Rightarrow>
          (if st = 0 then (-1, -1, [])
           else if SAFE_PATH_MAX \<le> length path then (-1, -1, [])
           else
             (let (bad, ev) = (case c_strrchr (CHR ''/'') path of
                    None \<Rightarrow> (False, [])
                  | Some (dir, _) \<Rightarrow>
                      (pid_dir_fails env dir, [P_mkdir (snd (mkdir_recursive (pe_mkdir env) (pe_isdir env) dir))]))
              in if bad then (-1, -1, ev)
                 else if pe_open env < 0 then (-1, pe_open env, ev)
                 else if \<not> pe_lock_ok env
                 then (-1, -1, ev @ [P_open (pe_open env), P_lock False, P_close (pe_open env)])
                 else
                   (let text = pid_text (pe_pid env) st; ev1 = ev @ [P_open (pe_open env), P_lock True] in
                    if 64 \<le> length text \<or> \<not> pe_write_ok env
                    then (-1, -1, ev1 @ [P_close (pe_open env), P_unlink path])
                    else (0, pe_open env, ev1 @ [P_write text])))))"

subsection \<open>Stopping and reloading a daemon\<close>

definition SIG_KILL :: int where "SIG_KILL = 9"
definition SIG_TERM :: int where "SIG_TERM = 15"
definition SIG_HUP :: int where "SIG_HUP = 1"

text \<open>Up to \<open>n\<close> rounds of waiting for the identity to disappear; the events are the checks.\<close>

fun wait_gone :: "nat \<Rightarrow> pid_identity_t \<Rightarrow> (nat \<Rightarrow> id_view) \<Rightarrow> nat \<Rightarrow> bool \<times> nat \<times> pid_event list" where
  "wait_gone 0 ident view i = (False, i, [])"
| "wait_gone (Suc n) ident view i =
     (if \<not> process_matches_identity (view i) ident then (True, Suc i, [P_check i False])
      else case wait_gone n ident view (Suc i) of (s, j, ev) \<Rightarrow> (s, j, P_check i True # ev))"

record stop_env =
  se_view :: "nat \<Rightarrow> id_view"
  se_term :: "errno option"
  se_kill :: "errno option"

definition stop_after_term :: "stop_env \<Rightarrow> string \<Rightarrow> pid_identity_t \<Rightarrow> int \<times> pid_event list" where
  "stop_after_term env path ident =
     (case wait_gone 50 ident (se_view env) 1 of (stopped, i, ev) \<Rightarrow>
        if stopped then (0, ev @ [P_unlink path])
        else if \<not> process_matches_identity (se_view env i) ident
        then (0, ev @ [P_check i False, P_unlink path])
        else if se_kill env \<noteq> None \<and> se_kill env \<noteq> Some ESRCH
        then (1, ev @ [P_check i True, P_kill (id_pid ident) SIG_KILL])
        else case wait_gone 50 ident (se_view env) (Suc i) of (gone, _, ev2) \<Rightarrow>
          (if gone then 0 else 1,
           ev @ [P_check i True, P_kill (id_pid ident) SIG_KILL] @ ev2 @ (if gone then [P_unlink path] else [])))"

definition stop_daemon :: "stop_env \<Rightarrow> string \<Rightarrow> errno + pid_identity_t \<Rightarrow> int \<times> pid_event list" where
  "stop_daemon env path ident =
     (case ident of
        Inl _ \<Rightarrow> (1, [])
      | Inr x \<Rightarrow>
          (if \<not> process_matches_identity (se_view env 0) x then (1, [P_check 0 False])
           else if se_term env \<noteq> None then (1, [P_check 0 True, P_kill (id_pid x) SIG_TERM])
           else case stop_after_term env path x of
             (rc, ev) \<Rightarrow> (rc, [P_check 0 True, P_kill (id_pid x) SIG_TERM] @ ev)))"

text \<open>The whole command; \<open>None\<close>: the answers of \<open>read\<close> end before the file does.\<close>

definition do_stop :: "stop_env \<Rightarrow> string \<Rightarrow> atp_config_t \<Rightarrow> errno option \<Rightarrow> (errno + string) list
    \<Rightarrow> (int \<times> pid_event list) option" where
  "do_stop env opt cfg open_error reads =
     map_option (stop_daemon env (resolve_pid_path opt SAFE_PATH_MAX cfg)) (read_pid_identity open_error reads)"

definition reload_daemon :: "id_view \<Rightarrow> errno option \<Rightarrow> errno + pid_identity_t \<Rightarrow> int \<times> pid_event list" where
  "reload_daemon view hup ident =
     (case ident of
        Inl _ \<Rightarrow> (1, [])
      | Inr x \<Rightarrow>
          (if \<not> process_matches_identity view x then (1, [P_check 0 False])
           else (if hup \<noteq> None then 1 else 0, [P_check 0 True, P_kill (id_pid x) SIG_HUP])))"

definition do_reload :: "id_view \<Rightarrow> errno option \<Rightarrow> errno option \<Rightarrow> (errno + string) list
    \<Rightarrow> (int \<times> pid_event list) option" where
  "do_reload view hup open_error reads =
     map_option (reload_daemon view hup) (read_pid_identity open_error reads)"

subsection \<open>What the file says is what was written\<close>

definition delivers :: "(errno + string) list \<Rightarrow> string \<Rightarrow> bool" where
  "delivers reads text \<longleftrightarrow> (\<exists>as bs. reads = as @ Inr [] # bs \<and> text = concat (map chunk_of as) \<and> pieces as)"

lemma pid_read_delivers:
  assumes "pieces as" "length (buf @ concat (map chunk_of as)) \<le> 127"
  shows "pid_read buf (as @ Inr [] # bs) = Some (Inr (buf @ concat (map chunk_of as)))"
  using assms
proof (induction as arbitrary: buf)
  case (Cons a as)
  show ?case
  proof (cases a)
    case (Inl e)
    then show ?thesis using Cons by (auto simp: pieces_def)
  next
    case (Inr c)
    then have "c \<noteq> []" "length buf + length c \<le> 127" using Cons.prems by (auto simp: pieces_def)
    moreover from this have "length buf < 127" by (cases c) auto
    ultimately show ?thesis using Cons Inr by (auto simp: pieces_def)
  qed
qed simp

lemma scan_pid_text:
  assumes "0 < p" "p \<le> INT_MAX" "st \<noteq> 0"
  shows "scan_identity (pid_text p st) = Inr \<lparr>id_pid = p, id_starttime = st\<rparr>"
proof -
  let ?nl = "[CHR 0x0A]"
  have nl: "\<not> c_isdigit (CHR 0x0A)" "c_isspace (CHR 0x0A)" by (simp_all add: c_isdigit_def c_isspace_def)
  have one: "c_strtol (pid_text p st) = (p, False, ?nl @ show_nat (unat st) @ ?nl)"
    unfolding pid_text_def using assms(1,2) nl by (intro strtol_show_int) (simp_all add: INT_MAX_def)
  have "show_nat (unat st) = show_int (uint st)" by (simp add: show_int_def unsigned_less)
  then have "c_strtoull (show_nat (unat st) @ ?nl) = (st, False, ?nl)"
    using strtoull_show_int [of ?nl "uint st"] nl uint_lt2p [of st] by simp
  then have two: "c_strtoull (?nl @ show_nat (unat st) @ ?nl) = (st, False, ?nl)"
    using nl show_nat_digits [of "unat st"] by (auto simp: c_strtoull_def Let_def split: if_splits prod.splits)
  show ?thesis
    using assms show_nat_digits [of "unat st"] nl(2) unfolding scan_identity_def one prod.case two
    by (auto simp: pid_text_def)
qed

text \<open>C26: the PID file identifies the daemon exactly: whatever pieces the kernel delivers the file
  in and however often reading is interrupted, the identity read back is the process id and
  start time of the process that wrote it.\<close>

theorem pid_identity_roundtrip:
  assumes "write_pid_file env path = (0, fd, ev)" "0 < pe_pid env" "pe_pid env \<le> INT_MAX"
    and "ev \<noteq> [] \<and> last ev = P_write text" "delivers reads text"
  shows "\<exists>st. get_process_starttime (\<lambda>_. pe_stat env) (pe_pid env) = Some st
    \<and> read_pid_identity None reads = Some (Inr \<lparr>id_pid = pe_pid env, id_starttime = st\<rparr>)"
proof -
  obtain st where st: "get_process_starttime (\<lambda>_. pe_stat env) (pe_pid env) = Some st" "st \<noteq> 0" "text = pid_text (pe_pid env) st"
      "length text < 64"
    using assms(1,4) by (auto simp: write_pid_file_def Let_def split: option.splits if_splits prod.splits)
  obtain as bs where r: "reads = as @ Inr [] # bs" "text = concat (map chunk_of as)"
      "pieces as"
    using assms(5) by (auto simp: delivers_def)
  have "pid_read [] reads = Some (Inr text)"
    using pid_read_delivers [OF r(3), of "[]" bs] st(4) unfolding r(1,2) by simp
  moreover have "text \<noteq> []" by (simp add: st(3) pid_text_def)
  ultimately show ?thesis
    using st scan_pid_text [OF assms(2,3) st(2)] by (simp add: read_pid_identity_def)
qed

definition sample_pid_env :: pid_env where
  "sample_pid_env = \<lparr>pe_pid = 4711,
     pe_stat = Some (proc_stat_line 4711 ''atpd'' (CHR ''S'') [1, 42, 42, 0, -1, 4, 4, 4, 4, 4, 4, 4, 4, 4, 4, 4, 4, 4, 777] @ [CHR 0x0A]),
     pe_mkdir = (\<lambda>_. None), pe_isdir = (\<lambda>_. True), pe_errno = EINVAL, pe_open = 5, pe_lock_ok = True, pe_write_ok = True\<rparr>"

lemma sample_pid_start: "get_process_starttime (\<lambda>_. pe_stat sample_pid_env) p = Some 777"
proof -
  let ?fs = "[1, 42, 42, 0, -1, 4, 4, 4, 4, 4, 4, 4, 4, 4, 4, 4, 4, 4, 777] :: int list"
  have "length (proc_stat_line 4711 ''atpd'' (CHR ''S'') ?fs) < 4095"
    by (simp add: proc_stat_line_def proc_stat_fields_def show_int_def show_nat.simps)
  then show ?thesis
    using read_proc_stat_line [of ?fs "''atpd''" "CHR ''S''" 4711 p] by (simp add: sample_pid_env_def c_isspace_def)
qed

lemma sample_pid_text: "pid_text 4711 777 = ''4711'' @ [CHR 0x0A] @ ''777'' @ [CHR 0x0A]"
  by (simp add: pid_text_def show_int_def show_nat.simps digit_char_def)

lemma sample_pid_write:
  "write_pid_file sample_pid_env ''atpd.pid'' = (0, 5, [P_open 5, P_lock True, P_write (''4711'' @ [CHR 0x0A] @ ''777'' @ [CHR 0x0A])])"
proof -
  have "pe_pid sample_pid_env = 4711" "pe_open sample_pid_env = 5" "pe_lock_ok sample_pid_env" "pe_write_ok sample_pid_env"
    by (simp_all add: sample_pid_env_def)
  then show ?thesis
    by (simp add: write_pid_file_def sample_pid_start SAFE_PATH_MAX_def PATH_MAX_def c_strrchr_def sample_pid_text [simplified])
qed

theorem pid_identity_roundtrip_witness:
  "read_pid_identity None [Inr ''47'', Inl EINTR, Inr (''11'' @ [CHR 0x0A] @ ''777'' @ [CHR 0x0A]), Inr []]
     = Some (Inr \<lparr>id_pid = 4711, id_starttime = 777\<rparr>)"
proof -
  have "delivers [Inr ''47'', Inl EINTR, Inr (''11'' @ [CHR 0x0A] @ ''777'' @ [CHR 0x0A]), Inr []]
      (''4711'' @ [CHR 0x0A] @ ''777'' @ [CHR 0x0A])"
    unfolding delivers_def
    by (intro exI [of _ "[Inr ''47'', Inl EINTR, Inr (''11'' @ [CHR 0x0A] @ ''777'' @ [CHR 0x0A])]"] exI [of _ "[]"])
      (simp add: pieces_def)
  from pid_identity_roundtrip [OF sample_pid_write _ _ _ this] sample_pid_start
  show ?thesis by (auto simp: sample_pid_env_def INT_MAX_def)
qed

subsection \<open>Signalling only the daemon\<close>

text \<open>Every signal is sent right after a check that the process is the daemon, and every check
  reports what the view it names shows.\<close>

fun checked_kills :: "(nat \<Rightarrow> bool) \<Rightarrow> bool \<Rightarrow> pid_event list \<Rightarrow> bool" where
  "checked_kills ok matched [] = True"
| "checked_kills ok matched (P_check i b # ev) = (b = ok i \<and> checked_kills ok b ev)"
| "checked_kills ok matched (P_kill p s # ev) = (matched \<and> checked_kills ok False ev)"
| "checked_kills ok matched (e # ev) = checked_kills ok False ev"

abbreviation daemon_at :: "stop_env \<Rightarrow> pid_identity_t \<Rightarrow> nat \<Rightarrow> bool" where
  "daemon_at env x i \<equiv> process_matches_identity (se_view env i) x"

lemma checked_wait:
  "wait_gone n x view i = (s, j, ev) \<Longrightarrow> (\<And>b. checked_kills (\<lambda>i. process_matches_identity (view i) x) b rest)
    \<Longrightarrow> checked_kills (\<lambda>i. process_matches_identity (view i) x) m (ev @ rest)"
  by (induction n arbitrary: i s j ev m) (auto split: if_splits prod.splits)

lemma wait_gone_end:
  "wait_gone n x view i = (True, j, ev) \<Longrightarrow> \<exists>pre i. ev = pre @ [P_check i False]"
proof (induction n arbitrary: i ev)
  case (Suc n)
  obtain s' j' ev' where w: "wait_gone n x view (Suc i) = (s', j', ev')" by (metis prod_cases3)
  show ?case
  proof (cases "process_matches_identity (view i) x")
    case True
    then have "s'" "j' = j" "ev = P_check i True # ev'" using Suc.prems w by auto
    with Suc.IH [of "Suc i" ev'] w obtain pre k where "ev = (P_check i True # pre) @ [P_check k False]" by auto
    then show ?thesis by blast
  next
    case False
    then show ?thesis using Suc.prems by auto
  qed
qed simp

lemma wait_gone_checks: "wait_gone n x view i = (s, j, ev) \<Longrightarrow> list_all (\<lambda>e. \<exists>k b. e = P_check k b) ev"
proof (induction n arbitrary: i s j ev)
  case (Suc n)
  obtain s' j' ev' where w: "wait_gone n x view (Suc i) = (s', j', ev')" by (metis prod_cases3)
  from Suc.IH [OF w] Suc.prems w show ?case by (auto split: if_splits)
qed simp

lemma stop_after_term_checked:
  assumes "stop_after_term env path x = (rc, ev)"
  shows "checked_kills (daemon_at env x) False ev \<and> (\<forall>p s. P_kill p s \<in> set ev \<longrightarrow> p = id_pid x)
    \<and> (rc = 0 \<longrightarrow> (\<exists>pre i. ev = pre @ [P_check i False, P_unlink path])) \<and> (rc = 0 \<longleftrightarrow> P_unlink path \<in> set ev)"
proof -
  obtain s i e1 where w1: "wait_gone 50 x (se_view env) 1 = (s, i, e1)" by (metis prod_cases3)
  obtain g j e2 where w2: "wait_gone 50 x (se_view env) (Suc i) = (g, j, e2)" by (metis prod_cases3)
  note c1 = checked_wait [OF w1] and c2 = checked_wait [OF w2]
  have no1: "P_kill p q \<notin> set e1" "P_unlink path \<notin> set e1" for p q using wait_gone_checks [OF w1] by (auto simp: list_all_iff)
  have no2: "P_kill p q \<notin> set e2" "P_unlink path \<notin> set e2" for p q using wait_gone_checks [OF w2] by (auto simp: list_all_iff)
  consider (first) "s" | (between) "\<not> s" "\<not> daemon_at env x i" | (refused) "\<not> s" "daemon_at env x i" "se_kill env \<noteq> None" "se_kill env \<noteq> Some ESRCH"
    | (killed) "\<not> s" "daemon_at env x i" "se_kill env = None \<or> se_kill env = Some ESRCH" by argo
  then show ?thesis
  proof cases
    case first
    then obtain pre k where "e1 = pre @ [P_check k False]" using wait_gone_end [of 50 x "se_view env" 1 i e1] w1 by auto
    with assms w1 first c1 [of "[P_unlink path]"] no1 show ?thesis by (auto simp: stop_after_term_def)
  next
    case between
    with assms w1 c1 [of "[P_check i False, P_unlink path]"] no1 show ?thesis by (auto simp: stop_after_term_def)
  next
    case refused
    with assms w1 c1 [of "[P_check i True, P_kill (id_pid x) SIG_KILL]"] no1 show ?thesis by (auto simp: stop_after_term_def)
  next
    case killed
    let ?rest = "if g then [P_unlink path] else []"
    have ev: "rc = (if g then 0 else 1)" "ev = e1 @ [P_check i True, P_kill (id_pid x) SIG_KILL] @ e2 @ ?rest"
      using assms w1 w2 killed by (auto simp: stop_after_term_def)
    have "checked_kills (daemon_at env x) False ev"
      unfolding ev using killed c2 [of ?rest] by (intro c1) simp
    moreover have "\<exists>pre k. ev = pre @ [P_check k False, P_unlink path]" if gone: "g"
    proof -
      obtain pre k where "e2 = pre @ [P_check k False]" using wait_gone_end [of 50 x "se_view env" "Suc i" j e2] gone w2 by auto
      then have "ev = (e1 @ [P_check i True, P_kill (id_pid x) SIG_KILL] @ pre) @ [P_check k False, P_unlink path]" using gone ev(2) by simp
      then show ?thesis by blast
    qed
    ultimately show ?thesis using ev no1 no2 by (auto split: if_splits)
  qed
qed

lemma stop_daemon_checked:
  assumes "stop_daemon env path (Inr x) = (rc, ev)"
  shows "checked_kills (daemon_at env x) False ev \<and> (\<forall>p s. P_kill p s \<in> set ev \<longrightarrow> p = id_pid x \<and> 0 < p)
    \<and> (rc = 0 \<longrightarrow> (\<exists>pre i. ev = pre @ [P_check i False, P_unlink path])) \<and> (rc = 0 \<longleftrightarrow> P_unlink path \<in> set ev)"
proof (cases "daemon_at env x 0 \<and> se_term env = None")
  case False
  then show ?thesis using assms by (auto simp: stop_daemon_def process_matches_identity_def split: if_splits)
next
  case True
  then have pos: "0 < id_pid x" by (auto simp: process_matches_identity_def split: if_splits)
  obtain rc' ev' where a: "stop_after_term env path x = (rc', ev')" by fastforce
  have ev: "rc = rc'" "ev = [P_check 0 True, P_kill (id_pid x) SIG_TERM] @ ev'" using assms True a by (auto simp: stop_daemon_def)
  note c = stop_after_term_checked [OF a]
  then have "rc = 0 \<longrightarrow> (\<exists>pre i. ev = pre @ [P_check i False, P_unlink path])" unfolding ev by (metis append_assoc)
  with c True pos show ?thesis unfolding ev by auto
qed

text \<open>The first of the checks \<open>a\<close> to \<open>b - 1\<close> that finds the daemon gone, and the events of checks that
  find it alive.\<close>

definition first_gone :: "(nat \<Rightarrow> bool) \<Rightarrow> nat \<Rightarrow> nat \<Rightarrow> nat \<Rightarrow> bool" where
  "first_gone ok a b g \<longleftrightarrow> a \<le> g \<and> g < b \<and> \<not> ok g \<and> (\<forall>k\<in>{a..<g}. ok k)"

abbreviation alive_checks :: "nat \<Rightarrow> nat \<Rightarrow> pid_event list" where
  "alive_checks a b \<equiv> map (\<lambda>k. P_check k True) [a..<b]"

lemma first_gone_or_alive: "(\<exists>g. first_gone ok a b g) \<or> (\<forall>k\<in>{a..<b}. ok k)"
proof (rule disjCI)
  assume "\<not> (\<forall>k\<in>{a..<b}. ok k)"
  then have ex: "\<exists>k. a \<le> k \<and> k < b \<and> \<not> ok k" by auto
  let ?g = "LEAST k. a \<le> k \<and> k < b \<and> \<not> ok k"
  have "a \<le> ?g \<and> ?g < b \<and> \<not> ok ?g" using LeastI_ex [OF ex] .
  moreover have "ok k" if "a \<le> k" "k < ?g" for k using not_less_Least [OF that(2)] that calculation by auto
  ultimately show "\<exists>g. first_gone ok a b g" unfolding first_gone_def by auto
qed

lemma wait_gone_found:
  assumes "first_gone (\<lambda>k. process_matches_identity (view k) x) i (i + n) g"
  shows "wait_gone n x view i = (True, Suc g, alive_checks i g @ [P_check g False])"
  using assms
proof (induction n arbitrary: i)
  case (Suc n)
  show ?case
  proof (cases "i = g")
    case False
    with Suc.prems have "first_gone (\<lambda>k. process_matches_identity (view k) x) (Suc i) (Suc i + n) g"
      "process_matches_identity (view i) x" "i < g" by (auto simp: first_gone_def)
    with Suc.IH [of "Suc i"] show ?thesis by (simp add: upt_conv_Cons)
  qed (use Suc.prems in \<open>auto simp: first_gone_def\<close>)
qed (auto simp: first_gone_def)

lemma wait_gone_alive:
  assumes "\<forall>k\<in>{i..<i + n}. process_matches_identity (view k) x"
  shows "wait_gone n x view i = (False, i + n, alive_checks i (i + n))"
  using assms
proof (induction n arbitrary: i)
  case (Suc n)
  then have "process_matches_identity (view i) x" "wait_gone n x view (Suc i) = (False, Suc i + n, alive_checks (Suc i) (Suc i + n))"
    by simp_all
  then show ?case by (simp add: upt_conv_Cons)
qed simp

text \<open>The run after \<open>SIGTERM\<close>: the 51 checks of the first wait and the one after it; then
  \<open>SIGKILL\<close> and the 50 checks of the second wait.\<close>

lemma stop_after_term_gone:
  assumes "first_gone (daemon_at env x) 1 52 g"
  shows "stop_after_term env path x = (0, alive_checks 1 g @ [P_check g False, P_unlink path])"
proof (cases "g = 51")
  case True
  with assms have "\<forall>k\<in>{1..<1 + 50}. daemon_at env x k" "\<not> daemon_at env x 51" by (auto simp: first_gone_def)
  then show ?thesis using True by (simp add: stop_after_term_def wait_gone_alive)
next
  case False
  with assms have "first_gone (daemon_at env x) 1 (1 + 50) g" by (auto simp: first_gone_def)
  then show ?thesis by (simp add: stop_after_term_def wait_gone_found)
qed

lemma alive_checks_snoc: "alive_checks 1 52 = alive_checks 1 51 @ [P_check 51 True]"
proof -
  have "[1..<52::nat] = [1..<51] @ [51]" using upt_Suc_append [of 1 51] by (simp del: upt_Suc)
  then show ?thesis by (simp del: upt_Suc)
qed

lemma stop_after_term_alive:
  assumes "\<forall>k\<in>{1..<52}. daemon_at env x k"
  shows "se_kill env \<noteq> None \<Longrightarrow> se_kill env \<noteq> Some ESRCH
      \<Longrightarrow> stop_after_term env path x = (1, alive_checks 1 52 @ [P_kill (id_pid x) SIG_KILL])" (is "_ \<Longrightarrow> _ \<Longrightarrow> ?refused")
    and "se_kill env = None \<or> se_kill env = Some ESRCH \<Longrightarrow> first_gone (daemon_at env x) 52 102 g
      \<Longrightarrow> stop_after_term env path x
        = (0, alive_checks 1 52 @ [P_kill (id_pid x) SIG_KILL] @ alive_checks 52 g @ [P_check g False, P_unlink path])"
        (is "_ \<Longrightarrow> _ \<Longrightarrow> ?gone")
    and "se_kill env = None \<or> se_kill env = Some ESRCH \<Longrightarrow> \<forall>k\<in>{52..<102}. daemon_at env x k
      \<Longrightarrow> stop_after_term env path x = (1, alive_checks 1 52 @ [P_kill (id_pid x) SIG_KILL] @ alive_checks 52 102)"
        (is "_ \<Longrightarrow> _ \<Longrightarrow> ?stuck")
proof -
  have w: "wait_gone 50 x (se_view env) 1 = (False, 51, alive_checks 1 51)" "daemon_at env x 51"
    using wait_gone_alive [of 1 50 "se_view env" x] assms by (simp_all del: upt_Suc)
  show "se_kill env \<noteq> None \<Longrightarrow> se_kill env \<noteq> Some ESRCH \<Longrightarrow> ?refused"
    using w unfolding alive_checks_snoc by (simp add: stop_after_term_def del: upt_Suc)
  show "se_kill env = None \<or> se_kill env = Some ESRCH \<Longrightarrow> first_gone (daemon_at env x) 52 102 g \<Longrightarrow> ?gone"
    using w wait_gone_found [of "se_view env" x 52 50 g] unfolding alive_checks_snoc
    by (auto simp: stop_after_term_def simp del: upt_Suc)
  show "se_kill env = None \<or> se_kill env = Some ESRCH \<Longrightarrow> \<forall>k\<in>{52..<102}. daemon_at env x k \<Longrightarrow> ?stuck"
    using w wait_gone_alive [of 52 50 "se_view env" x] unfolding alive_checks_snoc
    by (auto simp: stop_after_term_def simp del: upt_Suc)
qed

text \<open>The whole run on a valid PID file, written over what the checks see.\<close>

definition stop_trace :: "stop_env \<Rightarrow> string \<Rightarrow> pid_identity_t \<Rightarrow> int \<Rightarrow> pid_event list \<Rightarrow> bool" where
  "stop_trace env path x rc ev \<longleftrightarrow>
     (let ok = daemon_at env x; asked = [P_check 0 True, P_kill (id_pid x) SIG_TERM];
          forced = asked @ alive_checks 1 52 @ [P_kill (id_pid x) SIG_KILL] in
      if \<not> ok 0 then rc = 1 \<and> ev = [P_check 0 False]
      else if se_term env \<noteq> None then rc = 1 \<and> ev = asked
      else (\<exists>g. first_gone ok 1 52 g \<and> rc = 0 \<and> ev = asked @ alive_checks 1 g @ [P_check g False, P_unlink path])
        \<or> (\<forall>k\<in>{1..<52}. ok k) \<and>
          (if se_kill env \<noteq> None \<and> se_kill env \<noteq> Some ESRCH then rc = 1 \<and> ev = forced
           else (\<exists>g. first_gone ok 52 102 g \<and> rc = 0 \<and> ev = forced @ alive_checks 52 g @ [P_check g False, P_unlink path])
             \<or> (\<forall>k\<in>{52..<102}. ok k) \<and> rc = 1 \<and> ev = forced @ alive_checks 52 102))"

lemma stop_daemon_trace:
  assumes "stop_daemon env path (Inr x) = (rc, ev)"
  shows "stop_trace env path x rc ev"
proof (cases "daemon_at env x 0 \<and> se_term env = None")
  case False
  then show ?thesis using assms by (auto simp: stop_daemon_def stop_trace_def Let_def split: if_splits)
next
  case True
  obtain rc' ev' where a: "stop_after_term env path x = (rc', ev')" by fastforce
  have ev: "rc = rc'" "ev = [P_check 0 True, P_kill (id_pid x) SIG_TERM] @ ev'" using assms True a by (auto simp: stop_daemon_def)
  note stuck = stop_after_term_alive [of env x]
  consider (soon) g where "first_gone (daemon_at env x) 1 52 g"
    | (refused) "\<forall>k\<in>{1..<52}. daemon_at env x k" "se_kill env \<noteq> None" "se_kill env \<noteq> Some ESRCH"
    | (late) g where "\<forall>k\<in>{1..<52}. daemon_at env x k" "se_kill env = None \<or> se_kill env = Some ESRCH"
        "first_gone (daemon_at env x) 52 102 g"
    | (never) "\<forall>k\<in>{1..<52}. daemon_at env x k" "se_kill env = None \<or> se_kill env = Some ESRCH"
        "\<forall>k\<in>{52..<102}. daemon_at env x k"
    using first_gone_or_alive [of "daemon_at env x" 1 52] first_gone_or_alive [of "daemon_at env x" 52 102] by metis
  then show ?thesis
  proof cases
    case soon
    then show ?thesis using stop_after_term_gone [OF soon, of path] True a ev unfolding stop_trace_def Let_def by auto
  next
    case refused
    then show ?thesis using stuck(1) [OF refused, of path] True a ev unfolding stop_trace_def Let_def by (simp del: upt_Suc)
  next
    case late
    then show ?thesis using stuck(2) [OF late, of path] True a ev unfolding stop_trace_def Let_def by (auto simp del: upt_Suc)
  next
    case never
    then show ?thesis using stuck(3) [OF never, of path] True a ev unfolding stop_trace_def Let_def by (auto simp del: upt_Suc)
  qed
qed

text \<open>C27: \<open>stop\<close> signals nobody but the daemon, and says what happened: every signal it sends goes to
  the process id of the PID file right after a check that found this process with the recorded
  start time and running \<open>atpd\<close> (a process id that was reused is never signalled); without a
  valid PID file it does nothing, on a stale file (the first check does not find the daemon) it
  fails and leaves the file in place; it returns 0 and removes the file exactly when \<open>SIGTERM\<close> was
  sent and one of the checks after it, at most 51 before \<open>SIGKILL\<close> and 50 after it, finds the
  daemon gone, and it makes exactly the checks and calls of \<open>stop_trace\<close>, which fixes the run for
  everything the checks may see.\<close>

theorem stop_signals_only_daemon:
  assumes "do_stop env opt cfg open_error reads = Some (rc, ev)" "path = resolve_pid_path opt SAFE_PATH_MAX cfg"
  shows "case read_pid_identity open_error reads of
      Some (Inr x) \<Rightarrow>
        checked_kills (\<lambda>i. process_matches_identity (se_view env i) x) False ev
        \<and> (\<forall>p s. P_kill p s \<in> set ev \<longrightarrow> p = id_pid x \<and> 0 < p)
        \<and> (rc = 0 \<longleftrightarrow> P_unlink path \<in> set ev) \<and> stop_trace env path x rc ev
        \<and> (rc = 0 \<longleftrightarrow> P_kill (id_pid x) SIG_TERM \<in> set ev \<and> se_term env = None \<and> (\<exists>i. P_check i False \<in> set ev))
    | _ \<Rightarrow> rc = 1 \<and> ev = []"
proof -
  obtain ident where i: "read_pid_identity open_error reads = Some ident" "stop_daemon env path ident = (rc, ev)"
    using assms by (auto simp: do_stop_def)
  show ?thesis
  proof (cases ident)
    case (Inl e)
    with i show ?thesis by (auto simp: stop_daemon_def)
  next
    case (Inr x)
    note t = stop_daemon_trace [OF i(2) [unfolded Inr]]
    then have "rc = 0 \<longleftrightarrow> P_kill (id_pid x) SIG_TERM \<in> set ev \<and> se_term env = None \<and> (\<exists>i. P_check i False \<in> set ev)"
      unfolding stop_trace_def Let_def by (auto simp del: upt_Suc split: if_splits)
    with t stop_daemon_checked [OF i(2) [unfolded Inr]] show ?thesis unfolding i(1) Inr by simp
  qed
qed

definition atpd_view :: id_view where
  "atpd_view = \<lparr>iv_before = pe_stat sample_pid_env, iv_exe = (\<lambda>_. Inr ''/data/adb/atp/bin/atpd''),
     iv_after = pe_stat sample_pid_env\<rparr>"

definition other_view :: id_view where
  "other_view = atpd_view\<lparr>iv_exe := (\<lambda>_. Inr ''/bin/sh'')\<rparr>"

lemma sample_views:
  "process_matches_identity atpd_view \<lparr>id_pid = 4711, id_starttime = 777\<rparr>"
  "\<not> process_matches_identity other_view \<lparr>id_pid = 4711, id_starttime = 777\<rparr>"
  using sample_pid_start
  by (simp_all add: process_matches_identity_def atpd_view_def other_view_def process_is_atpd_def numeral_3_eq_3 c_basename_def
      c_strrchr_def c_trunc_def PATH_MAX_def)

definition sample_stop_env :: stop_env where
  "sample_stop_env = \<lparr>se_view = (\<lambda>i. if i < 2 then atpd_view else other_view), se_term = None, se_kill = None\<rparr>"

definition sample_pid_reads :: "(errno + string) list" where
  "sample_pid_reads = [Inr (''4711'' @ [CHR 0x0A] @ ''777'' @ [CHR 0x0A]), Inr []]"

lemma sample_identity_read: "read_pid_identity None sample_pid_reads = Some (Inr \<lparr>id_pid = 4711, id_starttime = 777\<rparr>)"
  using scan_pid_text [of 4711 777] by (simp add: read_pid_identity_def sample_pid_reads_def sample_pid_text [simplified] INT_MAX_def)

theorem stop_signals_only_daemon_witness:
  "\<forall>cfg. \<exists>ev. do_stop sample_stop_env ''p'' cfg None sample_pid_reads = Some (0, ev)
     \<and> checked_kills (\<lambda>i. i < 2) False ev \<and> P_kill 4711 SIG_TERM \<in> set ev \<and> P_unlink ''p'' \<in> set ev"
proof
  fix cfg0 :: atp_config_t
  have p: "resolve_pid_path ''p'' SAFE_PATH_MAX cfg0 = ''p''"
    by (simp add: resolve_pid_path_def c_trunc_def SAFE_PATH_MAX_def PATH_MAX_def)
  have d: "do_stop sample_stop_env ''p'' cfg0 None sample_pid_reads =
      Some (0, [P_check 0 True, P_kill 4711 SIG_TERM, P_check 1 True, P_check 2 False, P_unlink ''p''])"
    using sample_views
    by (simp add: do_stop_def sample_identity_read p sample_stop_env_def stop_daemon_def stop_after_term_def
        eval_nat_numeral(2) numeral_eq_Suc)
  have v: "(\<lambda>i. process_matches_identity (se_view sample_stop_env i) \<lparr>id_pid = 4711, id_starttime = 777\<rparr>) = (\<lambda>i. i < 2)"
    using sample_views by (auto simp: sample_stop_env_def)
  from d stop_signals_only_daemon [OF d refl, unfolded sample_identity_read, simplified] v
  show "\<exists>ev. do_stop sample_stop_env ''p'' cfg0 None sample_pid_reads = Some (0, ev)
     \<and> checked_kills (\<lambda>i. i < 2) False ev \<and> P_kill 4711 SIG_TERM \<in> set ev \<and> P_unlink ''p'' \<in> set ev" by auto
qed

end
