(* ===== verification/Singbox_Api.thy ===== *)
theory Singbox_Api
  imports Config
begin

text \<open>
  \<open>src/singbox_api.c\<close>: the client of the proxy's native API.  A call opens a connection, sends
  an HTTP request with a gRPC-Web frame, and reads the answer until the first complete frame;
  the frames hold protobuf messages, which are decoded field by field.

  Bytes are characters.  A message that is being decoded is the list of its remaining bytes.
  The answers of the kernel are arguments (\<open>http_env\<close>); a call is \<open>None\<close> while it still waits for
  an answer of \<open>send\<close> or \<open>recv\<close>.  The events are what a call does to its socket.
\<close>

unbundle bit_operations_syntax

subsection \<open>Data\<close>

record singbox_api_ctx_t =
  sa_host :: string
  sa_port :: int
  sa_secret :: string
  sa_timeout_sec :: int
  sa_connected :: bool
  sa_last_check :: int

record singbox_status_t =
  st_memory :: u64
  st_goroutines :: int
  st_connections_in :: int
  st_connections_out :: int
  st_traffic_available :: bool
  st_uplink :: int
  st_downlink :: int
  st_uplink_total :: int
  st_downlink_total :: int

definition SINGBOX_MAX_CLASH_MODES :: nat where "SINGBOX_MAX_CLASH_MODES = 32"
definition SINGBOX_CLASH_MODE_SIZE :: nat where "SINGBOX_CLASH_MODE_SIZE = 64"

record singbox_clash_mode_status_t =
  cm_modes :: "string list"
  cm_current_mode :: string

definition status_zero :: singbox_status_t where
  "status_zero = \<lparr>st_memory = 0, st_goroutines = 0, st_connections_in = 0, st_connections_out = 0,
     st_traffic_available = False, st_uplink = 0, st_downlink = 0, st_uplink_total = 0, st_downlink_total = 0\<rparr>"

definition modes_zero :: singbox_clash_mode_status_t where
  "modes_zero = \<lparr>cm_modes = [], cm_current_mode = []\<rparr>"

text \<open>The C string at the start of a buffer.\<close>

definition c_str :: "string \<Rightarrow> string" where
  "c_str bs = takeWhile (\<lambda>c. c \<noteq> CHR 0x00) bs"

definition CRLF :: string where "CRLF = [CHR 0x0D, CHR 0x0A]"

text \<open>\<open>strtoul\<close> with base 16: the value and what is left behind the number.\<close>

definition c_xdigit_val :: "char \<Rightarrow> nat option" where
  "c_xdigit_val c =
     (let n = (of_char c :: nat) in
      if 48 \<le> n \<and> n \<le> 57 then Some (n - 48)
      else if 65 \<le> n \<and> n \<le> 70 then Some (n - 55)
      else if 97 \<le> n \<and> n \<le> 102 then Some (n - 87)
      else None)"

definition c_isxdigit :: "char \<Rightarrow> bool" where
  "c_isxdigit c \<longleftrightarrow> c_xdigit_val c \<noteq> None"

definition hex_val :: "string \<Rightarrow> nat" where
  "hex_val ds = foldl (\<lambda>a c. a * 16 + the (c_xdigit_val c)) 0 ds"

fun skip_0x :: "string \<Rightarrow> string" where
  "skip_0x (z # x # d # cs) =
     (if z = CHR ''0'' \<and> (x = CHR ''x'' \<or> x = CHR ''X'') \<and> c_isxdigit d then d # cs else z # x # d # cs)"
| "skip_0x s = s"

definition c_strtoul16 :: "string \<Rightarrow> u64 \<times> string" where
  "c_strtoul16 s =
     (let (neg, t) = scan_sign (dropWhile c_isspace s);
          t1 = skip_0x t;
          ds = takeWhile c_isxdigit t1; rest = dropWhile c_isxdigit t1
      in if ds = [] then (0, s)
         else if 2 ^ 64 \<le> hex_val ds then (- 1, rest)
         else (if neg then - of_nat (hex_val ds) else of_nat (hex_val ds), rest))"

subsection \<open>Set up and health check\<close>

definition singbox_api_init :: "atp_config_t \<Rightarrow> singbox_api_ctx_t" where
  "singbox_api_init cfg =
     \<lparr>sa_host = c_trunc 64 (if api_host (cfg_api cfg) \<noteq> [] then api_host (cfg_api cfg) else DEFAULT_API_HOST),
      sa_port = (if 0 < api_port (cfg_api cfg) then api_port (cfg_api cfg) else DEFAULT_API_PORT),
      sa_secret = c_trunc 128 (api_secret (cfg_api cfg)),
      sa_timeout_sec = 2, sa_connected = False, sa_last_check = 0\<rparr>"

definition singbox_api_cleanup :: "singbox_api_ctx_t \<Rightarrow> singbox_api_ctx_t" where
  "singbox_api_cleanup ctx = ctx\<lparr>sa_connected := False, sa_last_check := 0\<rparr>"

text \<open>What \<open>poll\<close> and \<open>getsockopt\<close> report on a connection in progress.\<close>

record poll_view =
  pv_ret :: int
  pv_failed :: bool
  pv_out :: bool
  pv_sockopt_ok :: bool
  pv_so_error :: int

record http_env =
  he_sock :: fd
  he_connect :: "errno option"
  he_poll :: poll_view
  he_blocking_ok :: bool
  he_send :: "(errno + nat) list"
  he_recv :: "(errno + string) list"
  he_time :: int

datatype http_event = H_socket fd | H_connect string int | H_send string | H_close fd

definition safe_time_now :: "int \<Rightarrow> int" where
  "safe_time_now t = (if t = -1 then 0 else t)"

definition wait_connect_ready :: "poll_view \<Rightarrow> bool" where
  "wait_connect_ready v =
     (if pv_ret v \<le> 0 then False
      else if pv_failed v then False
      else if \<not> pv_out v then False
      else if \<not> pv_sockopt_ok v then False
      else pv_so_error v = 0)"

definition api_target_port :: "singbox_api_ctx_t \<Rightarrow> int" where
  "api_target_port ctx = (if 0 < sa_port ctx then sa_port ctx else DEFAULT_API_PORT)"

definition api_target_host :: "singbox_api_ctx_t \<Rightarrow> string" where
  "api_target_host ctx = (if sa_host ctx \<noteq> [] then sa_host ctx else ''127.0.0.1'')"

definition connected_ok :: "http_env \<Rightarrow> bool" where
  "connected_ok env \<longleftrightarrow> he_connect env = None \<or> he_connect env = Some EINPROGRESS \<and> wait_connect_ready (he_poll env)"

definition singbox_api_health_check :: "http_env \<Rightarrow> singbox_api_ctx_t \<Rightarrow> int \<times> singbox_api_ctx_t \<times> http_event list" where
  "singbox_api_health_check env ctx =
     (let s = he_sock env; host = api_target_host ctx; now = safe_time_now (he_time env) in
      if s < 0 then (-1, ctx\<lparr>sa_connected := False\<rparr>, [])
      else if \<not> inet_pton4 host
      then (-1, ctx\<lparr>sa_connected := False, sa_last_check := now\<rparr>, [H_socket s, H_close s])
      else (if connected_ok env then 0 else -1, ctx\<lparr>sa_connected := connected_ok env, sa_last_check := now\<rparr>,
            [H_socket s, H_connect host (api_target_port ctx mod 65536), H_close s]))"

subsection \<open>Protobuf\<close>

fun varint_from :: "nat \<Rightarrow> u64 \<Rightarrow> string \<Rightarrow> (u64 \<times> string) option" where
  "varint_from shift acc [] = None"
| "varint_from shift acc (b # bs) =
     (if shift < 64 then
        (let acc1 = acc OR push_bit shift (of_char b AND 0x7F) in
         if (of_char b :: u64) AND 0x80 = 0 then Some (acc1, bs) else varint_from (shift + 7) acc1 bs)
      else None)"

definition read_varint :: "string \<Rightarrow> (u64 \<times> string) option" where
  "read_varint bs = varint_from 0 0 bs"

lemma varint_from_progress: "varint_from shift acc bs = Some (v, rest) \<Longrightarrow> length rest < length bs"
  by (induction bs arbitrary: shift acc) (auto simp: Let_def less_Suc_eq split: if_splits)

lemma read_varint_progress: "read_varint bs = Some (v, rest) \<Longrightarrow> length rest < length bs"
  by (simp add: read_varint_def varint_from_progress)

definition INT32_MAX :: u64 where "INT32_MAX = 2147483647"

text \<open>One varint field of the status message; \<open>None\<close>: the value is out of range.\<close>

definition status_field :: "u32 \<Rightarrow> u64 \<Rightarrow> singbox_status_t \<Rightarrow> singbox_status_t option" where
  "status_field field value st =
     (if field = 1 then Some (st\<lparr>st_memory := value\<rparr>)
      else if field = 2 then (if INT32_MAX < value then None else Some (st\<lparr>st_goroutines := uint value\<rparr>))
      else if field = 3 then (if INT32_MAX < value then None else Some (st\<lparr>st_connections_in := uint value\<rparr>))
      else if field = 4 then (if INT32_MAX < value then None else Some (st\<lparr>st_connections_out := uint value\<rparr>))
      else if field = 5 then Some (st\<lparr>st_traffic_available := (value \<noteq> 0)\<rparr>)
      else if field = 6 then Some (st\<lparr>st_uplink := sint value\<rparr>)
      else if field = 7 then Some (st\<lparr>st_downlink := sint value\<rparr>)
      else if field = 8 then Some (st\<lparr>st_uplink_total := sint value\<rparr>)
      else if field = 9 then Some (st\<lparr>st_downlink_total := sint value\<rparr>)
      else Some st)"

text \<open>The field number and the wire type of a key.\<close>

definition key_field :: "u64 \<Rightarrow> u32" where
  "key_field key = ucast (drop_bit 3 key)"

definition key_wire :: "u64 \<Rightarrow> u64" where
  "key_wire key = key AND 7"

function status_fields :: "string \<Rightarrow> singbox_status_t \<Rightarrow> int \<times> singbox_status_t" where
  "status_fields bs st =
     (if bs = [] then (1, st)
      else case read_varint bs of
        None \<Rightarrow> (-1, st)
      | Some (key, bs1) \<Rightarrow>
          (if key_wire key = 0 then
             (case read_varint bs1 of
                None \<Rightarrow> (-1, st)
              | Some (value, bs2) \<Rightarrow>
                  (case status_field (key_field key) value st of
                     None \<Rightarrow> (-1, st)
                   | Some st1 \<Rightarrow> status_fields bs2 st1))
           else if key_wire key = 1 then (if length bs1 < 8 then (0, st) else status_fields (drop 8 bs1) st)
           else if key_wire key = 2 then
             (case read_varint bs1 of
                None \<Rightarrow> (0, st)
              | Some (sz, bs2) \<Rightarrow> (if length bs2 < unat sz then (0, st) else status_fields (drop (unat sz) bs2) st))
           else if key_wire key = 5 then (if length bs1 < 4 then (0, st) else status_fields (drop 4 bs1) st)
           else (-1, st)))"
  by pat_completeness auto
termination
  by (relation "measure (\<lambda>(bs, _). length bs)") (auto dest!: read_varint_progress)

declare status_fields.simps [simp del]

text \<open>A frame: a flag byte, the length of the message in big-endian order, the message.\<close>

definition frame_length :: "string \<Rightarrow> nat" where
  "frame_length buf =
     unat ((push_bit 24 (of_char (buf ! 1)) OR push_bit 16 (of_char (buf ! 2))
            OR push_bit 8 (of_char (buf ! 3)) OR of_char (buf ! 4)) :: u32)"

definition is_trailer :: "string \<Rightarrow> bool" where
  "is_trailer buf \<longleftrightarrow> (of_char (buf ! 0) :: u64) AND 0x80 \<noteq> 0"

definition frame_message :: "string \<Rightarrow> string" where
  "frame_message buf = take (frame_length buf) (drop 5 buf)"

definition parse_status_frame :: "string \<Rightarrow> int \<times> singbox_status_t" where
  "parse_status_frame buf =
     (if length buf < 5 then (0, status_zero)
      else if is_trailer buf then (-1, status_zero)
      else if length buf - 5 < frame_length buf then (0, status_zero)
      else status_fields (frame_message buf) status_zero)"

subsection \<open>The HTTP answer of the status call\<close>

definition c_tolower :: "char \<Rightarrow> char" where
  "c_tolower c = (let n = (of_char c :: nat) in if 65 \<le> n \<and> n \<le> 90 then char_of (n + 32) else c)"

definition c_strcasestr :: "string \<Rightarrow> string \<Rightarrow> bool" where
  "c_strcasestr s needle \<longleftrightarrow> c_strstr (map c_tolower s) (map c_tolower needle) \<noteq> None"

lemma c_strstr_CRLF_progress: "c_strstr body CRLF = Some (line, rest) \<Longrightarrow> 2 \<le> length rest \<and> length rest \<le> length body"
  using c_strstr_Some [of body CRLF line rest] by (auto simp: CRLF_def prefix_def)

function chunk_loop :: "string \<Rightarrow> singbox_status_t \<Rightarrow> int \<times> singbox_status_t" where
  "chunk_loop body st =
     (if body = [] then (0, st)
      else case c_strstr body CRLF of
        None \<Rightarrow> (0, st)
      | Some (line, rest) \<Rightarrow>
          (if line = [] \<or> 32 \<le> length line then (-1, st)
           else case c_strtoul16 (c_str line) of (chunk_len, e) \<Rightarrow>
             if e \<noteq> [] then (-1, st)
             else if chunk_len = 0 then (-1, st)
             else if length (drop 2 rest) < unat chunk_len then (0, st)
             else case parse_status_frame (take (unat chunk_len) (drop 2 rest)) of (parsed, st1) \<Rightarrow>
               if parsed \<noteq> 0 then (parsed, st1)
               else chunk_loop (drop (unat chunk_len + 2) (drop 2 rest)) st1))"
  by pat_completeness auto
termination
  by (relation "measure (\<lambda>(body, _). length body)") (auto dest!: c_strstr_CRLF_progress)

declare chunk_loop.simps [simp del]

definition parse_grpc_web_response :: "string \<Rightarrow> singbox_status_t \<Rightarrow> int \<times> singbox_status_t" where
  "parse_grpc_web_response buf st =
     (case c_strstr (c_str buf) (CRLF @ CRLF) of
        None \<Rightarrow> (0, st)
      | Some (headers, _) \<Rightarrow>
          (let body = drop (length headers + 4) buf in
           if \<not> c_strcasestr (c_str buf) ''transfer-encoding: chunked'' then parse_status_frame body
           else chunk_loop body st))"

subsection \<open>Calls\<close>

text \<open>Opening a connection: the socket that is connected and blocking, or \<open>None\<close> with the
  socket closed.\<close>

definition open_connection :: "http_env \<Rightarrow> singbox_api_ctx_t \<Rightarrow> fd option \<times> http_event list" where
  "open_connection env ctx =
     (let s = he_sock env; host = api_target_host ctx; ev = [H_socket s, H_connect host (api_target_port ctx mod 65536)] in
      if s < 0 then (None, [])
      else if \<not> inet_pton4 host then (None, [H_socket s, H_close s])
      else if \<not> connected_ok env then (None, ev @ [H_close s])
      else if \<not> he_blocking_ok env then (None, ev @ [H_close s])
      else (Some s, ev))"

text \<open>Sending \<open>len\<close> bytes: how many were sent when the loop ends, and the answers left.\<close>

fun send_loop :: "nat \<Rightarrow> nat \<Rightarrow> (errno + nat) list \<Rightarrow> (nat \<times> (errno + nat) list) option" where
  "send_loop len sent [] = (if len \<le> sent then Some (sent, []) else None)"
| "send_loop len sent (a # as) =
     (if len \<le> sent then Some (sent, a # as)
      else case a of
        Inl e \<Rightarrow> (if e = EINTR then send_loop len sent as else Some (sent, as))
      | Inr n \<Rightarrow> (if n = 0 then Some (sent, as) else send_loop len (sent + min n (len - sent)) as))"

definition header_line :: "string \<Rightarrow> string" where
  "header_line s = s @ CRLF"

definition auth_header :: "singbox_api_ctx_t \<Rightarrow> string" where
  "auth_header ctx = (if sa_secret ctx \<noteq> [] then header_line (''Authorization: Bearer '' @ sa_secret ctx) else [])"

text \<open>The head of a request for a frame of \<open>n\<close> bytes; the status call and the unary calls format
  the same lines.\<close>

definition request_head :: "singbox_api_ctx_t \<Rightarrow> string \<Rightarrow> nat \<Rightarrow> string" where
  "request_head ctx path n =
     header_line (''POST '' @ path @ '' HTTP/1.1'')
     @ header_line (''Host: '' @ api_target_host ctx @ '':'' @ show_int (api_target_port ctx))
     @ header_line ''Content-Type: application/grpc-web+proto''
     @ header_line ''X-Grpc-Web: 1''
     @ header_line ''Accept: application/grpc-web+proto''
     @ header_line (''Content-Length: '' @ show_nat n)
     @ header_line ''User-Agent: ATPd-Native/2.0''
     @ auth_header ctx
     @ header_line ''Connection: close'' @ CRLF"

text \<open>The head and then the frame.  \<open>sent\<close> keeps its value when the head was not sent completely.\<close>

definition send_request :: "string \<Rightarrow> string \<Rightarrow> (errno + nat) list \<Rightarrow> (nat \<times> http_event list) option" where
  "send_request req frame answers =
     (case send_loop (length req) 0 answers of
        None \<Rightarrow> None
      | Some (sent, as) \<Rightarrow>
          (if sent = length req then
             map_option (\<lambda>(sent2, _). (sent2, [H_send req, H_send (take sent2 frame)])) (send_loop (length frame) 0 as)
           else Some (sent, [H_send (take sent req)])))"

definition status_request_frame :: string where
  "status_request_frame = [CHR 0x00, CHR 0x00, CHR 0x00, CHR 0x00, CHR 0x06,
     CHR 0x08, CHR 0x80, CHR 0x94, CHR 0xEB, CHR 0xDC, CHR 0x03]"

fun recv_status :: "(errno + string) list \<Rightarrow> string \<Rightarrow> singbox_status_t \<Rightarrow> (int \<times> singbox_status_t) option" where
  "recv_status [] buf st = (if 4095 \<le> length buf then Some (0, st) else None)"
| "recv_status (a # as) buf st =
     (if 4095 \<le> length buf then Some (0, st)
      else case a of
        Inl e \<Rightarrow> (if e = EINTR then recv_status as buf st else Some (0, st))
      | Inr data \<Rightarrow>
          (if data = [] then Some (0, st)
           else
             (let buf1 = buf @ take (4095 - length buf) data in
              case parse_grpc_web_response buf1 st of (parsed, st1) \<Rightarrow>
                if parsed \<noteq> 0 then Some (parsed, st1) else recv_status as buf1 st1)))"

definition singbox_api_get_status :: "http_env \<Rightarrow> singbox_api_ctx_t \<Rightarrow> (int \<times> singbox_status_t \<times> http_event list) option" where
  "singbox_api_get_status env ctx =
     (case open_connection env ctx of
        (None, ev) \<Rightarrow> Some (-1, status_zero, ev)
      | (Some s, ev) \<Rightarrow>
          (let req = request_head ctx ''/daemon.StartedService/SubscribeStatus'' 11 in
           if 1024 \<le> length req then Some (-1, status_zero, ev @ [H_close s])
           else case send_request req status_request_frame (he_send env) of
             None \<Rightarrow> None
           | Some (sent, sends) \<Rightarrow>
               (if sent \<noteq> length status_request_frame then Some (-1, status_zero, ev @ sends @ [H_close s])
                else map_option (\<lambda>(parsed, st). (if parsed = 1 then 0 else -1, st, ev @ sends @ [H_close s]))
                       (recv_status (he_recv env) [] status_zero))))"

definition singbox_api_get_goroutines :: "http_env \<Rightarrow> singbox_api_ctx_t \<Rightarrow> (int \<times> int) option" where
  "singbox_api_get_goroutines env ctx =
     map_option (\<lambda>(rc, st, _). if rc \<noteq> 0 \<or> st_goroutines st \<le> 0 then (-1, -1) else (0, st_goroutines st))
       (singbox_api_get_status env ctx)"

text \<open>What the bytes received so far mean for a unary call: read on, an error, or the frame.\<close>

datatype unary_step = U_more | U_fail | U_done string

text \<open>The frame starts with the body or, in a chunked answer, behind the size of the first
  chunk.  The needle of the search is one character short.\<close>

definition unary_frame :: "nat \<Rightarrow> string \<Rightarrow> unary_step" where
  "unary_frame cap frame =
     (if length frame < 5 then U_more
      else if is_trailer frame then U_fail
      else if cap < frame_length frame + 5 then U_fail
      else if length frame - 5 < frame_length frame then U_more
      else U_done (take (frame_length frame + 5) frame))"

definition says_chunked :: "string \<Rightarrow> bool" where
  "says_chunked headers \<longleftrightarrow> c_strstr headers (take 25 ''transfer-encoding: chunked'') \<noteq> None
     \<or> c_strstr headers (take 25 ''Transfer-Encoding: chunked'') \<noteq> None"

definition unary_scan :: "nat \<Rightarrow> string \<Rightarrow> unary_step" where
  "unary_scan cap buf =
     (case c_strstr buf (CRLF @ CRLF) of
        None \<Rightarrow> U_more
      | Some (headers, _) \<Rightarrow>
          (let n = length headers + 4; body = drop n buf in
           if says_chunked (take n buf) then
             (if body = [] then U_more
              else case c_strstr body CRLF of
                None \<Rightarrow> U_more
              | Some (line, rest) \<Rightarrow>
                  (if line = [] \<or> 32 \<le> length line then U_fail
                   else case c_strtoul16 (c_str line) of (chunk_len, e) \<Rightarrow>
                     if e \<noteq> [] then U_fail
                     else if chunk_len = 0 \<or> length (drop 2 rest) < unat chunk_len then U_more
                     else unary_frame cap (take (unat chunk_len) (drop 2 rest))))
           else unary_frame cap body))"

fun recv_unary :: "nat \<Rightarrow> (errno + string) list \<Rightarrow> string \<Rightarrow> (int \<times> string) option" where
  "recv_unary cap [] buf = (if 8192 \<le> length buf then Some (-1, []) else None)"
| "recv_unary cap (a # as) buf =
     (if 8192 \<le> length buf then Some (-1, [])
      else case a of
        Inl e \<Rightarrow> (if e = EINTR then recv_unary cap as buf else Some (-1, []))
      | Inr data \<Rightarrow>
          (if data = [] then Some (-1, [])
           else
             (let buf1 = buf @ take (8192 - length buf) data in
              case unary_scan cap buf1 of
                U_more \<Rightarrow> recv_unary cap as buf1
              | U_fail \<Rightarrow> Some (-1, [])
              | U_done response \<Rightarrow> Some (0, response))))"

definition frame_header :: "nat \<Rightarrow> string" where
  "frame_header n = [CHR 0x00, char_of (n div 2 ^ 24), char_of (n div 2 ^ 16), char_of (n div 2 ^ 8), char_of n]"

definition grpc_web_unary_call :: "http_env \<Rightarrow> singbox_api_ctx_t \<Rightarrow> string \<Rightarrow> string \<Rightarrow> nat
    \<Rightarrow> (int \<times> string \<times> http_event list) option" where
  "grpc_web_unary_call env ctx path request response_cap =
     (if 2 ^ 32 \<le> length request then Some (-1, [], [])
      else case open_connection env ctx of
        (None, ev) \<Rightarrow> Some (-1, [], ev)
      | (Some s, ev) \<Rightarrow>
          (let req = request_head ctx path (length request + 5); frame = frame_header (length request) @ request in
           if 1024 \<le> length req then Some (-1, [], ev @ [H_close s])
           else if 256 < length request then
             map_option (\<lambda>(sent, _). (-1, [], ev @ [H_send (take sent req), H_close s]))
               (send_loop (length req) 0 (he_send env))
           else case send_request req frame (he_send env) of
             None \<Rightarrow> None
           | Some (sent, sends) \<Rightarrow>
               (if sent \<noteq> length frame then Some (-1, [], ev @ sends @ [H_close s])
                else map_option (\<lambda>(rc, response). (rc, response, ev @ sends @ [H_close s]))
                       (recv_unary response_cap (he_recv env) []))))"

subsection \<open>Decoding the answers\<close>

text \<open>Skipping a field by its wire type; \<open>None\<close>: the message is malformed.\<close>

definition skip_field :: "u64 \<Rightarrow> string \<Rightarrow> string option" where
  "skip_field wire bs =
     (if wire = 0 then map_option snd (read_varint bs)
      else if wire = 1 then (if length bs < 8 then None else Some (drop 8 bs))
      else if wire = 5 then (if length bs < 4 then None else Some (drop 4 bs))
      else None)"

lemma skip_field_le: "skip_field wire bs = Some rest \<Longrightarrow> length rest \<le> length bs"
  by (auto simp: skip_field_def dest: read_varint_progress split: if_splits)

function string_field_loop :: "u32 \<Rightarrow> nat \<Rightarrow> string \<Rightarrow> string option" where
  "string_field_loop wanted cap bs =
     (if bs = [] then None
      else case read_varint bs of
        None \<Rightarrow> None
      | Some (key, bs1) \<Rightarrow>
          (if key_wire key = 2 then
             (case read_varint bs1 of
                None \<Rightarrow> None
              | Some (sz, bs2) \<Rightarrow>
                  (if length bs2 < unat sz then None
                   else if key_field key = wanted then Some (c_str (take (min (unat sz) (cap - 1)) bs2))
                   else string_field_loop wanted cap (drop (unat sz) bs2)))
           else case skip_field (key_wire key) bs1 of
             None \<Rightarrow> None
           | Some bs2 \<Rightarrow> string_field_loop wanted cap bs2))"
  by pat_completeness auto
termination
  by (relation "measure (\<lambda>(_, _, bs). length bs)") (auto dest!: read_varint_progress skip_field_le)

declare string_field_loop.simps [simp del]

definition parse_string_field :: "string \<Rightarrow> u32 \<Rightarrow> nat \<Rightarrow> string option" where
  "parse_string_field frame wanted out_cap =
     (if length frame < 5 \<or> out_cap = 0 \<or> is_trailer frame then None
      else if length frame - 5 < frame_length frame then None
      else string_field_loop wanted out_cap (frame_message frame))"

definition mode_text :: "nat \<Rightarrow> string \<Rightarrow> string" where
  "mode_text sz bs = c_str (take (min sz (SINGBOX_CLASH_MODE_SIZE - 1)) bs)"

definition store_mode :: "u32 \<Rightarrow> string \<Rightarrow> singbox_clash_mode_status_t \<Rightarrow> singbox_clash_mode_status_t" where
  "store_mode field mode st =
     (if field = 1 \<and> length (cm_modes st) < SINGBOX_MAX_CLASH_MODES then st\<lparr>cm_modes := cm_modes st @ [mode]\<rparr>
      else if field = 2 then st\<lparr>cm_current_mode := mode\<rparr>
      else st)"

function mode_fields :: "string \<Rightarrow> singbox_clash_mode_status_t \<Rightarrow> int \<times> singbox_clash_mode_status_t" where
  "mode_fields bs st =
     (if bs = [] then (if cm_current_mode st \<noteq> [] then 0 else -1, st)
      else case read_varint bs of
        None \<Rightarrow> (-1, st)
      | Some (key, bs1) \<Rightarrow>
          (if key_wire key = 2 then
             (case read_varint bs1 of
                None \<Rightarrow> (-1, st)
              | Some (sz, bs2) \<Rightarrow>
                  (if length bs2 < unat sz then (-1, st)
                   else mode_fields (drop (unat sz) bs2) (store_mode (key_field key) (mode_text (unat sz) bs2) st)))
           else case skip_field (key_wire key) bs1 of
             None \<Rightarrow> (-1, st)
           | Some bs2 \<Rightarrow> mode_fields bs2 st))"
  by pat_completeness auto
termination
  by (relation "measure (\<lambda>(bs, _). length bs)") (auto dest!: read_varint_progress skip_field_le)

declare mode_fields.simps [simp del]

definition parse_clash_mode_status :: "string \<Rightarrow> int \<times> singbox_clash_mode_status_t" where
  "parse_clash_mode_status frame =
     (if length frame < 5 \<or> is_trailer frame then (-1, modes_zero)
      else if length frame - 5 < frame_length frame then (-1, modes_zero)
      else mode_fields (frame_message frame) modes_zero)"

definition singbox_api_get_version :: "http_env \<Rightarrow> singbox_api_ctx_t \<Rightarrow> nat \<Rightarrow> (int \<times> string) option" where
  "singbox_api_get_version env ctx buf_size =
     (if buf_size = 0 then Some (-1, [])
      else map_option (\<lambda>(rc, response, _).
          if rc \<noteq> 0 then (-1, [])
          else case parse_string_field response 1 buf_size of None \<Rightarrow> (-1, []) | Some v \<Rightarrow> (0, v))
        (grpc_web_unary_call env ctx ''/daemon.StartedService/GetVersion'' [] 2048))"

definition singbox_api_get_clash_mode_status :: "http_env \<Rightarrow> singbox_api_ctx_t
    \<Rightarrow> (int \<times> singbox_clash_mode_status_t) option" where
  "singbox_api_get_clash_mode_status env ctx =
     map_option (\<lambda>(rc, response, _). if rc \<noteq> 0 then (-1, modes_zero) else parse_clash_mode_status response)
       (grpc_web_unary_call env ctx ''/daemon.StartedService/GetClashModeStatus'' [] 2048)"

definition singbox_api_get_clash_mode :: "http_env \<Rightarrow> singbox_api_ctx_t \<Rightarrow> nat \<Rightarrow> (int \<times> string) option" where
  "singbox_api_get_clash_mode env ctx buf_size =
     (if buf_size = 0 then Some (-1, [])
      else map_option (\<lambda>(rc, st). if rc \<noteq> 0 then (-1, []) else (0, c_trunc buf_size (cm_current_mode st)))
        (singbox_api_get_clash_mode_status env ctx))"

fun length_varint :: "nat \<Rightarrow> string" where
  "length_varint n = (if 0x80 \<le> n then char_of (n OR 0x80) # length_varint (n div 0x80) else [char_of n])"

declare length_varint.simps [simp del]

definition mode_request :: "string \<Rightarrow> string" where
  "mode_request mode = CHR 0x1A # length_varint (length mode) @ mode"

definition singbox_api_set_clash_mode :: "http_env \<Rightarrow> singbox_api_ctx_t \<Rightarrow> string \<Rightarrow> (int \<times> http_event list) option" where
  "singbox_api_set_clash_mode env ctx mode =
     (if mode = [] then Some (-1, [])
      else if 255 < length mode then Some (-1, [])
      else map_option (\<lambda>(rc, _, ev). (rc, ev))
        (grpc_web_unary_call env ctx ''/daemon.StartedService/SetClashMode'' (mode_request mode) 256))"

text \<open>The transport never signals a process and has no command line.\<close>

definition singbox_api_reload :: int where "singbox_api_reload = -1"

definition singbox_api_exec_cli :: "string \<Rightarrow> int \<times> string" where
  "singbox_api_exec_cli subcmd = (-1, [])"

end
