(* ===== verification/Api.thy ===== *)
theory Api
  imports Singbox_Api Reactor Atpd_Context
begin

text \<open>
  \<open>src/api.c\<close>: the worker thread that talks to the proxy.  Once per second it refreshes a
  snapshot, which it hands to the event loop through a pipe; and it switches the proxy's mode
  when the VPN comes and goes.  The event loop posts such a switch into a mailbox
  (\<open>vpn_request\<close>, \<open>vpn_pending\<close>) under a lock.

  The two threads interleave at the boundaries of their critical sections: \<open>api_step\<close> has a rule
  for each section of the worker and for each operation of the event loop, in any order.
\<close>

unbundle bit_operations_syntax

definition API_VERSION_SIZE :: nat where "API_VERSION_SIZE = 128"
definition API_REFRESH_INTERVAL_MS :: nat where "API_REFRESH_INTERVAL_MS = 1000"
definition API_REFRESH_RPC_COUNT :: nat where "API_REFRESH_RPC_COUNT = 3"
definition API_VPN_RPC_COUNT :: nat where "API_VPN_RPC_COUNT = 2"
definition API_REFRESH_RPC_BUDGET_MS :: nat where "API_REFRESH_RPC_BUDGET_MS = 2000"
definition API_SNAPSHOT_STALE_MARGIN_MS :: nat where "API_SNAPSHOT_STALE_MARGIN_MS = 1000"
definition API_SNAPSHOT_STALE_MS :: nat where
  "API_SNAPSHOT_STALE_MS = API_REFRESH_INTERVAL_MS
     + (API_REFRESH_RPC_COUNT + API_VPN_RPC_COUNT) * API_REFRESH_RPC_BUDGET_MS + API_SNAPSHOT_STALE_MARGIN_MS"

record api_snapshot_t =
  sn_valid :: bool
  sn_version_valid :: bool
  sn_clash_mode_valid :: bool
  sn_generation :: u64
  sn_updated_at_ms :: u64
  sn_status :: singbox_status_t
  sn_version :: string
  sn_clash_mode :: string

record api_vpn_request_t =
  rq_state :: vpn_state_t
  rq_target_mode :: string
  rq_fallback_mode :: string

record api_ctx_t =
  ap_native :: singbox_api_ctx_t
  ap_default_mode :: string
  ap_snapshot :: api_snapshot_t
  ap_has_reactor :: bool
  ap_vpn_request :: api_vpn_request_t
  ap_vpn_pending :: bool
  ap_stopping :: bool
  ap_pipe_read :: fd
  ap_pipe_write :: fd
  ap_wake_fd :: fd
  ap_initialized :: bool
  ap_worker_started :: bool
  ap_result_registered :: bool

definition snapshot_zero :: api_snapshot_t where
  "snapshot_zero = \<lparr>sn_valid = False, sn_version_valid = False, sn_clash_mode_valid = False, sn_generation = 0,
     sn_updated_at_ms = 0, sn_status = status_zero, sn_version = [], sn_clash_mode = []\<rparr>"

definition api_zero :: api_ctx_t where
  "api_zero = \<lparr>ap_native = \<lparr>sa_host = [], sa_port = 0, sa_secret = [], sa_timeout_sec = 0, sa_connected = False, sa_last_check = 0\<rparr>,
     ap_default_mode = [], ap_snapshot = snapshot_zero, ap_has_reactor = False,
     ap_vpn_request = \<lparr>rq_state = VPN_STATE_IDLE, rq_target_mode = [], rq_fallback_mode = []\<rparr>,
     ap_vpn_pending = False, ap_stopping = False, ap_pipe_read = -1, ap_pipe_write = -1, ap_wake_fd = -1,
     ap_initialized = False, ap_worker_started = False, ap_result_registered = False\<rparr>"

subsection \<open>Calls under the native lock\<close>

text \<open>The lock itself always succeeds on an initialized context.\<close>

definition api_native_lock :: "api_ctx_t \<Rightarrow> int" where
  "api_native_lock ctx = (if ap_initialized ctx then 0 else -1)"

definition api_check_health_sync :: "http_env \<Rightarrow> api_ctx_t \<Rightarrow> int \<times> api_ctx_t" where
  "api_check_health_sync env ctx =
     (if api_native_lock ctx \<noteq> 0 then (-1, ctx)
      else case singbox_api_health_check env (ap_native ctx) of (rc, n, _) \<Rightarrow> (rc, ctx\<lparr>ap_native := n\<rparr>))"

text \<open>The second component is what the callback is told.\<close>

definition api_check_health_async :: "http_env \<Rightarrow> api_ctx_t \<Rightarrow> int \<times> (int \<times> string) \<times> api_ctx_t" where
  "api_check_health_async env ctx =
     (case api_check_health_sync env ctx of
        (rc, c) \<Rightarrow> (rc, if rc = 0 then (200, ''OK'') else (503, ''Service Unavailable''), c))"

definition api_get_mode_sync :: "http_env \<Rightarrow> api_ctx_t \<Rightarrow> nat \<Rightarrow> (int \<times> string) option" where
  "api_get_mode_sync env ctx buf_size =
     (if buf_size = 0 \<or> api_native_lock ctx \<noteq> 0 then Some (-1, [])
      else singbox_api_get_clash_mode env (ap_native ctx) buf_size)"

definition api_set_mode_async :: "http_env \<Rightarrow> api_ctx_t \<Rightarrow> string \<Rightarrow> (int \<times> (int \<times> string) option) option" where
  "api_set_mode_async env ctx mode =
     (if api_native_lock ctx \<noteq> 0 then Some (-1, None)
      else map_option (\<lambda>(rc, _). (rc, Some (if rc = 0 then (200, ''OK'') else (500, ''Failed''))))
        (singbox_api_set_clash_mode env (ap_native ctx) mode))"

definition api_get_clash_mode_status_sync :: "http_env \<Rightarrow> api_ctx_t \<Rightarrow> (int \<times> singbox_clash_mode_status_t) option" where
  "api_get_clash_mode_status_sync env ctx =
     (if api_native_lock ctx \<noteq> 0 then Some (-1, modes_zero)
      else singbox_api_get_clash_mode_status env (ap_native ctx))"

definition api_get_version_sync :: "http_env \<Rightarrow> api_ctx_t \<Rightarrow> nat \<Rightarrow> (int \<times> string) option" where
  "api_get_version_sync env ctx buf_size =
     (if buf_size = 0 \<or> api_native_lock ctx \<noteq> 0 then Some (-1, [])
      else singbox_api_get_version env (ap_native ctx) buf_size)"

definition api_get_status_sync :: "http_env \<Rightarrow> api_ctx_t \<Rightarrow> (int \<times> singbox_status_t) option" where
  "api_get_status_sync env ctx =
     (if api_native_lock ctx \<noteq> 0 then Some (-1, status_zero)
      else map_option (\<lambda>(rc, st, _). (rc, st)) (singbox_api_get_status env (ap_native ctx)))"

definition api_get_goroutines_count :: "http_env \<Rightarrow> api_ctx_t \<Rightarrow> int option" where
  "api_get_goroutines_count env ctx =
     map_option (\<lambda>(rc, st). if rc = 0 then st_goroutines st else -1) (api_get_status_sync env ctx)"

subsection \<open>The worker\<close>

text \<open>One refresh: up to three calls, each with its own connection.\<close>

definition api_refresh_candidate :: "http_env \<Rightarrow> http_env \<Rightarrow> http_env \<Rightarrow> api_ctx_t \<Rightarrow> api_snapshot_t option" where
  "api_refresh_candidate e1 e2 e3 ctx =
     (if api_native_lock ctx \<noteq> 0 then Some snapshot_zero
      else case singbox_api_get_status e1 (ap_native ctx) of
        None \<Rightarrow> None
      | Some (rc, st, _) \<Rightarrow>
          (if rc \<noteq> 0 then Some (snapshot_zero\<lparr>sn_status := st\<rparr>)
           else case singbox_api_get_version e2 (ap_native ctx) API_VERSION_SIZE of
             None \<Rightarrow> None
           | Some (vrc, version) \<Rightarrow>
               map_option (\<lambda>(mrc, modes).
                   (let ok = (mrc = 0 \<and> cm_current_mode modes \<noteq> []) in
                    snapshot_zero\<lparr>sn_valid := True, sn_status := st, sn_version := version,
                      sn_version_valid := (vrc = 0 \<and> version \<noteq> []), sn_clash_mode_valid := ok,
                      sn_clash_mode := (if ok then c_trunc SINGBOX_CLASH_MODE_SIZE (cm_current_mode modes) else [])\<rparr>))
                 (singbox_api_get_clash_mode_status e3 (ap_native ctx))))"

definition is_clash_mode_supported :: "singbox_clash_mode_status_t \<Rightarrow> string \<Rightarrow> bool" where
  "is_clash_mode_supported status mode \<longleftrightarrow> mode \<noteq> [] \<and> mode \<in> set (cm_modes status)"

text \<open>The result, the context, and the mode the proxy was asked to select.\<close>

definition set_mode_then :: "http_env \<Rightarrow> string \<Rightarrow> api_ctx_t \<Rightarrow> api_ctx_t \<Rightarrow> (bool \<times> api_ctx_t \<times> string option) option" where
  "set_mode_then env mode failed ok =
     map_option (\<lambda>(rc, _). if rc \<noteq> 0 then (False, failed, Some mode) else (True, ok, Some mode))
       (api_set_mode_async env failed mode)"

definition api_apply_vpn_mode :: "http_env \<Rightarrow> http_env \<Rightarrow> api_vpn_request_t \<Rightarrow> api_ctx_t
    \<Rightarrow> (bool \<times> api_ctx_t \<times> string option) option" where
  "api_apply_vpn_mode env_get env_set request ctx =
     (case api_get_clash_mode_status_sync env_get ctx of
        None \<Rightarrow> None
      | Some (rc, status) \<Rightarrow>
          (if rc \<noteq> 0 then Some (False, ctx, None)
           else if rq_state request = VPN_STATE_IDLE then
             (if ap_default_mode ctx = [] then Some (True, ctx, None)
              else
                (let saved = ap_default_mode ctx; fallback = rq_fallback_mode request;
                     restore = (if is_clash_mode_supported status saved then saved else fallback);
                     cleared = ctx\<lparr>ap_default_mode := []\<rparr>
                 in if \<not> is_clash_mode_supported status saved \<and> \<not> is_clash_mode_supported status fallback
                    then Some (False, ctx, None)
                    else if cm_current_mode status \<noteq> restore then set_mode_then env_set restore ctx cleared
                    else Some (True, cleared, None)))
           else
             (let ctx1 = (if ap_default_mode ctx = []
                    then ctx\<lparr>ap_default_mode := c_trunc SINGBOX_CLASH_MODE_SIZE (cm_current_mode status)\<rparr> else ctx);
                  target = rq_target_mode request
              in if \<not> is_clash_mode_supported status target then Some (False, ctx1, None)
                 else if cm_current_mode status = target then Some (True, ctx1, None)
                 else set_mode_then env_set target ctx1 ctx1)))"

text \<open>Where the worker is between its critical sections.\<close>

datatype worker_pc = W_top | W_apply api_vpn_request_t | W_retry api_vpn_request_t | W_refresh | W_wait | W_done

text \<open>The section at the top of the loop.\<close>

definition worker_take :: "api_ctx_t \<Rightarrow> api_ctx_t \<times> worker_pc" where
  "worker_take ctx =
     (ctx\<lparr>ap_vpn_pending := False\<rparr>,
      if ap_stopping ctx then W_done
      else if ap_vpn_pending ctx then W_apply (ap_vpn_request ctx)
      else W_refresh)"

definition worker_requeue :: "api_vpn_request_t \<Rightarrow> api_ctx_t \<Rightarrow> api_ctx_t" where
  "worker_requeue request ctx =
     (if \<not> ap_vpn_pending ctx \<and> \<not> ap_stopping ctx
      then ctx\<lparr>ap_vpn_request := request, ap_vpn_pending := True\<rparr> else ctx)"

text \<open>The answers of \<open>poll\<close>: an interruption is retried; a ready descriptor may report an
  error, which ends the worker.\<close>

datatype poll_answer = P_intr | P_error | P_ready bool | P_timeout

fun worker_wait :: "poll_answer list \<Rightarrow> worker_pc option" where
  "worker_wait [] = None"
| "worker_wait (P_intr # as) = worker_wait as"
| "worker_wait (P_error # as) = Some W_done"
| "worker_wait (P_ready failed # as) = Some (if failed then W_done else W_top)"
| "worker_wait (P_timeout # as) = Some W_top"

subsection \<open>The event loop's side\<close>

text \<open>The reads of the pipe: a whole snapshot or an error; the loop keeps the last snapshot.\<close>

fun drain_results :: "(errno + api_snapshot_t) list \<Rightarrow> api_snapshot_t option \<Rightarrow> api_snapshot_t option option" where
  "drain_results [] next = None"
| "drain_results (Inr s # as) next = drain_results as (Some s)"
| "drain_results (Inl e # as) next = (if e = EINTR then drain_results as next else Some next)"

definition api_result_cb :: "(errno + api_snapshot_t) list \<Rightarrow> u64 \<Rightarrow> api_ctx_t \<Rightarrow> api_ctx_t option" where
  "api_result_cb reads now ctx =
     map_option (\<lambda>received. case received of
         None \<Rightarrow> ctx
       | Some s \<Rightarrow> ctx\<lparr>ap_snapshot := s\<lparr>sn_generation := sn_generation (ap_snapshot ctx) + 1, sn_updated_at_ms := now\<rparr>\<rparr>)
       (drain_results reads None)"

definition api_get_snapshot :: "u64 \<Rightarrow> api_ctx_t \<Rightarrow> int \<times> api_snapshot_t" where
  "api_get_snapshot now ctx =
     (if \<not> ap_initialized ctx then (-1, snapshot_zero)
      else
        (let out = ap_snapshot ctx in
         if sn_valid out \<and> (now < sn_updated_at_ms out
              \<or> of_nat API_SNAPSHOT_STALE_MS < now - sn_updated_at_ms out)
         then (0, out\<lparr>sn_valid := False, sn_version_valid := False, sn_clash_mode_valid := False\<rparr>)
         else (0, out)))"

text \<open>The request the current configuration asks for.  The configuration is the pointee of
  \<open>ctx->config\<close>.\<close>

definition vpn_request_for :: "vpn_state_t \<Rightarrow> atp_config_t \<Rightarrow> api_vpn_request_t" where
  "vpn_request_for state cfg =
     \<lparr>rq_state = state,
      rq_target_mode = c_trunc SINGBOX_CLASH_MODE_SIZE
        (if vpn_target_mode (cfg_interface cfg) \<noteq> [] then vpn_target_mode (cfg_interface cfg) else ''Google VPN''),
      rq_fallback_mode = c_trunc SINGBOX_CLASH_MODE_SIZE
        (if vpn_fallback_mode (cfg_interface cfg) \<noteq> [] then vpn_fallback_mode (cfg_interface cfg) else ''Rule'')\<rparr>"

text \<open>The second component: a request was posted, and the worker is woken if it runs.\<close>

definition api_vpn_mode_callback :: "vpn_state_t \<Rightarrow> atp_config_t option \<Rightarrow> api_ctx_t \<Rightarrow> api_ctx_t \<times> api_vpn_request_t option" where
  "api_vpn_mode_callback state config ctx =
     (if \<not> ap_initialized ctx then (ctx, None)
      else case config of
        None \<Rightarrow> (ctx, None)
      | Some cfg \<Rightarrow>
          (if \<not> vpn_auto_mode (cfg_interface cfg) then (ctx, None)
           else if state \<noteq> VPN_STATE_READY \<and> state \<noteq> VPN_STATE_IDLE then (ctx, None)
           else (ctx\<lparr>ap_vpn_request := vpn_request_for state cfg, ap_vpn_pending := True\<rparr>, Some (vpn_request_for state cfg))))"

subsection \<open>Set up and shutdown\<close>

definition api_init :: "bool \<Rightarrow> bool \<Rightarrow> atp_config_t \<Rightarrow> int \<times> api_ctx_t" where
  "api_init lock1_ok lock2_ok cfg =
     (if \<not> lock1_ok then (-1, api_zero)
      else if \<not> lock2_ok then (-1, api_zero)
      else (0, api_zero\<lparr>ap_initialized := True, ap_native := singbox_api_init cfg\<rparr>))"

text \<open>Joining the worker takes it to its end, so the whole shutdown is one operation here.  The
  descriptors that are closed are returned.\<close>

definition api_cleanup :: "api_ctx_t \<Rightarrow> reactor_t \<Rightarrow> api_ctx_t \<times> reactor_t \<times> fd list" where
  "api_cleanup ctx r =
     (if \<not> ap_initialized ctx then (ctx, r, [])
      else
        (api_zero,
         if ap_result_registered ctx \<and> ap_has_reactor ctx then fst (snd (reactor_remove_fd (ap_pipe_read ctx) r)) else r,
         filter (\<lambda>fd. 0 \<le> fd) [ap_pipe_read ctx, ap_pipe_write ctx, ap_wake_fd ctx]))"

record api_start_env =
  as_pipe :: "(fd \<times> fd) option"
  as_eventfd :: fd
  as_alloc :: bool
  as_ctl_ok :: bool
  as_mask_ok :: bool
  as_thread_ok :: bool
  as_restore_ok :: bool

definition start_fail :: "api_ctx_t \<Rightarrow> reactor_t \<Rightarrow> int \<times> api_ctx_t \<times> reactor_t \<times> fd list" where
  "start_fail ctx r =
     (-1, ctx\<lparr>ap_result_registered := False, ap_pipe_read := -1, ap_pipe_write := -1, ap_wake_fd := -1, ap_has_reactor := False\<rparr>,
      if ap_result_registered ctx then fst (snd (reactor_remove_fd (ap_pipe_read ctx) r)) else r,
      filter (\<lambda>fd. 0 \<le> fd) [ap_pipe_read ctx, ap_pipe_write ctx, ap_wake_fd ctx])"

definition api_start_with_reactor :: "api_start_env \<Rightarrow> api_ctx_t \<Rightarrow> reactor_t \<Rightarrow> int \<times> api_ctx_t \<times> reactor_t \<times> fd list" where
  "api_start_with_reactor env ctx r =
     (if \<not> ap_initialized ctx \<or> ap_worker_started ctx then (-1, ctx, r, [])
      else case as_pipe env of
        None \<Rightarrow> (-1, ctx, r, [])
      | Some (rd, wr) \<Rightarrow>
          (let ctx1 = ctx\<lparr>ap_pipe_read := rd, ap_pipe_write := wr, ap_wake_fd := as_eventfd env\<rparr> in
           if as_eventfd env < 0 then start_fail ctx1 r
           else
             (let ctx2 = ctx1\<lparr>ap_has_reactor := True\<rparr> in
              case reactor_add_fd (as_alloc env) (as_ctl_ok env) rd REACTOR_EVENT_READ (Some Fn_api_result_cb) (Some 0) r of
                (rc, r1, _) \<Rightarrow>
                  (if rc \<noteq> 0 then start_fail ctx2 r1
                   else
                     (let ctx3 = ctx2\<lparr>ap_result_registered := True\<rparr> in
                      if \<not> as_mask_ok env then start_fail ctx3 r1
                      else if \<not> as_thread_ok env then start_fail ctx3 r1
                      else if \<not> as_restore_ok env
                      then (case api_cleanup (ctx3\<lparr>ap_worker_started := True\<rparr>) r1 of (c, r2, fds) \<Rightarrow> (-1, c, r2, fds))
                      else (0, ctx3\<lparr>ap_worker_started := True\<rparr>, r1, []))))))"

subsection \<open>Two threads\<close>

record api_world =
  aw_ctx :: api_ctx_t
  aw_pc :: worker_pc
  aw_pipe :: "api_snapshot_t list"

datatype api_event = Posted api_vpn_request_t | Taken api_vpn_request_t | Applied api_vpn_request_t bool
  | Asked string | Published api_snapshot_t

inductive api_step :: "api_world \<Rightarrow> api_event list \<Rightarrow> api_world \<Rightarrow> bool" where
  vpn_event: "api_vpn_mode_callback state config (aw_ctx w) = (ctx, posted)
    \<Longrightarrow> api_step w (case posted of None \<Rightarrow> [] | Some r \<Rightarrow> [Posted r]) (w\<lparr>aw_ctx := ctx\<rparr>)"
| request_stop: "api_step w [] (w\<lparr>aw_ctx := (aw_ctx w)\<lparr>ap_stopping := True\<rparr>\<rparr>)"
| results: "List.map_filter (case_sum (\<lambda>_. None) Some) reads = aw_pipe w \<Longrightarrow> api_result_cb reads now (aw_ctx w) = Some ctx
    \<Longrightarrow> api_step w [] (w\<lparr>aw_ctx := ctx, aw_pipe := []\<rparr>)"
| take_request: "aw_pc w = W_top \<Longrightarrow> worker_take (aw_ctx w) = (ctx, pc)
    \<Longrightarrow> api_step w (case pc of W_apply r \<Rightarrow> [Taken r] | _ \<Rightarrow> []) (w\<lparr>aw_ctx := ctx, aw_pc := pc\<rparr>)"
| apply_request: "aw_pc w = W_apply r \<Longrightarrow> api_apply_vpn_mode e1 e2 r (aw_ctx w) = Some (ok, ctx, asked)
    \<Longrightarrow> api_step w ((case asked of None \<Rightarrow> [] | Some m \<Rightarrow> [Asked m]) @ [Applied r ok])
          (w\<lparr>aw_ctx := ctx, aw_pc := (if ok then W_refresh else W_retry r)\<rparr>)"
| retry_request: "aw_pc w = W_retry r
    \<Longrightarrow> api_step w [] (w\<lparr>aw_ctx := worker_requeue r (aw_ctx w), aw_pc := W_refresh\<rparr>)"
| refresh: "aw_pc w = W_refresh \<Longrightarrow> api_refresh_candidate e1 e2 e3 (aw_ctx w) = Some s
    \<Longrightarrow> api_step w [Published s] (w\<lparr>aw_pc := W_wait, aw_pipe := (if room then aw_pipe w @ [s] else aw_pipe w)\<rparr>)"
| wait_round: "aw_pc w = W_wait \<Longrightarrow> worker_wait polls = Some pc \<Longrightarrow> api_step w [] (w\<lparr>aw_pc := pc\<rparr>)"

inductive api_steps :: "api_world \<Rightarrow> api_event list \<Rightarrow> api_world \<Rightarrow> bool" where
  stop: "api_steps w [] w"
| step: "api_steps w tr w1 \<Longrightarrow> api_step w1 ev w2 \<Longrightarrow> api_steps w (tr @ ev) w2"

end
