(* ===== verification/Singbox_Api_Props.thy ===== *)
theory Singbox_Api_Props
  imports Singbox_Api
begin

text \<open>
  The client of the native API decodes what the server encodes: variable-length integers and
  frames round trip, a status report is read back exactly however the network splits the
  answer, and the mode names a server sends fit their buffers.
\<close>

unbundle bit_operations_syntax

subsection \<open>Variable-length integers\<close>

lemma of_char_char_of: "(of_char (char_of n) :: u64) = of_nat (n mod 256)" for n :: nat
  by (metis of_char_of of_nat_of_char of_nat_mod unsigned_of_nat)

lemma varint_piece:
  fixes acc :: u64
  shows "(acc OR push_bit s (of_nat (n mod 128))) OR push_bit (s + 7) (of_nat (n div 128)) = acc OR push_bit s (of_nat n)"
proof (rule bit_eqI)
  fix i assume "possible_bit TYPE(u64) i"
  then have "i < 64" by (simp add: possible_bit_word)
  moreover have "bit (n mod 128) j \<longleftrightarrow> j < 7 \<and> bit n j" for j
    using bit_take_bit_iff [of 7 n j] by (simp add: take_bit_eq_mod)
  moreover have "bit (n div 128) j \<longleftrightarrow> bit n (7 + j)" for j
    using bit_drop_bit_eq [of 7 n] by (simp add: drop_bit_eq_div fun_eq_iff)
  moreover have "7 + (i - (s + 7)) = i - s" if "s + 7 \<le> i" using that by simp
  moreover have "i - s < 7 \<longleftrightarrow> i < s + 7" if "s \<le> i" using that by auto
  ultimately show "bit ((acc OR push_bit s (of_nat (n mod 128))) OR push_bit (s + 7) (of_nat (n div 128))) i
      = bit (acc OR push_bit s (of_nat n)) i"
    by (cases "s + 7 \<le> i") (auto simp: bit_simps)
qed

lemma low7: "(of_char (char_of n) :: u64) AND 0x7F = of_nat (n mod 128)" for n :: nat
proof -
  have "(of_char (char_of n) :: u64) AND mask 7 = of_nat (take_bit 7 (n mod 256))"
    by (simp only: of_char_char_of take_bit_of_nat flip: take_bit_eq_mask)
  then show ?thesis by (simp add: take_bit_eq_mod mod_mod_cancel mask_eq_exp_minus_1)
qed

lemma bit7: "(of_char (char_of n) :: u64) AND 0x80 = 0 \<longleftrightarrow> \<not> bit n 7" for n :: nat
proof -
  have "bit (n mod 256) 7 \<longleftrightarrow> bit n 7" using bit_take_bit_iff [of 8 n 7] by (simp add: take_bit_eq_mod)
  then show ?thesis
    using and_exp_eq_0_iff_not_bit [of "of_nat (n mod 256) :: u64" 7] by (simp add: of_char_char_of bit_simps)
qed

lemma low_bits: "(of_char (char_of (n OR 0x80)) :: u64) AND 0x7F = of_nat (n mod 128)"
    "(of_char (char_of (n OR 0x80)) :: u64) AND 0x80 \<noteq> 0" for n :: nat
proof -
  have "take_bit 7 (n OR 0x80) = take_bit 7 n" by (simp add: take_bit_or)
  then show "(of_char (char_of (n OR 0x80)) :: u64) AND 0x7F = of_nat (n mod 128)" by (simp add: low7 take_bit_eq_mod)
  have "bit (n OR 0x80) 7" by (simp add: bit_or_iff bit_Suc_0_iff)
  then show "(of_char (char_of (n OR 0x80)) :: u64) AND 0x80 \<noteq> 0" by (simp add: bit7)
qed

lemma small_bits: "n < 128 \<Longrightarrow> (of_char (char_of n) :: u64) AND 0x7F = of_nat n"
    "n < 128 \<Longrightarrow> (of_char (char_of n) :: u64) AND 0x80 = 0" for n :: nat
  by (simp_all add: low7 bit7 bit_iff_odd)

lemma varint_from_length:
  "s < 64 \<Longrightarrow> n < 2 ^ (64 - s) \<Longrightarrow>
   varint_from s acc (length_varint n @ rest) = Some (acc OR push_bit s (of_nat n), rest)"
proof (induction n arbitrary: s acc rule: length_varint.induct)
  case (1 n)
  show ?case
  proof (cases "0x80 \<le> n")
    case False
    then show ?thesis using 1 by (simp add: length_varint.simps [of n] small_bits)
  next
    case True
    have "2 ^ 7 < (2::nat) ^ (64 - s)" using True 1(3) by simp
    then have s: "s + 7 < 64" by (metis add.commute less_diff_conv power_less_imp_less_exp one_less_numeral_iff semiring_norm(76))
    have "n div 128 < 2 ^ (64 - (s + 7))"
      using 1(3) s power_add [of "2::nat" "64 - (s + 7)" 7] by (intro less_mult_imp_div_less) simp
    with 1 True s show ?thesis
      by (simp add: length_varint.simps [of n] low_bits varint_piece)
  qed
qed

lemma read_varint_length [simp]: "n < 2 ^ 64 \<Longrightarrow> read_varint (length_varint n @ rest) = Some (of_nat n, rest)"
  by (simp add: read_varint_def varint_from_length)

subsection \<open>Frames\<close>

lemma of_char_u32: "(of_char (char_of n) :: u32) = of_nat (n mod 256)" for n :: nat
  by (metis of_char_of of_nat_of_char of_nat_mod unsigned_of_nat)

lemma byte_bit: "bit (n div 2 ^ k mod 256) j \<longleftrightarrow> j < 8 \<and> bit n (k + j)" for n :: nat
  using bit_take_bit_iff [of 8 "drop_bit k n" j] by (simp add: take_bit_eq_mod drop_bit_eq_div bit_simps flip: drop_bit_eq_div)

lemma big_endian:
  assumes "\<And>j. bit a j \<longleftrightarrow> j < 8 \<and> bit n (24 + j)" "\<And>j. bit b j \<longleftrightarrow> j < 8 \<and> bit n (16 + j)"
    "\<And>j. bit c j \<longleftrightarrow> j < 8 \<and> bit n (8 + j)" "\<And>j. bit d j \<longleftrightarrow> j < 8 \<and> bit n j"
  shows "(push_bit 24 (of_nat a) OR push_bit 16 (of_nat b) OR push_bit 8 (of_nat c) OR of_nat d :: u32) = of_nat n"
proof (rule bit_eqI)
  fix i assume "possible_bit TYPE(u32) i"
  then have "i < 32" by (simp add: possible_bit_word)
  then consider "i < 8" | "8 \<le> i" "i < 16" | "16 \<le> i" "i < 24" | "24 \<le> i" "i < 32" by linarith
  then show "bit (push_bit 24 (of_nat a) OR push_bit 16 (of_nat b) OR push_bit 8 (of_nat c) OR of_nat d :: u32) i
      = bit (of_nat n :: u32) i"
    by cases (auto simp: bit_simps assms)
qed

lemma frame_length_header:
  assumes "n < 2 ^ 32"
  shows "frame_length (frame_header n @ m) = n"
proof -
  have "(frame_header n @ m) ! 1 = char_of (n div 2 ^ 24)" "(frame_header n @ m) ! 2 = char_of (n div 2 ^ 16)"
      "(frame_header n @ m) ! 3 = char_of (n div 2 ^ 8)" "(frame_header n @ m) ! 4 = char_of n"
    by (simp_all add: frame_header_def nth_append)
  then have "frame_length (frame_header n @ m) = unat (of_nat n :: u32)"
    unfolding frame_length_def using byte_bit [of n 0]
    by (simp only: of_char_u32) (subst big_endian [of _ n], auto simp only: byte_bit power_0 div_by_1 add_0)
  with assms show ?thesis by (simp add: unat_of_nat)
qed

lemma frame_header_simps [simp]:
  "length (frame_header n) = 5" "\<not> is_trailer (frame_header n @ m)"
  by (simp_all add: frame_header_def is_trailer_def)

lemma frame_message_header: "n < 2 ^ 32 \<Longrightarrow> frame_message (frame_header n @ m) = take n m"
  by (simp add: frame_message_def frame_length_header)

subsection \<open>Setting the mode\<close>

lemma length_varint_len: "n < 128 \<Longrightarrow> length (length_varint n) = 1" "128 \<le> n \<Longrightarrow> n < 16384 \<Longrightarrow> length (length_varint n) = 2"
  by (simp_all add: length_varint.simps [of n] length_varint.simps [of "n div 128"])

lemma mode_request_length: "length mode \<le> 255 \<Longrightarrow> length (mode_request mode) \<le> 256 \<longleftrightarrow> length mode \<le> 253"
  using length_varint_len [of "length mode"] by (cases "length mode < 128") (auto simp: mode_request_def)

lemma c_str_id: "CHR 0x00 \<notin> set s \<Longrightarrow> c_str s = s"
  unfolding c_str_def by (subst takeWhile_eq_all_conv) auto

lemma mode_request_decodes:
  assumes "length mode \<le> 255" "CHR 0x00 \<notin> set mode" "length mode < cap"
  shows "parse_string_field (frame_header (length (mode_request mode)) @ mode_request mode) 3 cap = Some mode"
proof -
  have len: "length (mode_request mode) \<le> 259"
    using assms(1) length_varint_len [of "length mode"] by (cases "length mode < 128") (auto simp: mode_request_def)
  have key: "read_varint (CHR 0x1A # r) = Some (26, r)" for r
    by (simp add: read_varint_def)
  have "string_field_loop 3 cap (mode_request mode) = Some mode"
    using assms by (subst string_field_loop.simps)
      (simp add: mode_request_def key key_wire_def key_field_def c_str_id unat_of_nat)
  then show ?thesis
    using len assms(3) frame_length_header [of "length (mode_request mode)" "mode_request mode"]
      frame_message_header [of "length (mode_request mode)" "mode_request mode"]
    by (simp add: parse_string_field_def)
qed

abbreviation set_mode_path :: string where
  "set_mode_path \<equiv> ''/daemon.StartedService/SetClashMode''"

lemma long_mode_request: "length mode = 254 \<or> length mode = 255 \<Longrightarrow> 256 < length (mode_request mode)"
  using mode_request_length [of mode] by auto

text \<open>A mode whose request does not fit is refused in every environment, at the latest after the head
  of the request.\<close>

lemma unsendable_mode:
  assumes "singbox_api_set_clash_mode env ctx mode = Some (rc, ev)" "mode = [] \<or> 253 < length mode"
  shows "rc = -1 \<and> (\<forall>d. H_send d \<in> set ev \<longrightarrow> prefix d (request_head ctx set_mode_path (length (mode_request mode) + 5)))"
proof (cases "mode = [] \<or> 255 < length mode")
  case True
  then show ?thesis using assms(1) by (auto simp: singbox_api_set_clash_mode_def split: if_splits)
next
  case False
  with assms(2) have big: "256 < length (mode_request mode)" by (intro long_mode_request) auto
  obtain so ev0 where o: "open_connection env ctx = (so, ev0)" by fastforce
  have "H_send d \<notin> set ev0" for d
    using o by (auto simp: open_connection_def Let_def split: if_splits)
  with False assms(1) big o show ?thesis
    by (auto simp: singbox_api_set_clash_mode_def grpc_web_unary_call_def Let_def take_is_prefix
        split: if_splits option.splits)
qed

text \<open>C28: setting the mode sends a request that names exactly this mode.  When the proxy can be
  reached, takes the bytes (in whatever pieces) and answers, the call for a mode of 1 to 253 characters returns
  the outcome of the answer, and it has connected to the configured address, sent the head and
  then one frame, from which the decoder of the same protocol reads the mode back, and closed the
  socket.  A mode of another length fails in every environment and nothing but (a part of) the head
  is ever sent for it: modes of 254 and 255 characters, which the length check admits, are
  connected for and then not sent.\<close>

theorem clash_mode_request_roundtrip:
  assumes "CHR 0x00 \<notin> set mode" "0 \<le> he_sock env" "inet_pton4 (api_target_host ctx)" "connected_ok env" "he_blocking_ok env"
    and "head = request_head ctx set_mode_path (length (mode_request mode) + 5)" "length head < 1024"
    and "frame = frame_header (length (mode_request mode)) @ mode_request mode"
    and "send_loop (length head) 0 (he_send env) = Some (length head, as)" "send_loop (length frame) 0 as = Some (length frame, bs)"
    and "recv_unary 256 (he_recv env) [] = Some (rc, response)"
    and "opened = [H_socket (he_sock env), H_connect (api_target_host ctx) (api_target_port ctx mod 65536)]"
  shows "(length mode \<in> {1..253} \<longrightarrow>
      singbox_api_set_clash_mode env ctx mode = Some (rc, opened @ [H_send head, H_send frame, H_close (he_sock env)])
      \<and> (\<forall>cap. length mode < cap \<longrightarrow> parse_string_field frame 3 cap = Some mode))
    \<and> (length mode \<in> {254, 255} \<longrightarrow>
      singbox_api_set_clash_mode env ctx mode = Some (-1, opened @ [H_send head, H_close (he_sock env)]))
    \<and> (length mode \<notin> {1..253} \<longrightarrow> (\<forall>env ctx rc ev. singbox_api_set_clash_mode env ctx mode = Some (rc, ev) \<longrightarrow>
      rc = -1 \<and> (\<forall>d. H_send d \<in> set ev \<longrightarrow> prefix d (request_head ctx set_mode_path (length (mode_request mode) + 5)))))"
proof -
  have o: "open_connection env ctx = (Some (he_sock env), opened)"
    using assms(2-5,12) by (simp add: open_connection_def Let_def)
  have sends: "send_request head frame (he_send env) = Some (length frame, [H_send head, H_send frame])"
    using assms(9,10) by (simp add: send_request_def)
  have fits: "singbox_api_set_clash_mode env ctx mode = Some (rc, opened @ [H_send head, H_send frame, H_close (he_sock env)])"
    "\<forall>cap. length mode < cap \<longrightarrow> parse_string_field frame 3 cap = Some mode" if "length mode \<in> {1..253}"
  proof -
    have len: "mode \<noteq> []" "length mode \<le> 255" "length (mode_request mode) \<le> 256"
      using that mode_request_length [of mode] by auto
    then have "grpc_web_unary_call env ctx set_mode_path (mode_request mode) 256
        = Some (rc, response, opened @ [H_send head, H_send frame, H_close (he_sock env)])"
      using o sends assms(6-8,11) by (simp add: grpc_web_unary_call_def)
    then show "singbox_api_set_clash_mode env ctx mode = Some (rc, opened @ [H_send head, H_send frame, H_close (he_sock env)])"
      using len by (simp add: singbox_api_set_clash_mode_def)
    show "\<forall>cap. length mode < cap \<longrightarrow> parse_string_field frame 3 cap = Some mode"
      using mode_request_decodes [OF len(2) assms(1)] assms(8) by simp
  qed
  moreover have "singbox_api_set_clash_mode env ctx mode = Some (-1, opened @ [H_send head, H_close (he_sock env)])"
    if "length mode \<in> {254, 255}"
  proof -
    have len: "mode \<noteq> []" "length mode \<le> 255" "256 < length (mode_request mode)" "length (mode_request mode) < 2 ^ 32"
      using that long_mode_request [of mode] length_varint_len [of "length mode"] by (auto simp: mode_request_def)
    then show ?thesis
      using o assms(6,7,9) by (simp add: singbox_api_set_clash_mode_def grpc_web_unary_call_def)
  qed
  moreover have "rc = -1 \<and> (\<forall>d. H_send d \<in> set ev \<longrightarrow> prefix d (request_head ctx set_mode_path (length (mode_request mode) + 5)))"
    if "length mode \<notin> {1..253}" "singbox_api_set_clash_mode env ctx mode = Some (rc, ev)" for env ctx rc ev
    using unsendable_mode [OF that(2)] that(1) by (auto simp: not_le Suc_le_eq)
  ultimately show ?thesis by blast
qed

text \<open>A connection on which everything goes through at once.\<close>

definition sample_ctx :: singbox_api_ctx_t where
  "sample_ctx = \<lparr>sa_host = ''127.0.0.1'', sa_port = 9080, sa_secret = [], sa_timeout_sec = 2, sa_connected = False, sa_last_check = 0\<rparr>"

definition sample_http :: "(errno + string) list \<Rightarrow> http_env" where
  "sample_http answers = \<lparr>he_sock = 7, he_connect = None,
     he_poll = \<lparr>pv_ret = 0, pv_failed = False, pv_out = False, pv_sockopt_ok = True, pv_so_error = 0\<rparr>,
     he_blocking_ok = True, he_send = [Inr 1000, Inr 1000], he_recv = answers, he_time = 0\<rparr>"

lemma sample_connects:
  "open_connection (sample_http answers) sample_ctx = (Some 7, [H_socket 7, H_connect ''127.0.0.1'' 9080])"
  by (simp add: open_connection_def sample_http_def sample_ctx_def api_target_host_def api_target_port_def connected_ok_def
      inet_pton4_def octet_ok_def c_isdigit_def digits_val_def c_digit_val_def)

lemma length_show_nat: "n < 100 \<Longrightarrow> length (show_nat n) \<le> 2"
  by (cases "n < 10") (simp_all add: show_nat.simps [of n] show_nat.simps [of "n div 10"] less_mult_imp_div_less)

lemma sample_head_length:
  "length path < 100 \<Longrightarrow> n < 100 \<Longrightarrow> 100 < length (request_head sample_ctx path n) \<and> length (request_head sample_ctx path n) < 1000"
  using length_show_nat [of n]
  by (simp add: request_head_def header_line_def auth_header_def CRLF_def sample_ctx_def api_target_host_def api_target_port_def
      show_int_def show_nat.simps [of 9080] show_nat.simps [of 908] show_nat.simps [of 90] show_nat.simps [of 9])

lemma sample_sends:
  assumes "100 < length req" "length req < 1000" "frame \<noteq> []" "length frame < 100"
  shows "send_request req frame [Inr 1000, Inr 1000] = Some (length frame, [H_send req, H_send frame])"
proof -
  have "send_loop (length req) 0 [Inr 1000, Inr 1000] = Some (length req, [Inr 1000])" using assms(1,2) by auto
  then show ?thesis using assms(3,4) by (auto simp: send_request_def)
qed

lemma sample_answers [simp]: "he_send (sample_http a) = [Inr 1000, Inr 1000]" "he_recv (sample_http a) = a"
  by (simp_all add: sample_http_def)

lemma sample_call:
  assumes "length path < 100" "length request < 90" "recv_unary cap answers [] = Some (rc, response)"
  shows "grpc_web_unary_call (sample_http answers) sample_ctx path request cap = Some (rc, response,
    [H_socket 7, H_connect ''127.0.0.1'' 9080, H_send (request_head sample_ctx path (length request + 5)),
     H_send (frame_header (length request) @ request), H_close 7])"
proof -
  let ?head = "request_head sample_ctx path (length request + 5)" and ?frame = "frame_header (length request) @ request"
  have h: "100 < length ?head" "length ?head < 1000" using sample_head_length [of path "length request + 5"] assms(1,2) by simp_all
  have "send_request ?head ?frame [Inr 1000, Inr 1000] = Some (length ?frame, [H_send ?head, H_send ?frame])"
    using assms(2) by (intro sample_sends [OF h]) (auto simp: frame_header_def)
  with h assms show ?thesis by (simp add: grpc_web_unary_call_def sample_connects)
qed

definition empty_answer :: string where
  "empty_answer = ''HTTP/1.1 200 OK'' @ CRLF @ CRLF @ [CHR 0x00, CHR 0x00, CHR 0x00, CHR 0x00, CHR 0x00]"

lemma empty_answer_read: "recv_unary 256 [Inr empty_answer] [] = Some (0, [CHR 0x00, CHR 0x00, CHR 0x00, CHR 0x00, CHR 0x00])"
  by (simp add: empty_answer_def unary_scan_def unary_frame_def CRLF_def says_chunked_def is_trailer_def frame_length_def)

lemma sample_set_mode:
  assumes "mode \<noteq> []" "length mode < 80"
  shows "singbox_api_set_clash_mode (sample_http [Inr empty_answer]) sample_ctx mode = Some (0,
     [H_socket 7, H_connect ''127.0.0.1'' 9080,
      H_send (request_head sample_ctx ''/daemon.StartedService/SetClashMode'' (length (mode_request mode) + 5)),
      H_send (frame_header (length (mode_request mode)) @ mode_request mode), H_close 7])"
proof -
  have "length (mode_request mode) < 90" using assms by (simp add: mode_request_def length_varint_len)
  with assms show ?thesis by (simp add: singbox_api_set_clash_mode_def sample_call [OF _ _ empty_answer_read])
qed

theorem clash_mode_request_roundtrip_witness:
  "\<exists>frame. singbox_api_set_clash_mode (sample_http [Inr empty_answer]) sample_ctx ''Rule'' = Some (0,
     [H_socket 7, H_connect ''127.0.0.1'' 9080, H_send (request_head sample_ctx ''/daemon.StartedService/SetClashMode'' 11),
      H_send frame, H_close 7]) \<and> parse_string_field frame 3 64 = Some ''Rule''"
proof -
  let ?head = "request_head sample_ctx ''/daemon.StartedService/SetClashMode'' 11"
  have m: "length (mode_request ''Rule'') = 6" by (simp add: mode_request_def length_varint.simps)
  let ?env = "sample_http [Inr empty_answer]" and ?frame = "frame_header 6 @ mode_request ''Rule''"
  have "send_loop (length ?head) 0 (he_send ?env) = Some (length ?head, [Inr 1000])" "length ?head < 1024"
    using sample_head_length [of set_mode_path 11] by auto
  moreover have "send_loop (length ?frame) 0 [Inr 1000] = Some (length ?frame, [])" using m by simp
  moreover have "0 \<le> he_sock ?env" "inet_pton4 (api_target_host sample_ctx)" "connected_ok ?env" "he_blocking_ok ?env"
      "api_target_host sample_ctx = ''127.0.0.1''" "api_target_port sample_ctx mod 65536 = 9080" "he_sock ?env = 7"
    by (simp_all add: sample_http_def sample_ctx_def api_target_host_def api_target_port_def connected_ok_def
        inet_pton4_def octet_ok_def c_isdigit_def digits_val_def c_digit_val_def)
  ultimately show ?thesis
    using clash_mode_request_roundtrip [where mode = "''Rule''" and env = ?env and ctx = sample_ctx and head = ?head and frame = ?frame,
        unfolded m, OF _ _ _ _ _ _ _ refl _ _ _ refl] empty_answer_read
    by auto
qed

subsection \<open>Status reports\<close>

text \<open>What the server sends for a status: one varint field per value.\<close>

definition varint_field :: "nat \<Rightarrow> u64 \<Rightarrow> string" where
  "varint_field k w = length_varint (8 * k) @ length_varint (unat w)"

definition status_message :: "singbox_status_t \<Rightarrow> string" where
  "status_message st =
     varint_field 1 (st_memory st) @ varint_field 2 (word_of_int (st_goroutines st))
     @ varint_field 3 (word_of_int (st_connections_in st)) @ varint_field 4 (word_of_int (st_connections_out st))
     @ varint_field 5 (if st_traffic_available st then 1 else 0) @ varint_field 6 (word_of_int (st_uplink st))
     @ varint_field 7 (word_of_int (st_downlink st)) @ varint_field 8 (word_of_int (st_uplink_total st))
     @ varint_field 9 (word_of_int (st_downlink_total st))"

definition status_frame :: "singbox_status_t \<Rightarrow> string" where
  "status_frame st = frame_header (length (status_message st)) @ status_message st"

definition status_wf :: "singbox_status_t \<Rightarrow> bool" where
  "status_wf st \<longleftrightarrow> (\<forall>n\<in>{st_goroutines st, st_connections_in st, st_connections_out st}. 0 \<le> n \<and> n \<le> INT_MAX)
     \<and> (\<forall>n\<in>{st_uplink st, st_downlink st, st_uplink_total st, st_downlink_total st}. - (2 ^ 63) \<le> n \<and> n < 2 ^ 63)"

lemma status_fields_Nil [simp]: "status_fields [] st = (1, st)"
  by (simp add: status_fields.simps)

lemma status_fields_varint:
  assumes "0 < k" "k < 10"
  shows "status_fields (varint_field k w @ rest) st =
    (case status_field (of_nat k) w st of None \<Rightarrow> (-1, st) | Some st1 \<Rightarrow> status_fields rest st1)"
proof -
  have "key_wire (of_nat (8 * k)) = 0 \<and> key_field (of_nat (8 * k)) = of_nat k"
  proof -
    have "k = 1 \<or> k = 2 \<or> k = 3 \<or> k = 4 \<or> k = 5 \<or> k = 6 \<or> k = 7 \<or> k = 8 \<or> k = 9" using assms by arith
    then show ?thesis by (elim disjE) (simp_all add: key_wire_def key_field_def)
  qed
  moreover have "unat w < 2 ^ 64" using unsigned_less [of w] by simp
  moreover have "length_varint n \<noteq> []" for n by (simp add: length_varint.simps [of n])
  ultimately show ?thesis
    using assms by (subst status_fields.simps) (simp add: varint_field_def)
qed

lemma status_message_decodes:
  assumes "status_wf st"
  shows "status_fields (status_message st) status_zero = (1, st)"
proof -
  have s: "sint (word_of_int n :: u64) = n" if "- (2 ^ 63) \<le> n" "n < 2 ^ 63" for n
    using that by (simp add: signed_of_int signed_take_bit_int_eq_self)
  have u: "uint (word_of_int n :: u64) = n \<and> \<not> INT32_MAX < word_of_int n" if "0 \<le> n" "n \<le> INT_MAX" for n
    using that by (simp add: INT32_MAX_def INT_MAX_def word_less_def uint_u64_of_int)
  have last: "status_fields (varint_field 9 w) x = (1, x\<lparr>st_downlink_total := sint w\<rparr>)" for w x
    using status_fields_varint [of 9 w "[]" x] by (simp add: status_field_def)
  show ?thesis
    using assms unfolding status_message_def
    by (cases st) (simp add: status_fields_varint last status_field_def status_zero_def status_wf_def s u)
qed

subsection \<open>Answers in pieces\<close>

lemma c_strstr_append: "c_strstr s needle = Some (b, t) \<Longrightarrow> c_strstr (s @ u) needle = Some (b, t @ u)"
proof (induction s arbitrary: b)
  case Nil
  then show ?case by (cases u) (auto split: if_splits)
next
  case (Cons c s)
  show ?case
  proof (cases "prefix needle (c # s)")
    case True
    then show ?thesis using Cons.prems by (auto intro: prefix_prefix [of needle "c # s" u, simplified])
  next
    case False
    then obtain b1 where b1: "c_strstr s needle = Some (b1, t)" "b = c # b1" using Cons.prems by (auto split: option.splits)
    then have "length needle \<le> length (c # s)" using c_strstr_Some [OF b1(1)] by (auto dest: prefix_length_le)
    then have "\<not> prefix needle ((c # s) @ u)"
      using False prefix_length_prefix [of needle "(c # s) @ u" "c # s"] by auto
    with Cons.IH [OF b1(1)] b1(2) show ?thesis by simp
  qed
qed

text \<open>A text that ends with the first occurrence of a separator contains none before its end.\<close>

lemma c_strstr_prefix:
  assumes "c_strstr s needle = Some (b, needle)" "n < length s"
  shows "c_strstr (take n s) needle = None"
proof (rule ccontr)
  assume "c_strstr (take n s) needle \<noteq> None"
  then obtain b' t' where f: "c_strstr (take n s) needle = Some (b', t')" by auto
  have "c_strstr s needle = Some (b', t' @ drop n s)" using c_strstr_append [OF f, of "drop n s"] by simp
  then have "b' = b" "length needle \<le> length t'" using c_strstr_Some [OF f] assms(1) by (auto dest: prefix_length_le)
  moreover have "take n s = b' @ t'" "s = b @ needle" using c_strstr_Some [OF f] c_strstr_Some [OF assms(1)] by auto
  ultimately show False using assms(2) by (metis length_append length_take min.absorb4 nat_add_left_cancel_le not_le)
qed

lemma c_strstr_take:
  assumes "c_strstr s needle = Some (b, needle)"
  shows "c_strstr (take n (s @ u)) needle = (if n < length s then None else Some (b, needle @ take (n - length s) u))"
  using c_strstr_prefix [OF assms, of n] c_strstr_append [OF assms] by simp

lemma strcasestr_append: "c_strcasestr s needle \<Longrightarrow> c_strcasestr (s @ t) needle"
  using c_strstr_append by (fastforce simp: c_strcasestr_def)

text \<open>The head of an answer, and what comes between it and the frame: nothing, or the size of
  a chunk.\<close>

definition answer_head :: "string \<Rightarrow> string \<Rightarrow> string \<Rightarrow> bool" where
  "answer_head hdr pre frame \<longleftrightarrow>
     CHR 0x00 \<notin> set (hdr @ pre) \<and> (\<exists>h. c_strstr hdr (CRLF @ CRLF) = Some (h, CRLF @ CRLF))
     \<and> (if c_strcasestr hdr ''transfer-encoding: chunked''
        then \<exists>size. c_strstr pre CRLF = Some (size, CRLF) \<and> size \<noteq> [] \<and> length size < 32
               \<and> c_strtoul16 size = (of_nat (length frame), [])
        else pre = [])"

lemma parse_frame_header:
  "k < 2 ^ 32 \<Longrightarrow> parse_status_frame (frame_header k @ x) =
    (if length x < k then (0, status_zero) else status_fields (take k x) status_zero)"
  by (simp add: parse_status_frame_def frame_length_header frame_message_header)

lemma parse_frame_prefix:
  assumes "length m < 2 ^ 32"
  shows "parse_status_frame (take n ((frame_header (length m) @ m) @ rest)) =
    (if n < length m + 5 then (0, status_zero) else status_fields m status_zero)"
proof (cases "n < 5")
  case True
  then show ?thesis by (simp add: parse_status_frame_def)
next
  case False
  then have "take n ((frame_header (length m) @ m) @ rest) = frame_header (length m) @ take (n - 5) (m @ rest)" by simp
  then have "parse_status_frame (take n ((frame_header (length m) @ m) @ rest)) =
      (if length (take (n - 5) (m @ rest)) < length m then (0, status_zero)
       else status_fields (take (length m) (take (n - 5) (m @ rest))) status_zero)"
    using parse_frame_header [OF assms] by simp
  also have "\<dots> = (if n < length m + 5 then (0, status_zero) else status_fields m status_zero)"
    using False by (auto simp: min_def)
  finally show ?thesis .
qed

lemma parse_status_prefix:
  assumes "status_wf st" "length (status_message st) < 2 ^ 32"
  shows "parse_status_frame (take n (status_frame st @ rest)) = (if n < length (status_frame st) then (0, status_zero) else (1, st))"
  using parse_frame_prefix [OF assms(2)] status_message_decodes [OF assms(1)] by (simp add: status_frame_def)

lemma chunk_first:
  assumes "c_strstr body CRLF = Some (sz, CRLF @ t)" "sz \<noteq> []" "length sz < 32" "c_strtoul16 (c_str sz) = (w, [])" "w \<noteq> 0"
  shows "chunk_loop body s = (if length t < unat w then (0, s)
    else case parse_status_frame (take (unat w) t) of (parsed, st1) \<Rightarrow>
      if parsed \<noteq> 0 then (parsed, st1) else chunk_loop (drop (unat w + 2) t) st1)"
proof -
  have "drop 2 (CRLF @ t) = t" "length CRLF = 2" by (simp_all add: CRLF_def)
  moreover have "body \<noteq> []" using assms(1) by (auto simp: CRLF_def)
  ultimately show ?thesis using assms by (subst chunk_loop.simps) (simp del: drop_append drop_drop split: prod.split)
qed

lemma chunk_prefix:
  assumes st: "status_wf st" "length (status_message st) < 2 ^ 32"
    and szh: "c_strstr pre CRLF = Some (sz, CRLF)" "sz \<noteq> []" "length sz < 32" "CHR 0x00 \<notin> set sz"
      "c_strtoul16 sz = (of_nat (length (status_frame st)), [])"
  shows "chunk_loop (take n (pre @ status_frame st @ rest)) s =
    (if n < length (pre @ status_frame st) then (0, s) else (1, st))"
proof -
  let ?f = "status_frame st"
  have pre: "pre = sz @ CRLF" using c_strstr_Some [OF szh(1)] by simp
  have lf: "length ?f = length (status_message st) + 5" by (simp add: status_frame_def)
  then have un: "unat (of_nat (length ?f) :: u64) = length ?f" using st(2) unat_of_nat [where x = "length ?f" and ?'a = 64] by (simp del: of_nat_add)
  have nz: "(of_nat (length ?f) :: u64) \<noteq> 0" using un lf by (metis unsigned_0 add_is_0 zero_neq_numeral)
  have line: "c_strstr (take n (pre @ ?f @ rest)) CRLF =
      (if n < length pre then None else Some (sz, CRLF @ take (n - length pre) (?f @ rest)))"
    by (rule c_strstr_take [OF szh(1)])
  have whole: "parse_status_frame ?f = (1, st)" using parse_status_prefix [OF st, of "length ?f" "[]"] by simp
  show ?thesis
  proof (cases "n < length pre")
    case True
    then show ?thesis using line by (simp add: chunk_loop.simps [of "take n _"])
  next
    case False
    then have "chunk_loop (take n (pre @ ?f @ rest)) s =
        (if length (take (n - length pre) (?f @ rest)) < length ?f then (0, s)
         else (case parse_status_frame (take (length ?f) (take (n - length pre) (?f @ rest))) of (parsed, st1) \<Rightarrow>
           if parsed \<noteq> 0 then (parsed, st1) else chunk_loop (drop (length ?f + 2) (take (n - length pre) (?f @ rest))) st1))"
      using chunk_first [of "take n (pre @ ?f @ rest)" sz "take (n - length pre) (?f @ rest)" "of_nat (length ?f)" s] line szh nz
      unfolding un by (simp add: c_str_id del: take_append)
    also have "\<dots> = (if n < length (pre @ ?f) then (0, s) else (1, st))"
      using False whole by (auto simp: min_def)
    finally show ?thesis .
  qed
qed

lemma c_str_take: "CHR 0x00 \<notin> set xs \<Longrightarrow> c_str (take n (xs @ CHR 0x00 # ys)) = take n xs"
proof (cases "n \<le> length xs")
  case True
  assume "CHR 0x00 \<notin> set xs"
  then have "CHR 0x00 \<notin> set (take n xs)" by (meson in_set_takeD)
  with True show ?thesis by (simp add: c_str_id)
next
  case False
  assume "CHR 0x00 \<notin> set xs"
  then have "c_str (xs @ CHR 0x00 # zs) = xs" for zs unfolding c_str_def by (induction xs) auto
  with False show ?thesis by (cases "n - length xs") auto
qed

lemma response_prefix:
  assumes st: "status_wf st" "length (status_message st) < 2 ^ 32" and head: "answer_head hdr pre (status_frame st)"
  shows "\<exists>s'. parse_grpc_web_response (take n (hdr @ pre @ status_frame st @ rest)) s =
    (if n < length (hdr @ pre @ status_frame st) then (0, s') else (1, st))"
proof -
  let ?f = "status_frame st" and ?te = "''transfer-encoding: chunked''"
  obtain h where h: "c_strstr hdr (CRLF @ CRLF) = Some (h, CRLF @ CRLF)" and nul: "CHR 0x00 \<notin> set (hdr @ pre)"
    using head by (auto simp: answer_head_def)
  have len: "length hdr = length h + 4" using c_strstr_Some [OF h] by (simp add: CRLF_def)
  have f0: "?f @ rest = CHR 0x00 # tl ?f @ rest" by (simp add: status_frame_def frame_header_def)
  have cs: "c_str (take n (hdr @ pre @ ?f @ rest)) = take n (hdr @ pre)"
    using c_str_take [OF nul, of n] by (simp add: f0)
  have find: "c_strstr (take n (hdr @ pre)) (CRLF @ CRLF) =
      (if n < length hdr then None else Some (h, (CRLF @ CRLF) @ take (n - length hdr) pre))"
    by (rule c_strstr_take [OF h])
  show ?thesis
  proof (cases "n < length hdr")
    case True
    then show ?thesis using find cs by (simp add: parse_grpc_web_response_def)
  next
    case False
    let ?body = "take (n - length hdr) (pre @ ?f @ rest)"
    have body: "drop (length h + 4) (take n (hdr @ pre @ ?f @ rest)) = ?body" unfolding len [symmetric] drop_take by simp
    have te: "c_strcasestr (take n (hdr @ pre)) ?te \<longleftrightarrow> c_strcasestr hdr ?te"
    proof (cases "c_strcasestr hdr ?te")
      case True
      then show ?thesis using False strcasestr_append by simp
    next
      case no: False
      then have "pre = []" using head by (simp add: answer_head_def)
      then show ?thesis using False by simp
    qed
    have parse: "parse_grpc_web_response (take n (hdr @ pre @ ?f @ rest)) s =
        (if c_strcasestr hdr ?te then chunk_loop ?body s else parse_status_frame ?body)"
      unfolding parse_grpc_web_response_def cs find te using False body by simp
    show ?thesis
    proof (cases "c_strcasestr hdr ?te")
      case True
      then obtain sz where szh: "c_strstr pre CRLF = Some (sz, CRLF)" "sz \<noteq> []" "length sz < 32"
          "c_strtoul16 sz = (of_nat (length ?f), [])"
        using head by (auto simp: answer_head_def)
      have "CHR 0x00 \<notin> set sz" using nul c_strstr_Some [OF szh(1)] by auto
      from chunk_prefix [OF st szh(1-3) this szh(4), of "n - length hdr" rest s] True False parse
      show ?thesis by auto
    next
      case no: False
      then have "pre = []" using head by (simp add: answer_head_def)
      with parse no False parse_status_prefix [OF st, of "n - length hdr" rest] show ?thesis by auto
    qed
  qed
qed

lemma recv_status_pieces:
  assumes full: "full = buf @ concat (map chunk_of as)" "pieces as" "length full \<le> 4095"
    and pos: "length buf < n" "n \<le> length full"
    and parse: "\<And>k s. \<exists>s'. parse_grpc_web_response (take k full) s = (if k < n then (0, s') else (1, st))"
  shows "recv_status (as @ later) buf s = Some (1, st)"
  using full(1,2) pos(1)
proof (induction as arbitrary: buf s)
  case Nil
  then show ?case using pos(2) by simp
next
  case (Cons a as)
  have buf: "length buf < 4095" using Cons.prems(3) pos(2) full(3) by simp
  show ?case
  proof (cases a)
    case (Inl e)
    then have "e = EINTR" "full = buf @ concat (map chunk_of as)" using Cons.prems by (auto simp: pieces_Cons)
    with Cons.IH [of buf s] Cons.prems(2,3) buf Inl show ?thesis by (simp add: pieces_Cons)
  next
    case (Inr c)
    then have c: "c \<noteq> []" "full = (buf @ c) @ concat (map chunk_of as)" using Cons.prems by (auto simp: pieces_Cons)
    then have fit: "take (4095 - length buf) c = c" "take (length (buf @ c)) full = buf @ c" using full(3) by auto
    obtain s' where p: "parse_grpc_web_response (buf @ c) s = (if length (buf @ c) < n then (0, s') else (1, st))"
      using parse [of "length (buf @ c)" s] unfolding fit(2) by blast
    show ?thesis
    proof (cases "length (buf @ c) < n")
      case True
      with Cons.IH [OF c(2), of s'] Cons.prems(2) p fit(1) c(1) buf Inr show ?thesis by (simp add: pieces_Cons)
    next
      case False
      with p fit(1) c(1) buf Inr show ?thesis by simp
    qed
  qed
qed

text \<open>C29: a status report survives the network: when the server answers a status call with the
  encoding of a status, in a plain or a chunked HTTP body, followed by whatever else it streams,
  then the call returns exactly this status, however the answer is cut into pieces and however
  often receiving is interrupted, and it closes its socket.\<close>

theorem status_report_roundtrip:
  assumes "status_wf st" "answer_head hdr pre (status_frame st)"
    and "concat (map chunk_of as) = hdr @ pre @ status_frame st @ rest" "pieces as"
    and "length (hdr @ pre @ status_frame st @ rest) \<le> 4095"
    and "open_connection env ctx = (Some s, ev)" "he_recv env = as @ later"
    and "length (request_head ctx ''/daemon.StartedService/SubscribeStatus'' 11) < 1024"
    and "send_request (request_head ctx ''/daemon.StartedService/SubscribeStatus'' 11) status_request_frame (he_send env)
       = Some (length status_request_frame, sends)"
  shows "singbox_api_get_status env ctx = Some (0, st, ev @ sends @ [H_close s])"
proof -
  let ?full = "hdr @ pre @ status_frame st @ rest"
  have "length (status_message st) < 2 ^ 32" using assms(5) by (simp add: status_frame_def)
  note parse = response_prefix [OF assms(1) this assms(2)]
  have "0 < length (hdr @ pre @ status_frame st)" by (simp add: status_frame_def frame_header_def)
  then have "recv_status (as @ later) [] status_zero = Some (1, st)"
    using recv_status_pieces [of ?full "[]" as "length (hdr @ pre @ status_frame st)" st later status_zero] assms(3-5) parse by auto
  with assms show ?thesis by (simp add: singbox_api_get_status_def)
qed

definition sample_status :: singbox_status_t where
  "sample_status = status_zero\<lparr>st_memory := 300, st_goroutines := 42, st_uplink := 70000\<rparr>"

definition chunked_head :: string where
  "chunked_head = ''HTTP/1.1 200 OK'' @ CRLF @ ''Transfer-Encoding: chunked'' @ CRLF @ CRLF"

lemma sample_message_length: "length (status_message sample_status) = 21"
  by (simp add: status_message_def varint_field_def sample_status_def status_zero_def length_varint.simps)

lemma sample_head: "answer_head chunked_head (''1a'' @ CRLF) (status_frame sample_status)"
proof -
  have "c_strtoul16 ''1a'' = (26, [])"
    by (simp add: c_strtoul16_def c_isspace_def c_isxdigit_def c_xdigit_val_def hex_val_def)
  moreover have "char_of (116::nat) = CHR ''t''" "char_of (101::nat) = CHR ''e''" by (simp_all add: char_of_def bit_Suc_0_iff)
  ultimately show ?thesis
    by (simp add: answer_head_def chunked_head_def CRLF_def c_strcasestr_def c_tolower_def status_frame_def sample_message_length)
qed

theorem status_report_roundtrip_witness:
  "singbox_api_get_status (sample_http [Inr (take 30 chunked_head), Inl EINTR,
     Inr (drop 30 chunked_head @ ''1a'' @ CRLF @ take 9 (status_frame sample_status)), Inr (drop 9 (status_frame sample_status) @ CRLF)])
     sample_ctx = Some (0, sample_status, [H_socket 7, H_connect ''127.0.0.1'' 9080,
        H_send (request_head sample_ctx ''/daemon.StartedService/SubscribeStatus'' 11), H_send status_request_frame, H_close 7])"
proof -
  let ?as = "[Inr (take 30 chunked_head), Inl EINTR,
     Inr (drop 30 chunked_head @ ''1a'' @ CRLF @ take 9 (status_frame sample_status)), Inr (drop 9 (status_frame sample_status) @ CRLF)]"
  let ?head = "request_head sample_ctx ''/daemon.StartedService/SubscribeStatus'' 11"
  have h: "100 < length ?head" "length ?head < 1000" using sample_head_length [of "''/daemon.StartedService/SubscribeStatus''" 11] by simp_all
  have wf: "status_wf sample_status" by (simp add: status_wf_def sample_status_def status_zero_def INT_MAX_def)
  have c: "concat (map chunk_of ?as) = chunked_head @ (''1a'' @ CRLF) @ status_frame sample_status @ CRLF"
    by (simp add:)
  have p: "pieces ?as" by (simp add: pieces_def chunked_head_def CRLF_def status_frame_def sample_message_length)
  have l: "length (chunked_head @ (''1a'' @ CRLF) @ status_frame sample_status @ CRLF) \<le> 4095"
    by (simp add: chunked_head_def CRLF_def status_frame_def sample_message_length)
  have r: "he_recv (sample_http ?as) = ?as @ []" by simp
  have "length status_request_frame = 11" by (simp add: status_request_frame_def)
  then have "send_request ?head status_request_frame (he_send (sample_http ?as)) =
      Some (length status_request_frame, [H_send ?head, H_send status_request_frame])"
    using sample_sends [OF h, of status_request_frame] by (simp add: status_request_frame_def)
  from status_report_roundtrip [OF wf sample_head c p l sample_connects r _ this] h show ?thesis by simp
qed

end
