(* ===== verification/Api_Props.thy ===== *)
theory Api_Props
  imports Api Singbox_Api_Props
begin

text \<open>
  The worker of the native API and the event loop share a mailbox of one request.  Whatever the
  interleaving, the newest request is never lost and never replaced by an older one; and the mode
  the proxy had before the VPN came is the one it gets back.
\<close>

subsection \<open>The mailbox\<close>

text \<open>The newest request that has not been carried out yet.\<close>

definition settle :: "api_event \<Rightarrow> api_vpn_request_t option \<Rightarrow> api_vpn_request_t option" where
  "settle e u = (case e of Posted r \<Rightarrow> Some r | Applied r ok \<Rightarrow> (if ok \<and> u = Some r then None else u) | _ \<Rightarrow> u)"

definition unsettled :: "api_event list \<Rightarrow> api_vpn_request_t option" where
  "unsettled tr = fold settle tr None"

definition newest :: "api_event list \<Rightarrow> api_vpn_request_t option" where
  "newest tr = fold (\<lambda>e u. case e of Posted r \<Rightarrow> Some r | _ \<Rightarrow> u) tr None"

text \<open>The newest request is waiting in the mailbox, or being carried out, or done.\<close>

definition mailbox_ok :: "api_event list \<Rightarrow> api_world \<Rightarrow> bool" where
  "mailbox_ok tr w \<longleftrightarrow>
     (ap_vpn_pending (aw_ctx w) \<longrightarrow> newest tr = Some (ap_vpn_request (aw_ctx w)))
     \<and> (\<forall>r. (aw_pc w = W_apply r \<or> aw_pc w = W_retry r) \<and> \<not> ap_vpn_pending (aw_ctx w) \<longrightarrow> newest tr = Some r)
     \<and> (\<not> ap_stopping (aw_ctx w) \<longrightarrow> unsettled tr = None \<or>
          (unsettled tr = newest tr
           \<and> (ap_vpn_pending (aw_ctx w) \<or> (\<exists>r. aw_pc w = W_apply r \<or> aw_pc w = W_retry r))))"

lemma settle_simps [simp]:
  "settle (Posted r) u = Some r" "settle (Taken r) u = u" "settle (Asked m) u = u" "settle (Published s) u = u"
  "settle (Applied r False) u = u" "settle (Applied r True) u = (if u = Some r then None else u)"
  by (simp_all add: settle_def)

lemma trace_snoc [simp]:
  "unsettled (tr @ ev) = fold settle ev (unsettled tr)"
  "newest (tr @ ev) = fold (\<lambda>e u. case e of Posted r \<Rightarrow> Some r | _ \<Rightarrow> u) ev (newest tr)"
  by (simp_all add: unsettled_def newest_def)

lemma unsettled_newest: "unsettled tr = None \<or> unsettled tr = newest tr"
proof (induction tr rule: rev_induct)
  case (snoc e tr)
  then show ?case by (cases e) (auto simp: settle_def)
qed (simp add: unsettled_def)

lemma apply_keeps_mailbox:
  assumes "api_apply_vpn_mode e1 e2 r ctx = Some (ok, ctx', asked)"
  shows "ap_vpn_pending ctx' = ap_vpn_pending ctx \<and> ap_vpn_request ctx' = ap_vpn_request ctx \<and> ap_stopping ctx' = ap_stopping ctx"
  using assms by (auto simp: api_apply_vpn_mode_def set_mode_then_def Let_def split: option.splits if_splits prod.splits)

lemma results_keep_mailbox:
  assumes "api_result_cb reads now ctx = Some ctx'"
  shows "ap_vpn_pending ctx' = ap_vpn_pending ctx \<and> ap_vpn_request ctx' = ap_vpn_request ctx \<and> ap_stopping ctx' = ap_stopping ctx"
  using assms by (auto simp: api_result_cb_def split: option.splits)

lemma wait_pc: "worker_wait polls = Some pc \<Longrightarrow> pc = W_top \<or> pc = W_done"
  by (induction polls rule: worker_wait.induct) (auto split: if_splits)

lemma mailbox_step:
  assumes "api_step w ev w'" "mailbox_ok tr w"
  shows "mailbox_ok (tr @ ev) w'"
  using assms
proof (induction rule: api_step.induct)
  case (vpn_event state config w ctx posted)
  then show ?case
    by (auto simp: api_vpn_mode_callback_def mailbox_ok_def split: option.splits if_splits)
next
  case (request_stop w)
  then show ?case by (simp add: mailbox_ok_def)
next
  case (results reads w now ctx)
  then show ?case using results_keep_mailbox [of reads now "aw_ctx w" ctx] by (simp add: mailbox_ok_def)
next
  case (take_request w ctx pc)
  then show ?case by (auto simp: worker_take_def mailbox_ok_def split: if_splits)
next
  case (apply_request w r e1 e2 ok ctx asked)
  then show ?case
    using apply_keeps_mailbox [OF apply_request(2)] unsettled_newest [of tr]
    by (cases ok) (auto simp: mailbox_ok_def split: option.splits)
next
  case (retry_request w r)
  then show ?case by (auto simp: worker_requeue_def mailbox_ok_def)
next
  case (refresh w e1 e2 e3 s room)
  then show ?case by (simp add: mailbox_ok_def)
next
  case (wait_round w polls pc)
  then show ?case using wait_pc [of polls pc] by (auto simp: mailbox_ok_def)
qed

lemma mailbox_steps: "api_steps w tr w' \<Longrightarrow> mailbox_ok [] w \<Longrightarrow> mailbox_ok tr w'"
  by (induction rule: api_steps.induct) (auto intro: mailbox_step)

lemma taken_is_newest:
  assumes "api_steps w tr w'" "mailbox_ok [] w"
  shows "tr = pre @ Taken r # post \<Longrightarrow> newest pre = Some r"
  using assms
proof (induction arbitrary: post rule: api_steps.induct)
  case (step w tr w1 ev w2)
  note ok = mailbox_steps [OF step.hyps(1) step.prems(2)]
  show ?case
  proof (cases "length pre < length tr")
    case True
    then obtain post' where "tr = pre @ Taken r # post'"
      using step.prems(1) by (auto simp: append_eq_append_conv2 Cons_eq_append_conv append_eq_Cons_conv)
    then show ?thesis using step.IH step.prems(2) by blast
  next
    case False
    then obtain pre' where pre: "pre = tr @ pre'" "ev = pre' @ Taken r # post"
      using step.prems(1) by (auto simp: append_eq_append_conv2)
    from step.hyps(2) show ?thesis
    proof cases
      case (take_request ctx pc)
      then show ?thesis using pre ok
        by (auto simp: worker_take_def mailbox_ok_def Cons_eq_append_conv append_eq_Cons_conv split: if_splits worker_pc.splits)
    qed (use pre in \<open>auto simp: append_eq_Cons_conv Cons_eq_append_conv append_eq_append_conv2 split: option.splits\<close>)
  qed
qed simp

text \<open>C30: the mailbox between the two threads keeps the newest request.  However the event loop
  and the worker interleave, the request the worker takes is the newest one posted; and as long as
  the worker is not told to stop, a newest request that has not been carried out successfully is
  waiting in the mailbox or in the hands of the worker.  (A failed request is put back only if
  nothing newer has arrived.)\<close>

theorem api_request_never_lost:
  assumes "api_steps w tr w'" "\<not> ap_vpn_pending (aw_ctx w)" "aw_pc w = W_top"
  shows "(\<forall>pre r post. tr = pre @ Taken r # post \<longrightarrow> newest pre = Some r)
    \<and> (\<forall>r. \<not> ap_stopping (aw_ctx w') \<and> unsettled tr = Some r \<longrightarrow>
         newest tr = Some r \<and>
         (if ap_vpn_pending (aw_ctx w') then ap_vpn_request (aw_ctx w') = r else aw_pc w' = W_apply r \<or> aw_pc w' = W_retry r))"
proof -
  have start: "mailbox_ok [] w" using assms(2,3) by (simp add: mailbox_ok_def unsettled_def)
  from mailbox_steps [OF assms(1) this]
  have "\<forall>r. \<not> ap_stopping (aw_ctx w') \<and> unsettled tr = Some r \<longrightarrow> newest tr = Some r \<and>
      (if ap_vpn_pending (aw_ctx w') then ap_vpn_request (aw_ctx w') = r else aw_pc w' = W_apply r \<or> aw_pc w' = W_retry r)"
    by (auto simp: mailbox_ok_def)
  with taken_is_newest [OF assms(1) start] show ?thesis by blast
qed

definition fresh_api :: api_world where
  "fresh_api = \<lparr>aw_ctx = api_zero\<lparr>ap_initialized := True\<rparr>, aw_pc = W_top, aw_pipe = []\<rparr>"

definition plain_cfg :: atp_config_t where
  "plain_cfg = config_set_defaults \<lparr>ce_app_dir = ''/data/adb/atp'', ce_net_admin = True, ce_json = (\<lambda>_. Json_absent)\<rparr>"

abbreviation up_request :: api_vpn_request_t where
  "up_request \<equiv> vpn_request_for VPN_STATE_READY plain_cfg"

theorem api_request_never_lost_witness:
  "\<exists>w. api_steps fresh_api [Posted up_request, Taken up_request] w
     \<and> unsettled [Posted up_request, Taken up_request] = Some up_request \<and> aw_pc w = W_apply up_request"
proof -
  let ?c1 = "(aw_ctx fresh_api)\<lparr>ap_vpn_request := up_request, ap_vpn_pending := True\<rparr>"
  let ?w1 = "fresh_api\<lparr>aw_ctx := ?c1\<rparr>"
  let ?w2 = "?w1\<lparr>aw_ctx := ?c1\<lparr>ap_vpn_pending := False\<rparr>, aw_pc := W_apply up_request\<rparr>"
  have one: "api_step fresh_api [Posted up_request] ?w1"
    using api_step.vpn_event [of VPN_STATE_READY "Some plain_cfg" fresh_api ?c1 "Some up_request"]
    by (simp add: api_vpn_mode_callback_def fresh_api_def plain_cfg_def config_set_defaults_def)
  have two: "api_step ?w1 [Taken up_request] ?w2"
    using api_step.take_request [of ?w1 "?c1\<lparr>ap_vpn_pending := False\<rparr>" "W_apply up_request"]
    by (simp add: worker_take_def fresh_api_def api_zero_def)
  have steps: "api_steps fresh_api [Posted up_request, Taken up_request] ?w2"
    using api_steps.step [OF api_steps.step [OF api_steps.stop one] two] by simp
  have "unsettled [Posted up_request, Taken up_request] = Some up_request" by (simp add: unsettled_def)
  with api_request_never_lost [OF steps] steps show ?thesis by (auto simp: fresh_api_def api_zero_def)
qed

subsection \<open>The mode before the VPN\<close>

text \<open>A proxy with the modes \<open>modes\<close> while requests are applied to it: a status that is read is the
  current one, a mode that was set successfully is selected, one that was not may or may not be.\<close>

inductive mode_history :: "string list \<Rightarrow> api_ctx_t \<Rightarrow> string \<Rightarrow> api_vpn_request_t list \<Rightarrow> api_ctx_t \<Rightarrow> string \<Rightarrow> bool"
  for modes :: "string list" and c0 :: api_ctx_t and m0 :: string where
  none: "mode_history modes c0 m0 [] c0 m0"
| one: "mode_history modes c0 m0 rs c m
    \<Longrightarrow> api_get_clash_mode_status_sync g c = Some (rc, status)
    \<Longrightarrow> rc = 0 \<longrightarrow> status = \<lparr>cm_modes = modes, cm_current_mode = m\<rparr>
    \<Longrightarrow> api_apply_vpn_mode g s r c = Some (ok, c', asked)
    \<Longrightarrow> m' = (case asked of None \<Rightarrow> m | Some x \<Rightarrow> x) \<or> \<not> ok \<and> m' = m
    \<Longrightarrow> mode_history modes c0 m0 (rs @ [r]) c' m'"

lemma ready_keeps_saved:
  assumes "api_apply_vpn_mode g s r c = Some (ok, c', asked)" "rq_state r = VPN_STATE_READY"
    and "api_get_clash_mode_status_sync g c = Some (rc, status)"
    and "length (cm_current_mode status) < 64"
  shows "if rc = 0 then ap_default_mode c' = (if ap_default_mode c = [] then cm_current_mode status else ap_default_mode c)
    else c' = c \<and> asked = None"
  using assms by (auto simp: api_apply_vpn_mode_def set_mode_then_def Let_def SINGBOX_CLASH_MODE_SIZE_def split: if_splits option.splits)

lemma saved_mode:
  assumes "mode_history modes c0 m0 rs c m" "\<forall>r\<in>set rs. rq_state r = VPN_STATE_READY"
    and "ap_default_mode c0 = []" "m0 \<noteq> []" "length m0 < 64"
  shows "ap_default_mode c = m0 \<or> ap_default_mode c = [] \<and> m = m0"
  using assms(1,2)
proof (induction rule: mode_history.induct)
  case none
  then show ?case using assms(3) by simp
next
  case (one rs c m g rc status s r ok c' asked m')
  then have IH: "ap_default_mode c = m0 \<or> ap_default_mode c = [] \<and> m = m0" and ready: "rq_state r = VPN_STATE_READY" by auto
  show ?case
  proof (cases "rc = 0")
    case True
    then have st: "status = \<lparr>cm_modes = modes, cm_current_mode = m\<rparr>" using one by simp
    show ?thesis
    proof (cases "ap_default_mode c = []")
      case True
      with IH assms(4) have "m = m0" by auto
      with ready_keeps_saved [OF one(4) ready one(2)] st assms(5) \<open>rc = 0\<close> True show ?thesis by simp
    next
      case False
      with IH one(4) st one(2) \<open>rc = 0\<close> ready show ?thesis
        by (auto simp: api_apply_vpn_mode_def set_mode_then_def Let_def split: if_splits option.splits)
    qed
  next
    case False
    with one(2,4) have "c' = c" "asked = None" by (auto simp: api_apply_vpn_mode_def)
    with IH one(5) show ?thesis by auto
  qed
qed

text \<open>C31: the proxy gets its mode back.  Starting without a saved mode, after any number of
  switches for a VPN that came up, whatever targets they name and whether or not they succeed, a
  switch for the VPN that went away, to which the proxy reports its modes, asks for nothing but
  the mode the proxy had at the start, if it still knows this mode.  If the switch succeeds, the
  proxy is in that mode again and the saved mode is cleared, so that the next cycle saves anew;
  it fails only if the proxy refused that mode, and then the mode stays saved for the retry.\<close>

theorem vpn_mode_restored:
  assumes "mode_history modes c0 m0 rs c m" "\<forall>r\<in>set rs. rq_state r = VPN_STATE_READY"
    and "ap_default_mode c0 = []" "m0 \<in> set modes" "m0 \<noteq> []" "length m0 < 64"
    and "rq_state r = VPN_STATE_IDLE"
    and "api_get_clash_mode_status_sync g c = Some (0, \<lparr>cm_modes = modes, cm_current_mode = m\<rparr>)"
    and "api_apply_vpn_mode g s r c = Some (ok, c', asked)"
  shows "(asked = None \<or> asked = Some m0)
    \<and> (ok \<longrightarrow> c' = c\<lparr>ap_default_mode := []\<rparr> \<and> (case asked of None \<Rightarrow> m | Some x \<Rightarrow> x) = m0)
    \<and> (\<not> ok \<longrightarrow> c' = c \<and> ap_default_mode c = m0 \<and> (\<exists>rc sent. rc \<noteq> 0 \<and> api_set_mode_async s c m0 = Some (rc, sent)))"
proof -
  have saved: "ap_default_mode c = m0 \<or> ap_default_mode c = [] \<and> m = m0" by (rule saved_mode [OF assms(1-3,5,6)])
  have clear: "ap_default_mode c = [] \<Longrightarrow> c = c\<lparr>ap_default_mode := []\<rparr>" by (cases c) simp
  show ?thesis
  proof (cases "ap_default_mode c = []")
    case True
    with saved assms(5) have "m = m0" by auto
    then show ?thesis using True assms(7-9) clear by (simp add: api_apply_vpn_mode_def)
  next
    case False
    with saved have d: "ap_default_mode c = m0" by auto
    then have known: "is_clash_mode_supported \<lparr>cm_modes = modes, cm_current_mode = m\<rparr> (ap_default_mode c)"
      using assms(4,5) by (simp add: is_clash_mode_supported_def)
    show ?thesis
      using d known False assms(7-9)
      by (auto simp: api_apply_vpn_mode_def set_mode_then_def Let_def split: if_splits)
  qed
qed

text \<open>A proxy with the modes \<open>A\<close> and \<open>B\<close> that reports its current mode.\<close>

definition modes_answer :: "char \<Rightarrow> string" where
  "modes_answer m = ''HTTP/1.1 200 OK'' @ CRLF @ CRLF @ frame_header 9
     @ [CHR 0x0A, CHR 0x01, CHR ''A'', CHR 0x0A, CHR 0x01, CHR ''B'', CHR 0x12, CHR 0x01, m]"

definition sample_api :: api_ctx_t where
  "sample_api = api_zero\<lparr>ap_initialized := True, ap_native := sample_ctx\<rparr>"

lemma frame_header_9: "frame_header 9 = [CHR 0x00, CHR 0x00, CHR 0x00, CHR 0x00, CHR 0x09]"
  by (simp add: frame_header_def char_of_def bit_Suc_0_iff)

lemma modes_answer_read:
  "recv_unary 2048 [Inr (modes_answer m)] [] = Some (0, frame_header 9
     @ [CHR 0x0A, CHR 0x01, CHR ''A'', CHR 0x0A, CHR 0x01, CHR ''B'', CHR 0x12, CHR 0x01, m])"
  by (simp add: modes_answer_def unary_scan_def unary_frame_def CRLF_def says_chunked_def is_trailer_def frame_length_def frame_header_9)

lemma sample_modes:
  assumes "m \<noteq> CHR 0x00" "ap_initialized c" "ap_native c = sample_ctx"
  shows "api_get_clash_mode_status_sync (sample_http [Inr (modes_answer m)]) c
    = Some (0, \<lparr>cm_modes = [''A'', ''B''], cm_current_mode = [m]\<rparr>)"
proof -
  let ?msg = "[CHR 0x0A, CHR 0x01, CHR ''A'', CHR 0x0A, CHR 0x01, CHR ''B'', CHR 0x12, CHR 0x01, m]"
  have v: "read_varint (CHR 0x0A # r) = Some (10, r)" "read_varint (CHR 0x01 # r) = Some (1, r)" "read_varint (CHR 0x12 # r) = Some (18, r)" for r
    by (simp_all add: read_varint_def)
  have "mode_fields ?msg modes_zero = (0, \<lparr>cm_modes = [''A'', ''B''], cm_current_mode = [m]\<rparr>)"
    using assms(1) by (simp add: mode_fields.simps v key_wire_def key_field_def store_mode_def mode_text_def SINGBOX_MAX_CLASH_MODES_def
        SINGBOX_CLASH_MODE_SIZE_def c_str_def modes_zero_def)
  moreover have "frame_length (frame_header 9 @ ?msg) = 9" "frame_message (frame_header 9 @ ?msg) = ?msg"
    using frame_length_header [of 9 ?msg] frame_message_header [of 9 ?msg] by simp_all
  ultimately have "parse_clash_mode_status (frame_header 9 @ ?msg) = (0, \<lparr>cm_modes = [''A'', ''B''], cm_current_mode = [m]\<rparr>)"
    by (simp add: parse_clash_mode_status_def del: append.simps)
  then show ?thesis
    using assms by (simp add: api_get_clash_mode_status_sync_def api_native_lock_def singbox_api_get_clash_mode_status_def
        sample_call [OF _ _ modes_answer_read])
qed

lemma sample_switch:
  assumes "m \<noteq> []" "length m < 80" "ap_initialized c" "ap_native c = sample_ctx"
  shows "set_mode_then (sample_http [Inr empty_answer]) m c ok = Some (True, ok, Some m)"
  using assms by (simp add: set_mode_then_def api_set_mode_async_def api_native_lock_def sample_set_mode)

abbreviation to_A :: api_vpn_request_t where
  "to_A \<equiv> \<lparr>rq_state = VPN_STATE_READY, rq_target_mode = ''A'', rq_fallback_mode = ''A''\<rparr>"

theorem vpn_mode_restored_witness:
  "\<exists>c. mode_history [''A'', ''B''] sample_api ''B'' [to_A] c ''A'' \<and> ap_default_mode c = ''B''
     \<and> api_apply_vpn_mode (sample_http [Inr (modes_answer (CHR ''A''))]) (sample_http [Inr empty_answer])
         (to_A\<lparr>rq_state := VPN_STATE_IDLE\<rparr>) c = Some (True, c\<lparr>ap_default_mode := []\<rparr>, Some ''B'')"
proof -
  let ?c = "sample_api\<lparr>ap_default_mode := ''B''\<rparr>" and ?modes = "[''A'', ''B'']" and ?down = "to_A\<lparr>rq_state := VPN_STATE_IDLE\<rparr>"
  have i: "ap_initialized sample_api" "ap_native sample_api = sample_ctx" "ap_default_mode sample_api = []" by (simp_all add: sample_api_def api_zero_def)
  have "api_apply_vpn_mode (sample_http [Inr (modes_answer (CHR ''B''))]) (sample_http [Inr empty_answer]) to_A sample_api = Some (True, ?c, Some ''A'')"
    by (simp add: api_apply_vpn_mode_def sample_modes i is_clash_mode_supported_def sample_switch SINGBOX_CLASH_MODE_SIZE_def)
  from mode_history.one [OF mode_history.none _ _ this, of 0 "\<lparr>cm_modes = ?modes, cm_current_mode = ''B''\<rparr>" ?modes "''B''" "''A''"]
  have up: "mode_history ?modes sample_api ''B'' [to_A] ?c ''A''" by (simp add: sample_modes i)
  let ?get = "sample_http [Inr (modes_answer (CHR ''A''))]" and ?set = "sample_http [Inr empty_answer]"
  have st: "api_get_clash_mode_status_sync ?get ?c = Some (0, \<lparr>cm_modes = ?modes, cm_current_mode = ''A''\<rparr>)"
    by (rule sample_modes) (simp_all add: i)
  obtain c' where down: "api_apply_vpn_mode ?get ?set ?down ?c = Some (True, c', Some ''B'')"
    by (simp add: api_apply_vpn_mode_def st is_clash_mode_supported_def sample_switch i)
  from vpn_mode_restored [OF up _ i(3) _ _ _ _ st down] up down show ?thesis by auto
qed

end
