(* ===== verification/Uds.thy ===== *)
theory Uds
  imports Session C_Strings "HOL-Library.Monad_Syntax"
begin

text \<open>
  \<open>src/uds.c\<close>: the command socket.  Clients are kept in a list and each is owned by the handler
  of its descriptor: removing the handler frees the client (\<open>uds_client_free\<close>).  A client sends
  one line, gets one response, and is closed.

  Clients live in a store by address; reading a freed client is the result \<open>None\<close>.  Sockets are
  non-blocking: a list of answers that ends means that the next call would block.  What the
  status, version and error counters say is an argument of the commands that print it.
\<close>

unbundle bit_operations_syntax

definition UDS_BUFFER_SIZE :: nat where "UDS_BUFFER_SIZE = 4096"
definition UDS_RESPONSE_SIZE :: nat where "UDS_RESPONSE_SIZE = 8192"
definition UDS_MAX_RESPONSE_SIZE :: nat where "UDS_MAX_RESPONSE_SIZE = 64 * 1024"
definition UDS_PATH_MAX :: nat where "UDS_PATH_MAX = 108"
definition UDS_MAX_CLIENTS :: nat where "UDS_MAX_CLIENTS = 32"
definition UDS_IDLE_TIMEOUT_MS :: u64 where "UDS_IDLE_TIMEOUT_MS = 5000"
definition UDS_IDLE_SCAN_MS :: u64 where "UDS_IDLE_SCAN_MS = 1000"

datatype uds_client_state_t = UDS_CLIENT_READING | UDS_CLIENT_WRITING

record uds_client_t =
  cl_fd :: fd
  cl_state :: uds_client_state_t
  cl_input :: string
  cl_output :: string
  cl_output_len :: nat
  cl_output_off :: nat
  cl_last_activity_ms :: u64
  cl_stop_after_write :: bool

text \<open>What the command socket does to the outside.\<close>

datatype uds_event = U_send fd string | U_close fd | U_unlink string | U_drain

record uds_world =
  ud_fd :: fd
  ud_path :: string
  ud_has_reactor :: bool
  ud_stop_requested :: bool
  ud_shutdown_flag :: bool
  ud_store :: "data_ptr \<Rightarrow> uds_client_t option"
  ud_clients :: "data_ptr list"
  ud_active_clients :: nat
  ud_idle_timer :: "nat option"
  ud_next :: data_ptr
  ud_sessions :: session_world
  ud_runtime :: atpd_context
  ud_trace :: "uds_event list"

abbreviation ud_reactor :: "uds_world \<Rightarrow> reactor_t" where
  "ud_reactor w \<equiv> sw_reactor (ud_sessions w)"

definition set_reactor :: "reactor_t \<Rightarrow> uds_world \<Rightarrow> uds_world" where
  "set_reactor r w = w\<lparr>ud_sessions := (ud_sessions w)\<lparr>sw_reactor := r\<rparr>\<rparr>"

definition set_client :: "data_ptr \<Rightarrow> uds_client_t \<Rightarrow> uds_world \<Rightarrow> uds_world" where
  "set_client c x w = w\<lparr>ud_store := (ud_store w)(c \<mapsto> x)\<rparr>"

definition uds_emit :: "uds_event list \<Rightarrow> uds_world \<Rightarrow> uds_world" where
  "uds_emit es w = w\<lparr>ud_trace := ud_trace w @ es\<rparr>"

subsection \<open>Responses\<close>

text \<open>A response buffer: its text and the offset, which is the size of the buffer once the
  text did not fit.\<close>

definition append_response :: "nat \<Rightarrow> string \<Rightarrow> string \<times> nat \<Rightarrow> string \<times> nat" where
  "append_response sz s buf =
     (case buf of (t, off) \<Rightarrow>
        if sz \<le> off then (t, sz)
        else if sz - off \<le> length s then (t @ take (sz - off - 1) s, sz)
        else (t @ s, off + length s))"

definition client_queue_response :: "bool \<Rightarrow> string \<Rightarrow> uds_client_t \<Rightarrow> int \<times> uds_client_t" where
  "client_queue_response alloc data x =
     (if data = [] \<or> UDS_MAX_RESPONSE_SIZE < cl_output_len x \<or> UDS_MAX_RESPONSE_SIZE - cl_output_len x < length data
      then (-1, x)
      else if \<not> alloc then (-1, x\<lparr>cl_output := []\<rparr>)
      else (0, x\<lparr>cl_output := cl_output x @ data, cl_output_len := cl_output_len x + length data\<rparr>))"

definition client_queue_string :: "bool \<Rightarrow> string \<Rightarrow> uds_client_t \<Rightarrow> uds_client_t" where
  "client_queue_string alloc s x = snd (client_queue_response alloc s x)"

text \<open>\<open>cred\<close>: the peer's user id; \<open>None\<close>: \<open>getsockopt\<close> fails.\<close>

definition check_client_uid :: "nat \<Rightarrow> nat option \<Rightarrow> bool" where
  "check_client_uid own cred = (case cred of None \<Rightarrow> False | Some uid \<Rightarrow> uid = 0 \<or> uid = own)"

subsection \<open>Commands\<close>

text \<open>\<open>ce_alloc1\<close>, \<open>ce_alloc2\<close>: the answers of the allocator for the two responses a command may
  queue; \<open>ce_status\<close>, \<open>ce_summary\<close>: what the status functions print (\<open>None\<close>: no memory stream).\<close>

record cmd_env =
  ce_alloc1 :: bool
  ce_alloc2 :: bool
  ce_status :: "int \<Rightarrow> string option"
  ce_summary :: "string option"
  ce_full_version :: string
  ce_commit :: string
  ce_error_total :: u64
  ce_active_sessions :: int
  ce_stats :: "(u64 \<times> u64 \<times> u64) option"

definition NL :: string where "NL = [CHR 0x0A]"

definition too_large :: string where "too_large = ''ERROR: response too large'' @ NL"

definition handle_status :: "cmd_env \<Rightarrow> bool \<Rightarrow> int \<Rightarrow> uds_client_t \<Rightarrow> uds_client_t" where
  "handle_status env summary width x =
     (case (if summary then ce_summary env else ce_status env width) of
        None \<Rightarrow> client_queue_string (ce_alloc1 env) (''ERROR: failed to generate status'' @ NL) x
      | Some text \<Rightarrow>
          (if text = [] then x
           else case client_queue_response (ce_alloc1 env) text x of
             (rc, x1) \<Rightarrow> (if rc \<noteq> 0 then client_queue_string (ce_alloc2 env) too_large x1 else x1)))"

definition handle_stop :: "cmd_env \<Rightarrow> uds_client_t \<Rightarrow> uds_client_t" where
  "handle_stop env x = (client_queue_string (ce_alloc1 env) (''Stopping ATPd...'' @ NL) x)\<lparr>cl_stop_after_write := True\<rparr>"

definition handle_ping :: "cmd_env \<Rightarrow> uds_client_t \<Rightarrow> uds_client_t" where
  "handle_ping env x = client_queue_string (ce_alloc1 env) (''pong'' @ NL) x"

text \<open>Queueing a response buffer that was filled piece by piece.\<close>

definition queue_buffer :: "cmd_env \<Rightarrow> string \<times> nat \<Rightarrow> uds_client_t \<Rightarrow> uds_client_t" where
  "queue_buffer env buf x =
     (if UDS_RESPONSE_SIZE \<le> snd buf then client_queue_string (ce_alloc1 env) too_large x
      else snd (client_queue_response (ce_alloc1 env) (take (snd buf) (fst buf)) x))"

definition handle_sessions :: "cmd_env \<Rightarrow> uds_client_t \<Rightarrow> uds_client_t" where
  "handle_sessions env x =
     queue_buffer env (append_response UDS_RESPONSE_SIZE (''Active Sessions: '' @ show_int (ce_active_sessions env) @ NL) ([], 0)) x"

definition handle_version :: "cmd_env \<Rightarrow> uds_client_t \<Rightarrow> uds_client_t" where
  "handle_version env x =
     queue_buffer env (append_response UDS_RESPONSE_SIZE (''Git Commit: '' @ ce_commit env @ NL)
       (append_response UDS_RESPONSE_SIZE (''ATPd Version: '' @ ce_full_version env @ NL) ([], 0))) x"

definition show_u64 :: "u64 \<Rightarrow> string" where
  "show_u64 n = show_nat (unat n)"

definition handle_stats :: "cmd_env \<Rightarrow> uds_client_t \<Rightarrow> uds_client_t" where
  "handle_stats env x =
     (let (events, timers, signals) = (case ce_stats env of None \<Rightarrow> (0, 0, 0) | Some s \<Rightarrow> s) in
      queue_buffer env
        (fold (append_response UDS_RESPONSE_SIZE)
          [''=== Statistics ==='' @ NL, ''Events Processed: '' @ show_u64 events @ NL,
           ''Timers Fired: '' @ show_u64 timers @ NL, ''Signals Received: '' @ show_u64 signals @ NL,
           ''Errors: '' @ show_u64 (ce_error_total env) @ NL] ([], 0)) x)"

definition handle_help :: "cmd_env \<Rightarrow> uds_client_t \<Rightarrow> uds_client_t" where
  "handle_help env x = client_queue_string (ce_alloc1 env)
     (''Available commands:'' @ NL
      @ ''  status          - Show runtime status'' @ NL
      @ ''  status-summary  - Show concise runtime status'' @ NL
      @ ''  stop            - Shutdown ATPd'' @ NL
      @ ''  ping      - Check if ATPd is alive'' @ NL
      @ ''  sessions  - Show active sessions'' @ NL
      @ ''  version   - Show version information'' @ NL
      @ ''  stats     - Show statistics'' @ NL
      @ ''  help      - Show this help'' @ NL) x"

text \<open>The command in a line: up to the NUL, the newline or the carriage return, without blanks at
  its end.\<close>

definition command_text :: "string \<Rightarrow> string" where
  "command_text cmd =
     (let line = takeWhile (\<lambda>c. c \<notin> {CHR 0x00, CHR 0x0A, CHR 0x0D}) cmd in
      rev (dropWhile (\<lambda>c. c = CHR '' '' \<or> c = CHR 0x09) (rev line)))"

definition process_command :: "cmd_env \<Rightarrow> string \<Rightarrow> uds_client_t \<Rightarrow> uds_client_t" where
  "process_command env cmd x =
     (if cmd = [] then x
      else if UDS_BUFFER_SIZE - 1 \<le> length cmd then client_queue_string (ce_alloc1 env) (''ERROR: command too long'' @ NL) x
      else
        (let buf = command_text cmd in
         if buf = [] then x
         else if buf = ''status'' then handle_status env False 0 x
         else if prefix ''status '' buf then
           (case c_strtol (drop 7 buf) of (width, _, e) \<Rightarrow>
              if e \<noteq> [] \<or> width < 30 \<or> 200 < width
              then client_queue_string (ce_alloc1 env) (''ERROR: invalid status width'' @ NL) x
              else handle_status env False width x)
         else if buf = ''status-summary'' then handle_status env True 0 x
         else if buf = ''stop'' then handle_stop env x
         else if buf = ''ping'' then handle_ping env x
         else if buf = ''sessions'' then handle_sessions env x
         else if buf = ''version'' then handle_version env x
         else if buf = ''stats'' then handle_stats env x
         else if buf = ''help'' \<or> buf = ''?'' then handle_help env x
         else client_queue_string (ce_alloc1 env) (''Unknown command. Type '' @ [CHR 0x27] @ ''help'' @ [CHR 0x27]
                @ '' for available commands.'' @ NL) x))"

subsection \<open>Clients\<close>

definition uds_client_free :: "data_ptr option \<Rightarrow> uds_world \<Rightarrow> uds_world option" where
  "uds_client_free userdata w =
     (case userdata of
        None \<Rightarrow> Some w
      | Some c \<Rightarrow> do {
          x \<leftarrow> ud_store w c;
          let w1 = (if c \<in> set (ud_clients w)
            then w\<lparr>ud_clients := remove1 c (ud_clients w), ud_active_clients := ud_active_clients w - 1\<rparr> else w);
          Some (uds_emit [U_close (cl_fd x)] (w1\<lparr>ud_store := (ud_store w1)(c := None)\<rparr>))
        })"

text \<open>The owners that the reactor releases: clients here, sessions by their own callback.\<close>

fun uds_free_calls :: "free_call list \<Rightarrow> uds_world \<Rightarrow> uds_world option" where
  "uds_free_calls [] w = Some w"
| "uds_free_calls ((f, ud) # calls) w =
     (if f = Fn_uds_client_free then Option.bind (uds_client_free ud w) (uds_free_calls calls)
      else Option.bind (run_free_calls [(f, ud)] (ud_sessions w)) (\<lambda>s. uds_free_calls calls (w\<lparr>ud_sessions := s\<rparr>)))"

definition uds_client_close :: "data_ptr \<Rightarrow> uds_world \<Rightarrow> uds_world option" where
  "uds_client_close c w = do {
     x \<leftarrow> ud_store w c;
     (case reactor_remove_fd (cl_fd x) (ud_reactor w) of
        (_, r, calls) \<Rightarrow> uds_free_calls calls (set_reactor r w))
   }"

datatype flush_end = F_all | F_again | F_failed

text \<open>The send loop: the client afterwards, what was sent and how the loop ended.\<close>

fun flush_loop :: "(errno + nat) list \<Rightarrow> u64 \<Rightarrow> uds_client_t \<Rightarrow> uds_client_t \<times> string \<times> flush_end" where
  "flush_loop [] now x = (x, [], if cl_output_len x \<le> cl_output_off x then F_all else F_again)"
| "flush_loop (a # as) now x =
     (if cl_output_len x \<le> cl_output_off x then (x, [], F_all)
      else case a of
        Inr n \<Rightarrow>
          (if n = 0 then (x, [], F_failed)
           else
             (let k = min n (cl_output_len x - cl_output_off x);
                  x1 = x\<lparr>cl_output_off := cl_output_off x + k, cl_last_activity_ms := now\<rparr>
              in case flush_loop as now x1 of (x2, sent, e) \<Rightarrow> (x2, take k (drop (cl_output_off x) (cl_output x)) @ sent, e)))
      | Inl e \<Rightarrow>
          (if e = EINTR then flush_loop as now x
           else if e = EAGAIN then (x, [], F_again)
           else (x, [], F_failed)))"

text \<open>\<open>alloc\<close> is the answer of the allocator for the list of sessions to drain.\<close>

definition request_shutdown :: "bool \<Rightarrow> uds_world \<Rightarrow> uds_world option" where
  "request_shutdown alloc w = do {
     let rt = snd (atpd_runtime_state_transition 4 (ud_runtime w));
     s \<leftarrow> atpd_session_emergency_drain_all alloc (ud_sessions w);
     let w1 = uds_emit [U_drain] (w\<lparr>ud_runtime := rt, ud_sessions := s, ud_stop_requested := True, ud_shutdown_flag := True\<rparr>);
     Some (if ud_has_reactor w1 then set_reactor (reactor_stop (ud_reactor w1)) w1 else w1)
   }"

record io_env =
  io_sends :: "(errno + nat) list"
  io_reads :: "(errno + string) list"
  io_now :: u64
  io_ctl_ok :: bool
  io_drain_alloc :: bool
  io_cmd :: cmd_env

definition WRITE_EDGE :: u32 where "WRITE_EDGE = REACTOR_EVENT_WRITE OR REACTOR_EVENT_EDGE"

definition uds_client_flush :: "io_env \<Rightarrow> data_ptr \<Rightarrow> uds_world \<Rightarrow> (int \<times> uds_world) option" where
  "uds_client_flush env c w = do {
     x \<leftarrow> ud_store w c;
     (case flush_loop (io_sends env) (io_now env) x of
        (x1, sent, e) \<Rightarrow>
          (let w1 = uds_emit (if sent = [] then [] else [U_send (cl_fd x) sent]) (set_client c x1 w) in
           case e of
             F_again \<Rightarrow>
               (case reactor_modify_fd (io_ctl_ok env) (cl_fd x1) WRITE_EDGE (ud_reactor w1) of
                  (rc, r) \<Rightarrow>
                    (if rc \<noteq> 0 then map_option (\<lambda>w2. (-1, w2)) (uds_client_close c (set_reactor r w1))
                     else Some (0, set_reactor r w1)))
           | F_failed \<Rightarrow> map_option (\<lambda>w2. (-1, w2)) (uds_client_close c w1)
           | F_all \<Rightarrow> do {
               w2 \<leftarrow> (if cl_stop_after_write x1 then request_shutdown (io_drain_alloc env) w1 else Some w1);
               map_option (\<lambda>w3. (1, w3)) (uds_client_close c w2)
             }))
   }"

datatype read_end = R_break | R_too_long | R_eof | R_failed

fun read_loop :: "(errno + string) list \<Rightarrow> u64 \<Rightarrow> uds_client_t \<Rightarrow> uds_client_t \<times> read_end" where
  "read_loop [] now x = (x, R_break)"
| "read_loop (a # as) now x =
     (case a of
        Inr chunk \<Rightarrow>
          (let data = take (UDS_BUFFER_SIZE - length (cl_input x) - 1) chunk in
           if data = [] then (x, R_eof)
           else
             (let x1 = x\<lparr>cl_input := cl_input x @ data, cl_last_activity_ms := now\<rparr> in
              if CHR 0x0A \<in> set (cl_input x1) then (x1, R_break)
              else if length (cl_input x1) = UDS_BUFFER_SIZE - 1 then (x1, R_too_long)
              else read_loop as now x1))
      | Inl e \<Rightarrow>
          (if e = EINTR then read_loop as now x
           else if e = EAGAIN then (x, R_break)
           else (x, R_failed)))"

text \<open>Switching a client to writing; \<open>None\<close> of the inner result: the client was closed.\<close>

definition start_writing :: "io_env \<Rightarrow> data_ptr \<Rightarrow> uds_client_t \<Rightarrow> uds_world \<Rightarrow> (bool \<times> uds_world) option" where
  "start_writing env c x w =
     (let w1 = set_client c (x\<lparr>cl_state := UDS_CLIENT_WRITING\<rparr>) w in
      case reactor_modify_fd (io_ctl_ok env) (cl_fd x) WRITE_EDGE (ud_reactor w1) of
        (rc, r) \<Rightarrow>
          (if rc \<noteq> 0 then map_option (\<lambda>w2. (False, w2)) (uds_client_close c (set_reactor r w1))
           else Some (True, set_reactor r w1)))"

definition before_newline :: "string \<Rightarrow> string" where
  "before_newline s = takeWhile (\<lambda>c. c \<noteq> CHR 0x0A) s"

definition ERROR_OR_HANGUP :: u32 where "ERROR_OR_HANGUP = REACTOR_EVENT_ERROR OR REACTOR_EVENT_HANGUP"

definition client_read :: "io_env \<Rightarrow> data_ptr \<Rightarrow> uds_world \<Rightarrow> uds_world option" where
  "client_read env c w = do {
     x \<leftarrow> ud_store w c;
     (case read_loop (io_reads env) (io_now env) x of
        (x1, e) \<Rightarrow>
          (case e of
             R_too_long \<Rightarrow>
               map_option snd (start_writing env c (client_queue_string (ce_alloc1 (io_cmd env)) (''ERROR: command too long'' @ NL) x1)
                 (set_client c x1 w))
           | R_eof \<Rightarrow>
               (if CHR 0x0A \<notin> set (cl_input x1) then uds_client_close c (set_client c x1 w)
                else map_option snd (uds_client_flush env c
                  (set_client c ((process_command (io_cmd env) (cl_input x1) x1)\<lparr>cl_state := UDS_CLIENT_WRITING\<rparr>) w)))
           | R_failed \<Rightarrow> uds_client_close c (set_client c x1 w)
           | R_break \<Rightarrow>
               (if CHR 0x0A \<in> set (cl_input x1) then do {
                  (open_still, w2) \<leftarrow> start_writing env c (process_command (io_cmd env) (before_newline (cl_input x1)) x1)
                    (set_client c x1 w);
                  if open_still then map_option snd (uds_client_flush env c w2) else Some w2
                }
                else Some (set_client c x1 w))))
   }"

definition uds_client_cb :: "io_env \<Rightarrow> fd \<Rightarrow> u32 \<Rightarrow> data_ptr option \<Rightarrow> uds_world \<Rightarrow> uds_world option" where
  "uds_client_cb env fd events userdata w =
     (case userdata of
        None \<Rightarrow> Some w
      | Some c \<Rightarrow> do {
          x \<leftarrow> ud_store w c;
          if cl_fd x \<noteq> fd then Some w
          else if events AND ERROR_OR_HANGUP \<noteq> 0 \<and> events AND REACTOR_EVENT_READ = 0 then uds_client_close c w
          else if cl_state x = UDS_CLIENT_WRITING then
            (if events AND REACTOR_EVENT_WRITE \<noteq> 0 then map_option snd (uds_client_flush env c w)
             else if events AND ERROR_OR_HANGUP \<noteq> 0 then uds_client_close c w
             else Some w)
          else if events AND REACTOR_EVENT_READ = 0 then Some w
          else client_read env c w
        })"

subsection \<open>Accepting and expiring clients\<close>

record accept_answer =
  aa_fd :: fd
  aa_cred :: "nat option"
  aa_calloc :: bool
  aa_alloc :: bool
  aa_ctl_ok :: bool

text \<open>One accepted descriptor.\<close>

definition accept_one :: "nat \<Rightarrow> u64 \<Rightarrow> accept_answer \<Rightarrow> uds_world \<Rightarrow> uds_world option" where
  "accept_one own now a w =
     (if \<not> check_client_uid own (aa_cred a) \<or> UDS_MAX_CLIENTS \<le> ud_active_clients w then Some (uds_emit [U_close (aa_fd a)] w)
      else if \<not> aa_calloc a then Some (uds_emit [U_close (aa_fd a)] w)
      else
        (let c = ud_next w;
             x = \<lparr>cl_fd = aa_fd a, cl_state = UDS_CLIENT_READING, cl_input = [], cl_output = [], cl_output_len = 0,
                  cl_output_off = 0, cl_last_activity_ms = now, cl_stop_after_write = False\<rparr>;
             w1 = (set_client c x w)\<lparr>ud_next := c + 1, ud_clients := c # ud_clients w, ud_active_clients := ud_active_clients w + 1\<rparr>
         in case reactor_add_fd_ex (aa_alloc a) (aa_ctl_ok a) (aa_fd a) (REACTOR_EVENT_READ OR REACTOR_EVENT_EDGE)
                   (Some Fn_uds_client_cb) (Some Fn_uds_client_free) (Some c) (ud_reactor w1) of
              (rc, r, calls) \<Rightarrow> do {
                w2 \<leftarrow> uds_free_calls calls (set_reactor r w1);
                if rc \<noteq> 0 then uds_client_free (Some c) w2 else Some w2
              }))"

text \<open>The accept loop: it ends with the first error.\<close>

fun uds_accept_loop :: "nat \<Rightarrow> u64 \<Rightarrow> (errno + accept_answer) list \<Rightarrow> uds_world \<Rightarrow> uds_world option" where
  "uds_accept_loop own now [] w = Some w"
| "uds_accept_loop own now (Inl e # as) w = Some w"
| "uds_accept_loop own now (Inr a # as) w = Option.bind (accept_one own now a w) (uds_accept_loop own now as)"

definition uds_accept_cb :: "nat \<Rightarrow> u64 \<Rightarrow> (errno + accept_answer) list \<Rightarrow> u32 \<Rightarrow> uds_world \<Rightarrow> uds_world option" where
  "uds_accept_cb own now answers events w =
     (if events AND REACTOR_EVENT_READ = 0 then Some w else uds_accept_loop own now answers w)"

text \<open>The scan reads the successor of a client before it may close it.\<close>

fun idle_scan :: "u64 \<Rightarrow> data_ptr list \<Rightarrow> uds_world \<Rightarrow> uds_world option" where
  "idle_scan now [] w = Some w"
| "idle_scan now (c # cs) w = do {
     x \<leftarrow> ud_store w c;
     w1 \<leftarrow> (if UDS_IDLE_TIMEOUT_MS \<le> now - cl_last_activity_ms x then uds_client_close c w else Some w);
     idle_scan now cs w1
   }"

definition uds_idle_timer_cb :: "u64 \<Rightarrow> uds_world \<Rightarrow> uds_world option" where
  "uds_idle_timer_cb now w = idle_scan now (ud_clients w) w"

subsection \<open>Set up and shutdown\<close>

text \<open>What the file system and the socket calls answer.  \<open>pa_lstat\<close>: an error, or whether the path
  is a socket.\<close>

record path_env =
  pa_lstat :: "errno + bool"
  pa_probe :: fd
  pa_connect :: "errno option"
  pa_unlink :: "errno option"

definition uds_prepare_socket_path :: "path_env \<Rightarrow> string \<Rightarrow> uds_world \<Rightarrow> int \<times> uds_world" where
  "uds_prepare_socket_path env path w =
     (case pa_lstat env of
        Inl e \<Rightarrow> (if e = ENOENT then 0 else -1, w)
      | Inr is_sock \<Rightarrow>
          (if \<not> is_sock then (-1, w)
           else
             (let probed = 0 \<le> pa_probe env; w1 = (if probed then uds_emit [U_close (pa_probe env)] w else w) in
              if probed \<and> pa_connect env = None then (-1, w1)
              else if probed \<and> pa_connect env \<noteq> Some ECONNREFUSED \<and> pa_connect env \<noteq> Some ENOENT then (-1, w1)
              else (if pa_unlink env \<noteq> None \<and> pa_unlink env \<noteq> Some ENOENT then -1 else 0, uds_emit [U_unlink path] w1))))"

record uds_init_env =
  ui_path :: path_env
  ui_socket :: fd
  ui_bind_ok :: bool
  ui_chmod_ok :: bool
  ui_listen_ok :: bool
  ui_alloc :: bool
  ui_ctl_ok :: bool
  ui_timer_alloc :: "bool \<times> bool"
  ui_now :: u64

text \<open>Giving the new socket up again.\<close>

definition init_fail :: "uds_event list \<Rightarrow> uds_world \<Rightarrow> int \<times> uds_world" where
  "init_fail es w = (-1, (uds_emit es w)\<lparr>ud_fd := -1\<rparr>)"

definition uds_init :: "uds_init_env \<Rightarrow> string \<Rightarrow> uds_world \<Rightarrow> int \<times> uds_world" where
  "uds_init env path w0 =
     (if UDS_PATH_MAX \<le> length path then (-1, w0)
      else
        (let w1 = w0\<lparr>ud_has_reactor := True, ud_stop_requested := False, ud_path := c_trunc UDS_PATH_MAX path\<rparr> in
         case uds_prepare_socket_path (ui_path env) path w1 of
           (rc, w2) \<Rightarrow>
             (if rc \<noteq> 0 then (-1, w2)
              else
                (let s = ui_socket env; w3 = w2\<lparr>ud_fd := s\<rparr> in
                 if s < 0 then (-1, w3)
                 else if \<not> ui_bind_ok env then init_fail [U_close s] w3
                 else if \<not> ui_chmod_ok env then init_fail [U_close s, U_unlink path] w3
                 else if \<not> ui_listen_ok env then init_fail [U_close s, U_unlink path] w3
                 else case reactor_add_fd (ui_alloc env) (ui_ctl_ok env) s (REACTOR_EVENT_READ OR REACTOR_EVENT_EDGE)
                             (Some Fn_uds_accept_cb) None (ud_reactor w3) of
                   (rc2, r, _) \<Rightarrow>
                     (if rc2 \<noteq> 0 then init_fail [U_close s, U_unlink path] (set_reactor r w3)
                      else case reactor_add_timer (ui_timer_alloc env) (ui_now env) UDS_IDLE_SCAN_MS UDS_IDLE_SCAN_MS
                                  (Some Fn_uds_idle_timer_cb) None r of
                        (None, r1) \<Rightarrow>
                          init_fail [U_close s, U_unlink path]
                            (set_reactor (fst (snd (reactor_remove_fd s r1))) (w3\<lparr>ud_idle_timer := None\<rparr>))
                      | (Some t, r1) \<Rightarrow> (0, set_reactor r1 (w3\<lparr>ud_idle_timer := Some t\<rparr>)))))))"

text \<open>The loop that closes the clients; \<open>None\<close>: it does not end, or it uses a freed client.\<close>

partial_function (option) close_clients :: "uds_world \<Rightarrow> uds_world option" where
  "close_clients w =
     (case ud_clients w of
        [] \<Rightarrow> Some w
      | c # cs \<Rightarrow> Option.bind (uds_client_close c w) close_clients)"

definition uds_cleanup :: "uds_world \<Rightarrow> uds_world option" where
  "uds_cleanup w = do {
     w1 \<leftarrow> (if ud_idle_timer w \<noteq> None \<and> ud_has_reactor w then do {
              (rc, r) \<leftarrow> reactor_cancel_timer (ud_idle_timer w) (ud_reactor w);
              Some (set_reactor r (w\<lparr>ud_idle_timer := None\<rparr>))
            } else Some w);
     w2 \<leftarrow> close_clients w1;
     let w3 = (if 0 \<le> ud_fd w2 then
                 (let a = (if ud_has_reactor w2 then set_reactor (fst (snd (reactor_remove_fd (ud_fd w2) (ud_reactor w2)))) w2 else w2)
                  in (uds_emit [U_close (ud_fd w2)] a)\<lparr>ud_fd := -1\<rparr>)
               else w2);
     let w4 = (if ud_path w3 \<noteq> [] then (uds_emit [U_unlink (ud_path w3)] w3)\<lparr>ud_path := []\<rparr> else w3);
     Some (w4\<lparr>ud_has_reactor := False, ud_stop_requested := False\<rparr>)
   }"

definition uds_get_fd :: "uds_world \<Rightarrow> fd" where
  "uds_get_fd w = ud_fd w"

definition uds_stop_requested :: "uds_world \<Rightarrow> bool" where
  "uds_stop_requested w = ud_stop_requested w"

end
