(* ===== verification/Uds_Props.thy ===== *)
theory Uds_Props
  imports Uds
begin

text \<open>
  The clients of the command socket: every client in the list is owned by exactly the handler of
  its descriptor, their number is bounded, and no callback touches a freed client; shutting the
  socket down ends and releases every client once.
\<close>

unbundle bit_operations_syntax

named_theorems uds_frame \<open>what the updates of the world leave alone\<close>

lemma set_reactor_fields [uds_frame, simp]:
  "ud_store (set_reactor r w) = ud_store w" "ud_clients (set_reactor r w) = ud_clients w"
  "ud_active_clients (set_reactor r w) = ud_active_clients w" "ud_next (set_reactor r w) = ud_next w"
  "ud_reactor (set_reactor r w) = r" "sw_count (ud_sessions (set_reactor r w)) = sw_count (ud_sessions w)"
  "ud_trace (set_reactor r w) = ud_trace w" "ud_fd (set_reactor r w) = ud_fd w" "ud_path (set_reactor r w) = ud_path w"
  "ud_has_reactor (set_reactor r w) = ud_has_reactor w" "ud_idle_timer (set_reactor r w) = ud_idle_timer w"
  by (simp_all add: set_reactor_def)

lemma set_client_fields [uds_frame, simp]:
  "ud_store (set_client c x w) = (ud_store w)(c \<mapsto> x)" "ud_clients (set_client c x w) = ud_clients w"
  "ud_active_clients (set_client c x w) = ud_active_clients w" "ud_next (set_client c x w) = ud_next w"
  "ud_sessions (set_client c x w) = ud_sessions w" "ud_trace (set_client c x w) = ud_trace w"
  by (simp_all add: set_client_def)

lemma uds_emit_fields [uds_frame, simp]:
  "ud_store (uds_emit es w) = ud_store w" "ud_clients (uds_emit es w) = ud_clients w"
  "ud_active_clients (uds_emit es w) = ud_active_clients w" "ud_next (uds_emit es w) = ud_next w"
  "ud_sessions (uds_emit es w) = ud_sessions w" "ud_trace (uds_emit es w) = ud_trace w @ es" "ud_fd (uds_emit es w) = ud_fd w"
  "ud_path (uds_emit es w) = ud_path w" "ud_has_reactor (uds_emit es w) = ud_has_reactor w" "ud_idle_timer (uds_emit es w) = ud_idle_timer w"
  by (simp_all add: uds_emit_def)

subsection \<open>The invariant\<close>

definition client_ok :: "uds_client_t \<Rightarrow> bool" where
  "client_ok x \<longleftrightarrow> length (cl_input x) < UDS_BUFFER_SIZE \<and> cl_output_off x \<le> cl_output_len x
     \<and> cl_output_len x \<le> UDS_MAX_RESPONSE_SIZE \<and> length (cl_output x) \<le> cl_output_len x"

definition client_handler :: "reactor_handler_t \<Rightarrow> bool" where
  "client_handler h \<longleftrightarrow> h_callback h = Some Fn_uds_client_cb \<or> h_free_cb h = Some Fn_uds_client_free"

text \<open>Handler table and store agree: a client is owned by the handler of its descriptor, and such
  a handler owns a client.\<close>

definition owners_ok :: "(fd \<Rightarrow> reactor_handler_t option) \<Rightarrow> (data_ptr \<Rightarrow> uds_client_t option) \<Rightarrow> bool" where
  "owners_ok H S \<longleftrightarrow>
     (\<forall>c x. S c = Some x \<longrightarrow> (\<exists>h. H (cl_fd x) = Some h \<and> h_free_cb h = Some Fn_uds_client_free \<and> h_userdata h = Some c))
     \<and> (\<forall>fd h. H fd = Some h \<and> client_handler h \<longrightarrow>
          h_free_cb h = Some Fn_uds_client_free \<and> (\<exists>c x. h_userdata h = Some c \<and> S c = Some x \<and> cl_fd x = fd))
     \<and> (\<forall>fd h. H fd = Some h \<longrightarrow> fd_in_range fd)"

definition uds_inv :: "uds_world \<Rightarrow> bool" where
  "uds_inv w \<longleftrightarrow> distinct (ud_clients w) \<and> dom (ud_store w) = set (ud_clients w)
     \<and> ud_active_clients w = length (ud_clients w) \<and> length (ud_clients w) \<le> UDS_MAX_CLIENTS
     \<and> (\<forall>c\<in>set (ud_clients w). c < ud_next w) \<and> (\<forall>c x. ud_store w c = Some x \<longrightarrow> client_ok x)
     \<and> owners_ok (rx_handlers (ud_reactor w)) (ud_store w) \<and> sw_count (ud_sessions w) = 0"

lemma owners_ok_remove:
  assumes "owners_ok H S" "S c = Some x"
  shows "owners_ok (H(cl_fd x := None)) (S(c := None))"
proof -
  have one: "H (cl_fd x) = Some h \<Longrightarrow> h_userdata h = Some c" for h
    using assms unfolding owners_ok_def by (metis option.inject)
  have "cl_fd y \<noteq> cl_fd x" if "S d = Some y" "d \<noteq> c" for d y
    using assms that one unfolding owners_ok_def by (metis option.inject)
  with assms one show ?thesis unfolding owners_ok_def by (auto split: if_splits) (metis option.inject)+
qed

lemma owners_ok_modify:
  assumes "owners_ok H S" "H fd = Some h"
  shows "owners_ok (H(fd \<mapsto> h\<lparr>h_events := ev\<rparr>)) S"
  using assms unfolding owners_ok_def client_handler_def by (auto split: if_splits) (metis option.inject)+

lemma owners_ok_client: "owners_ok H S \<Longrightarrow> S c = Some x \<Longrightarrow> cl_fd y = cl_fd x \<Longrightarrow> owners_ok H (S(c \<mapsto> y))"
  unfolding owners_ok_def by (auto split: if_splits) (metis option.inject)+

lemma inv_set_client:
  "uds_inv w \<Longrightarrow> ud_store w c = Some x \<Longrightarrow> cl_fd y = cl_fd x \<Longrightarrow> client_ok y \<Longrightarrow> uds_inv (set_client c y w)"
  by (auto simp: uds_inv_def owners_ok_client insert_absorb)

lemma inv_emit [simp]: "uds_inv (uds_emit es w) = uds_inv w"
  by (simp add: uds_inv_def)

lemma inv_modify:
  assumes "uds_inv w" "reactor_modify_fd ok fd ev (ud_reactor w) = (rc, r)"
  shows "uds_inv (set_reactor r w)"
  using assms by (auto simp: uds_inv_def reactor_modify_fd_def owners_ok_modify split: if_splits option.splits)

lemma inv_handlers: "uds_inv w \<Longrightarrow> rx_handlers r = rx_handlers (ud_reactor w) \<Longrightarrow> uds_inv (set_reactor r w)"
  by (simp add: uds_inv_def)

text \<open>Closing a client releases exactly this client.\<close>

lemma close_client:
  assumes "uds_inv w" "ud_store w c = Some x"
  shows "\<exists>w'. uds_client_close c w = Some w' \<and> uds_inv w' \<and> ud_store w' = (ud_store w)(c := None)
    \<and> ud_clients w' = remove1 c (ud_clients w) \<and> ud_trace w' = ud_trace w @ [U_close (cl_fd x)]
    \<and> ud_fd w' = ud_fd w \<and> ud_path w' = ud_path w \<and> ud_has_reactor w' = ud_has_reactor w \<and> ud_idle_timer w' = ud_idle_timer w"
proof -
  obtain h where h: "rx_handlers (ud_reactor w) (cl_fd x) = Some h" "h_free_cb h = Some Fn_uds_client_free" "h_userdata h = Some c"
    using assms unfolding uds_inv_def owners_ok_def by blast
  then have fd: "fd_in_range (cl_fd x)" using assms unfolding uds_inv_def owners_ok_def by blast
  then obtain r where r: "reactor_remove_fd (cl_fd x) (ud_reactor w) = (0, r, [(Fn_uds_client_free, Some c)])"
      "rx_handlers r = (rx_handlers (ud_reactor w))(cl_fd x := None)"
    using h by (auto simp: reactor_remove_fd_def)
  have c: "c \<in> set (ud_clients w)" using assms unfolding uds_inv_def by auto
  let ?w1 = "(set_reactor r w)\<lparr>ud_clients := remove1 c (ud_clients w), ud_active_clients := ud_active_clients w - 1\<rparr>"
  let ?w' = "uds_emit [U_close (cl_fd x)] (?w1\<lparr>ud_store := (ud_store w)(c := None)\<rparr>)"
  have "uds_client_close c w = Some ?w'"
    using r(1) assms(2) c by (simp add: uds_client_close_def uds_client_free_def)
  moreover have "uds_inv ?w'"
    using assms c owners_ok_remove [of "rx_handlers (ud_reactor w)" "ud_store w" c x]
    by (auto simp: uds_inv_def r(2) length_remove1 set_reactor_def dest: in_set_remove1 split: if_splits)
  ultimately show ?thesis by (auto simp: set_reactor_def)
qed

subsection \<open>Responses and loops\<close>

lemma queue_response_ok:
  assumes "client_ok x" "client_queue_response alloc data x = (rc, x')"
  shows "client_ok x' \<and> cl_fd x' = cl_fd x"
  using assms by (auto simp: client_queue_response_def client_ok_def UDS_MAX_RESPONSE_SIZE_def split: if_splits)

lemma queue_response_snd:
  "client_ok x \<Longrightarrow> client_ok (snd (client_queue_response alloc s x)) \<and> cl_fd (snd (client_queue_response alloc s x)) = cl_fd x"
  by (metis queue_response_ok prod.collapse)

lemma queue_string_ok: "client_ok x \<Longrightarrow> client_ok (client_queue_string alloc s x) \<and> cl_fd (client_queue_string alloc s x) = cl_fd x"
  unfolding client_queue_string_def by (rule queue_response_snd)

lemma queue_buffer_ok: "client_ok x \<Longrightarrow> client_ok (queue_buffer env buf x) \<and> cl_fd (queue_buffer env buf x) = cl_fd x"
  unfolding queue_buffer_def by (simp add: queue_string_ok queue_response_snd)

lemma handle_status_ok: "client_ok x \<Longrightarrow> client_ok (handle_status env summary width x) \<and> cl_fd (handle_status env summary width x) = cl_fd x"
proof -
  assume ok: "client_ok x"
  let ?text = "if summary then ce_summary env else ce_status env width"
  show ?thesis
  proof (cases ?text)
    case None
    with queue_string_ok [OF ok] show ?thesis by (simp add: handle_status_def)
  next
    case (Some t)
    obtain rc x1 where q: "client_queue_response (ce_alloc1 env) t x = (rc, x1)" by fastforce
    from queue_response_ok [OF ok q] queue_string_ok [of x1 "ce_alloc2 env" too_large] Some ok q
    show ?thesis by (simp add: handle_status_def)
  qed
qed

lemma stop_flag_ok: "client_ok (x\<lparr>cl_stop_after_write := b\<rparr>) = client_ok x" "client_ok (x\<lparr>cl_state := s\<rparr>) = client_ok x"
  by (simp_all add: client_ok_def)

text \<open>A client that is still well-formed and has the same descriptor.\<close>

definition same_client :: "uds_client_t \<Rightarrow> uds_client_t \<Rightarrow> bool" where
  "same_client x y \<longleftrightarrow> client_ok y \<and> cl_fd y = cl_fd x"

lemma same_if: "same_client x a \<Longrightarrow> same_client x b \<Longrightarrow> same_client x (if c then a else b)"
  by simp

lemma same_handlers:
  assumes "client_ok x"
  shows "same_client x x" "same_client x (client_queue_string alloc s x)" "same_client x (handle_status env summary width x)"
    "same_client x (handle_stop env x)" "same_client x (handle_ping env x)" "same_client x (handle_sessions env x)"
    "same_client x (handle_version env x)" "same_client x (handle_stats env x)" "same_client x (handle_help env x)"
  using assms queue_string_ok [OF assms] queue_buffer_ok [OF assms] handle_status_ok [OF assms]
  by (simp_all add: same_client_def handle_stop_def handle_ping_def handle_sessions_def handle_version_def handle_stats_def
      handle_help_def stop_flag_ok split: prod.split)

lemma process_command_ok: "client_ok x \<Longrightarrow> client_ok (process_command env cmd x) \<and> cl_fd (process_command env cmd x) = cl_fd x"
proof -
  assume ok: "client_ok x"
  have "same_client x (process_command env cmd x)"
    unfolding process_command_def Let_def case_prod_unfold by (intro same_if same_handlers [OF ok])
  then show ?thesis by (simp add: same_client_def)
qed

lemma flush_loop_ok:
  "client_ok x \<Longrightarrow> flush_loop as now x = (x', sent, e) \<Longrightarrow> client_ok x' \<and> cl_fd x' = cl_fd x"
proof (induction as arbitrary: x x' sent e)
  case (Cons a as)
  show ?case
  proof (cases a)
    case (Inl err)
    then have "x' = x \<or> flush_loop as now x = (x', sent, e)" using Cons.prems(2) by (auto split: if_splits)
    then show ?thesis using Cons.IH [OF Cons.prems(1)] Cons.prems(1) by blast
  next
    case (Inr n)
    define y where "y = x\<lparr>cl_output_off := cl_output_off x + min n (cl_output_len x - cl_output_off x), cl_last_activity_ms := now\<rparr>"
    obtain z s f where f: "flush_loop as now y = (z, s, f)" by (metis prod_cases3)
    have "client_ok y" "cl_fd y = cl_fd x" using Cons.prems(1) by (auto simp: y_def client_ok_def)
    moreover have "x' = x \<or> x' = z"
      using Cons.prems(2) f by (simp add: Inr y_def Let_def split: if_splits)
    ultimately show ?thesis using Cons.IH [OF _ f] Cons.prems(1) by auto
  qed
qed (auto simp: client_ok_def)

lemma read_loop_ok: "client_ok x \<Longrightarrow> read_loop as now x = (x', e) \<Longrightarrow> client_ok x' \<and> cl_fd x' = cl_fd x"
proof (induction as arbitrary: x)
  case (Cons a as)
  show ?case
  proof (cases a)
    case (Inl err)
    then have "x' = x \<or> read_loop as now x = (x', e)" using Cons.prems(2) by (auto split: if_splits)
    then show ?thesis using Cons.IH [OF Cons.prems(1)] Cons.prems(1) by blast
  next
    case (Inr chunk)
    define y where "y = x\<lparr>cl_input := cl_input x @ take (UDS_BUFFER_SIZE - length (cl_input x) - 1) chunk, cl_last_activity_ms := now\<rparr>"
    have y: "client_ok y" "cl_fd y = cl_fd x" using Cons.prems(1) by (auto simp: y_def client_ok_def UDS_BUFFER_SIZE_def min_def)
    have "read_loop (a # as) now x = (if take (UDS_BUFFER_SIZE - length (cl_input x) - 1) chunk = [] then (x, R_eof)
        else if CHR 0x0A \<in> set (cl_input y) then (y, R_break)
        else if length (cl_input y) = UDS_BUFFER_SIZE - 1 then (y, R_too_long) else read_loop as now y)"
      unfolding Inr y_def by (simp only: read_loop.simps sum.case Let_def)
    then have "(x' = x \<or> x' = y) \<or> read_loop as now y = (x', e)"
      using Cons.prems(2) by (simp only: split: if_splits) auto
    with Cons.IH [OF y(1)] Cons.prems(1) y show ?thesis by auto
  qed
qed simp

subsection \<open>Callbacks\<close>

text \<open>A callback is safe: it returns, and the invariant holds afterwards.\<close>

definition safe :: "uds_world option \<Rightarrow> bool" where
  "safe r \<longleftrightarrow> (\<exists>w. r = Some w \<and> uds_inv w)"

lemma safe_Some [simp]: "safe (Some w) = uds_inv w"
  by (simp add: safe_def)

lemma safe_close: "uds_inv w \<Longrightarrow> ud_store w c = Some x \<Longrightarrow> safe (uds_client_close c w)"
  using close_client [of w c x] by (auto simp: safe_def)

lemma modify_keeps: "reactor_modify_fd ok fd ev r = (rc, r') \<Longrightarrow> rc \<noteq> 0 \<Longrightarrow> r' = r"
  by (auto simp: reactor_modify_fd_def split: if_splits option.splits)

lemma shutdown_safe:
  assumes "uds_inv w"
  shows "\<exists>w'. request_shutdown alloc w = Some w' \<and> uds_inv w' \<and> ud_store w' = ud_store w"
proof -
  let ?w1 = "uds_emit [U_drain] (w\<lparr>ud_runtime := snd (atpd_runtime_state_transition 4 (ud_runtime w)), ud_sessions := ud_sessions w,
    ud_stop_requested := True, ud_shutdown_flag := True\<rparr>)"
  have "sw_count (ud_sessions w) = 0" using assms by (simp add: uds_inv_def)
  then have s: "request_shutdown alloc w = Some (if ud_has_reactor ?w1 then set_reactor (reactor_stop (ud_reactor ?w1)) ?w1 else ?w1)"
    by (simp add: request_shutdown_def atpd_session_emergency_drain_all_def)
  have "uds_inv ?w1" using assms by (simp add: uds_inv_def)
  moreover have "rx_handlers (reactor_stop r) = rx_handlers r" for r by (simp add: reactor_stop_def reactor_wakeup_def)
  ultimately have "uds_inv (set_reactor (reactor_stop (ud_reactor ?w1)) ?w1)" by (rule inv_handlers)
  with s \<open>uds_inv ?w1\<close> show ?thesis by simp
qed

lemma flush_safe:
  assumes "uds_inv w" "ud_store w c = Some x"
  shows "safe (map_option snd (uds_client_flush env c w))"
proof -
  obtain x1 sent e where f: "flush_loop (io_sends env) (io_now env) x = (x1, sent, e)" by (metis prod_cases3)
  have x1: "client_ok x1" "cl_fd x1 = cl_fd x" using flush_loop_ok [OF _ f] assms unfolding uds_inv_def by blast+
  define w1 where "w1 = uds_emit (if sent = [] then [] else [U_send (cl_fd x) sent]) (set_client c x1 w)"
  have w1: "uds_inv w1" "ud_store w1 c = Some x1" using inv_set_client [OF assms x1(2,1)] by (simp_all add: w1_def)
  show ?thesis
  proof (cases e)
    case F_all
    obtain w2 where w2: "(if cl_stop_after_write x1 then request_shutdown (io_drain_alloc env) w1 else Some w1) = Some w2"
        "uds_inv w2" "ud_store w2 c = Some x1"
      using w1 shutdown_safe [OF w1(1), of "io_drain_alloc env"] by (cases "cl_stop_after_write x1") auto
    have "map_option snd (uds_client_flush env c w) = uds_client_close c w2"
      using assms(2) f F_all w2(1) by (simp add: uds_client_flush_def w1_def [symmetric] option.map_comp comp_def option.map_ident)
    with safe_close [OF w2(2,3)] show ?thesis by simp
  next
    case F_failed
    have "map_option snd (uds_client_flush env c w) = uds_client_close c w1"
      using assms(2) f F_failed by (simp add: uds_client_flush_def w1_def [symmetric] option.map_comp comp_def option.map_ident)
    with safe_close [OF w1] show ?thesis by simp
  next
    case F_again
    obtain rc r where m: "reactor_modify_fd (io_ctl_ok env) (cl_fd x1) WRITE_EDGE (ud_reactor w1) = (rc, r)" by fastforce
    have "map_option snd (uds_client_flush env c w) =
        (if rc \<noteq> 0 then uds_client_close c (set_reactor r w1) else Some (set_reactor r w1))"
      using assms(2) f F_again m by (simp add: uds_client_flush_def w1_def [symmetric] option.map_comp comp_def option.map_ident)
    with inv_modify [OF w1(1) m] safe_close [of "set_reactor r w1" c x1] w1(2) show ?thesis by simp
  qed
qed

lemma start_writing_safe:
  assumes "uds_inv w" "ud_store w c = Some x" "client_ok y" "cl_fd y = cl_fd x"
  shows "\<exists>b w'. start_writing env c y w = Some (b, w') \<and> uds_inv w' \<and> (b \<longrightarrow> (\<exists>z. ud_store w' c = Some z))"
proof -
  let ?w1 = "set_client c (y\<lparr>cl_state := UDS_CLIENT_WRITING\<rparr>) w"
  have w1: "uds_inv ?w1" using inv_set_client [OF assms(1,2)] assms(3,4) by (simp add: stop_flag_ok)
  obtain rc r where m: "reactor_modify_fd (io_ctl_ok env) (cl_fd y) WRITE_EDGE (ud_reactor ?w1) = (rc, r)" by fastforce
  note inv = inv_modify [OF w1 m]
  show ?thesis
  proof (cases "rc = 0")
    case True
    then have "start_writing env c y w = Some (True, set_reactor r ?w1)" using m by (simp add: start_writing_def)
    with inv show ?thesis by (intro exI [of _ True] exI) auto
  next
    case False
    obtain w2 where "uds_client_close c (set_reactor r ?w1) = Some w2" "uds_inv w2"
      using close_client [OF inv, of c] by auto
    moreover from this have "start_writing env c y w = Some (False, w2)" using m False by (simp add: start_writing_def)
    ultimately show ?thesis by (intro exI [of _ False] exI) auto
  qed
qed

lemma client_read_safe:
  assumes "uds_inv w" "ud_store w c = Some x"
  shows "safe (client_read env c w)"
proof -
  obtain x1 e where l: "read_loop (io_reads env) (io_now env) x = (x1, e)" by fastforce
  have x1: "client_ok x1" "cl_fd x1 = cl_fd x" using read_loop_ok [OF _ l] assms unfolding uds_inv_def by blast+
  have w1: "uds_inv (set_client c x1 w)" "ud_store (set_client c x1 w) c = Some x1"
    using inv_set_client [OF assms x1(2,1)] by simp_all
  note read = client_read_def [of env c w, unfolded assms(2), simplified, unfolded l prod.case]
  show ?thesis
  proof (cases e)
    case R_break
    show ?thesis
    proof (cases "CHR 0x0A \<in> set (cl_input x1)")
      case True
      let ?y = "process_command (io_cmd env) (before_newline (cl_input x1)) x1"
      obtain b w2 where b: "start_writing env c ?y (set_client c x1 w) = Some (b, w2)" "uds_inv w2" "b \<longrightarrow> (\<exists>z. ud_store w2 c = Some z)"
        using start_writing_safe [OF w1] process_command_ok [OF x1(1)] by blast
      then have "client_read env c w = (if b then map_option snd (uds_client_flush env c w2) else Some w2)"
        unfolding read using R_break True by simp
      with b flush_safe show ?thesis by (cases b) auto
    next
      case False
      then show ?thesis unfolding read using R_break w1 by simp
    qed
  next
    case R_too_long
    let ?y = "client_queue_string (ce_alloc1 (io_cmd env)) (''ERROR: command too long'' @ NL) x1"
    obtain b w2 where "start_writing env c ?y (set_client c x1 w) = Some (b, w2)" "uds_inv w2"
      using start_writing_safe [OF w1, of ?y] queue_string_ok [OF x1(1)] by blast
    then show ?thesis unfolding read using R_too_long by simp
  next
    case R_eof
    let ?y = "(process_command (io_cmd env) (cl_input x1) x1)\<lparr>cl_state := UDS_CLIENT_WRITING\<rparr>"
    have "uds_inv (set_client c ?y w)"
      using inv_set_client [OF assms, of ?y] process_command_ok [OF x1(1)] x1(2) by (simp add: stop_flag_ok)
    then show ?thesis
      unfolding read using R_eof safe_close [OF w1] flush_safe [of "set_client c ?y w" c ?y] by simp
  next
    case R_failed
    then show ?thesis unfolding read using safe_close [OF w1] by simp
  qed
qed

lemma client_cb_safe:
  assumes "uds_inv w" "rx_handlers (ud_reactor w) fd = Some h" "h_callback h = Some Fn_uds_client_cb"
  shows "safe (uds_client_cb env fd events (h_userdata h) w)"
proof -
  obtain c x where c: "h_userdata h = Some c" "ud_store w c = Some x" "cl_fd x = fd"
    using assms unfolding uds_inv_def owners_ok_def client_handler_def by blast
  with flush_safe [OF assms(1) c(2)] safe_close [OF assms(1) c(2)] client_read_safe [OF assms(1) c(2)] assms(1)
  show ?thesis by (simp add: uds_client_cb_def)
qed

lemma free_client:
  assumes "distinct (ud_clients w)" "ud_store w c = Some x" "c \<in> set (ud_clients w)"
  shows "\<exists>w'. uds_client_free (Some c) w = Some w' \<and> ud_store w' = (ud_store w)(c := None) \<and> ud_clients w' = remove1 c (ud_clients w)
    \<and> ud_active_clients w' = ud_active_clients w - 1 \<and> ud_next w' = ud_next w \<and> ud_sessions w' = ud_sessions w"
  using assms by (simp add: uds_client_free_def)

lemma owners_ok_add:
  assumes "owners_ok H S" "H fd = None" "S c = None" "cl_fd x = fd" "fd_in_range fd" "h_free_cb h = Some Fn_uds_client_free" "h_userdata h = Some c"
  shows "owners_ok (H(fd \<mapsto> h)) (S(c \<mapsto> x))"
  using assms unfolding owners_ok_def by (auto split: if_splits) (metis option.distinct(1) option.inject)+

lemma add_fd_ex_fresh:
  assumes "rx_handlers r fd = None" "reactor_add_fd_ex alloc ctl fd ev (Some cb) (Some fcb) ud r = (rc, r', calls)"
  shows "calls = [] \<and> (if rc = 0 then fd_in_range fd \<and> (\<exists>h. h_free_cb h = Some fcb \<and> h_userdata h = ud \<and> h_callback h = Some cb
      \<and> rx_handlers r' = (rx_handlers r)(fd \<mapsto> h)) else rx_handlers r' = rx_handlers r)"
  using assms
  by (auto simp: reactor_add_fd_ex_def reactor_add_fd_def Let_def split: if_splits
      intro!: exI [of _ "\<lparr>h_events = ev, h_callback = Some cb, h_userdata = ud, h_free_cb = Some fcb, h_active = True\<rparr>"])

text \<open>The kernel hands out descriptors that are not in use.\<close>

lemma accept_one_safe:
  assumes "uds_inv w" "rx_handlers (ud_reactor w) (aa_fd a) = None"
  shows "\<exists>w'. accept_one own now a w = Some w' \<and> uds_inv w'
    \<and> (\<forall>fd. fd \<noteq> aa_fd a \<longrightarrow> rx_handlers (ud_reactor w') fd = rx_handlers (ud_reactor w) fd)"
proof (cases "check_client_uid own (aa_cred a) \<and> ud_active_clients w < UDS_MAX_CLIENTS \<and> aa_calloc a")
  case False
  then show ?thesis using assms by (auto simp: accept_one_def)
next
  case True
  define c where "c = ud_next w"
  define x where "x = \<lparr>cl_fd = aa_fd a, cl_state = UDS_CLIENT_READING, cl_input = [], cl_output = [], cl_output_len = 0,
    cl_output_off = 0, cl_last_activity_ms = now, cl_stop_after_write = False\<rparr>"
  define w1 where "w1 = (set_client c x w)\<lparr>ud_next := c + 1, ud_clients := c # ud_clients w, ud_active_clients := ud_active_clients w + 1\<rparr>"
  have new: "c \<notin> set (ud_clients w)" "ud_store w c = None" using assms(1) by (auto simp: uds_inv_def c_def)
  have r1: "ud_reactor w1 = ud_reactor w" by (simp add: w1_def)
  obtain rc r calls where add: "reactor_add_fd_ex (aa_alloc a) (aa_ctl_ok a) (aa_fd a) (REACTOR_EVENT_READ OR REACTOR_EVENT_EDGE)
      (Some Fn_uds_client_cb) (Some Fn_uds_client_free) (Some c) (ud_reactor w) = (rc, r, calls)"
    by (metis prod_cases3)
  note fresh = add_fd_ex_fresh [OF assms(2) add]
  have "accept_one own now a w = (if rc \<noteq> 0 then uds_client_free (Some c) (set_reactor r w1) else Some (set_reactor r w1))"
    unfolding accept_one_def Let_def c_def [symmetric] x_def [symmetric] w1_def [symmetric] r1 add
    using True fresh by simp
  moreover have "uds_inv (set_reactor r w1) \<and> (\<forall>fd. fd \<noteq> aa_fd a \<longrightarrow> rx_handlers r fd = rx_handlers (ud_reactor w) fd)" if "rc = 0"
    using assms new True that fresh owners_ok_add [of "rx_handlers (ud_reactor w)" "ud_store w" "aa_fd a" c x]
    by (auto simp: uds_inv_def w1_def client_ok_def x_def c_def UDS_BUFFER_SIZE_def less_Suc_eq split: if_splits)
  moreover have "\<exists>w'. uds_client_free (Some c) (set_reactor r w1) = Some w' \<and> uds_inv w' \<and> ud_reactor w' = r \<and> rx_handlers r = rx_handlers (ud_reactor w)" if "rc \<noteq> 0"
  proof -
    have "ud_store (set_reactor r w1) c = Some x" "c \<in> set (ud_clients (set_reactor r w1))" "distinct (ud_clients (set_reactor r w1))"
      using assms(1) new by (auto simp: w1_def uds_inv_def)
    from free_client [OF this(3,1,2)] obtain w' where w': "uds_client_free (Some c) (set_reactor r w1) = Some w'"
        "ud_store w' = (ud_store (set_reactor r w1))(c := None)" "ud_clients w' = remove1 c (ud_clients (set_reactor r w1))"
        "ud_active_clients w' = ud_active_clients (set_reactor r w1) - 1" "ud_next w' = ud_next (set_reactor r w1)" "ud_sessions w' = ud_sessions (set_reactor r w1)"
      by blast
    have "ud_store w' = ud_store w" using w'(2) new by (auto simp: w1_def)
    with w' assms(1) fresh that have "uds_inv w'" by (auto simp: uds_inv_def w1_def less_Suc_eq c_def set_reactor_def)
    with w' fresh that show ?thesis by (auto simp: set_reactor_def)
  qed
  ultimately show ?thesis by (cases "rc = 0") auto
qed

definition accepted_fds :: "(errno + accept_answer) list \<Rightarrow> fd list" where
  "accepted_fds as = map aa_fd (List.map_filter (case_sum (\<lambda>_. None) Some) as)"

lemma accepted_fds_simps [simp]:
  "accepted_fds [] = []" "accepted_fds (Inl e # as) = accepted_fds as" "accepted_fds (Inr a # as) = aa_fd a # accepted_fds as"
  by (simp_all add: accepted_fds_def List.map_filter_simps)

lemma accept_loop_safe:
  "uds_inv w \<Longrightarrow> distinct (accepted_fds as) \<Longrightarrow> \<forall>fd\<in>set (accepted_fds as). rx_handlers (ud_reactor w) fd = None
    \<Longrightarrow> safe (uds_accept_loop own now as w)"
proof (induction as arbitrary: w)
  case (Cons r as)
  show ?case
  proof (cases r)
    case (Inl e)
    then show ?thesis using Cons.prems by simp
  next
    case (Inr a)
    obtain w' where w': "accept_one own now a w = Some w'" "uds_inv w'"
        "\<forall>fd. fd \<noteq> aa_fd a \<longrightarrow> rx_handlers (ud_reactor w') fd = rx_handlers (ud_reactor w) fd"
      using accept_one_safe [OF Cons.prems(1), of a own now] Cons.prems(3) Inr by auto
    have "\<forall>fd\<in>set (accepted_fds as). rx_handlers (ud_reactor w') fd = None"
      using w'(3) Cons.prems(2,3) Inr by (metis accepted_fds_simps(3) distinct.simps(2) list.set_intros(2))
    with Cons.IH [OF w'(2)] Cons.prems(2) w'(1) Inr show ?thesis by simp
  qed
qed simp

lemma idle_scan_safe:
  "uds_inv w \<Longrightarrow> distinct cs \<Longrightarrow> set cs \<subseteq> set (ud_clients w) \<Longrightarrow> safe (idle_scan now cs w)"
proof (induction cs arbitrary: w)
  case (Cons c cs)
  then have "c \<in> dom (ud_store w)" by (simp add: uds_inv_def)
  then obtain x where x: "ud_store w c = Some x" by blast
  show ?case
  proof (cases "UDS_IDLE_TIMEOUT_MS \<le> now - cl_last_activity_ms x")
    case True
    obtain w' where w': "uds_client_close c w = Some w'" "uds_inv w'" "ud_clients w' = remove1 c (ud_clients w)"
      using close_client [OF Cons.prems(1) x] by blast
    have "set cs \<subseteq> set (ud_clients w')" using Cons.prems w'(3) by (auto simp: uds_inv_def)
    with Cons.IH [OF w'(2)] Cons.prems(2) w'(1) x True show ?thesis by simp
  next
    case False
    with Cons x show ?thesis by simp
  qed
qed simp

subsection \<open>Runs\<close>

text \<open>What the event loop calls: the callback of a client's handler, the listener, the idle timer.\<close>

datatype uds_op = ClientReady io_env fd u32 | Accept nat u64 "(errno + accept_answer) list" u32 | IdleTick u64

fun uds_perform :: "uds_op \<Rightarrow> uds_world \<Rightarrow> uds_world option" where
  "uds_perform (ClientReady env fd events) w =
     (case rx_handlers (ud_reactor w) fd of
        None \<Rightarrow> Some w
      | Some h \<Rightarrow> (if h_callback h = Some Fn_uds_client_cb then uds_client_cb env fd events (h_userdata h) w else Some w))"
| "uds_perform (Accept own now answers events) w = uds_accept_cb own now answers events w"
| "uds_perform (IdleTick now) w = uds_idle_timer_cb now w"

text \<open>The kernel accepts connections on descriptors that are not in use.\<close>

fun op_ok :: "uds_op \<Rightarrow> uds_world \<Rightarrow> bool" where
  "op_ok (Accept own now answers events) w \<longleftrightarrow>
     distinct (accepted_fds answers) \<and> list_all (\<lambda>fd. rx_handlers (ud_reactor w) fd = None) (accepted_fds answers)"
| "op_ok _ w \<longleftrightarrow> True"

lemma perform_safe: "uds_inv w \<Longrightarrow> op_ok op w \<Longrightarrow> safe (uds_perform op w)"
  by (cases op) (auto simp: client_cb_safe uds_accept_cb_def accept_loop_safe list_all_iff uds_idle_timer_cb_def uds_inv_def
      intro!: idle_scan_safe split: option.split)

inductive uds_reachable :: "uds_world \<Rightarrow> uds_world \<Rightarrow> bool" for w0 :: uds_world where
  start: "uds_reachable w0 w0"
| next_op: "uds_reachable w0 w \<Longrightarrow> op_ok op w \<Longrightarrow> uds_perform op w = Some w' \<Longrightarrow> uds_reachable w0 w'"

text \<open>The command socket before the first client; the daemon itself creates no forwarding
  sessions.\<close>

definition no_clients :: "uds_world \<Rightarrow> bool" where
  "no_clients w \<longleftrightarrow> ud_clients w = [] \<and> ud_store w = (\<lambda>_. None) \<and> ud_active_clients w = 0 \<and> sw_count (ud_sessions w) = 0
     \<and> (\<forall>fd h. rx_handlers (ud_reactor w) fd = Some h \<longrightarrow> fd_in_range fd \<and> \<not> client_handler h)"

lemma inv_no_clients: "no_clients w \<Longrightarrow> uds_inv w"
  by (auto simp: no_clients_def uds_inv_def owners_ok_def)

lemma reachable_inv: "uds_reachable w0 w \<Longrightarrow> no_clients w0 \<Longrightarrow> uds_inv w"
proof (induction rule: uds_reachable.induct)
  case (next_op w op w')
  then show ?case using perform_safe [of w op] by (simp add: safe_def)
qed (rule inv_no_clients)

text \<open>C32: the command socket is memory safe.  Whatever clients connect, send, stall or reset, in
  whatever order the event loop calls the callbacks: every callback returns without touching a
  freed client; there are never more than 32 clients; each client is owned by exactly the handler
  of its descriptor; and no client holds more than 4095 bytes of input or 64 KiB of response.\<close>

theorem uds_clients_safe:
  assumes "uds_reachable w0 w" "no_clients w0" "op_ok op w"
  shows "(\<exists>w'. uds_perform op w = Some w') \<and> length (ud_clients w) \<le> 32 \<and> distinct (ud_clients w)
    \<and> ud_active_clients w = length (ud_clients w)
    \<and> (\<forall>c. c \<in> set (ud_clients w) \<longleftrightarrow> (\<exists>x h. ud_store w c = Some x \<and> rx_handlers (ud_reactor w) (cl_fd x) = Some h
          \<and> h_free_cb h = Some Fn_uds_client_free \<and> h_userdata h = Some c
          \<and> length (cl_input x) \<le> 4095 \<and> cl_output_off x \<le> cl_output_len x \<and> cl_output_len x \<le> 65536))"
proof -
  have inv: "uds_inv w" by (rule reachable_inv [OF assms(1,2)])
  have client: "\<exists>h. rx_handlers (ud_reactor w) (cl_fd x) = Some h \<and> h_free_cb h = Some Fn_uds_client_free \<and> h_userdata h = Some c"
      "client_ok x" if "ud_store w c = Some x" for c x
    using inv that unfolding uds_inv_def owners_ok_def by blast+
  have "c \<in> set (ud_clients w) \<longleftrightarrow> (\<exists>x. ud_store w c = Some x)" for c using inv by (auto simp: uds_inv_def)
  with client perform_safe [OF inv assms(3)] inv show ?thesis
    by (fastforce simp: safe_def uds_inv_def client_ok_def UDS_MAX_CLIENTS_def UDS_BUFFER_SIZE_def UDS_MAX_RESPONSE_SIZE_def)
qed

definition empty_uds :: uds_world where
  "empty_uds = \<lparr>ud_fd = -1, ud_path = [], ud_has_reactor = True, ud_stop_requested = False, ud_shutdown_flag = False,
     ud_store = (\<lambda>_. None), ud_clients = [], ud_active_clients = 0, ud_idle_timer = None, ud_next = 0,
     ud_sessions = \<lparr>sw_sessions = (\<lambda>_. None), sw_registry = [], sw_count = 0, sw_gc = [], sw_reactor = reactor_zero,
       sw_next_addr = 0, sw_next_session_id = 0, sw_closed = []\<rparr>,
     ud_runtime = g_context, ud_trace = []\<rparr>"

lemma no_clients_empty: "no_clients empty_uds"
  by (simp add: no_clients_def empty_uds_def reactor_zero_def)

definition one_accept :: uds_op where
  "one_accept = Accept 0 0 [Inr \<lparr>aa_fd = 9, aa_cred = Some 0, aa_calloc = True, aa_alloc = True, aa_ctl_ok = True\<rparr>] REACTOR_EVENT_READ"

theorem uds_clients_safe_witness:
  "\<exists>w. uds_reachable empty_uds w \<and> ud_clients w = [0] \<and> (\<exists>w'. uds_perform (IdleTick 9000) w = Some w')"
proof -
  have ok: "op_ok one_accept empty_uds" by (simp add: one_accept_def empty_uds_def reactor_zero_def)
  obtain w where w: "uds_perform one_accept empty_uds = Some w" "ud_clients w = [0]"
    by (simp add: one_accept_def uds_accept_cb_def REACTOR_EVENT_READ_def accept_one_def check_client_uid_def UDS_MAX_CLIENTS_def
        reactor_add_fd_ex_def reactor_add_fd_def fd_in_range_def REACTOR_MAX_FD_def empty_uds_def reactor_zero_def set_reactor_def set_client_def)
  have "uds_reachable empty_uds w" by (rule next_op [OF start ok w(1)])
  with uds_clients_safe [OF this no_clients_empty, of "IdleTick 9000"] w(2) show ?thesis by auto
qed

subsection \<open>Shutdown\<close>

lemma close_clients_all:
  assumes "uds_inv w"
  shows "\<exists>w'. close_clients w = Some w' \<and> uds_inv w' \<and> ud_clients w' = []
    \<and> ud_trace w' = ud_trace w @ map (\<lambda>c. U_close (cl_fd (the (ud_store w c)))) (ud_clients w)
    \<and> ud_fd w' = ud_fd w \<and> ud_path w' = ud_path w \<and> ud_has_reactor w' = ud_has_reactor w"
  using assms
proof (induction "ud_clients w" arbitrary: w)
  case Nil
  from Nil.hyps [symmetric] Nil.prems show ?case by (subst close_clients.simps) simp
next
  case (Cons c cs)
  note cl = Cons.hyps(2) [symmetric]
  obtain x where x: "ud_store w c = Some x" using Cons.prems cl unfolding uds_inv_def by (metis domD list.set_intros(1))
  obtain w1 where w1: "uds_client_close c w = Some w1" "uds_inv w1" "ud_store w1 = (ud_store w)(c := None)" "ud_clients w1 = cs"
      "ud_trace w1 = ud_trace w @ [U_close (cl_fd x)]" "ud_fd w1 = ud_fd w" "ud_path w1 = ud_path w" "ud_has_reactor w1 = ud_has_reactor w"
    using close_client [OF Cons.prems x] cl by auto
  have "c \<notin> set cs" using Cons.prems cl by (simp add: uds_inv_def)
  then have m: "map (\<lambda>d. U_close (cl_fd (the (ud_store w1 d)))) cs = map (\<lambda>d. U_close (cl_fd (the (ud_store w d)))) cs"
    unfolding w1(3) by (intro map_cong) auto
  obtain w' where "close_clients w1 = Some w'" "uds_inv w'" "ud_clients w' = []" "ud_fd w' = ud_fd w1" "ud_path w' = ud_path w1"
      "ud_has_reactor w' = ud_has_reactor w1" "ud_trace w' = ud_trace w1 @ map (\<lambda>d. U_close (cl_fd (the (ud_store w1 d)))) cs"
    using Cons.hyps(1) [OF w1(4) [symmetric] w1(2)] unfolding w1(4) by blast
  with w1(1,5-8) x show ?case unfolding m by (subst close_clients.simps) (simp add: cl)
qed

lemma inv_cancel_timer:
  assumes "uds_inv w" "reactor_cancel_timer t (ud_reactor w) = Some (rc, r)"
  shows "uds_inv ((set_reactor r w)\<lparr>ud_idle_timer := None\<rparr>)"
proof -
  have "rx_handlers r = rx_handlers (ud_reactor w)"
    using assms(2) by (auto simp: reactor_cancel_timer_def Let_def reactor_wakeup_def timer_list_insert_def timer_list_remove_def
        split: option.splits if_splits)
  from inv_handlers [OF assms(1) this] show ?thesis by (simp add: uds_inv_def)
qed

lemma cleanup_all:
  assumes inv: "uds_inv w" and timer: "\<forall>t. ud_idle_timer w = Some t \<longrightarrow> reactor_cancel_timer (Some t) (ud_reactor w) \<noteq> None"
  shows "\<exists>w' rest. uds_cleanup w = Some w' \<and> ud_clients w' = [] \<and> ud_store w' = (\<lambda>_. None) \<and> ud_fd w' \<le> -1 \<and> ud_path w' = []
    \<and> ud_trace w' = ud_trace w @ map (\<lambda>c. U_close (cl_fd (the (ud_store w c)))) (ud_clients w) @ rest
    \<and> rest = (if 0 \<le> ud_fd w then [U_close (ud_fd w)] else []) @ (if ud_path w \<noteq> [] then [U_unlink (ud_path w)] else [])"
proof -
  obtain w1 where w1: "(if ud_idle_timer w \<noteq> None \<and> ud_has_reactor w then do {
              (rc, r) \<leftarrow> reactor_cancel_timer (ud_idle_timer w) (ud_reactor w);
              Some (set_reactor r (w\<lparr>ud_idle_timer := None\<rparr>))
            } else Some w) = Some w1" "uds_inv w1" "ud_clients w1 = ud_clients w" "ud_store w1 = ud_store w" "ud_trace w1 = ud_trace w"
      "ud_fd w1 = ud_fd w" "ud_path w1 = ud_path w"
  proof (cases "ud_idle_timer w \<noteq> None \<and> ud_has_reactor w")
    case True
    then obtain rc r where c: "reactor_cancel_timer (ud_idle_timer w) (ud_reactor w) = Some (rc, r)" using timer by auto
    have "set_reactor r (w\<lparr>ud_idle_timer := None\<rparr>) = (set_reactor r w)\<lparr>ud_idle_timer := None\<rparr>" by (simp add: set_reactor_def)
    with inv_cancel_timer [OF inv c] True c that [of "set_reactor r (w\<lparr>ud_idle_timer := None\<rparr>)"] show ?thesis by simp
  qed (use inv that [of w] in auto)
  obtain w2 where w2: "close_clients w1 = Some w2" "uds_inv w2" "ud_clients w2 = []" "ud_fd w2 = ud_fd w" "ud_path w2 = ud_path w"
      "ud_trace w2 = ud_trace w @ map (\<lambda>c. U_close (cl_fd (the (ud_store w c)))) (ud_clients w)"
    using close_clients_all [OF w1(2)] w1(3-7) by auto
  have "ud_store w2 = (\<lambda>_. None)" using w2(2,3) by (simp add: uds_inv_def)
  with w2 show ?thesis
    unfolding uds_cleanup_def w1(1) by (auto simp: w2(1) Let_def)
qed

text \<open>C33: shutting the command socket down ends: from every reachable state whose idle timer is
  armed or unset, the loop that closes the clients terminates, it closes the descriptor of every
  client exactly once and in order, and afterwards no client and no listening socket is left.\<close>

theorem uds_cleanup_terminates:
  assumes "uds_reachable w0 w" "no_clients w0" "\<forall>t. ud_idle_timer w = Some t \<longrightarrow> reactor_cancel_timer (Some t) (ud_reactor w) \<noteq> None"
  shows "\<exists>w' rest. uds_cleanup w = Some w' \<and> ud_clients w' = [] \<and> ud_store w' = (\<lambda>_. None) \<and> ud_fd w' \<le> -1 \<and> ud_path w' = []
    \<and> ud_trace w' = ud_trace w @ map (\<lambda>c. U_close (cl_fd (the (ud_store w c)))) (ud_clients w) @ rest
    \<and> rest = (if 0 \<le> ud_fd w then [U_close (ud_fd w)] else []) @ (if ud_path w \<noteq> [] then [U_unlink (ud_path w)] else [])"
  by (rule cleanup_all [OF reachable_inv [OF assms(1,2)] assms(3)])

theorem uds_cleanup_terminates_witness:
  "\<exists>w w'. uds_reachable empty_uds w \<and> ud_clients w = [0] \<and> uds_cleanup w = Some w' \<and> ud_clients w' = []"
proof -
  have ok: "op_ok one_accept empty_uds" by (simp add: one_accept_def empty_uds_def reactor_zero_def)
  obtain w where w: "uds_perform one_accept empty_uds = Some w" "ud_clients w = [0]" "ud_idle_timer w = None"
    by (simp add: one_accept_def uds_accept_cb_def REACTOR_EVENT_READ_def accept_one_def check_client_uid_def UDS_MAX_CLIENTS_def
        reactor_add_fd_ex_def reactor_add_fd_def fd_in_range_def REACTOR_MAX_FD_def empty_uds_def reactor_zero_def set_reactor_def set_client_def)
  have r: "uds_reachable empty_uds w" by (rule next_op [OF start ok w(1)])
  from uds_cleanup_terminates [OF this no_clients_empty] w obtain w' where "uds_cleanup w = Some w'" "ud_clients w' = []" by auto
  with r w(2) show ?thesis by blast
qed

text \<open>The path of a socket is remembered before it is checked: when \<open>uds_init\<close> refuses to replace
  something that is not a socket, the cleanup that follows removes it all the same.\<close>

theorem uds_removes_refused_path:
  assumes "no_clients w" "ud_fd w = -1" "ud_idle_timer w = None" "path \<noteq> []" "length path < UDS_PATH_MAX"
    and "pa_lstat (ui_path env) = Inr False" "uds_init env path w = (rc, w1)"
  shows "rc = -1 \<and> ud_trace w1 = ud_trace w \<and> (\<exists>w2. uds_cleanup w1 = Some w2 \<and> ud_trace w2 = ud_trace w @ [U_unlink path])"
proof -
  have w1: "rc = -1" "w1 = w\<lparr>ud_has_reactor := True, ud_stop_requested := False, ud_path := path\<rparr>"
    using assms by (auto simp: uds_init_def uds_prepare_socket_path_def)
  then have "no_clients w1" "ud_idle_timer w1 = None" "ud_fd w1 = -1" "ud_clients w1 = []" using assms(1-3) by (auto simp: no_clients_def)
  with cleanup_all [OF inv_no_clients, of w1] w1 assms(4) show ?thesis by auto
qed

end
