(* ===== verification/Cli.thy ===== *)
theory Cli
  imports Utils
begin

text \<open>
  \<open>src/cli.c\<close>: the command line.  \<open>getopt_long\<close> of the C library is modelled for this program's
  two tables: it permutes, so options may stand before and after the command; it accepts grouped
  short options, values in the same word or in the next one, and unique abbreviations of long
  names.  The program's own code turns its answers into \<open>atp_options_t\<close> and rejects combinations
  that make no sense.
\<close>

unbundle bit_operations_syntax

datatype atp_command_t = CMD_NONE | CMD_START | CMD_STOP | CMD_RESTART | CMD_STATUS | CMD_RELOAD | CMD_CHECK
  | CMD_VERSION | CMD_HELP

datatype cli_run_mode_t = CLI_RUN_MODE_DEFAULT | CLI_RUN_MODE_FOREGROUND | CLI_RUN_MODE_DAEMON

datatype cli_verbosity_t = CLI_VERBOSITY_DEFAULT | CLI_VERBOSITY_VERBOSE | CLI_VERBOSITY_QUIET

record atp_options_t =
  op_command :: atp_command_t
  op_config_file :: string
  op_pid_file :: string
  op_run_mode :: cli_run_mode_t
  op_verbosity :: cli_verbosity_t
  op_no_color :: bool

definition options_zero :: atp_options_t where
  "options_zero = \<lparr>op_command = CMD_NONE, op_config_file = [], op_pid_file = [], op_run_mode = CLI_RUN_MODE_DEFAULT,
     op_verbosity = CLI_VERBOSITY_DEFAULT, op_no_color = False\<rparr>"

subsection \<open>The tables\<close>

text \<open>Name, whether an argument is required, and the value.\<close>

definition long_options :: "(string \<times> bool \<times> char) list" where
  "long_options =
     [(''config'', True, CHR ''c''), (''pid'', True, CHR ''p''), (''foreground'', False, CHR ''f''),
      (''daemon'', False, CHR ''d''), (''verbose'', False, CHR ''V''), (''quiet'', False, CHR ''q''),
      (''no-color'', False, CHR ''n''), (''help'', False, CHR ''h''), (''version'', False, CHR ''v'')]"

definition short_options :: string where
  "short_options = '':c:p:fdVqnhv''"

definition OPTION_CONFIG :: u32 where "OPTION_CONFIG = push_bit 0 1"
definition OPTION_PID :: u32 where "OPTION_PID = push_bit 1 1"
definition OPTION_FOREGROUND :: u32 where "OPTION_FOREGROUND = push_bit 2 1"
definition OPTION_DAEMON :: u32 where "OPTION_DAEMON = push_bit 3 1"
definition OPTION_VERBOSE :: u32 where "OPTION_VERBOSE = push_bit 4 1"
definition OPTION_QUIET :: u32 where "OPTION_QUIET = push_bit 5 1"
definition OPTION_NO_COLOR :: u32 where "OPTION_NO_COLOR = push_bit 6 1"
definition OPTION_HELP :: u32 where "OPTION_HELP = push_bit 7 1"
definition OPTION_VERSION :: u32 where "OPTION_VERSION = push_bit 8 1"

subsection \<open>The C library\<close>

text \<open>An answer of \<open>getopt_long\<close>: an option with its argument (empty when it takes none), the
  answer \<open>':'\<close> for a missing argument and \<open>'?'\<close> for anything else that is wrong.\<close>

datatype opt_answer = G_opt char string | G_missing char | G_unknown

text \<open>Whether a short option takes an argument; \<open>None\<close>: there is no such option.\<close>

fun short_lookup :: "string \<Rightarrow> char \<Rightarrow> bool option" where
  "short_lookup [] c = None"
| "short_lookup (x # xs) c =
     (if x = c \<and> c \<noteq> CHR '':'' then Some (xs \<noteq> [] \<and> hd xs = CHR '':'') else short_lookup xs c)"

text \<open>What one word of the command line is.\<close>

datatype opt_word = O_operand | O_end | O_ready "opt_answer list" | O_needs "opt_answer list" char

fun opt_group :: "string \<Rightarrow> opt_answer list \<Rightarrow> opt_word" where
  "opt_group [] acc = O_ready acc"
| "opt_group (c # cs) acc =
     (case short_lookup (tl short_options) c of
        None \<Rightarrow> O_ready (acc @ [G_unknown])
      | Some False \<Rightarrow> opt_group cs (acc @ [G_opt c []])
      | Some True \<Rightarrow> (if cs = [] then O_needs acc c else O_ready (acc @ [G_opt c cs])))"

definition opt_long :: "string \<Rightarrow> opt_word" where
  "opt_long w =
     (let name = takeWhile (\<lambda>c. c \<noteq> CHR ''='') w; val = dropWhile (\<lambda>c. c \<noteq> CHR ''='') w;
          exact = filter (\<lambda>(n, _, _). n = name) long_options;
          found = (if exact \<noteq> [] then exact else filter (\<lambda>(n, _, _). prefix name n) long_options)
      in case found of
           [(_, needs, c)] \<Rightarrow>
             (if needs then (if val = [] then O_needs [] c else O_ready [G_opt c (tl val)])
              else if val = [] then O_ready [G_opt c []] else O_ready [G_unknown])
         | _ \<Rightarrow> O_ready [G_unknown])"

definition opt_word_of :: "string \<Rightarrow> opt_word" where
  "opt_word_of w =
     (if w = ''--'' then O_end
      else if prefix ''--'' w then opt_long (drop 2 w)
      else if prefix ''-'' w \<and> w \<noteq> ''-'' then opt_group (tl w) []
      else O_operand)"

text \<open>The answers in order, and the operands that are left.\<close>

fun getopt_long :: "string list \<Rightarrow> opt_answer list \<times> string list" where
  "getopt_long [] = ([], [])"
| "getopt_long (w # ws) =
     (case opt_word_of w of
        O_end \<Rightarrow> ([], ws)
      | O_operand \<Rightarrow> (case getopt_long ws of (as, rest) \<Rightarrow> (as, w # rest))
      | O_ready bs \<Rightarrow> (case getopt_long ws of (as, rest) \<Rightarrow> (bs @ as, rest))
      | O_needs bs c \<Rightarrow>
          (case ws of
             [] \<Rightarrow> (bs @ [G_missing c], [])
           | v # vs \<Rightarrow> (case getopt_long vs of (as, rest) \<Rightarrow> (bs @ G_opt c v # as, rest))))"

subsection \<open>The program's own code\<close>

definition copy_cli_path :: "nat \<Rightarrow> string \<Rightarrow> string option" where
  "copy_cli_path dst_size src = (if dst_size = 0 then None else if dst_size \<le> length src then None else Some src)"

definition commands :: "(string \<times> atp_command_t) list" where
  "commands = [(''start'', CMD_START), (''stop'', CMD_STOP), (''restart'', CMD_RESTART), (''status'', CMD_STATUS),
     (''reload'', CMD_RELOAD), (''check'', CMD_CHECK), (''version'', CMD_VERSION), (''help'', CMD_HELP)]"

definition command_from_string :: "string \<Rightarrow> atp_command_t option" where
  "command_from_string name = map_of commands name"

definition validate_options :: "atp_command_t \<Rightarrow> u32 \<Rightarrow> int" where
  "validate_options command seen =
     (let mode = seen AND (OPTION_FOREGROUND OR OPTION_DAEMON);
          verbosity = seen AND (OPTION_VERBOSE OR OPTION_QUIET)
      in if mode = OPTION_FOREGROUND OR OPTION_DAEMON then -1
         else if verbosity = OPTION_VERBOSE OR OPTION_QUIET then -1
         else if command \<noteq> CMD_START \<and> command \<noteq> CMD_RESTART \<and> mode \<noteq> 0 then -1
         else if (command = CMD_VERSION \<or> command = CMD_HELP)
           \<and> seen AND (OPTION_CONFIG OR OPTION_PID OR OPTION_VERBOSE OR OPTION_QUIET OR OPTION_NO_COLOR) \<noteq> 0 then -1
         else if command = CMD_CHECK \<and> seen AND OPTION_PID \<noteq> 0 then -1
         else if seen AND (OPTION_HELP OR OPTION_VERSION) \<noteq> 0
           \<and> command \<noteq> (if seen AND OPTION_HELP \<noteq> 0 then CMD_HELP else CMD_VERSION) then -1
         else 0)"

text \<open>The options, the set of options seen, and the command that an option asks for.\<close>

type_synonym parse_state = "atp_options_t \<times> u32 \<times> atp_command_t"

text \<open>The \<open>switch\<close> of the option loop; \<open>None\<close>: an early return of -1.\<close>

definition parse_option :: "opt_answer \<Rightarrow> parse_state \<Rightarrow> parse_state option" where
  "parse_option a s = (case s of (opts, seen, explicit) \<Rightarrow> (case a of
       G_opt c v \<Rightarrow>
         (if c = CHR ''c'' then
            map_option (\<lambda>p. (opts\<lparr>op_config_file := p\<rparr>, seen OR OPTION_CONFIG, explicit)) (copy_cli_path PATH_MAX v)
          else if c = CHR ''p'' then
            map_option (\<lambda>p. (opts\<lparr>op_pid_file := p\<rparr>, seen OR OPTION_PID, explicit)) (copy_cli_path PATH_MAX v)
          else if c = CHR ''f'' then Some (opts\<lparr>op_run_mode := CLI_RUN_MODE_FOREGROUND\<rparr>, seen OR OPTION_FOREGROUND, explicit)
          else if c = CHR ''d'' then Some (opts\<lparr>op_run_mode := CLI_RUN_MODE_DAEMON\<rparr>, seen OR OPTION_DAEMON, explicit)
          else if c = CHR ''V'' then Some (opts\<lparr>op_verbosity := CLI_VERBOSITY_VERBOSE\<rparr>, seen OR OPTION_VERBOSE, explicit)
          else if c = CHR ''q'' then Some (opts\<lparr>op_verbosity := CLI_VERBOSITY_QUIET\<rparr>, seen OR OPTION_QUIET, explicit)
          else if c = CHR ''n'' then Some (opts\<lparr>op_no_color := True\<rparr>, seen OR OPTION_NO_COLOR, explicit)
          else if c = CHR ''h'' then Some (opts, seen OR OPTION_HELP, CMD_HELP)
          else if c = CHR ''v'' then Some (opts, seen OR OPTION_VERSION, CMD_VERSION)
          else None)
     | G_missing c \<Rightarrow> None
     | G_unknown \<Rightarrow> None))"

fun parse_options :: "opt_answer list \<Rightarrow> parse_state \<Rightarrow> parse_state option" where
  "parse_options [] s = Some s"
| "parse_options (a # as) s = Option.bind (parse_option a s) (parse_options as)"

definition chosen_command :: "string list \<Rightarrow> atp_command_t \<Rightarrow> atp_command_t option" where
  "chosen_command operands explicit =
     (case operands of
        [] \<Rightarrow> Some (if explicit \<noteq> CMD_NONE then explicit else CMD_HELP)
      | [name] \<Rightarrow> command_from_string name
      | _ \<Rightarrow> None)"

text \<open>\<open>None\<close>: -1 is returned; the caller then exits without looking at the options.  The argument
  is the command line without the program's name.\<close>

definition parse_arguments :: "string list \<Rightarrow> atp_options_t option" where
  "parse_arguments argv =
     (case getopt_long argv of (answers, operands) \<Rightarrow>
        (case parse_options answers (options_zero, 0, CMD_NONE) of
           None \<Rightarrow> None
         | Some (opts, seen, explicit) \<Rightarrow>
             (case chosen_command operands explicit of
                None \<Rightarrow> None
              | Some command \<Rightarrow>
                  (if explicit \<noteq> CMD_NONE \<and> command \<noteq> explicit then None
                   else if validate_options command seen \<noteq> 0 then None
                   else Some (opts\<lparr>op_command := command\<rparr>)))))"

definition command_to_string :: "atp_command_t \<Rightarrow> string" where
  "command_to_string cmd = (case cmd of
       CMD_START \<Rightarrow> ''start'' | CMD_STOP \<Rightarrow> ''stop'' | CMD_RESTART \<Rightarrow> ''restart'' | CMD_STATUS \<Rightarrow> ''status''
     | CMD_RELOAD \<Rightarrow> ''reload'' | CMD_CHECK \<Rightarrow> ''check'' | CMD_VERSION \<Rightarrow> ''version'' | CMD_HELP \<Rightarrow> ''help''
     | CMD_NONE \<Rightarrow> ''unknown'')"

subsection \<open>Which options are accepted\<close>

lemmas option_bits = OPTION_CONFIG_def OPTION_PID_def OPTION_FOREGROUND_def OPTION_DAEMON_def OPTION_VERBOSE_def
  OPTION_QUIET_def OPTION_NO_COLOR_def OPTION_HELP_def OPTION_VERSION_def

lemma and_flag_eq_0: "(w :: u32) AND push_bit n 1 = 0 \<longleftrightarrow> \<not> bit w n"
  by (metis and_exp_eq_0_iff_not_bit push_bit_of_1)

lemma and_or_eq_0: "(w :: u32) AND (a OR b) = 0 \<longleftrightarrow> w AND a = 0 \<and> w AND b = 0"
  by (simp add: bit.conj_disj_distrib or_eq_0_iff)

lemma and_both: "n < 32 \<Longrightarrow> m < 32 \<Longrightarrow> (w :: u32) AND (push_bit n 1 OR push_bit m 1) = push_bit n 1 OR push_bit m 1
    \<longleftrightarrow> bit w n \<and> bit w m"
  by (subst bit_eq_iff) (auto simp: bit_simps)

lemma option_flags:
  "w AND OPTION_CONFIG = 0 \<longleftrightarrow> \<not> bit w 0" "w AND OPTION_PID = 0 \<longleftrightarrow> \<not> bit w 1"
  "w AND OPTION_FOREGROUND = 0 \<longleftrightarrow> \<not> bit w 2" "w AND OPTION_DAEMON = 0 \<longleftrightarrow> \<not> bit w 3"
  "w AND OPTION_VERBOSE = 0 \<longleftrightarrow> \<not> bit w 4" "w AND OPTION_QUIET = 0 \<longleftrightarrow> \<not> bit w 5"
  "w AND OPTION_NO_COLOR = 0 \<longleftrightarrow> \<not> bit w 6" "w AND OPTION_HELP = 0 \<longleftrightarrow> \<not> bit w 7"
  "w AND OPTION_VERSION = 0 \<longleftrightarrow> \<not> bit w 8"
  "w AND (OPTION_FOREGROUND OR OPTION_DAEMON) = OPTION_FOREGROUND OR OPTION_DAEMON \<longleftrightarrow> bit w 2 \<and> bit w 3"
  "w AND (OPTION_VERBOSE OR OPTION_QUIET) = OPTION_VERBOSE OR OPTION_QUIET \<longleftrightarrow> bit w 4 \<and> bit w 5"
  by (simp_all only: option_bits and_flag_eq_0 and_both)

lemma bit_options:
  "bit OPTION_CONFIG n \<longleftrightarrow> n = 0" "bit OPTION_PID n \<longleftrightarrow> n = 1" "bit OPTION_FOREGROUND n \<longleftrightarrow> n = 2"
  "bit OPTION_DAEMON n \<longleftrightarrow> n = 3" "bit OPTION_VERBOSE n \<longleftrightarrow> n = 4" "bit OPTION_QUIET n \<longleftrightarrow> n = 5"
  "bit OPTION_NO_COLOR n \<longleftrightarrow> n = 6" "bit OPTION_HELP n \<longleftrightarrow> n = 7" "bit OPTION_VERSION n \<longleftrightarrow> n = 8"
  by (auto simp only: option_bits push_bit_of_1 bit_exp_iff possible_bit_word) simp_all

lemma validate_options_iff:
  "validate_options command seen = 0 \<longleftrightarrow>
     \<not> (bit seen 2 \<and> bit seen 3) \<and> \<not> (bit seen 4 \<and> bit seen 5)
     \<and> (bit seen 2 \<or> bit seen 3 \<longrightarrow> command = CMD_START \<or> command = CMD_RESTART)
     \<and> (command = CMD_VERSION \<or> command = CMD_HELP \<longrightarrow>
          \<not> bit seen 0 \<and> \<not> bit seen 1 \<and> \<not> bit seen 4 \<and> \<not> bit seen 5 \<and> \<not> bit seen 6)
     \<and> (command = CMD_CHECK \<longrightarrow> \<not> bit seen 1)
     \<and> (bit seen 7 \<or> bit seen 8 \<longrightarrow> command = (if bit seen 7 then CMD_HELP else CMD_VERSION))"
  by (simp add: validate_options_def Let_def option_flags and_or_eq_0 del: One_nat_def) blast

definition cli_admissible :: "atp_options_t \<Rightarrow> bool" where
  "cli_admissible opts \<longleftrightarrow>
     op_command opts \<noteq> CMD_NONE \<and> length (op_config_file opts) < PATH_MAX \<and> length (op_pid_file opts) < PATH_MAX
     \<and> (op_run_mode opts \<noteq> CLI_RUN_MODE_DEFAULT \<longrightarrow> op_command opts \<in> {CMD_START, CMD_RESTART})
     \<and> (op_command opts \<in> {CMD_VERSION, CMD_HELP} \<longrightarrow>
          op_config_file opts = [] \<and> op_pid_file opts = [] \<and> op_verbosity opts = CLI_VERBOSITY_DEFAULT \<and> \<not> op_no_color opts)
     \<and> (op_command opts = CMD_CHECK \<longrightarrow> op_pid_file opts = [])"

text \<open>The options that are set are recorded as seen.\<close>

definition recorded :: "parse_state \<Rightarrow> bool" where
  "recorded s = (case s of (opts, seen, explicit) \<Rightarrow>
     length (op_config_file opts) < PATH_MAX \<and> length (op_pid_file opts) < PATH_MAX
     \<and> (op_config_file opts \<noteq> [] \<longrightarrow> bit seen 0) \<and> (op_pid_file opts \<noteq> [] \<longrightarrow> bit seen 1)
     \<and> (op_run_mode opts = CLI_RUN_MODE_FOREGROUND \<longrightarrow> bit seen 2) \<and> (op_run_mode opts = CLI_RUN_MODE_DAEMON \<longrightarrow> bit seen 3)
     \<and> (op_verbosity opts = CLI_VERBOSITY_VERBOSE \<longrightarrow> bit seen 4) \<and> (op_verbosity opts = CLI_VERBOSITY_QUIET \<longrightarrow> bit seen 5)
     \<and> (op_no_color opts \<longrightarrow> bit seen 6))"

lemma recorded_upd:
  assumes "recorded (opts, seen, e)"
  shows "length p < PATH_MAX \<Longrightarrow> recorded (opts\<lparr>op_config_file := p\<rparr>, seen OR OPTION_CONFIG, e)"
    and "length p < PATH_MAX \<Longrightarrow> recorded (opts\<lparr>op_pid_file := p\<rparr>, seen OR OPTION_PID, e)"
    and "recorded (opts\<lparr>op_run_mode := CLI_RUN_MODE_FOREGROUND\<rparr>, seen OR OPTION_FOREGROUND, e)"
    and "recorded (opts\<lparr>op_run_mode := CLI_RUN_MODE_DAEMON\<rparr>, seen OR OPTION_DAEMON, e)"
    and "recorded (opts\<lparr>op_verbosity := CLI_VERBOSITY_VERBOSE\<rparr>, seen OR OPTION_VERBOSE, e)"
    and "recorded (opts\<lparr>op_verbosity := CLI_VERBOSITY_QUIET\<rparr>, seen OR OPTION_QUIET, e)"
    and "recorded (opts\<lparr>op_no_color := True\<rparr>, seen OR OPTION_NO_COLOR, e)"
    and "recorded (opts, seen OR m, e')"
  using assms by (auto simp: recorded_def bit_or_iff bit_options)

lemma parse_option_recorded: "parse_option a s = Some s' \<Longrightarrow> recorded s \<Longrightarrow> recorded s'"
  by (cases s; cases a) (auto simp: parse_option_def copy_cli_path_def recorded_upd split: if_split_asm)

lemma parse_options_recorded: "parse_options as s = Some s' \<Longrightarrow> recorded s \<Longrightarrow> recorded s'"
  by (induction as arbitrary: s) (auto simp: bind_eq_Some_conv dest: parse_option_recorded)

lemma command_from_string_named: "command_from_string w = Some c \<Longrightarrow> c \<noteq> CMD_NONE"
  unfolding command_from_string_def by (drule map_of_SomeD) (auto simp: commands_def)

lemma chosen_command_named: "chosen_command ws e = Some c \<Longrightarrow> c \<noteq> CMD_NONE"
  by (auto simp: chosen_command_def dest: command_from_string_named split: list.splits if_splits)

lemma recorded_admissible:
  assumes "recorded (opts, seen, e)" "validate_options c seen = 0" "c \<noteq> CMD_NONE"
  shows "cli_admissible (opts\<lparr>op_command := c\<rparr>)"
  using assms
  by (cases "op_run_mode opts"; cases "op_verbosity opts") (auto simp: recorded_def validate_options_iff cli_admissible_def)

lemma parse_arguments_admissible: "parse_arguments argv = Some opts \<Longrightarrow> cli_admissible opts"
  by (auto simp: parse_arguments_def recorded_def options_zero_def PATH_MAX_def split: prod.splits option.splits if_splits
      intro!: recorded_admissible chosen_command_named dest!: parse_options_recorded)

subsection \<open>Writing options down\<close>

definition command_line :: "atp_options_t \<Rightarrow> string list" where
  "command_line opts =
     (if op_config_file opts = [] then [] else [''--config'', op_config_file opts])
     @ (if op_pid_file opts = [] then [] else [''--pid'', op_pid_file opts])
     @ (case op_run_mode opts of CLI_RUN_MODE_DEFAULT \<Rightarrow> [] | CLI_RUN_MODE_FOREGROUND \<Rightarrow> [''--foreground'']
          | CLI_RUN_MODE_DAEMON \<Rightarrow> [''--daemon''])
     @ (case op_verbosity opts of CLI_VERBOSITY_DEFAULT \<Rightarrow> [] | CLI_VERBOSITY_VERBOSE \<Rightarrow> [''--verbose'']
          | CLI_VERBOSITY_QUIET \<Rightarrow> [''--quiet''])
     @ (if op_no_color opts then [''--no-color''] else [])
     @ [command_to_string (op_command opts)]"

definition written_answers :: "atp_options_t \<Rightarrow> opt_answer list" where
  "written_answers opts =
     (if op_config_file opts = [] then [] else [G_opt (CHR ''c'') (op_config_file opts)])
     @ (if op_pid_file opts = [] then [] else [G_opt (CHR ''p'') (op_pid_file opts)])
     @ (case op_run_mode opts of CLI_RUN_MODE_DEFAULT \<Rightarrow> [] | CLI_RUN_MODE_FOREGROUND \<Rightarrow> [G_opt (CHR ''f'') []]
          | CLI_RUN_MODE_DAEMON \<Rightarrow> [G_opt (CHR ''d'') []])
     @ (case op_verbosity opts of CLI_VERBOSITY_DEFAULT \<Rightarrow> [] | CLI_VERBOSITY_VERBOSE \<Rightarrow> [G_opt (CHR ''V'') []]
          | CLI_VERBOSITY_QUIET \<Rightarrow> [G_opt (CHR ''q'') []])
     @ (if op_no_color opts then [G_opt (CHR ''n'') []] else [])"

lemma long_words:
  "opt_word_of ''--config'' = O_needs [] (CHR ''c'')" "opt_word_of ''--pid'' = O_needs [] (CHR ''p'')"
  "opt_word_of ''--foreground'' = O_ready [G_opt (CHR ''f'') []]" "opt_word_of ''--daemon'' = O_ready [G_opt (CHR ''d'') []]"
  "opt_word_of ''--verbose'' = O_ready [G_opt (CHR ''V'') []]" "opt_word_of ''--quiet'' = O_ready [G_opt (CHR ''q'') []]"
  "opt_word_of ''--no-color'' = O_ready [G_opt (CHR ''n'') []]"
  by code_simp+

lemma command_word: "opt_word_of (command_to_string c) = O_operand"
  by (cases c) (simp_all add: opt_word_of_def command_to_string_def)

lemma command_string: "command_from_string (command_to_string c) = (if c = CMD_NONE then None else Some c)"
  by (cases c) (simp_all add: command_from_string_def command_to_string_def commands_def)

lemma getopt_command_line:
  "getopt_long (command_line opts) = (written_answers opts, [command_to_string (op_command opts)])"
  by (cases "op_run_mode opts"; cases "op_verbosity opts")
     (auto simp: command_line_def written_answers_def long_words command_word)

definition written_seen :: "atp_options_t \<Rightarrow> u32" where
  "written_seen opts =
     (if op_config_file opts = [] then 0 else OPTION_CONFIG) OR (if op_pid_file opts = [] then 0 else OPTION_PID)
     OR (case op_run_mode opts of CLI_RUN_MODE_DEFAULT \<Rightarrow> 0 | CLI_RUN_MODE_FOREGROUND \<Rightarrow> OPTION_FOREGROUND
          | CLI_RUN_MODE_DAEMON \<Rightarrow> OPTION_DAEMON)
     OR (case op_verbosity opts of CLI_VERBOSITY_DEFAULT \<Rightarrow> 0 | CLI_VERBOSITY_VERBOSE \<Rightarrow> OPTION_VERBOSE
          | CLI_VERBOSITY_QUIET \<Rightarrow> OPTION_QUIET)
     OR (if op_no_color opts then OPTION_NO_COLOR else 0)"

lemma parse_written_answers:
  "parse_options (written_answers opts) (options_zero, 0, CMD_NONE) =
     (if length (op_config_file opts) < PATH_MAX \<and> length (op_pid_file opts) < PATH_MAX
      then Some (opts\<lparr>op_command := CMD_NONE\<rparr>, written_seen opts, CMD_NONE) else None)"
proof (cases opts)
  case (fields command config_file pid_file mode verbosity no_color)
  show ?thesis
    by (cases mode; cases verbosity; cases no_color; cases "config_file = []"; cases "pid_file = []")
       (simp_all add: fields written_answers_def written_seen_def parse_option_def copy_cli_path_def options_zero_def
          PATH_MAX_def or.assoc)
qed

lemma validate_written: "op_command opts \<noteq> CMD_NONE \<Longrightarrow> length (op_config_file opts) < PATH_MAX \<Longrightarrow>
    length (op_pid_file opts) < PATH_MAX \<Longrightarrow>
    validate_options (op_command opts) (written_seen opts) = 0 \<longleftrightarrow> cli_admissible opts"
  by (cases "op_run_mode opts"; cases "op_verbosity opts")
     (auto simp: validate_options_iff written_seen_def cli_admissible_def bit_or_iff bit_options)

text \<open>C38: the command line.  Any options, written with their long names, are read back exactly if
  they make sense together, and rejected otherwise; and nothing else is ever accepted, however it
  is written (short or grouped options, abbreviations, options after the command).  To make sense:
  there is a command, paths fit their buffers, a run mode only with \<open>start\<close> and \<open>restart\<close>, no
  option with \<open>help\<close> and \<open>version\<close>, no PID file with \<open>check\<close>.\<close>

theorem command_line_roundtrip:
  "parse_arguments (command_line opts) = (if cli_admissible opts then Some opts else None)
   \<and> ((\<exists>argv. parse_arguments argv = Some opts) \<longleftrightarrow> cli_admissible opts)"
proof -
  have 1: "parse_arguments (command_line opts) = (if cli_admissible opts then Some opts else None)"
  proof (cases "op_command opts = CMD_NONE \<or> PATH_MAX \<le> length (op_config_file opts) \<or> PATH_MAX \<le> length (op_pid_file opts)")
    case True
    then show ?thesis
      by (auto simp: parse_arguments_def getopt_command_line parse_written_answers chosen_command_def command_string
          cli_admissible_def)
  next
    case False
    then show ?thesis
      using validate_written [of opts]
      by (simp add: parse_arguments_def getopt_command_line parse_written_answers chosen_command_def command_string not_le)
  qed
  then show ?thesis
    using parse_arguments_admissible by auto
qed

end
