(* ===== verification/Async_Validate.thy ===== *)
theory Async_Validate
  imports Service_Spawn
begin

text \<open>
  \<open>src/async_validate.c\<close>: a check of the proxy's configuration in a child process, watched by the
  event loop through a pipe and a timer descriptor.  Its header promises the "cleanup once
  contract": one callback, every descriptor closed once, the child reaped once.  The theorem at
  the end is this contract, for every order of the callbacks and every behaviour of the child.
\<close>

unbundle bit_operations_syntax

definition ASYNC_VALIDATE_OUTPUT_SIZE :: nat where "ASYNC_VALIDATE_OUTPUT_SIZE = 4096"

text \<open>\<open>output_len\<close> is the length of the output; the status and its valid flag are one option.\<close>

record async_validate_ctx_t =
  av_reactor :: bool
  av_child_pid :: pid
  av_pipe_fd :: fd
  av_timer_fd :: fd
  av_output :: string
  av_output_truncated :: bool
  av_completed :: bool
  av_child_reaped :: bool
  av_child_status :: "exit_status option"
  av_callback :: code_ptr
  av_userdata :: "data_ptr option"

datatype validate_event = V_reap pid | V_wait_failed pid | V_kill pid | V_close fd
  | V_callback code_ptr int string "data_ptr option"

record validate_world =
  vw_ctx :: async_validate_ctx_t
  vw_reactor :: reactor_t
  vw_events :: "validate_event list"

definition vw_upd :: "(async_validate_ctx_t \<Rightarrow> async_validate_ctx_t) \<Rightarrow> validate_world \<Rightarrow> validate_world" where
  "vw_upd f w = w\<lparr>vw_ctx := f (vw_ctx w)\<rparr>"

definition vw_emit :: "validate_event list \<Rightarrow> validate_world \<Rightarrow> validate_world" where
  "vw_emit es w = w\<lparr>vw_events := vw_events w @ es\<rparr>"

lemma vw_simps [simp]:
  "vw_ctx (vw_upd f w) = f (vw_ctx w)" "vw_reactor (vw_upd f w) = vw_reactor w" "vw_events (vw_upd f w) = vw_events w"
  "vw_ctx (vw_emit es w) = vw_ctx w" "vw_reactor (vw_emit es w) = vw_reactor w" "vw_events (vw_emit es w) = vw_events w @ es"
  by (simp_all add: vw_upd_def vw_emit_def)

subsection \<open>Waiting for the child\<close>

text \<open>What \<open>waitpid\<close> of the child answers.  A call that may block does not return while the child is
  running.\<close>

datatype child_answer = C_interrupted | C_running | C_exited exit_status | C_failed errno

fun wait_child :: "bool \<Rightarrow> child_answer list \<Rightarrow> child_answer option" where
  "wait_child blocking [] = None"
| "wait_child blocking (a # as) =
     (if a = C_interrupted \<or> a = C_running \<and> blocking then wait_child blocking as else Some a)"

text \<open>The result is the return value and the status stored through \<open>status_out\<close>, which is given
  iff \<open>wants_status\<close>.  \<open>None\<close>: still waiting.\<close>

definition reap_child :: "bool \<Rightarrow> bool \<Rightarrow> child_answer list \<Rightarrow> validate_world
    \<Rightarrow> (int \<times> exit_status option \<times> validate_world) option" where
  "reap_child blocking wants_status answers w =
     (let c = vw_ctx w; p = av_child_pid c in
      if p \<le> 0 then Some (-1, None, w)
      else if av_child_reaped c then Some (p, if wants_status then av_child_status c else None, w)
      else map_option (\<lambda>a. case a of
          C_exited st \<Rightarrow>
            (p, if wants_status then Some st else None,
             vw_emit [V_reap p] (vw_upd (\<lambda>c. c\<lparr>av_child_reaped := True,
               av_child_status := (if wants_status then Some st else av_child_status c)\<rparr>) w))
        | C_failed e \<Rightarrow>
            (-1, None, vw_emit [V_wait_failed p]
               (if e = ECHILD then vw_upd (\<lambda>c. c\<lparr>av_child_reaped := True\<rparr>) w else w))
        | _ \<Rightarrow> (0, None, w))
        (wait_child blocking answers))"

subsection \<open>Cleanup\<close>

text \<open>The kernel's answers: to the first \<open>waitpid\<close>, to \<open>kill\<close>, and to the blocking \<open>waitpid\<close>.\<close>

record cleanup_env =
  cl_wait :: "child_answer list"
  cl_kill :: "errno option"
  cl_block :: "child_answer list"

definition remove_fd :: "fd \<Rightarrow> validate_world \<Rightarrow> validate_world" where
  "remove_fd fd w = (if av_reactor (vw_ctx w) \<and> 0 \<le> fd then w\<lparr>vw_reactor := fst (snd (reactor_remove_fd fd (vw_reactor w)))\<rparr> else w)"

lemma remove_fd_simps [simp]:
  "vw_ctx (remove_fd fd w) = vw_ctx w" "vw_events (remove_fd fd w) = vw_events w"
  by (simp_all add: remove_fd_def)

lemma remove_fd_handlers_at:
  "fd_in_range fd \<Longrightarrow> av_reactor (vw_ctx w) \<Longrightarrow> rx_handlers (vw_reactor (remove_fd fd w)) = (rx_handlers (vw_reactor w))(fd := None)"
  by (auto simp: remove_fd_def fd_in_range_def reactor_remove_fd_def fun_eq_iff split: option.splits)

definition close_fd :: "fd \<Rightarrow> validate_world \<Rightarrow> validate_world" where
  "close_fd fd w = (if 0 \<le> fd then vw_emit [V_close fd] w else w)"

definition end_child :: "cleanup_env \<Rightarrow> validate_world \<Rightarrow> validate_world option" where
  "end_child env w =
     (if 0 < av_child_pid (vw_ctx w) \<and> \<not> av_child_reaped (vw_ctx w) then
        (case reap_child False False (cl_wait env) w of
           None \<Rightarrow> None
         | Some (wr, _, w1) \<Rightarrow>
             map_option (vw_upd (\<lambda>c. c\<lparr>av_child_pid := -1\<rparr>))
               (if wr = 0
                then map_option (\<lambda>(_, _, w2). w2)
                       (reap_child True False (cl_block env) (vw_emit [V_kill (av_child_pid (vw_ctx w1))] w1))
                else Some w1))
      else Some w)"

definition validate_cleanup :: "cleanup_env \<Rightarrow> int \<Rightarrow> string \<Rightarrow> validate_world \<Rightarrow> validate_world option" where
  "validate_cleanup env result output w =
     (if av_completed (vw_ctx w) then Some w
      else
        (let c = vw_ctx w;
             w1 = vw_upd (\<lambda>c. c\<lparr>av_completed := True\<rparr>) w;
             w2 = remove_fd (av_timer_fd c) (remove_fd (av_pipe_fd c) w1);
             w3 = vw_upd (\<lambda>c. c\<lparr>av_pipe_fd := (if 0 \<le> av_pipe_fd c then -1 else av_pipe_fd c)\<rparr>) (close_fd (av_pipe_fd c) w2);
             w4 = vw_upd (\<lambda>c. c\<lparr>av_timer_fd := (if 0 \<le> av_timer_fd c then -1 else av_timer_fd c)\<rparr>) (close_fd (av_timer_fd c) w3)
         in map_option (\<lambda>w5. vw_emit [V_callback (av_callback c) result output (av_userdata c)]
                                (vw_upd (\<lambda>c. c\<lparr>av_reactor := False\<rparr>) w5))
              (end_child env w4)))"

definition async_validate_cleanup :: "cleanup_env \<Rightarrow> validate_world \<Rightarrow> validate_world option" where
  "async_validate_cleanup env w = validate_cleanup env (-1) ''manual cleanup'' w"

subsection \<open>Starting\<close>

text \<open>The words the child executes.\<close>

definition validate_argv :: "string \<Rightarrow> string \<Rightarrow> string \<Rightarrow> string list" where
  "validate_argv bin_path conf_path work_dir =
     [bin_path, ''check'', ''-D'', work_dir] @ (if conf_path \<noteq> [] then [''-c'', conf_path] else [])"

record validate_start_env =
  vs_pipe :: "(fd \<times> fd) option"
  vs_fork :: pid
  vs_timerfd :: fd
  vs_settime_ok :: bool
  vs_add_pipe :: "bool \<times> bool"
  vs_add_timer :: "bool \<times> bool"
  vs_block :: "child_answer list"

definition validate_fresh :: "code_ptr \<Rightarrow> data_ptr option \<Rightarrow> async_validate_ctx_t" where
  "validate_fresh callback userdata =
     \<lparr>av_reactor = True, av_child_pid = -1, av_pipe_fd = -1, av_timer_fd = -1, av_output = [], av_output_truncated = False,
      av_completed = False, av_child_reaped = False, av_child_status = None, av_callback = callback, av_userdata = userdata\<rparr>"

definition validate_fail :: "child_answer list \<Rightarrow> validate_world \<Rightarrow> (int \<times> validate_world) option" where
  "validate_fail block w =
     (let c = vw_ctx w;
          w1 = vw_upd (\<lambda>c. c\<lparr>av_pipe_fd := -1, av_timer_fd := -1\<rparr>) (close_fd (av_timer_fd c) (close_fd (av_pipe_fd c) w))
      in if 0 < av_child_pid c
         then map_option (\<lambda>(_, _, w2). (-1, vw_upd (\<lambda>c. c\<lparr>av_child_pid := -1\<rparr>) w2))
                (reap_child True False block (vw_emit [V_kill (av_child_pid c)] w1))
         else Some (-1, w1))"

text \<open>The parent's side.  \<open>ctx\<close> is the address the callbacks get.\<close>

definition async_validate_config :: "validate_start_env \<Rightarrow> data_ptr \<Rightarrow> code_ptr \<Rightarrow> data_ptr option \<Rightarrow> reactor_t
    \<Rightarrow> (int \<times> validate_world) option" where
  "async_validate_config env ctx callback userdata r =
     (let w = \<lparr>vw_ctx = validate_fresh callback userdata, vw_reactor = r, vw_events = []\<rparr> in
      case vs_pipe env of
        None \<Rightarrow> Some (-1, w)
      | Some (rd, wr) \<Rightarrow>
          (if vs_fork env < 0 then Some (-1, vw_emit [V_close rd, V_close wr] w)
           else
             (let w1 = vw_upd (\<lambda>c. c\<lparr>av_child_pid := vs_fork env, av_pipe_fd := rd\<rparr>) (vw_emit [V_close wr] w) in
              if vs_timerfd env < 0 then validate_fail (vs_block env) w1
              else if \<not> vs_settime_ok env then validate_fail (vs_block env) (vw_emit [V_close (vs_timerfd env)] w1)
              else
                (let w2 = vw_upd (\<lambda>c. c\<lparr>av_timer_fd := vs_timerfd env\<rparr>) w1 in
                 case reactor_add_fd (fst (vs_add_pipe env)) (snd (vs_add_pipe env)) rd REACTOR_EVENT_READ
                        (Some Fn_validate_io_cb) (Some ctx) r of
                   (rc, r1, _) \<Rightarrow>
                     (if rc \<noteq> 0 then validate_fail (vs_block env) (w2\<lparr>vw_reactor := r1\<rparr>)
                      else case reactor_add_fd (fst (vs_add_timer env)) (snd (vs_add_timer env)) (vs_timerfd env)
                                  REACTOR_EVENT_READ (Some Fn_validate_timeout_cb) (Some ctx) r1 of
                        (rc2, r2, _) \<Rightarrow>
                          (if rc2 \<noteq> 0 then validate_fail (vs_block env) (w2\<lparr>vw_reactor := fst (snd (reactor_remove_fd rd r2))\<rparr>)
                           else Some (0, w2\<lparr>vw_reactor := r2\<rparr>)))))))"

subsection \<open>The callbacks\<close>

definition store_output :: "string \<Rightarrow> async_validate_ctx_t \<Rightarrow> async_validate_ctx_t" where
  "store_output buf c =
     (let room = ASYNC_VALIDATE_OUTPUT_SIZE - 1 - length (av_output c); copy_len = min (length buf) room in
      c\<lparr>av_output := av_output c @ take copy_len buf,
        av_output_truncated := (av_output_truncated c \<or> copy_len < length buf)\<rparr>)"

text \<open>The reads of the pipe: an error, a piece, or the empty piece at the end of the output.  The
  list of answers that has no end of its own: still waiting for an answer.\<close>

definition io_end :: "child_answer list \<Rightarrow> cleanup_env \<Rightarrow> validate_world \<Rightarrow> validate_world option" where
  "io_end waits env w =
     (case reap_child False True waits w of
        None \<Rightarrow> None
      | Some (wr, status, w1) \<Rightarrow>
          (if wr = 0 then Some w1
           else if wr < 0 then validate_cleanup env 0 ''waitpid error'' w1
           else
             (let final = (case av_child_status (vw_ctx w1) of Some s \<Rightarrow> Some s | None \<Rightarrow> status);
                  result = (if final = Some (Exited 0) \<or> final = None then 1 else 0)
              in validate_cleanup env result (av_output (vw_ctx w1)) w1)))"

fun io_loop :: "(errno + string) list \<Rightarrow> child_answer list \<Rightarrow> cleanup_env \<Rightarrow> validate_world \<Rightarrow> validate_world option" where
  "io_loop [] waits env w = None"
| "io_loop (Inr buf # as) waits env w =
     (if buf \<noteq> [] then io_loop as waits env (vw_upd (store_output buf) w) else io_end waits env w)"
| "io_loop (Inl e # as) waits env w =
     (if e = EINTR then io_loop as waits env w
      else if e = EAGAIN then Some w
      else validate_cleanup env 0 ''read error'' w)"

definition validate_io_cb :: "(errno + string) list \<Rightarrow> child_answer list \<Rightarrow> cleanup_env \<Rightarrow> validate_world \<Rightarrow> validate_world option" where
  "validate_io_cb reads waits env w = (if av_completed (vw_ctx w) then Some w else io_loop reads waits env w)"

record timeout_env =
  te_read_ok :: bool
  te_wait :: "child_answer list"
  te_kill :: "errno option"
  te_block :: "child_answer list"
  te_cleanup :: cleanup_env

definition timeout_kill :: "timeout_env \<Rightarrow> validate_world \<Rightarrow> validate_world option" where
  "timeout_kill env w =
     (let w1 = vw_emit [V_kill (av_child_pid (vw_ctx w))] w in
      if te_kill env \<noteq> None \<and> te_kill env \<noteq> Some ESRCH
      then validate_cleanup (te_cleanup env) 0 ''timeout kill error'' w1
      else case reap_child True True (te_block env) w1 of
        None \<Rightarrow> None
      | Some (_, _, w2) \<Rightarrow> validate_cleanup (te_cleanup env) 0 ''timeout'' w2)"

definition validate_timeout_cb :: "timeout_env \<Rightarrow> validate_world \<Rightarrow> validate_world option" where
  "validate_timeout_cb env w =
     (if av_completed (vw_ctx w) then Some w
      else if \<not> te_read_ok env then validate_cleanup (te_cleanup env) 0 ''timerfd read error'' w
      else case reap_child False True (te_wait env) w of
        None \<Rightarrow> None
      | Some (wr, _, w1) \<Rightarrow> (if wr = av_child_pid (vw_ctx w1) then Some w1 else timeout_kill env w1))"

subsection \<open>The contract\<close>

text \<open>What the events say: the descriptors closed, the calls of the callback, the children reaped.\<close>

fun closed_by :: "validate_event \<Rightarrow> fd list" where
  "closed_by (V_close fd) = [fd]"
| "closed_by _ = []"

fun is_callback :: "validate_event \<Rightarrow> bool" where
  "is_callback (V_callback _ _ _ _) = True"
| "is_callback _ = False"

fun is_reap :: "validate_event \<Rightarrow> bool" where
  "is_reap (V_reap _) = True"
| "is_reap _ = False"

definition closes :: "validate_event list \<Rightarrow> fd list" where
  "closes es = concat (map closed_by es)"

definition callbacks :: "validate_event list \<Rightarrow> nat" where
  "callbacks es = length (filter is_callback es)"

definition reaps :: "validate_event list \<Rightarrow> nat" where
  "reaps es = length (filter is_reap es)"

lemma event_simps [simp]:
  "closes [] = []" "callbacks [] = 0" "reaps [] = 0"
  "closes (es @ fs) = closes es @ closes fs" "callbacks (es @ fs) = callbacks es + callbacks fs"
  "reaps (es @ fs) = reaps es + reaps fs"
  "closes (e # es) = closed_by e @ closes es"
  "callbacks (e # es) = (if is_callback e then Suc (callbacks es) else callbacks es)"
  "reaps (e # es) = (if is_reap e then Suc (reaps es) else reaps es)"
  by (simp_all add: closes_def callbacks_def reaps_def)

definition child_ok :: "pid \<Rightarrow> bool \<Rightarrow> validate_event list \<Rightarrow> bool" where
  "child_ok p reaped es \<longleftrightarrow> (if reaped then reaps es = 1 \<or> reaps es = 0 \<and> V_wait_failed p \<in> set es else reaps es = 0)"

definition child_settled :: "pid \<Rightarrow> validate_event list \<Rightarrow> bool" where
  "child_settled p es \<longleftrightarrow> reaps es = 1 \<or> reaps es = 0 \<and> V_wait_failed p \<in> set es"

lemma wait_child_answer: "wait_child b as = Some a \<Longrightarrow> a \<noteq> C_interrupted \<and> (b \<longrightarrow> a \<noteq> C_running)"
  by (induction as) (auto split: if_splits)

text \<open>What \<open>reap_child\<close> does to the world: it may set the flag and the status, and it adds at most
  one event.\<close>

lemma reap_child_cases:
  assumes "reap_child b s as w = Some (wr, st, w')" "av_child_pid (vw_ctx w) = p" "0 < p"
    "child_ok p (av_child_reaped (vw_ctx w)) (vw_events w)"
  obtains reaped status es where
    "w' = vw_emit es (vw_upd (\<lambda>c. c\<lparr>av_child_reaped := reaped, av_child_status := status\<rparr>) w)"
    "closes es = []" "callbacks es = 0" "child_ok p reaped (vw_events w @ es)"
    "wr = p \<and> reaped \<or> wr < 0 \<and> V_wait_failed p \<in> set es \<or> wr = 0 \<and> \<not> b"
proof (cases "av_child_reaped (vw_ctx w)")
  case True
  then have "w' = vw_emit [] (vw_upd (\<lambda>c. c\<lparr>av_child_reaped := True, av_child_status := av_child_status (vw_ctx w)\<rparr>) w)" "wr = p"
    using assms by (auto simp: reap_child_def Let_def vw_upd_def vw_emit_def)
  then show ?thesis
    using that [of "[]" "av_child_status (vw_ctx w)" True] assms(4) True by simp
next
  case False
  then obtain a where a: "wait_child b as = Some a"
    using assms by (auto simp: reap_child_def Let_def)
  show ?thesis
  proof (cases a)
    case (C_exited st')
    then show ?thesis
      using that [of "[V_reap p]" "if s then Some st' else av_child_status (vw_ctx w)" True] assms False a
      by (auto simp: reap_child_def Let_def vw_upd_def vw_emit_def child_ok_def)
  next
    case (C_failed e)
    then show ?thesis
      using that [of "[V_wait_failed p]" "av_child_status (vw_ctx w)" "e = ECHILD"] assms False a
      by (auto simp: reap_child_def Let_def vw_upd_def vw_emit_def child_ok_def)
  next
    case C_running
    then show ?thesis
      using that [of "[]" "av_child_status (vw_ctx w)" False] assms False a wait_child_answer [OF a]
      by (auto simp: reap_child_def Let_def vw_upd_def vw_emit_def child_ok_def)
  next
    case C_interrupted
    then show ?thesis
      using wait_child_answer [OF a] by simp
  qed
qed

lemma end_child_settles:
  assumes "end_child env w = Some w'" "av_child_pid (vw_ctx w) = p" "0 < p"
    "child_ok p (av_child_reaped (vw_ctx w)) (vw_events w)"
  shows "child_settled p (vw_events w') \<and> closes (vw_events w') = closes (vw_events w)
    \<and> callbacks (vw_events w') = callbacks (vw_events w) \<and> vw_reactor w' = vw_reactor w
    \<and> av_completed (vw_ctx w') = av_completed (vw_ctx w) \<and> av_output (vw_ctx w') = av_output (vw_ctx w)"
proof (cases "av_child_reaped (vw_ctx w)")
  case True
  then show ?thesis
    using assms by (auto simp: end_child_def child_ok_def child_settled_def)
next
  case False
  then obtain wr st w1 where one: "reap_child False False (cl_wait env) w = Some (wr, st, w1)"
    using assms by (auto simp: end_child_def split: option.splits)
  show ?thesis
    using one assms(2-4)
  proof (rule reap_child_cases)
    fix reaped status es
    assume w1: "w1 = vw_emit es (vw_upd (\<lambda>c. c\<lparr>av_child_reaped := reaped, av_child_status := status\<rparr>) w)"
      and es: "closes es = []" "callbacks es = 0" and ok: "child_ok p reaped (vw_events w @ es)"
      and how: "wr = p \<and> reaped \<or> wr < 0 \<and> V_wait_failed p \<in> set es \<or> wr = 0 \<and> \<not> False"
    show ?thesis
    proof (cases "wr = 0")
      case True
      define w1k where "w1k = vw_emit [V_kill p] w1"
      obtain wr2 st2 w2 where two: "reap_child True False (cl_block env) w1k = Some (wr2, st2, w2)"
        and w': "w' = vw_upd (\<lambda>c. c\<lparr>av_child_pid := -1\<rparr>) w2"
        using assms(1-3) one False True w1 by (auto simp: end_child_def w1k_def)
      have "av_child_pid (vw_ctx w1k) = p" "child_ok p (av_child_reaped (vw_ctx w1k)) (vw_events w1k)"
        using ok assms(2) by (auto simp: w1k_def w1 child_ok_def)
      with two show ?thesis
        by (rule reap_child_cases [OF _ _ assms(3)])
           (auto simp: w' w1k_def w1 es child_ok_def child_settled_def split: if_splits)
    next
      case False
      then have "w' = vw_upd (\<lambda>c. c\<lparr>av_child_pid := -1\<rparr>) w1"
        using assms(1-3) one \<open>\<not> av_child_reaped (vw_ctx w)\<close> by (auto simp: end_child_def)
      then show ?thesis
        using ok how False assms(3) by (auto simp: w1 es child_ok_def child_settled_def split: if_splits)
    qed
  qed
qed

text \<open>A running validation with its pipe \<open>rd\<close>, its timer \<open>tm\<close> and its child \<open>p\<close>; and a finished one.\<close>

definition output_fits :: "validate_world \<Rightarrow> bool" where
  "output_fits w \<longleftrightarrow> length (av_output (vw_ctx w)) < ASYNC_VALIDATE_OUTPUT_SIZE"

definition validating :: "fd \<Rightarrow> fd \<Rightarrow> pid \<Rightarrow> validate_world \<Rightarrow> bool" where
  "validating rd tm p w \<longleftrightarrow> \<not> av_completed (vw_ctx w) \<and> av_reactor (vw_ctx w)
     \<and> av_pipe_fd (vw_ctx w) = rd \<and> av_timer_fd (vw_ctx w) = tm \<and> av_child_pid (vw_ctx w) = p
     \<and> closes (vw_events w) = [] \<and> callbacks (vw_events w) = 0
     \<and> child_ok p (av_child_reaped (vw_ctx w)) (vw_events w) \<and> output_fits w"

definition validated :: "fd \<Rightarrow> fd \<Rightarrow> pid \<Rightarrow> validate_world \<Rightarrow> bool" where
  "validated rd tm p w \<longleftrightarrow> av_completed (vw_ctx w) \<and> closes (vw_events w) = [rd, tm] \<and> callbacks (vw_events w) = 1
     \<and> child_settled p (vw_events w) \<and> output_fits w"

lemma cleanup_validated:
  assumes "validating rd tm p w" "validate_cleanup env res out w = Some w'" "0 < p" "fd_in_range rd" "fd_in_range tm"
  shows "validated rd tm p w' \<and> rx_handlers (vw_reactor w') rd = None \<and> rx_handlers (vw_reactor w') tm = None"
proof -
  have fds: "0 \<le> rd" "0 \<le> tm"
    using assms(4,5) by (auto simp: fd_in_range_def)
  define w1 where "w1 = vw_upd (\<lambda>c. c\<lparr>av_completed := True\<rparr>) w"
  define w2 where "w2 = remove_fd tm (remove_fd rd w1)"
  define w3 where "w3 = vw_upd (\<lambda>c. c\<lparr>av_pipe_fd := (if 0 \<le> av_pipe_fd c then -1 else av_pipe_fd c)\<rparr>) (close_fd rd w2)"
  define w4 where "w4 = vw_upd (\<lambda>c. c\<lparr>av_timer_fd := (if 0 \<le> av_timer_fd c then -1 else av_timer_fd c)\<rparr>) (close_fd tm w3)"
  have v: "\<not> av_completed (vw_ctx w)" "av_pipe_fd (vw_ctx w) = rd" "av_timer_fd (vw_ctx w) = tm"
    using assms(1) by (simp_all add: validating_def)
  have "map_option (\<lambda>w5. vw_emit [V_callback (av_callback (vw_ctx w)) res out (av_userdata (vw_ctx w))]
          (vw_upd (\<lambda>c. c\<lparr>av_reactor := False\<rparr>) w5)) (end_child env w4) = Some w'"
    using assms(2) by (simp only: validate_cleanup_def Let_def v w1_def w2_def w3_def w4_def if_False)
  then obtain w5 where w5: "end_child env w4 = Some w5"
    and w': "w' = vw_emit [V_callback (av_callback (vw_ctx w)) res out (av_userdata (vw_ctx w))]
                 (vw_upd (\<lambda>c. c\<lparr>av_reactor := False\<rparr>) w5)"
    by blast
  have w2: "vw_ctx w2 = (vw_ctx w)\<lparr>av_completed := True\<rparr>" "vw_events w2 = vw_events w"
    "rx_handlers (vw_reactor w2) rd = None" "rx_handlers (vw_reactor w2) tm = None"
    using assms(1,4,5) fds
    by (auto simp: w2_def w1_def validating_def remove_fd_handlers_at)
  have w4: "av_child_pid (vw_ctx w4) = p" "child_ok p (av_child_reaped (vw_ctx w4)) (vw_events w4)"
    "closes (vw_events w4) = [rd, tm]" "callbacks (vw_events w4) = 0" "av_completed (vw_ctx w4)" "output_fits w4"
    "vw_reactor w4 = vw_reactor w2"
    using assms(1) fds by (auto simp: w4_def w3_def close_fd_def w2 validating_def output_fits_def child_ok_def)
  show ?thesis
    using end_child_settles [OF w5 w4(1) assms(3) w4(2)] w4 w2 by (auto simp: w' validated_def child_settled_def output_fits_def)
qed

lemma reap_validating:
  assumes "validating rd tm p w" "reap_child b s as w = Some (wr, st, w')" "0 < p"
  shows "validating rd tm p w'"
proof -
  have "av_child_pid (vw_ctx w) = p" "child_ok p (av_child_reaped (vw_ctx w)) (vw_events w)"
    using assms(1) by (auto simp: validating_def)
  then show ?thesis
    using assms(1)
    by - (rule reap_child_cases [OF assms(2) _ assms(3)], auto simp: validating_def output_fits_def)
qed

lemma output_validating: "validating rd tm p w \<Longrightarrow> validating rd tm p (vw_upd (store_output buf) w)"
  by (auto simp: validating_def output_fits_def store_output_def Let_def ASYNC_VALIDATE_OUTPUT_SIZE_def)

lemma kill_validating: "validating rd tm p w \<Longrightarrow> validating rd tm p (vw_emit [V_kill q] w)"
  by (auto simp: validating_def child_ok_def output_fits_def)

text \<open>The outcome of a callback: still running, or finished with both handlers removed.\<close>

definition proceeds :: "fd \<Rightarrow> fd \<Rightarrow> pid \<Rightarrow> validate_world \<Rightarrow> bool" where
  "proceeds rd tm p w \<longleftrightarrow> validating rd tm p w
     \<or> validated rd tm p w \<and> rx_handlers (vw_reactor w) rd = None \<and> rx_handlers (vw_reactor w) tm = None"

lemma io_end_proceeds:
  assumes "validating rd tm p w" "io_end waits env w = Some w'" "0 < p" "fd_in_range rd" "fd_in_range tm"
  shows "proceeds rd tm p w'"
proof -
  obtain wr st w1 where one: "reap_child False True waits w = Some (wr, st, w1)"
    using assms(2) by (auto simp: io_end_def split: option.splits)
  have "validating rd tm p w1"
    by (rule reap_validating [OF assms(1) one assms(3)])
  then show ?thesis
    using assms(2) one cleanup_validated [OF _ _ assms(3-5)]
    by (auto simp: io_end_def proceeds_def Let_def split: if_splits)
qed

lemma io_loop_proceeds:
  assumes "validating rd tm p w" "io_loop reads waits env w = Some w'" "0 < p" "fd_in_range rd" "fd_in_range tm"
  shows "proceeds rd tm p w'"
  using assms
proof (induction reads waits env w rule: io_loop.induct)
  case (2 buf as waits env w)
  then show ?case
    using io_end_proceeds output_validating by (auto split: if_splits)
next
  case (3 e as waits env w)
  then show ?case
    using cleanup_validated [OF _ _ assms(3-5)] by (auto simp: proceeds_def split: if_splits)
qed simp

lemma timeout_kill_validated:
  assumes "validating rd tm p w" "timeout_kill env w = Some w'" "0 < p" "fd_in_range rd" "fd_in_range tm"
  shows "validated rd tm p w' \<and> rx_handlers (vw_reactor w') rd = None \<and> rx_handlers (vw_reactor w') tm = None"
proof -
  define w1 where "w1 = vw_emit [V_kill (av_child_pid (vw_ctx w))] w"
  have w1: "validating rd tm p w1"
    unfolding w1_def by (rule kill_validating [OF assms(1)])
  show ?thesis
  proof (cases "te_kill env \<noteq> None \<and> te_kill env \<noteq> Some ESRCH")
    case True
    then have "validate_cleanup (te_cleanup env) 0 ''timeout kill error'' w1 = Some w'"
      using assms(2) by (simp add: timeout_kill_def w1_def)
    then show ?thesis
      by (rule cleanup_validated [OF w1 _ assms(3-5)])
  next
    case False
    then obtain wr st w2 where two: "reap_child True True (te_block env) w1 = Some (wr, st, w2)"
      and w': "validate_cleanup (te_cleanup env) 0 ''timeout'' w2 = Some w'"
      using assms(2) unfolding timeout_kill_def Let_def w1_def [symmetric] by (auto split: option.splits)
    show ?thesis
      by (rule cleanup_validated [OF reap_validating [OF w1 two assms(3)] w' assms(3-5)])
  qed
qed

lemma timeout_proceeds:
  assumes "validating rd tm p w" "validate_timeout_cb env w = Some w'" "0 < p" "fd_in_range rd" "fd_in_range tm"
  shows "proceeds rd tm p w'"
proof (cases "te_read_ok env")
  case False
  then show ?thesis
    using assms cleanup_validated [OF assms(1) _ assms(3-5)] by (auto simp: validate_timeout_cb_def validating_def proceeds_def)
next
  case True
  then obtain wr st w1 where one: "reap_child False True (te_wait env) w = Some (wr, st, w1)"
    and w': "(if wr = av_child_pid (vw_ctx w1) then Some w1 else timeout_kill env w1) = Some w'"
    using assms(1,2) by (auto simp: validate_timeout_cb_def validating_def split: option.splits)
  then show ?thesis
    using reap_validating [OF assms(1) one assms(3)] timeout_kill_validated [OF _ _ assms(3-5), of w1]
    by (auto simp: proceeds_def split: if_splits)
qed

subsection \<open>Whole runs\<close>

datatype validate_op = V_io "(errno + string) list" "child_answer list" cleanup_env | V_timeout timeout_env | V_manual cleanup_env
  | V_others reactor_t

text \<open>What the event loop and the owner of the validation may do, in any order.  \<open>V_others\<close> is
  whatever other components do to the reactor meanwhile.\<close>

fun validate_perform :: "validate_op \<Rightarrow> validate_world \<Rightarrow> validate_world option" where
  "validate_perform (V_io reads waits env) w = validate_io_cb reads waits env w"
| "validate_perform (V_timeout env) w = validate_timeout_cb env w"
| "validate_perform (V_manual env) w = async_validate_cleanup env w"
| "validate_perform (V_others r) w = Some (w\<lparr>vw_reactor := r\<rparr>)"

inductive validate_run :: "validate_world \<Rightarrow> validate_world \<Rightarrow> bool" for w0 where
  start: "validate_run w0 w0"
| step: "validate_run w0 w \<Longrightarrow> validate_perform op w = Some w' \<Longrightarrow> validate_run w0 w'"

text \<open>A finished validation does nothing any more.\<close>

lemma finished_stays:
  assumes "av_completed (vw_ctx w)" "validate_perform op w = Some w'"
  shows "vw_ctx w' = vw_ctx w \<and> vw_events w' = vw_events w"
  using assms
  by (cases op) (auto simp: validate_io_cb_def validate_timeout_cb_def async_validate_cleanup_def validate_cleanup_def)

lemma others_validating: "validating rd tm p w \<Longrightarrow> validating rd tm p (w\<lparr>vw_reactor := r\<rparr>)"
  by (simp add: validating_def output_fits_def)

lemma perform_proceeds:
  assumes "validating rd tm p w" "validate_perform op w = Some w'" "0 < p" "fd_in_range rd" "fd_in_range tm"
  shows "proceeds rd tm p w'"
proof (cases op)
  case (V_io reads waits env)
  then have "io_loop reads waits env w = Some w'"
    using assms(1,2) by (simp add: validate_io_cb_def validating_def)
  then show ?thesis
    by (rule io_loop_proceeds [OF assms(1) _ assms(3-5)])
next
  case (V_timeout env)
  then show ?thesis
    using timeout_proceeds [OF assms(1) _ assms(3-5)] assms(2) by simp
next
  case (V_manual env)
  then show ?thesis
    using cleanup_validated [OF assms(1) _ assms(3-5)] assms(2) by (auto simp: async_validate_cleanup_def proceeds_def)
next
  case (V_others r)
  then show ?thesis
    using others_validating [OF assms(1)] assms(2) by (auto simp: proceeds_def)
qed

lemma run_validating_or_validated:
  assumes "validate_run w0 w" "validating rd tm p w0" "0 < p" "fd_in_range rd" "fd_in_range tm"
  shows "validating rd tm p w \<or> validated rd tm p w"
  using assms(1)
proof induction
  case start
  then show ?case
    using assms(2) by simp
next
  case (step w op w')
  then show ?case
    using perform_proceeds [OF _ step(2) assms(3-5)] finished_stays [OF _ step(2)]
    by (auto simp: proceeds_def validated_def output_fits_def)
qed

lemma config_starts:
  assumes "async_validate_config env ctx cb ud r = Some (0, w)" "0 < vs_fork env"
  obtains rd wr where "vs_pipe env = Some (rd, wr)" "fd_in_range rd" "fd_in_range (vs_timerfd env)"
    "validating rd (vs_timerfd env) (vs_fork env) (w\<lparr>vw_events := []\<rparr>)"
proof -
  have fail: "validate_fail bl u \<noteq> Some (0, w)" for bl u
    by (auto simp: validate_fail_def Let_def)
  have in_range: "reactor_add_fd a c fd ev f d r' = (0, r'', calls) \<Longrightarrow> fd_in_range fd" for a c fd ev f d r' r'' calls
    by (auto simp: reactor_add_fd_def split: if_splits)
  obtain rd wr where pipe: "vs_pipe env = Some (rd, wr)"
    using assms(1) by (auto simp: async_validate_config_def Let_def split: option.splits)
  obtain rc1 r1 c1 where one: "reactor_add_fd (fst (vs_add_pipe env)) (snd (vs_add_pipe env)) rd REACTOR_EVENT_READ
      (Some Fn_validate_io_cb) (Some ctx) r = (rc1, r1, c1)"
    by (metis prod_cases3)
  obtain rc2 r2 c2 where two: "reactor_add_fd (fst (vs_add_timer env)) (snd (vs_add_timer env)) (vs_timerfd env)
      REACTOR_EVENT_READ (Some Fn_validate_timeout_cb) (Some ctx) r1 = (rc2, r2, c2)"
    by (metis prod_cases3)
  have ok: "0 \<le> vs_timerfd env" "vs_settime_ok env" "rc1 = 0" "rc2 = 0"
    and w: "w = (vw_upd (\<lambda>c. c\<lparr>av_timer_fd := vs_timerfd env\<rparr>) (vw_upd (\<lambda>c. c\<lparr>av_child_pid := vs_fork env, av_pipe_fd := rd\<rparr>)
              (vw_emit [V_close wr] \<lparr>vw_ctx = validate_fresh cb ud, vw_reactor = r, vw_events = []\<rparr>)))\<lparr>vw_reactor := r2\<rparr>"
    using assms pipe one two
    by (auto simp: async_validate_config_def Let_def fail split: if_splits)
  show ?thesis
  proof (rule that [OF pipe])
    show "fd_in_range rd" "fd_in_range (vs_timerfd env)"
      using in_range one two ok by blast+
    show "validating rd (vs_timerfd env) (vs_fork env) (w\<lparr>vw_events := []\<rparr>)"
      by (simp add: w validating_def validate_fresh_def child_ok_def output_fits_def ASYNC_VALIDATE_OUTPUT_SIZE_def)
  qed
qed

text \<open>The kernel answers every call eventually: a wait ends with the child or an error, the reads
  of a non-blocking pipe end with \<open>EAGAIN\<close>, the end of the output or an error.\<close>

definition settles :: "child_answer list \<Rightarrow> bool" where
  "settles as \<longleftrightarrow> (\<exists>a\<in>set as. a \<noteq> C_interrupted \<and> a \<noteq> C_running)"

definition cleanup_settles :: "cleanup_env \<Rightarrow> bool" where
  "cleanup_settles env \<longleftrightarrow> settles (cl_wait env) \<and> settles (cl_block env)"

fun answers_end :: "validate_op \<Rightarrow> bool" where
  "answers_end (V_io reads waits env) \<longleftrightarrow> (\<exists>a\<in>set reads. a \<noteq> Inl EINTR \<and> chunk_of a = []) \<and> settles waits \<and> cleanup_settles env"
| "answers_end (V_timeout env) \<longleftrightarrow> settles (te_wait env) \<and> settles (te_block env) \<and> cleanup_settles (te_cleanup env)"
| "answers_end (V_manual env) \<longleftrightarrow> cleanup_settles env"
| "answers_end (V_others r) \<longleftrightarrow> True"

lemma wait_child_returns: "settles as \<Longrightarrow> wait_child b as \<noteq> None"
proof (induction as)
  case (Cons a as)
  then show ?case
    by (cases "a = C_interrupted \<or> a = C_running"; cases b) (simp_all add: settles_def del: not_None_eq, blast+)
qed (simp add: settles_def)

lemma reap_child_returns: "settles as \<Longrightarrow> reap_child b s as w \<noteq> None"
  using wait_child_returns [of as b] by (simp add: reap_child_def Let_def del: not_None_eq)

lemma cleanup_returns: "cleanup_settles env \<Longrightarrow> validate_cleanup env res out w \<noteq> None"
proof -
  assume "cleanup_settles env"
  then have "end_child env u \<noteq> None" for u
    using reap_child_returns [of "cl_wait env" False False u] reap_child_returns [of "cl_block env" True False]
    by (simp add: end_child_def cleanup_settles_def split: option.splits prod.splits del: not_None_eq)
  then show ?thesis
    by (auto simp: validate_cleanup_def Let_def)
qed

lemma io_end_returns: "settles waits \<Longrightarrow> cleanup_settles env \<Longrightarrow> io_end waits env w \<noteq> None"
  using reap_child_returns [of waits False True w] cleanup_returns [of env]
  by (auto simp: io_end_def Let_def split: option.splits)

lemma io_loop_returns:
  "\<exists>a\<in>set reads. a \<noteq> Inl EINTR \<and> chunk_of a = [] \<Longrightarrow> settles waits \<Longrightarrow> cleanup_settles env \<Longrightarrow> io_loop reads waits env w \<noteq> None"
proof (induction reads waits env w rule: io_loop.induct)
  case (2 buf as waits env w)
  then show ?case
    using io_end_returns [of waits env w] by auto
next
  case (3 e as waits env w)
  then show ?case
    using cleanup_returns [of env 0 "''read error''" w] by auto
qed simp

lemma timeout_returns: "answers_end (V_timeout env) \<Longrightarrow> validate_timeout_cb env w \<noteq> None"
proof -
  assume ends: "answers_end (V_timeout env)"
  have kill: "timeout_kill env u \<noteq> None" for u
    using ends reap_child_returns [of "te_block env" True True] cleanup_returns [of "te_cleanup env"]
    by (simp add: timeout_kill_def Let_def split: option.splits prod.splits del: not_None_eq)
  show ?thesis
    using ends reap_child_returns [of "te_wait env" False True w] cleanup_returns [of "te_cleanup env"] kill
    by (auto simp: validate_timeout_cb_def)
qed

lemma perform_returns: "answers_end op \<Longrightarrow> \<exists>w'. validate_perform op w = Some w'"
proof (cases op)
  case (V_io reads waits env)
  then show "answers_end op \<Longrightarrow> ?thesis"
    using io_loop_returns [of reads waits env w] by (auto simp: validate_io_cb_def)
next
  case (V_timeout env)
  then show "answers_end op \<Longrightarrow> ?thesis"
    using timeout_returns [of env w] by auto
next
  case (V_manual env)
  then show "answers_end op \<Longrightarrow> ?thesis"
    using cleanup_returns [of env "-1" "''manual cleanup''" w] by (auto simp: async_validate_cleanup_def)
qed simp

definition once_contract :: "fd \<Rightarrow> fd \<Rightarrow> pid \<Rightarrow> validate_world \<Rightarrow> bool" where
  "once_contract rd tm p w \<longleftrightarrow> output_fits w \<and>
     (if av_completed (vw_ctx w)
      then closes (vw_events w) = [rd, tm] \<and> callbacks (vw_events w) = 1 \<and> child_settled p (vw_events w)
      else closes (vw_events w) = [] \<and> callbacks (vw_events w) = 0 \<and> reaps (vw_events w) \<le> 1)"

lemma once_contractI: "validating rd tm p w \<or> validated rd tm p w \<Longrightarrow> once_contract rd tm p w"
  by (auto simp: once_contract_def validating_def validated_def child_ok_def split: if_splits)

text \<open>C37: the "cleanup once contract" of the asynchronous check.  After a successful start, whatever
  the child does and in whatever order the event loop and the owner call in, every call returns
  once the kernel has answered; until the check is finished no descriptor is closed and nobody is
  told; when it is finished the pipe and the timer have been closed once each and are no longer
  watched, the callback has been called once, and the child was reaped once unless the kernel
  refused the wait.  A finished check does nothing any more; the output fits its buffer.\<close>

theorem validate_cleanup_once:
  assumes "async_validate_config env ctx cb ud r = Some (0, w0)" "0 < vs_fork env"
    "validate_run (w0\<lparr>vw_events := []\<rparr>) w" "answers_end op"
  shows "\<exists>rd wr w'. vs_pipe env = Some (rd, wr) \<and> validate_perform op w = Some w'
    \<and> once_contract rd (vs_timerfd env) (vs_fork env) w \<and> once_contract rd (vs_timerfd env) (vs_fork env) w'
    \<and> (if av_completed (vw_ctx w) then vw_ctx w' = vw_ctx w \<and> vw_events w' = vw_events w
       else \<not> av_completed (vw_ctx w')
         \<or> rx_handlers (vw_reactor w') rd = None \<and> rx_handlers (vw_reactor w') (vs_timerfd env) = None)"
proof -
  obtain rd wr where pipe: "vs_pipe env = Some (rd, wr)" and fds: "fd_in_range rd" "fd_in_range (vs_timerfd env)"
    and start: "validating rd (vs_timerfd env) (vs_fork env) (w0\<lparr>vw_events := []\<rparr>)"
    by (rule config_starts [OF assms(1,2)])
  obtain w' where w': "validate_perform op w = Some w'"
    using perform_returns [OF assms(4)] by blast
  have here: "validating rd (vs_timerfd env) (vs_fork env) w \<or> validated rd (vs_timerfd env) (vs_fork env) w"
    by (rule run_validating_or_validated [OF assms(3) start assms(2) fds])
  have there: "validating rd (vs_timerfd env) (vs_fork env) w' \<or> validated rd (vs_timerfd env) (vs_fork env) w'"
    by (rule run_validating_or_validated [OF validate_run.step [OF assms(3) w'] start assms(2) fds])
  have "\<not> av_completed (vw_ctx w) \<Longrightarrow> proceeds rd (vs_timerfd env) (vs_fork env) w'"
    using here perform_proceeds [OF _ w' assms(2) fds] by (auto simp: validated_def)
  then have "if av_completed (vw_ctx w) then vw_ctx w' = vw_ctx w \<and> vw_events w' = vw_events w
       else \<not> av_completed (vw_ctx w')
         \<or> rx_handlers (vw_reactor w') rd = None \<and> rx_handlers (vw_reactor w') (vs_timerfd env) = None"
    using finished_stays [OF _ w'] by (auto simp: proceeds_def validating_def)
  then show ?thesis
    using pipe w' once_contractI [OF here] once_contractI [OF there] by blast
qed

text \<open>A check whose child prints a line and exits well.\<close>

definition sample_start :: validate_start_env where
  "sample_start = \<lparr>vs_pipe = Some (5, 6), vs_fork = 100, vs_timerfd = 6, vs_settime_ok = True,
     vs_add_pipe = (True, True), vs_add_timer = (True, True), vs_block = []\<rparr>"

definition sample_validation :: validate_world where
  "sample_validation = snd (the (async_validate_config sample_start 7 1 None reactor_zero))"

definition sample_end :: validate_op where
  "sample_end = V_io [Inr ''ok'', Inr []] [C_interrupted, C_exited (Exited 0)]
     \<lparr>cl_wait = [C_failed ECHILD], cl_kill = None, cl_block = [C_failed ECHILD]\<rparr>"

lemma sample_validation_starts: "async_validate_config sample_start 7 1 None reactor_zero = Some (0, sample_validation)"
proof -
  have "map_option fst (async_validate_config sample_start 7 1 None reactor_zero) = Some 0"
    by (simp add: sample_start_def async_validate_config_def Let_def reactor_add_fd_def fd_in_range_def REACTOR_MAX_FD_def
        reactor_zero_def)
  then show ?thesis
    by (auto simp: sample_validation_def)
qed

theorem validate_cleanup_once_witness:
  "\<exists>w'. validate_perform sample_end (sample_validation\<lparr>vw_events := []\<rparr>) = Some w' \<and> once_contract 5 6 100 w'"
proof -
  have "0 < vs_fork sample_start" "answers_end sample_end"
    by (simp_all add: sample_start_def sample_end_def settles_def cleanup_settles_def)
  then show ?thesis
    using validate_cleanup_once [OF sample_validation_starts _ validate_run.start, of sample_end]
    by (auto simp: sample_start_def)
qed

end
