(* ===== verification/Atpd_Init.thy ===== *)
theory Atpd_Init
  imports Service Api Cli Config
begin

text \<open>
  \<open>src/atpd_init.c\<close>: the daemon comes up in phases.  Each phase has a handler, most have a cleanup,
  and only the native API is optional.  When a required phase fails, the phases that were completed
  are cleaned up in reverse order.

  The context of the initialization is one record together with the state that its phases set up:
  the supervisor, the network observer and the runtime context (\<open>ic_svc\<close>).  A NULL reactor is
  \<open>None\<close>.  What the logger is told is recorded in the trace.
\<close>

unbundle bit_operations_syntax

datatype init_phase_t = INIT_PHASE_CONFIG | INIT_PHASE_LOGGER | INIT_PHASE_REACTOR | INIT_PHASE_NETLINK
  | INIT_PHASE_SERVICE | INIT_PHASE_API | INIT_PHASE_READY

fun phase_no :: "init_phase_t \<Rightarrow> nat" where
  "phase_no INIT_PHASE_CONFIG = 0"
| "phase_no INIT_PHASE_LOGGER = 1"
| "phase_no INIT_PHASE_REACTOR = 2"
| "phase_no INIT_PHASE_NETLINK = 3"
| "phase_no INIT_PHASE_SERVICE = 4"
| "phase_no INIT_PHASE_API = 5"
| "phase_no INIT_PHASE_READY = 6"

definition INIT_PHASE_MAX :: nat where "INIT_PHASE_MAX = 7"

datatype log_level_t = LOG_LEVEL_ERROR | LOG_LEVEL_INFO | LOG_LEVEL_DEBUG

datatype init_event = I_log_file string | I_log_level log_level_t | I_log_no_color | I_mkdir "string list"
  | I_close "fd list" | I_cleanup init_phase_t

record atpd_init_context_t =
  ic_config :: atp_config_t
  ic_config_loaded :: bool
  ic_reactor :: "reactor_t option"
  ic_service :: bool
  ic_api :: api_ctx_t
  ic_opts :: atp_options_t
  ic_completed_phases :: u32
  ic_degraded_phases :: u32
  ic_service_api :: bool
  ic_svc :: svc_world
  ic_trace :: "init_event list"

record init_phase_config_t =
  ph_phase :: init_phase_t
  ph_name :: string
  ph_handler :: "atpd_init_context_t \<Rightarrow> (int \<times> atpd_init_context_t) option"
  ph_cleanup :: "(atpd_init_context_t \<Rightarrow> atpd_init_context_t option) option"
  ph_required :: bool

text \<open>What the system answers during the initialization.\<close>

record init_env =
  ie_readable :: "string \<Rightarrow> bool"
  ie_conf :: config_env
  ie_file :: "string \<Rightarrow> conf_file option"
  ie_create :: create_env
  ie_nl_sync :: "fd \<times> bool"
  ie_nl_async :: "fd \<times> bool"
  ie_nl_add :: "bool \<times> bool"
  ie_xfrm_sock :: "fd \<times> bool"
  ie_xfrm_add :: "bool \<times> bool"
  ie_malloc :: bool
  ie_calloc :: bool
  ie_locks :: "bool \<times> bool"
  ie_api_start :: api_start_env

definition ic_emit :: "init_event list \<Rightarrow> atpd_init_context_t \<Rightarrow> atpd_init_context_t" where
  "ic_emit es ctx = ctx\<lparr>ic_trace := ic_trace ctx @ es\<rparr>"

text \<open>An operation on the reactor; a NULL reactor is not there to be changed.\<close>

definition reactor_of :: "atpd_init_context_t \<Rightarrow> reactor_t" where
  "reactor_of ctx = (case ic_reactor ctx of None \<Rightarrow> reactor_zero | Some r \<Rightarrow> r)"

definition put_reactor :: "reactor_t \<Rightarrow> atpd_init_context_t \<Rightarrow> atpd_init_context_t" where
  "put_reactor r ctx = ctx\<lparr>ic_reactor := map_option (\<lambda>_. r) (ic_reactor ctx)\<rparr>"

subsection \<open>Cleanups\<close>

definition cleanup_reactor :: "atpd_init_context_t \<Rightarrow> atpd_init_context_t option" where
  "cleanup_reactor ctx =
     (case ic_reactor ctx of
        None \<Rightarrow> Some ctx
      | Some r \<Rightarrow> Some (ic_emit (case reactor_destroy r of None \<Rightarrow> [] | Some (_, fds) \<Rightarrow> [I_close fds]) (ctx\<lparr>ic_reactor := None\<rparr>)))"

definition cleanup_netlink :: "atpd_init_context_t \<Rightarrow> atpd_init_context_t option" where
  "cleanup_netlink ctx =
     map_option (\<lambda>((r, nl), fds). ic_emit [I_close fds] (put_reactor r (ctx\<lparr>ic_svc := (ic_svc ctx)\<lparr>sw_nl := nl\<rparr>\<rparr>)))
       (netlink_cleanup (reactor_of ctx, sw_nl (ic_svc ctx)))"

text \<open>\<open>service_destroy\<close> stops the supervisor and frees its context.\<close>

definition destroy_service :: "atpd_init_context_t \<Rightarrow> atpd_init_context_t option" where
  "destroy_service ctx =
     map_option (\<lambda>(_, r, u). put_reactor r (ctx\<lparr>ic_svc := u, ic_service := False\<rparr>))
       (service_stop_sync (reactor_of ctx, ic_svc ctx))"

definition cleanup_service :: "atpd_init_context_t \<Rightarrow> atpd_init_context_t option" where
  "cleanup_service ctx = (if ic_service ctx then destroy_service ctx else Some ctx)"

definition set_vpn_mode_callback :: "code_ptr option \<Rightarrow> data_ptr option \<Rightarrow> atpd_init_context_t \<Rightarrow> atpd_init_context_t" where
  "set_vpn_mode_callback cb ud ctx =
     ctx\<lparr>ic_svc := (ic_svc ctx)\<lparr>sw_vpn := atpd_set_vpn_mode_callback cb ud (sw_vpn (ic_svc ctx))\<rparr>\<rparr>"

definition cleanup_api_ctx :: "atpd_init_context_t \<Rightarrow> atpd_init_context_t" where
  "cleanup_api_ctx ctx =
     (case api_cleanup (ic_api ctx) (reactor_of ctx) of
        (a, r, fds) \<Rightarrow> ic_emit [I_close fds] (put_reactor r (ctx\<lparr>ic_api := a\<rparr>)))"

definition cleanup_api :: "atpd_init_context_t \<Rightarrow> atpd_init_context_t option" where
  "cleanup_api ctx = Some (cleanup_api_ctx (set_vpn_mode_callback None None (ctx\<lparr>ic_service_api := False\<rparr>)))"

subsection \<open>Handlers\<close>

definition init_config_path :: "atpd_init_context_t \<Rightarrow> string option" where
  "init_config_path ctx =
     (if op_config_file (ic_opts ctx) \<noteq> [] then Some (op_config_file (ic_opts ctx))
      else format_path PATH_MAX (data_dir (cfg_core (ic_config ctx)) @ ''/'' @ ATP_CONF_FILE))"

definition atpd_init_phase_config :: "init_env \<Rightarrow> atpd_init_context_t \<Rightarrow> (int \<times> atpd_init_context_t) option" where
  "atpd_init_phase_config env ctx =
     (if ic_config_loaded ctx then Some (0, ctx)
      else case init_config_path ctx of
        None \<Rightarrow> Some (-1, ctx)
      | Some path \<Rightarrow>
          (if ie_readable env path then
             (case config_load (ie_conf env) (ie_file env path) (ic_config ctx) of
                (rc, cfg) \<Rightarrow>
                  (if rc \<noteq> ATP_OK then Some (-1, ctx\<lparr>ic_config := cfg\<rparr>)
                   else Some (0, ctx\<lparr>ic_config := cfg, ic_config_loaded := True\<rparr>)))
           else if op_config_file (ic_opts ctx) \<noteq> [] then Some (-1, ctx)
           else Some (0, ctx\<lparr>ic_config_loaded := True\<rparr>)))"

definition log_path_of :: "atp_config_t \<Rightarrow> string option" where
  "log_path_of cfg =
     (let f = log_file (cfg_core cfg) in
      if hd f = CHR ''/'' then Some (c_trunc PATH_MAX f)
      else format_path PATH_MAX ((if data_dir (cfg_core cfg) \<noteq> [] then data_dir (cfg_core cfg) else ''.'') @ ''/'' @ f))"

text \<open>The directory of a path: what precedes its last slash.\<close>

definition dir_of :: "string \<Rightarrow> string option" where
  "dir_of path = (if CHR ''/'' \<in> set path then Some (rev (tl (dropWhile (\<lambda>c. c \<noteq> CHR ''/'') (rev path)))) else None)"

definition logger_options :: "atp_options_t \<Rightarrow> init_event list" where
  "logger_options opts =
     I_log_level (case op_verbosity opts of CLI_VERBOSITY_VERBOSE \<Rightarrow> LOG_LEVEL_DEBUG | CLI_VERBOSITY_QUIET \<Rightarrow> LOG_LEVEL_ERROR
                    | CLI_VERBOSITY_DEFAULT \<Rightarrow> LOG_LEVEL_INFO)
     # (if op_no_color opts then [I_log_no_color] else [])"

definition atpd_init_phase_logger :: "init_env \<Rightarrow> atpd_init_context_t \<Rightarrow> (int \<times> atpd_init_context_t) option" where
  "atpd_init_phase_logger env ctx =
     (let opts = logger_options (ic_opts ctx) in
      if log_file (cfg_core (ic_config ctx)) = [] then Some (0, ic_emit opts ctx)
      else case log_path_of (ic_config ctx) of
        None \<Rightarrow> Some (-1, ctx)
      | Some path \<Rightarrow>
          (case dir_of path of
             None \<Rightarrow> Some (0, ic_emit (I_log_file path # opts) ctx)
           | Some dir \<Rightarrow>
               (let k = os_now (ic_svc ctx);
                    ctx1 = ic_emit [I_mkdir (snd (mkdir_recursive (os_mkdir k) (os_isdir k) dir))] (ctx\<lparr>ic_svc := tick (ic_svc ctx)\<rparr>)
                in if mkdir_fails k dir then Some (-1, ctx1)
                   else Some (0, ic_emit (I_log_file path # opts) ctx1))))"

definition atpd_init_phase_reactor :: "init_env \<Rightarrow> atpd_init_context_t \<Rightarrow> (int \<times> atpd_init_context_t) option" where
  "atpd_init_phase_reactor env ctx =
     (if ic_reactor ctx \<noteq> None then Some (-1, ctx)
      else case reactor_create (ie_create env) of
        Inl fds \<Rightarrow> Some (-1, ic_emit [I_close fds] ctx)
      | Inr r \<Rightarrow> Some (0, ctx\<lparr>ic_reactor := Some r\<rparr>))"

definition put_nl :: "reactor_t \<times> nl_state \<Rightarrow> atpd_init_context_t \<Rightarrow> atpd_init_context_t" where
  "put_nl w ctx = put_reactor (fst w) (ctx\<lparr>ic_svc := (ic_svc ctx)\<lparr>sw_nl := snd w\<rparr>\<rparr>)"

text \<open>The user data of the network observer is the configuration.\<close>

definition CONFIG_PTR :: data_ptr where "CONFIG_PTR = 1"

definition atpd_init_phase_netlink :: "init_env \<Rightarrow> atpd_init_context_t \<Rightarrow> (int \<times> atpd_init_context_t) option" where
  "atpd_init_phase_netlink env ctx =
     (case netlink_init None (Some CONFIG_PTR) (ie_nl_sync env) (ie_nl_async env) (sw_nl (ic_svc ctx)) of
        (rc, nl, fds) \<Rightarrow>
          (let ctx1 = ic_emit [I_close fds] (ctx\<lparr>ic_svc := (ic_svc ctx)\<lparr>sw_nl := nl\<rparr>\<rparr>) in
           if rc < 0 then Some (-1, ctx1)
           else case ic_reactor ctx1 of
             None \<Rightarrow> map_option (Pair (-1)) (cleanup_netlink ctx1)
           | Some r \<Rightarrow>
               (let w = netlink_set_reactor True (ie_nl_add env) (r, nl) in
                case netlink_xfrm_init True (ie_xfrm_sock env) (ie_xfrm_add env) w of
                  (fd, w1, fds1) \<Rightarrow>
                    (let ctx2 = ic_emit [I_close fds1] (put_nl w1 ctx1) in
                     if fd < 0 then map_option (Pair (-1)) (cleanup_netlink ctx2) else Some (0, ctx2)))))"

definition atpd_init_phase_service :: "init_env \<Rightarrow> atpd_init_context_t \<Rightarrow> (int \<times> atpd_init_context_t) option" where
  "atpd_init_phase_service env ctx =
     (if \<not> ie_malloc env then Some (-1, ctx\<lparr>ic_service := False\<rparr>)
      else case service_init (ie_calloc env) (ic_config ctx) of
        (rc, c) \<Rightarrow>
          (let ctx1 = ctx\<lparr>ic_svc := (ic_svc ctx)\<lparr>sw_ctx := c\<rparr>, ic_service := True, ic_service_api := False\<rparr> in
           if rc < 0 then map_option (Pair (-1)) (destroy_service ctx1)
           else case ic_reactor ctx1 of
             None \<Rightarrow> map_option (Pair (-1)) (destroy_service ctx1)
           | Some r \<Rightarrow>
               (case service_set_reactor True (r, ic_svc ctx1) of
                  None \<Rightarrow> None
                | Some (rc2, r1, u1) \<Rightarrow>
                    (let ctx2 = put_reactor r1 (ctx1\<lparr>ic_svc := u1\<rparr>) in
                     if rc2 < 0 then map_option (Pair (-1)) (destroy_service ctx2) else Some (0, ctx2)))))"

text \<open>The VPN observer of the daemon and its argument.\<close>

definition VPN_MODE_CB :: code_ptr where "VPN_MODE_CB = 1"
definition API_PTR :: data_ptr where "API_PTR = 2"

definition atpd_init_phase_api :: "init_env \<Rightarrow> atpd_init_context_t \<Rightarrow> (int \<times> atpd_init_context_t) option" where
  "atpd_init_phase_api env ctx =
     (case api_init (fst (ie_locks env)) (snd (ie_locks env)) (ic_config ctx) of
        (rc, a) \<Rightarrow>
          (let ctx1 = ctx\<lparr>ic_api := a\<rparr> in
           if rc < 0 then Some (-1, cleanup_api_ctx ctx1)
           else
             (let ctx2 = set_vpn_mode_callback (Some VPN_MODE_CB) (Some API_PTR) ctx1 in
              case ic_reactor ctx2 of
                None \<Rightarrow> Some (-1, cleanup_api_ctx (set_vpn_mode_callback None None ctx2))
              | Some r \<Rightarrow>
                  (case api_start_with_reactor (ie_api_start env) (ic_api ctx2) r of
                     (rc2, a2, r2, fds) \<Rightarrow>
                       (let ctx3 = ic_emit [I_close fds] (put_reactor r2 (ctx2\<lparr>ic_api := a2\<rparr>)) in
                        if rc2 < 0 then Some (-1, cleanup_api_ctx (set_vpn_mode_callback None None ctx3))
                        else Some (0, ctx3\<lparr>ic_service_api := ic_service ctx3\<rparr>))))))"

definition atpd_init_phase_ready :: "atpd_init_context_t \<Rightarrow> (int \<times> atpd_init_context_t) option" where
  "atpd_init_phase_ready ctx = Some (0, ctx)"

subsection \<open>The table and the loops\<close>

definition init_phases :: "init_env \<Rightarrow> init_phase_config_t list" where
  "init_phases env =
     [\<lparr>ph_phase = INIT_PHASE_CONFIG, ph_name = ''config'', ph_handler = atpd_init_phase_config env, ph_cleanup = None, ph_required = True\<rparr>,
      \<lparr>ph_phase = INIT_PHASE_LOGGER, ph_name = ''logger'', ph_handler = atpd_init_phase_logger env, ph_cleanup = None, ph_required = True\<rparr>,
      \<lparr>ph_phase = INIT_PHASE_REACTOR, ph_name = ''reactor'', ph_handler = atpd_init_phase_reactor env, ph_cleanup = Some cleanup_reactor, ph_required = True\<rparr>,
      \<lparr>ph_phase = INIT_PHASE_NETLINK, ph_name = ''netlink'', ph_handler = atpd_init_phase_netlink env, ph_cleanup = Some cleanup_netlink, ph_required = True\<rparr>,
      \<lparr>ph_phase = INIT_PHASE_SERVICE, ph_name = ''service'', ph_handler = atpd_init_phase_service env, ph_cleanup = Some cleanup_service, ph_required = True\<rparr>,
      \<lparr>ph_phase = INIT_PHASE_API, ph_name = ''api'', ph_handler = atpd_init_phase_api env, ph_cleanup = Some cleanup_api, ph_required = False\<rparr>,
      \<lparr>ph_phase = INIT_PHASE_READY, ph_name = ''ready'', ph_handler = atpd_init_phase_ready, ph_cleanup = None, ph_required = True\<rparr>]"

definition phase_bit :: "nat \<Rightarrow> u32" where
  "phase_bit i = push_bit i 1"

text \<open>The loop of the initialization: the phase that failed (\<open>None\<close>: all done) and the context.\<close>

fun init_loop :: "init_phase_config_t list \<Rightarrow> atpd_init_context_t \<Rightarrow> (init_phase_t option \<times> atpd_init_context_t) option" where
  "init_loop [] ctx = Some (None, ctx)"
| "init_loop (p # ps) ctx =
     (case ph_handler p ctx of
        None \<Rightarrow> None
      | Some (rc, ctx1) \<Rightarrow>
          (if rc \<noteq> 0 then
             (if ph_required p then Some (Some (ph_phase p), ctx1)
              else init_loop ps (ctx1\<lparr>ic_degraded_phases := ic_degraded_phases ctx1 OR phase_bit (phase_no (ph_phase p))\<rparr>))
           else init_loop ps (ctx1\<lparr>ic_completed_phases := ic_completed_phases ctx1 OR phase_bit (phase_no (ph_phase p))\<rparr>)))"

text \<open>The rollback goes down from index \<open>i - 1\<close>.\<close>

fun rollback_loop :: "init_phase_config_t list \<Rightarrow> nat \<Rightarrow> atpd_init_context_t \<Rightarrow> atpd_init_context_t option" where
  "rollback_loop table 0 ctx = Some ctx"
| "rollback_loop table (Suc i) ctx =
     (if ic_completed_phases ctx AND phase_bit i = 0 then rollback_loop table i ctx
      else case (case ph_cleanup (table ! i) of
                   None \<Rightarrow> Some ctx
                 | Some f \<Rightarrow> f (ic_emit [I_cleanup (ph_phase (table ! i))] ctx)) of
        None \<Rightarrow> None
      | Some ctx1 \<Rightarrow> rollback_loop table i (ctx1\<lparr>ic_completed_phases := ic_completed_phases ctx1 AND NOT (phase_bit i)\<rparr>))"

definition atpd_init_rollback :: "init_phase_config_t list \<Rightarrow> atpd_init_context_t \<Rightarrow> atpd_init_context_t option" where
  "atpd_init_rollback table ctx = rollback_loop table (length table) ctx"

definition atpd_init_run :: "init_phase_config_t list \<Rightarrow> atpd_init_context_t \<Rightarrow> (int \<times> atpd_init_context_t) option" where
  "atpd_init_run table ctx =
     (case init_loop table (ctx\<lparr>ic_completed_phases := 0, ic_degraded_phases := 0\<rparr>) of
        None \<Rightarrow> None
      | Some (None, ctx1) \<Rightarrow> Some (0, ctx1)
      | Some (Some _, ctx1) \<Rightarrow> map_option (Pair (-1)) (atpd_init_rollback table ctx1))"

end
