(* ===== verification/Daemon.thy ===== *)
theory Daemon
  imports Atpd_Init Uds Pid_File
begin

text \<open>
  \<open>src/main.c\<close>: the daemon as the composition of its components.  \<open>daemon\<close> has the file's static
  variables; the supervisor with the network observer and the runtime context is \<open>dm_svc\<close>, the
  command socket with the sessions and the reactor is \<open>dm_uds\<close>.  The reactor and the runtime
  context exist once: an operation of a component gets them through \<open>svc_of\<close> and \<open>uds_of\<close> and gives
  them back.

  The main loop is a sequence of callbacks in any order.  Those of \<open>main.c\<close> and of the command
  socket are the operations of this development; \<open>Cb_other\<close> stands for the callbacks of the other
  components, which may leave any state of sessions, supervisor and network observer.
\<close>

unbundle bit_operations_syntax

definition DAEMON_PARENT_SUCCESS :: int where "DAEMON_PARENT_SUCCESS = 1"
definition DAEMON_PARENT_FAILURE :: int where "DAEMON_PARENT_FAILURE = 2"

definition SIGCHLD :: int where "SIGCHLD = 17"
definition SIGUSR1 :: int where "SIGUSR1 = 10"

definition ST_INITIALIZING :: int where "ST_INITIALIZING = 1"
definition ST_RUNNING :: int where "ST_RUNNING = 2"
definition ST_RELOADING :: int where "ST_RELOADING = 3"
definition ST_STOPPING :: int where "ST_STOPPING = 4"
definition ST_STOPPED :: int where "ST_STOPPED = 5"
definition ST_FAILED :: int where "ST_FAILED = 6"

text \<open>A startup message carries its status; \<open>D_notify\<close> is a message that was written.\<close>

datatype daemon_event = D_notify nat | D_close fd | D_unlink string | D_status bool | D_timezone | D_loop | D_free "free_call list"
  | D_pid "pid_event list" | D_init "init_event list" | D_svc "svc_event list" | D_print string | D_usage | D_version

record daemon =
  dm_config :: atp_config_t
  dm_api :: api_ctx_t
  dm_config_path :: string
  dm_reactor :: bool
  dm_service :: bool
  dm_shutdown_requested :: bool
  dm_reload_requested :: bool
  dm_status_requested :: bool
  dm_pid_fd :: fd
  dm_notify_fd :: fd
  dm_notified :: bool
  dm_uds :: uds_world
  dm_svc :: svc_world
  dm_trace :: "daemon_event list"

definition dm_emit :: "daemon_event list \<Rightarrow> daemon \<Rightarrow> daemon" where
  "dm_emit es d = d\<lparr>dm_trace := dm_trace d @ es\<rparr>"

subsection \<open>Shared state\<close>

definition dm_r :: "daemon \<Rightarrow> reactor_t" where
  "dm_r d = ud_reactor (dm_uds d)"

definition put_r :: "reactor_t \<Rightarrow> daemon \<Rightarrow> daemon" where
  "put_r r d = d\<lparr>dm_uds := set_reactor r (dm_uds d)\<rparr>"

definition dm_runtime :: "daemon \<Rightarrow> atpd_context" where
  "dm_runtime d = sw_vpn (dm_svc d)"

definition put_runtime :: "atpd_context \<Rightarrow> daemon \<Rightarrow> daemon" where
  "put_runtime c d = d\<lparr>dm_svc := (dm_svc d)\<lparr>sw_vpn := c\<rparr>\<rparr>"

definition svc_of :: "daemon \<Rightarrow> svc" where
  "svc_of d = (dm_r d, dm_svc d)"

definition put_svc :: "svc \<Rightarrow> daemon \<Rightarrow> daemon" where
  "put_svc w d = put_r (fst w) (d\<lparr>dm_svc := snd w\<rparr>)"

definition uds_of :: "daemon \<Rightarrow> uds_world" where
  "uds_of d = (dm_uds d)\<lparr>ud_runtime := dm_runtime d, ud_shutdown_flag := dm_shutdown_requested d\<rparr>"

definition put_uds :: "uds_world \<Rightarrow> daemon \<Rightarrow> daemon" where
  "put_uds w d = put_runtime (ud_runtime w) (d\<lparr>dm_uds := w, dm_shutdown_requested := ud_shutdown_flag w\<rparr>)"

definition put_sessions :: "session_world \<Rightarrow> daemon \<Rightarrow> daemon" where
  "put_sessions s d = d\<lparr>dm_uds := (dm_uds d)\<lparr>ud_sessions := s\<rparr>\<rparr>"

definition runtime_to :: "int \<Rightarrow> daemon \<Rightarrow> int \<times> daemon" where
  "runtime_to s d = (case atpd_runtime_state_transition s (dm_runtime d) of (rc, c) \<Rightarrow> (rc, put_runtime c d))"

subsection \<open>Telling the parent\<close>

text \<open>\<open>written\<close>: the message is written completely (the call is repeated while it is interrupted).\<close>

definition notify_startup :: "bool \<Rightarrow> int \<Rightarrow> daemon \<Rightarrow> daemon" where
  "notify_startup written result d =
     (if dm_notified d \<or> dm_notify_fd d < 0 then d
      else (dm_emit ((if written then [D_notify (if result = 0 then 0 else 1)] else []) @ [D_close (dm_notify_fd d)]) d)
             \<lparr>dm_notify_fd := -1, dm_notified := True\<rparr>)"

text \<open>What the first process learns: the answers of \<open>read\<close> are a message with its status and
  process id, a short read, or an error.\<close>

datatype message_read = M_message nat pid | M_short | M_error errno

fun await_message :: "message_read list \<Rightarrow> (int \<times> pid) option" where
  "await_message [] = None"
| "await_message (M_error e # as) = (if e = EINTR then await_message as else Some (DAEMON_PARENT_FAILURE, 0))"
| "await_message (M_short # as) = Some (DAEMON_PARENT_FAILURE, 0)"
| "await_message (M_message s p # as) =
     Some (if s = 0 \<and> 0 < p then (DAEMON_PARENT_SUCCESS, p) else (DAEMON_PARENT_FAILURE, 0))"

text \<open>The processes that leave \<open>daemonize\<close>: the caller with a return value, a process that exits,
  and the daemon.  Its umask and the redirection of its standard streams are left out.\<close>

datatype daemon_role = Role_returns int pid | Role_exits int | Role_daemon

record daemonize_env =
  dz_pipe :: "(fd \<times> fd) option"
  dz_fork :: pid
  dz_read :: "message_read list"
  dz_setsid_ok :: bool
  dz_fork2 :: pid
  dz_written :: bool

definition daemonize :: "daemonize_env \<Rightarrow> daemon \<Rightarrow> (daemon_role \<times> daemon) option" where
  "daemonize env d =
     (case dz_pipe env of
        None \<Rightarrow> Some (Role_returns (-1) 0, d)
      | Some (rd, wr) \<Rightarrow>
          (if dz_fork env < 0 then Some (Role_returns (-1) 0, dm_emit [D_close rd, D_close wr] d)
           else if 0 < dz_fork env then
             map_option (\<lambda>(rc, p). (Role_returns rc p, dm_emit [D_close wr, D_close rd] d)) (await_message (dz_read env))
           else
             (let d1 = (dm_emit [D_close rd] d)\<lparr>dm_notify_fd := wr\<rparr> in
              if \<not> dz_setsid_ok env then Some (Role_exits 1, notify_startup (dz_written env) 1 d1)
              else if dz_fork2 env < 0 then Some (Role_exits 1, notify_startup (dz_written env) 1 d1)
              else if 0 < dz_fork2 env then Some (Role_exits 0, d1)
              else Some (Role_daemon, d1))))"

subsection \<open>Signals\<close>

definition on_signal :: "int \<Rightarrow> daemon \<Rightarrow> daemon option" where
  "on_signal sig d =
     (if sig = SIGCHLD then
        (if dm_service d then map_option (\<lambda>w. put_svc w d) (service_sigchld_cb (svc_of d)) else Some d)
      else if sig = SIGHUP then Some (d\<lparr>dm_reload_requested := True\<rparr>)
      else if sig = SIGUSR1 then Some (d\<lparr>dm_status_requested := True\<rparr>)
      else
        (let d1 = snd (runtime_to ST_STOPPING (d\<lparr>dm_shutdown_requested := True\<rparr>))
         in Some (put_r (reactor_stop (dm_r d1)) d1)))"

subsection \<open>Reloading\<close>

definition reload_return_to_running_or_shutdown :: "daemon \<Rightarrow> daemon" where
  "reload_return_to_running_or_shutdown d =
     (case runtime_to ST_RUNNING d of
        (rc, d1) \<Rightarrow>
          (if rc = 0 then d1
           else
             (let d2 = d1\<lparr>dm_shutdown_requested := True\<rparr>
              in if dm_reactor d2 then put_r (reactor_stop (dm_r d2)) d2 else d2)))"

text \<open>The file at the configuration path, whether it exists, and the rest of the system.\<close>

record idle_env =
  id_conf :: config_env
  id_exists :: bool
  id_file :: "conf_file option"

definition apply_reload :: "atp_config_t \<Rightarrow> daemon \<Rightarrow> daemon option" where
  "apply_reload candidate d =
     (case config_classify_reload (dm_config d) candidate 512 of
        (changes, _) \<Rightarrow>
          (if changes AND CONFIG_RELOAD_CHANGE_REQUIRES_RESTART \<noteq> 0 then Some (reload_return_to_running_or_shutdown d)
           else case (if dm_service d then map_option (\<lambda>(rc, w). (rc, put_svc w d)) (service_apply_config candidate (svc_of d))
                      else Some (0, d)) of
             None \<Rightarrow> None
           | Some (rc, d1) \<Rightarrow>
               (if rc < 0 then Some (reload_return_to_running_or_shutdown d1)
                else Some (reload_return_to_running_or_shutdown (dm_emit [D_timezone] (d1\<lparr>dm_config := candidate\<rparr>))))))"

definition process_reload :: "idle_env \<Rightarrow> daemon \<Rightarrow> daemon option" where
  "process_reload env d =
     (let d0 = d\<lparr>dm_reload_requested := False\<rparr> in
      if dm_shutdown_requested d0 \<or> \<not> atpd_runtime_can_reload (dm_runtime d0) then Some d0
      else case runtime_to ST_RELOADING d0 of
        (rc, d1) \<Rightarrow>
          (if rc \<noteq> 0 then Some d1
           else case config_prepare_reload (id_conf env) (id_exists env) (dm_config_path d1) (id_file env) (dm_config d1) of
             (rc2, candidate) \<Rightarrow>
               (if rc2 \<noteq> ATP_OK then Some (reload_return_to_running_or_shutdown d1) else apply_reload candidate d1)))"

definition on_idle :: "idle_env \<Rightarrow> daemon \<Rightarrow> daemon option" where
  "on_idle env d = do {
     s \<leftarrow> atpd_session_gc_process (ud_sessions (dm_uds d));
     let d1 = put_sessions s d;
     d2 \<leftarrow> (if dm_reload_requested d1 then process_reload env d1 else Some d1);
     let d3 = (if dm_status_requested d2 \<and> \<not> dm_shutdown_requested d2
               then dm_emit [D_status True] (d2\<lparr>dm_status_requested := False\<rparr>) else d2);
     Some (if dm_shutdown_requested d3
           then (let d4 = snd (runtime_to ST_STOPPING d3) in put_r (reactor_stop (dm_r d4)) d4) else d3)
   }"

subsection \<open>The main loop\<close>

datatype daemon_cb = Cb_signal int | Cb_idle idle_env | Cb_client io_env fd u32 "data_ptr option"
  | Cb_accept nat u64 "(errno + accept_answer) list" u32 | Cb_uds_idle u64 | Cb_other session_world svc_world

definition with_uds :: "(uds_world \<Rightarrow> uds_world option) \<Rightarrow> daemon \<Rightarrow> daemon option" where
  "with_uds f d = map_option (\<lambda>w. put_uds w d) (f (uds_of d))"

fun daemon_callback :: "daemon_cb \<Rightarrow> daemon \<Rightarrow> daemon option" where
  "daemon_callback (Cb_signal sig) d = on_signal sig d"
| "daemon_callback (Cb_idle env) d = on_idle env d"
| "daemon_callback (Cb_client io fd ev ud) d = with_uds (uds_client_cb io fd ev ud) d"
| "daemon_callback (Cb_accept own now as ev) d = with_uds (uds_accept_cb own now as ev) d"
| "daemon_callback (Cb_uds_idle now) d = with_uds (uds_idle_timer_cb now) d"
| "daemon_callback (Cb_other s u) d = Some (put_sessions s (d\<lparr>dm_svc := u\<rparr>))"

fun run_callbacks :: "daemon_cb list \<Rightarrow> daemon \<Rightarrow> daemon option" where
  "run_callbacks [] d = Some d"
| "run_callbacks (c # cs) d = Option.bind (daemon_callback c d) (run_callbacks cs)"

record loop_env =
  le_watch :: "int \<Rightarrow> watch_env"
  le_nl_add :: "bool \<times> bool"
  le_uds :: uds_init_env
  le_ready_rounds :: nat
  le_refresh :: "(bool \<times> bool) \<times> u64"
  le_written :: bool
  le_callbacks :: "daemon_cb list"
  le_run_result :: int
  le_drain_alloc :: bool

definition watched_signals :: "int list" where
  "watched_signals = [SIGTERM, SIGINT, SIGHUP, SIGUSR1, SIGCHLD]"

fun watch_signals :: "(int \<Rightarrow> watch_env) \<Rightarrow> int list \<Rightarrow> daemon \<Rightarrow> bool \<times> daemon" where
  "watch_signals env [] d = (True, d)"
| "watch_signals env (s # ss) d =
     (case reactor_watch_signal (env s) s (dm_r d) of
        (rc, r, fds) \<Rightarrow>
          (let d1 = dm_emit (map D_close fds) (put_r r d) in if rc \<noteq> 0 then (False, d1) else watch_signals env ss d1))"

definition attach_netlink :: "loop_env \<Rightarrow> daemon \<Rightarrow> bool \<times> daemon" where
  "attach_netlink env d =
     (let nl_fd = netlink_get_fd (sw_nl (dm_svc d)) in
      if 0 \<le> nl_fd then
        (case reactor_add_fd (fst (le_nl_add env)) (snd (le_nl_add env)) nl_fd REACTOR_EVENT_READ
               (Some Fn_netlink_handle_event) None (dm_r d) of
           (rc, r, _) \<Rightarrow> (rc = 0, put_r r d))
      else (True, d))"

text \<open>Up to the point where the parent is told of success; \<open>False\<close>: the jump to the cleanup.\<close>

definition start_service :: "loop_env \<Rightarrow> daemon \<Rightarrow> (bool \<times> daemon) option" where
  "start_service env d =
     (case service_start_async (svc_of d) of
        (rc, w) \<Rightarrow>
          (let d1 = put_svc w d in
           if rc < 0 then Some (False, d1)
           else case service_wait_ready (le_ready_rounds env) (svc_of d1) of
             None \<Rightarrow> None
           | Some (rc2, w2) \<Rightarrow>
               (let d2 = put_svc w2 d1 in
                if rc2 \<noteq> 0 then Some (False, notify_startup (le_written env) 1 d2)
                else
                  map_option (\<lambda>(r, nl). (True,
                      notify_startup (le_written env) 0
                        (put_svc (r, (dm_svc d2)\<lparr>sw_nl := nl\<rparr>) (d2\<lparr>dm_shutdown_requested := False\<rparr>))))
                    (netlink_refresh_state (fst (le_refresh env)) (snd (le_refresh env)) True (dm_r d2, sw_nl (dm_svc d2))))))"

definition setup_loop :: "loop_env \<Rightarrow> daemon \<Rightarrow> (bool \<times> daemon) option" where
  "setup_loop env d =
     (if \<not> dm_reactor d then Some (False, d)
      else
        (let r1 = snd (reactor_set_signal_cb (Some Fn_on_signal) (dm_r d));
             d1 = put_r (reactor_set_idle_cb (Some Fn_on_idle) r1) d
         in case watch_signals (le_watch env) watched_signals d1 of
              (ok2, d2) \<Rightarrow>
                (if \<not> ok2 then Some (False, d2)
                 else case attach_netlink env d2 of
                   (ok3, d3) \<Rightarrow>
                     (if \<not> ok3 then Some (False, d3)
                      else if \<not> dm_service d3 then Some (False, d3)
                      else case uds_init (le_uds env) (resolve_socket_path SAFE_PATH_MAX (dm_config d3)) (uds_of d3) of
                        (rc4, w4) \<Rightarrow>
                          (let d4 = put_uds w4 d3 in if rc4 < 0 then Some (False, d4) else start_service env d4)))))"

definition destroy_daemon_service :: "daemon \<Rightarrow> daemon option" where
  "destroy_daemon_service d =
     (if dm_service d
      then map_option (\<lambda>(_, r, u). put_svc (r, u) (d\<lparr>dm_service := False\<rparr>)) (service_stop_sync (svc_of d))
      else Some d)"

text \<open>The label \<open>cleanup\<close>: the components are taken down, then the outcome is settled.\<close>

definition release_api :: "daemon \<Rightarrow> daemon" where
  "release_api d =
     (case api_cleanup (dm_api d) (dm_r d) of (a, r, fds) \<Rightarrow> dm_emit (map D_close fds) (put_r r (d\<lparr>dm_api := a\<rparr>)))"

definition release_netlink :: "daemon \<Rightarrow> daemon option" where
  "release_netlink d =
     map_option (\<lambda>((r, nl), fds). dm_emit (map D_close fds) (put_svc (r, (dm_svc d)\<lparr>sw_nl := nl\<rparr>) d))
       (netlink_cleanup (dm_r d, sw_nl (dm_svc d)))"

definition release_reactor :: "daemon \<Rightarrow> daemon" where
  "release_reactor d =
     (if dm_reactor d
      then dm_emit (case reactor_destroy (dm_r d) of None \<Rightarrow> [] | Some (calls, cl) \<Rightarrow> D_free calls # map D_close cl)
             (d\<lparr>dm_reactor := False\<rparr>)
      else d)"

definition loop_release :: "loop_env \<Rightarrow> daemon \<Rightarrow> daemon option" where
  "loop_release env d = do {
     w \<leftarrow> uds_cleanup (uds_of d);
     let d1 = put_uds w d;
     s \<leftarrow> atpd_session_emergency_drain_all (le_drain_alloc env) (ud_sessions (dm_uds d1));
     d2 \<leftarrow> destroy_daemon_service (put_sessions s d1);
     s2 \<leftarrow> atpd_session_gc_process (ud_sessions (dm_uds d2));
     let d3 = put_sessions s2 d2;
     let d4 = put_runtime (atpd_set_vpn_teardown_callback None (atpd_set_vpn_mode_callback None None (dm_runtime d3))) d3;
     d5 \<leftarrow> release_netlink (release_api d4);
     Some (release_reactor d5)
   }"

definition loop_end :: "loop_env \<Rightarrow> int \<Rightarrow> daemon \<Rightarrow> int \<times> daemon" where
  "loop_end env result d =
     (case runtime_to ST_STOPPED d of
        (rc, d1) \<Rightarrow>
          (let result' = (if rc \<noteq> 0 then -1 else result) in (result', notify_startup (le_written env) result' d1)))"

definition loop_cleanup :: "loop_env \<Rightarrow> int \<Rightarrow> daemon \<Rightarrow> (int \<times> daemon) option" where
  "loop_cleanup env result d =
     map_option (loop_end env result)
       (loop_release env (if result \<noteq> 0 \<and> atpd_runtime_is_running (dm_runtime d) then snd (runtime_to ST_STOPPING d) else d))"

definition run_event_loop :: "loop_env \<Rightarrow> daemon \<Rightarrow> (int \<times> daemon) option" where
  "run_event_loop env d = do {
     (ready, d1) \<leftarrow> setup_loop env d;
     if \<not> ready then loop_cleanup env (-1) d1
     else do {
       d2 \<leftarrow> run_callbacks (le_callbacks env) (dm_emit [D_loop] d1);
       loop_cleanup env (le_run_result env) d2
     }
   }"

subsection \<open>Asking the daemon\<close>

text \<open>The socket and the answer of \<open>connect\<close> for each of the ten attempts, how many bytes \<open>send\<close>
  accepts, and what is received.  The pauses between the attempts are left out.\<close>

record query_env =
  qe_socket :: "nat \<Rightarrow> fd"
  qe_connect :: "nat \<Rightarrow> bool"
  qe_sent :: int
  qe_recv :: "(errno + string) list"

fun query_connect :: "query_env \<Rightarrow> nat \<Rightarrow> nat \<Rightarrow> fd option \<times> daemon_event list" where
  "query_connect env 0 i = (None, [])"
| "query_connect env (Suc n) i =
     (if qe_socket env i < 0 then (None, [])
      else if qe_connect env i then (Some (qe_socket env i), [])
      else case query_connect env n (Suc i) of (fd, es) \<Rightarrow> (fd, D_close (qe_socket env i) # es))"

fun query_recv :: "(errno + string) list \<Rightarrow> int \<Rightarrow> (int \<times> daemon_event list) option" where
  "query_recv [] result = None"
| "query_recv (Inl e # as) result = Some (result, [])"
| "query_recv (Inr buf # as) result =
     (if buf = [] then Some (result, []) else map_option (\<lambda>(rc, es). (rc, D_print buf # es)) (query_recv as 0))"

definition query_daemon :: "query_env \<Rightarrow> string \<Rightarrow> (int \<times> daemon_event list) option" where
  "query_daemon env command =
     (case query_connect env 10 0 of
        (None, es) \<Rightarrow> Some (-1, es)
      | (Some fd, es) \<Rightarrow>
          (if qe_sent env \<noteq> int (length command) then Some (-1, es @ [D_close fd])
           else map_option (\<lambda>(rc, es2). (rc, es @ es2 @ [D_close fd])) (query_recv (qe_recv env) (-1))))"

text \<open>The terminal: whether it is one, and its width.\<close>

definition terminal_width :: "nat option \<Rightarrow> int" where
  "terminal_width window = (case window of
       Some cols \<Rightarrow> (if 0 < cols then (if cols < 30 then 30 else int cols) else 0)
     | None \<Rightarrow> 0)"

definition status_command :: "nat option \<Rightarrow> string" where
  "status_command window =
     (let width = min (terminal_width window) 200 in
      if 0 < width then c_trunc 32 (''status '' @ show_int width @ [CHR 0x0A]) else c_trunc 32 (''status'' @ [CHR 0x0A]))"

definition do_status :: "query_env \<Rightarrow> nat option \<Rightarrow> atp_options_t \<Rightarrow> daemon \<Rightarrow> (int \<times> daemon) option" where
  "do_status env window opts d =
     map_option (\<lambda>(rc, es). (0, dm_emit (if rc = 0 then es else es @ [D_status (op_no_color opts)]) d))
       (query_daemon env (status_command window))"

subsection \<open>Starting\<close>

definition preflight_startup :: "bool \<Rightarrow> bool \<Rightarrow> check_env \<Rightarrow> daemon \<Rightarrow> (int \<times> daemon) option" where
  "preflight_startup calloc_ok probe_ok check d =
     (if \<not> calloc_ok then Some (1, d)
      else case service_init probe_ok (dm_config d) of
        (rc, c) \<Rightarrow>
          (if rc \<noteq> 0 then Some (1, d)
           else case service_validate_config check c of
             None \<Rightarrow> None
           | Some (rc2, _, output) \<Rightarrow>
               map_option (\<lambda>(_, _, u). (if rc2 \<noteq> 0 then 1 else 0, dm_emit [D_print output, D_svc (sw_trace u)] d))
                 (service_stop_sync (dm_r d, (dm_svc d)\<lparr>sw_ctx := c, sw_trace := []\<rparr>))))"

record start_env =
  st_calloc :: bool
  st_probe :: bool
  st_check :: check_env
  st_daemonize :: daemonize_env
  st_alive :: bool
  st_exe :: "nat \<Rightarrow> errno + string"
  st_query :: query_env
  st_pid :: pid_env
  st_now :: timespec
  st_init :: init_env
  st_loop :: loop_env
  st_written :: bool

definition init_context :: "atp_options_t \<Rightarrow> daemon \<Rightarrow> atpd_init_context_t" where
  "init_context opts d =
     \<lparr>ic_config = dm_config d, ic_config_loaded = True, ic_reactor = None, ic_service = False, ic_api = dm_api d, ic_opts = opts,
      ic_completed_phases = 0, ic_degraded_phases = 0, ic_service_api = False, ic_svc = dm_svc d, ic_trace = []\<rparr>"

definition after_init :: "atpd_init_context_t \<Rightarrow> daemon \<Rightarrow> daemon" where
  "after_init ctx d =
     dm_emit [D_init (ic_trace ctx)] (d\<lparr>dm_config := ic_config ctx, dm_api := ic_api ctx, dm_svc := ic_svc ctx\<rparr>)"

text \<open>The code of the callback that drains the sessions.\<close>

definition DRAIN_CB :: code_ptr where "DRAIN_CB = 2"

text \<open>The daemon itself, after \<open>daemonize\<close>: the return value and the state at the label
  \<open>cleanup_return\<close>, once the PID file is written.\<close>

definition start_daemon :: "start_env \<Rightarrow> atp_options_t \<Rightarrow> daemon \<Rightarrow> (int \<times> daemon) option" where
  "start_daemon env opts d =
     (case atpd_context_init (st_now env) (dm_runtime d) of
        (rc, c) \<Rightarrow>
          (let d1 = put_runtime c d in
           if rc \<noteq> 0 then Some (1, notify_startup (st_written env) 1 d1)
           else case runtime_to ST_INITIALIZING (put_runtime (atpd_set_vpn_teardown_callback (Some DRAIN_CB) (dm_runtime d1)) d1) of
             (rc2, d2) \<Rightarrow>
               (if rc2 \<noteq> 0 then Some (1, notify_startup (st_written env) 1 d2)
                else case atpd_init_run (init_phases (st_init env)) (init_context opts d2) of
                  None \<Rightarrow> None
                | Some (rc3, ctx) \<Rightarrow>
                    (let d3 = after_init ctx d2 in
                     if rc3 \<noteq> 0 then Some (1, notify_startup (st_written env) 1 (snd (runtime_to ST_FAILED d3)))
                     else
                       (let d4 = (put_r (reactor_of ctx) d3)\<lparr>dm_service := ic_service ctx, dm_reactor := (ic_reactor ctx \<noteq> None)\<rparr>;
                            d5 = snd (runtime_to ST_RUNNING d4)
                        in map_option (\<lambda>(result, d6). (if result = 0 then 0 else 1, d6)) (run_event_loop (st_loop env) d5))))))"

definition start_with_pid_file :: "start_env \<Rightarrow> atp_options_t \<Rightarrow> string \<Rightarrow> daemon \<Rightarrow> (int \<times> daemon) option" where
  "start_with_pid_file env opts pp d =
     (case write_pid_file (st_pid env) pp of
        (rc, fd, es) \<Rightarrow>
          (let d1 = (dm_emit [D_pid es] d)\<lparr>dm_pid_fd := fd\<rparr> in
           if rc < 0 then Some (1, notify_startup (st_written env) 1 d1)
           else map_option (\<lambda>(ret, d2).
               (ret, dm_emit [D_unlink pp]
                  (if 0 \<le> dm_pid_fd d2 then (dm_emit [D_close (dm_pid_fd d2)] d2)\<lparr>dm_pid_fd := -1\<rparr> else d2)))
             (start_daemon env opts d1)))"

text \<open>The exit status of each process that comes out of \<open>do_start\<close>.\<close>

definition do_start :: "start_env \<Rightarrow> atp_options_t \<Rightarrow> daemon \<Rightarrow> (int \<times> daemon) option" where
  "do_start env opts d =
     (case preflight_startup (st_calloc env) (st_probe env) (st_check env) d of
        None \<Rightarrow> None
      | Some (rc, d1) \<Rightarrow>
          (if rc \<noteq> 0 then Some (1, d1)
           else
             (let pp = resolve_pid_path (op_pid_file opts) SAFE_PATH_MAX (dm_config d1) in
              if op_run_mode opts = CLI_RUN_MODE_FOREGROUND then start_with_pid_file env opts pp d1
              else case daemonize (st_daemonize env) d1 of
                None \<Rightarrow> None
              | Some (Role_exits code, d2) \<Rightarrow> Some (code, d2)
              | Some (Role_daemon, d2) \<Rightarrow> start_with_pid_file env opts pp d2
              | Some (Role_returns rc2 p, d2) \<Rightarrow>
                  (if rc2 = DAEMON_PARENT_SUCCESS \<and> 0 < p \<and> st_alive env \<and> process_is_atpd (st_exe env)
                   then map_option (\<lambda>(_, es). (0, dm_emit es d2)) (query_daemon (st_query env) (''status-summary'' @ [CHR 0x0A]))
                   else Some (1, d2)))))"

subsection \<open>The program\<close>

definition do_check :: "daemon \<Rightarrow> int" where
  "do_check d = (if config_validate_values (dm_config d) = 0 then 0 else 1)"

record main_env =
  me_start :: start_env
  me_stop :: stop_env
  me_open_error :: "errno option"
  me_pid_reads :: "(errno + string) list"
  me_view :: id_view
  me_hup :: "errno option"
  me_query :: query_env
  me_window :: "nat option"
  me_cwd :: "string option"
  me_readable :: "string \<Rightarrow> bool"
  me_conf :: config_env
  me_file :: "string \<Rightarrow> conf_file option"

definition stop_command :: "main_env \<Rightarrow> atp_options_t \<Rightarrow> daemon \<Rightarrow> (int \<times> daemon) option" where
  "stop_command env opts d =
     map_option (\<lambda>(rc, es). (rc, dm_emit [D_pid es] d))
       (do_stop (me_stop env) (op_pid_file opts) (dm_config d) (me_open_error env) (me_pid_reads env))"

definition do_restart :: "main_env \<Rightarrow> atp_options_t \<Rightarrow> daemon \<Rightarrow> (int \<times> daemon) option" where
  "do_restart env opts d =
     (case stop_command env opts d of
        None \<Rightarrow> None
      | Some (rc, d1) \<Rightarrow> (if rc \<noteq> 0 then Some (1, d1) else do_start (me_start env) opts d1))"

definition run_command :: "main_env \<Rightarrow> atp_options_t \<Rightarrow> daemon \<Rightarrow> (int \<times> daemon) option" where
  "run_command env opts d = (case op_command opts of
       CMD_START \<Rightarrow> do_start (me_start env) opts d
     | CMD_STOP \<Rightarrow> stop_command env opts d
     | CMD_RESTART \<Rightarrow> do_restart env opts d
     | CMD_STATUS \<Rightarrow> do_status (me_query env) (me_window env) opts d
     | CMD_RELOAD \<Rightarrow> map_option (\<lambda>(rc, es). (rc, dm_emit [D_pid es] d))
           (do_reload (me_view env) (me_hup env) (me_open_error env) (me_pid_reads env))
     | CMD_CHECK \<Rightarrow> Some (do_check d, d)
     | _ \<Rightarrow> Some (0, dm_emit [D_usage] d))"

definition main_config_path :: "atp_options_t \<Rightarrow> atp_config_t \<Rightarrow> string option" where
  "main_config_path opts cfg =
     (if op_config_file opts \<noteq> [] then Some (op_config_file opts)
      else format_path PATH_MAX (data_dir (cfg_core cfg) @ ''/'' @ ATP_CONF_FILE))"

definition main_program :: "main_env \<Rightarrow> string list \<Rightarrow> daemon \<Rightarrow> (int \<times> daemon) option" where
  "main_program env argv d0 =
     (let d = dm_emit [D_timezone] d0 in
      case parse_arguments argv of
        None \<Rightarrow> Some (1, d)
      | Some opts \<Rightarrow>
          (if op_command opts = CMD_VERSION then Some (0, dm_emit [D_version] d)
           else if op_command opts = CMD_HELP then Some (0, dm_emit [D_usage] d)
           else
             (let d1 = d\<lparr>dm_config := config_set_defaults (me_conf env)\<rparr> in
              case main_config_path opts (dm_config d1) of
                None \<Rightarrow> Some (1, d1)
              | Some cfg_path \<Rightarrow>
                  (case resolve_config_source_path (me_cwd env) cfg_path PATH_MAX of
                     None \<Rightarrow> Some (1, d1)
                   | Some source \<Rightarrow>
                       (let d2 = d1\<lparr>dm_config_path := source\<rparr> in
                        if me_readable env cfg_path then
                          (case config_load (me_conf env) (me_file env cfg_path) (dm_config d2) of
                             (rc, cfg) \<Rightarrow>
                               (let d3 = d2\<lparr>dm_config := cfg\<rparr> in
                                if rc \<noteq> ATP_OK then Some (1, d3) else run_command env opts d3))
                        else if op_config_file opts \<noteq> [] then Some (1, d2)
                        else run_command env opts d2)))))"

end
