(* ===== verification/Atpd_Init_Props.thy ===== *)
theory Atpd_Init_Props
  imports Atpd_Init
begin

text \<open>
  Initialization is all or nothing.  The locale \<open>init_table\<close> is the contract between the loops of
  \<open>src/atpd_init.c\<close> and the phases of the table: a handler brings its phase up or changes nothing, a
  cleanup takes the last phase down.  Its interpretation proves this contract of the daemon's
  seven phases.
\<close>

unbundle bit_operations_syntax

fun cleaned_by :: "init_event \<Rightarrow> init_phase_t list" where
  "cleaned_by (I_cleanup p) = [p]"
| "cleaned_by _ = []"

definition cleaned :: "atpd_init_context_t \<Rightarrow> init_phase_t list" where
  "cleaned ctx = concat (map cleaned_by (ic_trace ctx))"

text \<open>The bookkeeping of the loops, which the phases do not touch.\<close>

definition same_books :: "atpd_init_context_t \<Rightarrow> atpd_init_context_t \<Rightarrow> bool" where
  "same_books ctx ctx' \<longleftrightarrow> ic_completed_phases ctx' = ic_completed_phases ctx
     \<and> ic_degraded_phases ctx' = ic_degraded_phases ctx \<and> cleaned ctx' = cleaned ctx"

definition bits :: "u32 \<Rightarrow> nat set" where
  "bits w = {i. bit w i}"

lemma bits_0 [simp]: "bits 0 = {}"
  by (simp add: bits_def)

lemma bits_set: "i < 32 \<Longrightarrow> bits (w OR phase_bit i) = insert i (bits w)"
  by (auto simp: bits_def phase_bit_def push_bit_of_1 bit_or_iff bit_exp_iff)

lemma bits_clear: "bits (w AND NOT (phase_bit i)) = bits w - {i}"
  using bit_imp_le_length [of w]
  by (auto simp: bits_def phase_bit_def push_bit_of_1 bit_and_iff bit_not_iff bit_exp_iff)

lemma bits_test: "i < 32 \<Longrightarrow> w AND phase_bit i = 0 \<longleftrightarrow> i \<notin> bits w"
  by (simp add: bits_def phase_bit_def push_bit_of_1 and_exp_eq_0_iff_not_bit)

lemma bits_empty: "bits w = {} \<longleftrightarrow> w = 0"
  by (auto simp: bits_def intro!: bit_eqI)

text \<open>The phases with a cleanup among the completed ones, from the last to the first.\<close>

definition undone :: "init_phase_config_t list \<Rightarrow> nat set \<Rightarrow> nat \<Rightarrow> init_phase_t list" where
  "undone table S i = [ph_phase (table ! j). j \<leftarrow> rev [0..<i], j \<in> S \<and> ph_cleanup (table ! j) \<noteq> None]"

lemma undone_Suc:
  "undone table S (Suc i) = (if i \<in> S \<and> ph_cleanup (table ! i) \<noteq> None then [ph_phase (table ! i)] else []) @ undone table S i"
  by (simp add: undone_def)

lemma undone_cong: "(\<And>j. j < i \<Longrightarrow> j \<in> S \<longleftrightarrow> j \<in> T) \<Longrightarrow> undone table S i = undone table T i"
  by (induction i) (simp_all add: undone_Suc, simp add: undone_def)

lemma undone_beyond: "S \<subseteq> {..<n} \<Longrightarrow> undone table S (n + k) = undone table S n"
  by (induction k) (auto simp: undone_Suc)

subsection \<open>The contract of the table\<close>

locale init_table =
  fixes table :: "init_phase_config_t list" and up :: "nat set \<Rightarrow> atpd_init_context_t \<Rightarrow> bool"
  assumes numbered: "i < length table \<Longrightarrow> phase_no (ph_phase (table ! i)) = i"
    and short: "length table \<le> 32"
    and up_books: "up S (ctx\<lparr>ic_completed_phases := a\<rparr>) = up S ctx" "up S (ctx\<lparr>ic_degraded_phases := a\<rparr>) = up S ctx"
      "up S (ic_emit es ctx) = up S ctx"
    and handler_law: "i < length table \<Longrightarrow> S \<subseteq> {..<i} \<Longrightarrow> up S ctx \<Longrightarrow>
      \<exists>rc ctx'. ph_handler (table ! i) ctx = Some (rc, ctx') \<and> up (if rc = 0 then insert i S else S) ctx' \<and> same_books ctx ctx'"
    and cleanup_law: "i < length table \<Longrightarrow> i \<in> S \<Longrightarrow> S \<subseteq> {..i} \<Longrightarrow> up S ctx \<Longrightarrow>
      case ph_cleanup (table ! i) of
        None \<Rightarrow> up (S - {i}) ctx
      | Some f \<Rightarrow> \<exists>ctx'. f ctx = Some ctx' \<and> up (S - {i}) ctx' \<and> same_books ctx ctx'"
begin

text \<open>After the phases from index \<open>i\<close> on.\<close>

lemma init_loop_drop:
  assumes "i \<le> length table" "up (bits (ic_completed_phases ctx)) ctx"
    "bits (ic_completed_phases ctx) \<union> bits (ic_degraded_phases ctx) = {..<i}"
    "bits (ic_completed_phases ctx) \<inter> bits (ic_degraded_phases ctx) = {}"
    "\<forall>j\<in>bits (ic_degraded_phases ctx). \<not> ph_required (table ! j)"
  shows "\<exists>failed ctx'. init_loop (drop i table) ctx = Some (failed, ctx') \<and> up (bits (ic_completed_phases ctx')) ctx'
    \<and> cleaned ctx' = cleaned ctx \<and> bits (ic_completed_phases ctx') \<inter> bits (ic_degraded_phases ctx') = {}
    \<and> (\<forall>j\<in>bits (ic_degraded_phases ctx'). \<not> ph_required (table ! j))
    \<and> (\<exists>n\<le>length table. bits (ic_completed_phases ctx') \<union> bits (ic_degraded_phases ctx') = {..<n}
         \<and> (case failed of None \<Rightarrow> n = length table
            | Some p \<Rightarrow> n < length table \<and> p = ph_phase (table ! n) \<and> ph_required (table ! n)))"
  using assms
proof (induction "length table - i" arbitrary: i ctx)
  case 0
  then show ?case
    by auto
next
  case (Suc k)
  then have i: "i < length table" "i < 32"
    using short by auto
  have "bits (ic_completed_phases ctx) \<subseteq> {..<i}"
    using Suc.prems(3) by blast
  then obtain rc ctx1 where h: "ph_handler (table ! i) ctx = Some (rc, ctx1)"
    and up1: "up (if rc = 0 then insert i (bits (ic_completed_phases ctx)) else bits (ic_completed_phases ctx)) ctx1"
    and books: "same_books ctx ctx1"
    using handler_law [OF i(1) _ Suc.prems(2)] by blast
  have drop: "drop i table = table ! i # drop (Suc i) table"
    using i(1) by (rule Cons_nth_drop_Suc [symmetric])
  have no: "phase_no (ph_phase (table ! i)) = i"
    by (rule numbered [OF i(1)])
  consider (fails) "rc \<noteq> 0" "ph_required (table ! i)" | (skips) "rc \<noteq> 0" "\<not> ph_required (table ! i)" | (works) "rc = 0"
    by blast
  then show ?case
  proof cases
    case fails
    then have "init_loop (drop i table) ctx = Some (Some (ph_phase (table ! i)), ctx1)"
      by (simp add: drop h)
    then show ?thesis
      using Suc.prems(3-5) up1 books fails i(1)
      by (intro exI [of _ "Some (ph_phase (table ! i))"] exI [of _ ctx1]) (auto simp: same_books_def intro!: exI [of _ i])
  next
    case skips
    define ctx2 where "ctx2 = ctx1\<lparr>ic_degraded_phases := ic_degraded_phases ctx1 OR phase_bit i\<rparr>"
    have bits2: "bits (ic_completed_phases ctx2) = bits (ic_completed_phases ctx)"
      "bits (ic_degraded_phases ctx2) = insert i (bits (ic_degraded_phases ctx))"
      using books by (simp_all add: ctx2_def same_books_def bits_set [OF i(2)])
    have "init_loop (drop i table) ctx = init_loop (drop (Suc i) table) ctx2"
      using skips by (simp add: drop h ctx2_def no)
    moreover have "up (bits (ic_completed_phases ctx2)) ctx2" "cleaned ctx2 = cleaned ctx"
      unfolding bits2 using up1 skips books by (simp_all add: ctx2_def up_books cleaned_def same_books_def)
    moreover have "i \<notin> bits (ic_completed_phases ctx)"
      using Suc.prems(3) by auto
    ultimately show ?thesis
      using Suc.hyps(1) [of "Suc i" ctx2] Suc.hyps(2) Suc.prems(3-5) i(1) skips bits2 by (simp add: lessThan_Suc)
  next
    case works
    define ctx2 where "ctx2 = ctx1\<lparr>ic_completed_phases := ic_completed_phases ctx1 OR phase_bit i\<rparr>"
    have bits2: "bits (ic_completed_phases ctx2) = insert i (bits (ic_completed_phases ctx))"
      "bits (ic_degraded_phases ctx2) = bits (ic_degraded_phases ctx)"
      using books by (simp_all add: ctx2_def same_books_def bits_set [OF i(2)])
    have "init_loop (drop i table) ctx = init_loop (drop (Suc i) table) ctx2"
      using works by (simp add: drop h ctx2_def no)
    moreover have "up (bits (ic_completed_phases ctx2)) ctx2" "cleaned ctx2 = cleaned ctx"
      unfolding bits2 using up1 works books by (simp_all add: ctx2_def up_books cleaned_def same_books_def)
    moreover have "i \<notin> bits (ic_degraded_phases ctx)"
      using Suc.prems(3) by auto
    ultimately show ?thesis
      using Suc.hyps(1) [of "Suc i" ctx2] Suc.hyps(2) Suc.prems(3-5) i(1) bits2 by (simp add: lessThan_Suc)
  qed
qed

lemma rollback_undoes:
  assumes "i \<le> length table" "up (bits (ic_completed_phases ctx)) ctx" "bits (ic_completed_phases ctx) \<subseteq> {..<i}"
  shows "\<exists>ctx'. rollback_loop table i ctx = Some ctx' \<and> up {} ctx' \<and> ic_completed_phases ctx' = 0
    \<and> cleaned ctx' = cleaned ctx @ undone table (bits (ic_completed_phases ctx)) i"
  using assms
proof (induction i arbitrary: ctx)
  case 0
  then show ?case
    by (simp add: undone_def bits_empty)
next
  case (Suc i)
  then have i: "i < length table" "i < 32"
    using short by auto
  let ?S = "bits (ic_completed_phases ctx)"
  show ?case
  proof (cases "i \<in> ?S")
    case False
    then have "?S \<subseteq> {..<i}"
      using Suc.prems(3) less_Suc_eq by auto
    then show ?thesis
      using Suc.IH [of ctx] Suc.prems False by (simp add: bits_test [OF i(2)] undone_def)
  next
    case True
    have sub: "?S \<subseteq> {..i}"
      using Suc.prems(3) by auto
    define ctx0 where "ctx0 = ic_emit [I_cleanup (ph_phase (table ! i))] ctx"
    have "\<exists>ctx1. (case ph_cleanup (table ! i) of None \<Rightarrow> Some ctx | Some f \<Rightarrow> f ctx0) = Some ctx1 \<and> up (?S - {i}) ctx1
        \<and> ic_completed_phases ctx1 = ic_completed_phases ctx
        \<and> cleaned ctx1 = cleaned ctx @ (if ph_cleanup (table ! i) \<noteq> None then [ph_phase (table ! i)] else [])"
    proof (cases "ph_cleanup (table ! i)")
      case None
      then show ?thesis
        using cleanup_law [OF i(1) True sub Suc.prems(2)] by simp
    next
      case (Some f)
      have "up ?S ctx0"
        using Suc.prems(2) by (simp add: ctx0_def up_books)
      from cleanup_law [OF i(1) True sub this] Some obtain ctx1
        where "f ctx0 = Some ctx1" "up (?S - {i}) ctx1" "same_books ctx0 ctx1"
        by auto
      then show ?thesis
        using Some by (auto simp: same_books_def ctx0_def cleaned_def ic_emit_def)
    qed
    then obtain ctx1 where step: "(case ph_cleanup (table ! i) of None \<Rightarrow> Some ctx | Some f \<Rightarrow> f ctx0) = Some ctx1"
      and up1: "up (?S - {i}) ctx1" and mask1: "ic_completed_phases ctx1 = ic_completed_phases ctx"
      and cl1: "cleaned ctx1 = cleaned ctx @ (if ph_cleanup (table ! i) \<noteq> None then [ph_phase (table ! i)] else [])"
      by blast
    define ctx2 where "ctx2 = ctx1\<lparr>ic_completed_phases := ic_completed_phases ctx1 AND NOT (phase_bit i)\<rparr>"
    have bits2: "bits (ic_completed_phases ctx2) = ?S - {i}"
      by (simp add: ctx2_def mask1 bits_clear)
    have "rollback_loop table (Suc i) ctx = rollback_loop table i ctx2"
      using True step [unfolded ctx0_def] by (simp add: bits_test [OF i(2)] ctx2_def)
    moreover have "\<exists>ctx'. rollback_loop table i ctx2 = Some ctx' \<and> up {} ctx' \<and> ic_completed_phases ctx' = 0
        \<and> cleaned ctx' = cleaned ctx2 @ undone table (?S - {i}) i"
      unfolding bits2 [symmetric] using Suc.prems(1,3) up1 i(1)
      by (intro Suc.IH) (auto simp: bits2 ctx2_def up_books mask1 bits_clear less_Suc_eq)
    moreover have "undone table ?S (Suc i) = (if ph_cleanup (table ! i) \<noteq> None then [ph_phase (table ! i)] else []) @ undone table (?S - {i}) i"
      using True undone_cong [of i ?S "?S - {i}" table] by (simp add: undone_Suc)
    moreover have "cleaned ctx2 = cleaned ctx1"
      by (simp add: ctx2_def cleaned_def)
    ultimately show ?thesis
      by (simp add: cl1)
  qed
qed

lemma run_all_or_nothing:
  assumes "up {} ctx"
  shows "\<exists>rc ctx'. atpd_init_run table ctx = Some (rc, ctx') \<and>
    (if rc = 0
     then up (bits (ic_completed_phases ctx')) ctx' \<and> cleaned ctx' = cleaned ctx
       \<and> bits (ic_completed_phases ctx') \<union> bits (ic_degraded_phases ctx') = {..<length table}
       \<and> bits (ic_completed_phases ctx') \<inter> bits (ic_degraded_phases ctx') = {}
       \<and> (\<forall>j\<in>bits (ic_degraded_phases ctx'). \<not> ph_required (table ! j))
     else up {} ctx' \<and> ic_completed_phases ctx' = 0
       \<and> (\<exists>n<length table. \<exists>S\<subseteq>{..<n}. ph_required (table ! n) \<and> (\<forall>j<n. j \<in> S \<or> \<not> ph_required (table ! j))
            \<and> cleaned ctx' = cleaned ctx @ undone table S n))"
proof -
  define ctx0 where "ctx0 = ctx\<lparr>ic_completed_phases := 0, ic_degraded_phases := 0\<rparr>"
  have "up {} ctx0" "cleaned ctx0 = cleaned ctx"
    using assms by (simp_all add: ctx0_def up_books cleaned_def)
  then obtain failed ctx1 n where loop: "init_loop table ctx0 = Some (failed, ctx1)" and up1: "up (bits (ic_completed_phases ctx1)) ctx1"
    and cl: "cleaned ctx1 = cleaned ctx" and disj: "bits (ic_completed_phases ctx1) \<inter> bits (ic_degraded_phases ctx1) = {}"
    and opt: "\<forall>j\<in>bits (ic_degraded_phases ctx1). \<not> ph_required (table ! j)"
    and n: "n \<le> length table" "bits (ic_completed_phases ctx1) \<union> bits (ic_degraded_phases ctx1) = {..<n}"
      "case failed of None \<Rightarrow> n = length table | Some p \<Rightarrow> n < length table \<and> p = ph_phase (table ! n) \<and> ph_required (table ! n)"
    using init_loop_drop [of 0 ctx0] unfolding drop_0 by (simp add: ctx0_def) blast
  show ?thesis
  proof (cases failed)
    case None
    then have "atpd_init_run table ctx = Some (0, ctx1)"
      using loop by (simp add: atpd_init_run_def ctx0_def)
    then show ?thesis
      using up1 cl disj opt n None by (intro exI [of _ 0] exI [of _ ctx1]) simp
  next
    case (Some p)
    have sub: "bits (ic_completed_phases ctx1) \<subseteq> {..<n}"
      using n(2) by blast
    then have "bits (ic_completed_phases ctx1) \<subseteq> {..<length table}"
      using n(1) by (meson lessThan_subset_iff order_trans)
    then obtain ctx2 where "rollback_loop table (length table) ctx1 = Some ctx2" "up {} ctx2" "ic_completed_phases ctx2 = 0"
        "cleaned ctx2 = cleaned ctx1 @ undone table (bits (ic_completed_phases ctx1)) (length table)"
      using rollback_undoes [OF order_refl up1] by blast
    moreover have "undone table (bits (ic_completed_phases ctx1)) (length table) = undone table (bits (ic_completed_phases ctx1)) n"
      using undone_beyond [OF sub, of table "length table - n"] n(1) by simp
    moreover have "n < length table" "ph_required (table ! n)"
      using n(3) Some by simp_all
    moreover have "\<forall>j<n. j \<in> bits (ic_completed_phases ctx1) \<or> \<not> ph_required (table ! j)"
      using n(2) opt by blast
    moreover have "atpd_init_run table ctx = map_option (Pair (-1)) (rollback_loop table (length table) ctx1)"
      using loop Some by (simp add: atpd_init_run_def ctx0_def atpd_init_rollback_def)
    ultimately show ?thesis
      using cl sub by (intro exI [of _ "-1"] exI [of _ ctx2]) auto
  qed
qed

end

subsection \<open>The daemon's phases\<close>

definition same_timers :: "reactor_t \<Rightarrow> reactor_t \<Rightarrow> bool" where
  "same_timers r r' \<longleftrightarrow> rx_timers r' = rx_timers r \<and> rx_popped r' = rx_popped r \<and> rx_next_id r' = rx_next_id r
     \<and> rx_timer_count r' = rx_timer_count r \<and> rx_in_loop r' = rx_in_loop r"

lemma same_timers_refl [simp]: "same_timers r r"
  by (simp add: same_timers_def)

lemma same_timers_trans: "same_timers a b \<Longrightarrow> same_timers b c \<Longrightarrow> same_timers a c"
  by (simp add: same_timers_def)

lemma same_timers_facts:
  "same_timers r r' \<Longrightarrow> armed r' = armed r" "same_timers r r' \<Longrightarrow> rx_timers_wf r' = rx_timers_wf r"
  "same_timers r r' \<Longrightarrow> rx_in_loop r' = rx_in_loop r"
  by (simp_all add: same_timers_def armed_def find_timer_def all_timers_def rx_timers_wf_def fun_eq_iff)

lemma same_timers_add_fd: "reactor_add_fd a c fd ev cb ud r = (rc, r', calls) \<Longrightarrow> same_timers r r'"
  by (auto simp: reactor_add_fd_def same_timers_def Let_def split: if_splits option.splits)

lemma same_timers_remove_fd: "same_timers r (fst (snd (reactor_remove_fd fd r)))"
  by (simp add: reactor_remove_fd_def same_timers_def split: option.splits)

definition reactor_up :: "bool \<Rightarrow> atpd_init_context_t \<Rightarrow> bool" where
  "reactor_up b ctx \<longleftrightarrow> (case ic_reactor ctx of None \<Rightarrow> \<not> b | Some r \<Rightarrow> b \<and> rx_timers_wf r \<and> \<not> rx_in_loop r)"

definition netlink_up :: "bool \<Rightarrow> atpd_init_context_t \<Rightarrow> bool" where
  "netlink_up b ctx \<longleftrightarrow> (let nl = sw_nl (ic_svc ctx) in nl_debounce_timer nl = None
     \<and> (if b then 0 \<le> nl_sync_fd nl \<and> 0 \<le> nl_async_fd nl \<and> 0 \<le> nl_xfrm_fd nl
        else nl_sync_fd nl < 0 \<and> nl_async_fd nl < 0 \<and> nl_xfrm_fd nl < 0))"

text \<open>A supervisor that can be destroyed: its timers are live and it has no child yet.\<close>

definition idle_service :: "atpd_init_context_t \<Rightarrow> bool" where
  "idle_service ctx \<longleftrightarrow> (let c = sw_ctx (ic_svc ctx) in sv_retry_timer c = None \<and> sv_health_timer c = None \<and> sv_child_pid c \<le> 0
     \<and> (\<forall>h. sv_monitor_timer c = Some h \<longrightarrow> (\<exists>r. ic_reactor ctx = Some r \<and> armed r h \<noteq> None)))"

definition service_up :: "bool \<Rightarrow> atpd_init_context_t \<Rightarrow> bool" where
  "service_up b ctx \<longleftrightarrow> ic_service ctx = b \<and> (b \<longrightarrow> idle_service ctx)"

definition api_up :: "bool \<Rightarrow> atpd_init_context_t \<Rightarrow> bool" where
  "api_up b ctx \<longleftrightarrow>
     (if b then ap_initialized (ic_api ctx) \<and> ap_worker_started (ic_api ctx)
      else \<not> ap_initialized (ic_api ctx) \<and> ctx_vpn_mode_callback (sw_vpn (ic_svc ctx)) = None \<and> \<not> ic_service_api ctx)"

definition phases_up :: "nat set \<Rightarrow> atpd_init_context_t \<Rightarrow> bool" where
  "phases_up S ctx \<longleftrightarrow> reactor_up (2 \<in> S) ctx \<and> netlink_up (3 \<in> S) ctx \<and> service_up (4 \<in> S) ctx \<and> api_up (5 \<in> S) ctx"

lemmas up_defs = reactor_up_def netlink_up_def idle_service_def service_up_def api_up_def Let_def

lemma emit_fields [simp]:
  "ic_config (ic_emit es ctx) = ic_config ctx" "ic_reactor (ic_emit es ctx) = ic_reactor ctx" "ic_service (ic_emit es ctx) = ic_service ctx"
  "ic_api (ic_emit es ctx) = ic_api ctx" "ic_service_api (ic_emit es ctx) = ic_service_api ctx" "ic_svc (ic_emit es ctx) = ic_svc ctx"
  "ic_opts (ic_emit es ctx) = ic_opts ctx" "ic_completed_phases (ic_emit es ctx) = ic_completed_phases ctx"
  "ic_degraded_phases (ic_emit es ctx) = ic_degraded_phases ctx" "ic_trace (ic_emit es ctx) = ic_trace ctx @ es"
  by (simp_all add: ic_emit_def)

lemma put_reactor_fields [simp]:
  "ic_service (put_reactor r ctx) = ic_service ctx" "ic_api (put_reactor r ctx) = ic_api ctx" "ic_trace (put_reactor r ctx) = ic_trace ctx"
  "ic_service_api (put_reactor r ctx) = ic_service_api ctx" "ic_svc (put_reactor r ctx) = ic_svc ctx"
  "ic_completed_phases (put_reactor r ctx) = ic_completed_phases ctx" "ic_degraded_phases (put_reactor r ctx) = ic_degraded_phases ctx"
  "ic_reactor (put_reactor r ctx) = map_option (\<lambda>_. r) (ic_reactor ctx)"
  by (simp_all add: put_reactor_def)

lemma same_books_simps [simp]:
  "cleaned (ic_emit es ctx) = cleaned ctx @ concat (map cleaned_by es)" "cleaned (put_reactor r ctx) = cleaned ctx"
  by (simp_all add: cleaned_def)

text \<open>Changing what a component does not look at.\<close>

lemma up_emit [simp]: "reactor_up b (ic_emit es ctx) = reactor_up b ctx" "netlink_up b (ic_emit es ctx) = netlink_up b ctx"
  "service_up b (ic_emit es ctx) = service_up b ctx" "api_up b (ic_emit es ctx) = api_up b ctx"
  "api_up b (put_reactor r ctx) = api_up b ctx" "netlink_up b (put_reactor r ctx) = netlink_up b ctx"
  by (simp_all add: up_defs)

lemma reactor_of_emit [simp]: "reactor_of (ic_emit es ctx) = reactor_of ctx"
  by (simp add: reactor_of_def)

lemma reactor_up_put: "same_timers (reactor_of ctx) r \<Longrightarrow> reactor_up b (put_reactor r ctx) = reactor_up b ctx"
  by (auto simp: reactor_up_def reactor_of_def same_timers_facts split: option.splits)

lemma service_up_put: "same_timers (reactor_of ctx) r \<Longrightarrow> service_up b (put_reactor r ctx) = service_up b ctx"
  by (cases "ic_reactor ctx") (auto simp: up_defs reactor_of_def same_timers_facts split: option.splits)

definition lawful :: "nat \<Rightarrow> nat set \<Rightarrow> atpd_init_context_t \<Rightarrow> (int \<times> atpd_init_context_t) option \<Rightarrow> bool" where
  "lawful i S ctx res \<longleftrightarrow> (\<exists>rc ctx'. res = Some (rc, ctx') \<and> phases_up (if rc = 0 then insert i S else S) ctx' \<and> same_books ctx ctx')"

lemma lawful_Some:
  "lawful i S ctx (Some (rc, ctx')) \<longleftrightarrow> phases_up (if rc = 0 then insert i S else S) ctx' \<and> same_books ctx ctx'"
  by (simp add: lawful_def)

lemma phases_up_config [simp]: "phases_up S (ctx\<lparr>ic_config := cfg\<rparr>) = phases_up S ctx" "phases_up S (ctx\<lparr>ic_config_loaded := b\<rparr>) = phases_up S ctx"
  "phases_up S (ic_emit es ctx) = phases_up S ctx" "phases_up S (ctx\<lparr>ic_completed_phases := m\<rparr>) = phases_up S ctx"
  "phases_up S (ctx\<lparr>ic_degraded_phases := m\<rparr>) = phases_up S ctx" "phases_up S (ctx\<lparr>ic_svc := tick (ic_svc ctx)\<rparr>) = phases_up S ctx"
  by (simp_all add: phases_up_def up_defs tick_def ic_emit_def)

lemma config_lawful: "phases_up S ctx \<Longrightarrow> lawful 0 S ctx (atpd_init_phase_config env ctx)"
  by (auto simp: atpd_init_phase_config_def lawful_Some phases_up_def same_books_def cleaned_def up_defs split: option.splits prod.splits)

lemma logger_options_cleaned [simp]: "concat (map cleaned_by (logger_options opts)) = []"
  by (simp add: logger_options_def split: cli_verbosity_t.splits)

lemma logger_lawful:
  assumes "phases_up S ctx"
  shows "lawful 1 S ctx (atpd_init_phase_logger env ctx)"
proof -
  have "phases_up (insert 1 S) ctx" "same_books ctx (ctx\<lparr>ic_svc := tick (ic_svc ctx)\<rparr>)"
    using assms by (simp_all add: phases_up_def same_books_def cleaned_def)
  then show ?thesis
    using assms
    by (auto simp: atpd_init_phase_logger_def Let_def lawful_Some same_books_def split: option.splits)
qed

lemma reactor_create_timers:
  assumes "reactor_create env = Inr r"
  shows "same_timers reactor_zero r"
proof -
  define r2 where "r2 = reactor_zero\<lparr>rx_epoll_fd := ce_epoll_fd env, rx_event_fd := ce_event_fd env\<rparr>"
  obtain rc3 r3 where r3: "reactor_signal_init (ce_signal_fd env) r2 = (rc3, r3)"
    by fastforce
  obtain rc4 r4 calls4 where r4: "reactor_add_fd (fst (ce_add_signal env)) (snd (ce_add_signal env)) (rx_signal_fd r3)
      REACTOR_EVENT_READ None None r3 = (rc4, r4, calls4)"
    by (metis prod_cases3)
  obtain rc5 r5 calls5 where r5: "reactor_add_fd (fst (ce_add_event env)) (snd (ce_add_event env)) (rx_event_fd r4)
      REACTOR_EVENT_READ None None r4 = (rc5, r5, calls5)"
    by (metis prod_cases3)
  have "r = r5\<lparr>rx_current_time := ce_now env\<rparr>"
    using assms r3 r4 r5 by (simp add: reactor_create_def Let_def r2_def split: if_splits)
  moreover have "same_timers reactor_zero r3"
    using r3 by (auto simp: reactor_signal_init_def r2_def same_timers_def Let_def split: if_splits)
  moreover note same_timers_add_fd [OF r4] same_timers_add_fd [OF r5]
  ultimately show ?thesis
    by (simp add: same_timers_def)
qed

lemma reactor_lawful:
  assumes "phases_up S ctx" "2 \<notin> S"
  shows "lawful 2 S ctx (atpd_init_phase_reactor env ctx)"
proof (cases "reactor_create (ie_create env)")
  case (Inl fds)
  then show ?thesis
    using assms by (auto simp: atpd_init_phase_reactor_def lawful_Some same_books_def phases_up_def reactor_up_def split: option.splits)
next
  case (Inr r)
  have "rx_timers_wf r" "\<not> rx_in_loop r"
    using same_timers_facts(2,3) [OF reactor_create_timers [OF Inr]] by (simp_all add: reactor_zero_def rx_timers_wf_def all_timers_def)
  moreover have "ic_reactor ctx = None"
    using assms by (simp add: phases_up_def reactor_up_def split: option.splits)
  ultimately show ?thesis
    using assms Inr by (auto simp: atpd_init_phase_reactor_def lawful_Some same_books_def cleaned_def phases_up_def up_defs)
qed

subsection \<open>The network observer\<close>

lemma cleanup_netlink_down:
  assumes "nl_debounce_timer (sw_nl (ic_svc ctx)) = None"
  obtains ctx' where "cleanup_netlink ctx = Some ctx'" "same_books ctx ctx'" "netlink_up False ctx'"
    "\<And>b. reactor_up b ctx' = reactor_up b ctx" "\<And>b. service_up b ctx' = service_up b ctx" "\<And>b. api_up b ctx' = api_up b ctx"
proof -
  obtain r nl fds where out: "netlink_cleanup (reactor_of ctx, sw_nl (ic_svc ctx)) = Some ((r, nl), fds)"
    and nl: "nl_debounce_timer nl = None" "nl_sync_fd nl = -1" "nl_async_fd nl = -1" "nl_xfrm_fd nl = -1"
    and r: "same_timers (reactor_of ctx) r"
    using assms by (simp add: netlink_cleanup_def Let_def same_timers_remove_fd)
  define ctx1 where "ctx1 = ctx\<lparr>ic_svc := (ic_svc ctx)\<lparr>sw_nl := nl\<rparr>\<rparr>"
  have same: "same_timers (reactor_of ctx1) r"
    using r by (simp add: ctx1_def reactor_of_def)
  have "cleanup_netlink ctx = Some (ic_emit [I_close fds] (put_reactor r ctx1))"
    by (simp add: cleanup_netlink_def out ctx1_def)
  moreover have "reactor_up b ctx1 = reactor_up b ctx" "service_up b ctx1 = service_up b ctx" "api_up b ctx1 = api_up b ctx" for b
    by (simp_all add: ctx1_def up_defs)
  ultimately show ?thesis
    using that [of "ic_emit [I_close fds] (put_reactor r ctx1)"] reactor_up_put [OF same] service_up_put [OF same]
    by (simp add: same_books_def netlink_up_def nl ctx1_def cleaned_def)
qed

lemma netlink_set_reactor_closed:
  assumes "nl_xfrm_fd (snd w) < 0"
  shows "netlink_set_reactor True add w = (fst w, (snd w)\<lparr>nl_debounce_reactor := True\<rparr>)"
  using assms by (simp add: netlink_set_reactor_def Let_def)

lemma xfrm_init_cases:
  assumes "netlink_xfrm_init True sock add w = (fd, w', fds)" "nl_xfrm_fd (snd w) < 0"
  shows "same_timers (fst w) (fst w') \<and> nl_debounce_timer (snd w') = nl_debounce_timer (snd w)
    \<and> nl_sync_fd (snd w') = nl_sync_fd (snd w) \<and> nl_async_fd (snd w') = nl_async_fd (snd w)
    \<and> (0 \<le> fd \<longrightarrow> 0 \<le> nl_xfrm_fd (snd w'))"
  using assms same_timers_add_fd
  by (auto simp: netlink_xfrm_init_def Let_def split: if_splits prod.splits)

lemma netlink_lawful:
  assumes "phases_up S ctx" "3 \<notin> S" "4 \<notin> S"
  shows "lawful 3 S ctx (atpd_init_phase_netlink env ctx)"
proof -
  obtain rc nl fds where init: "netlink_init None (Some CONFIG_PTR) (ie_nl_sync env) (ie_nl_async env) (sw_nl (ic_svc ctx)) = (rc, nl, fds)"
    by (metis prod_cases3)
  define ctx1 where "ctx1 = ic_emit [I_close fds] (ctx\<lparr>ic_svc := (ic_svc ctx)\<lparr>sw_nl := nl\<rparr>\<rparr>)"
  have closed: "nl_debounce_timer (sw_nl (ic_svc ctx)) = None" "nl_xfrm_fd (sw_nl (ic_svc ctx)) < 0"
      "nl_sync_fd (sw_nl (ic_svc ctx)) < 0" "nl_async_fd (sw_nl (ic_svc ctx)) < 0"
    using assms(1,2) by (simp_all add: phases_up_def netlink_up_def Let_def)
  have nl: "nl_debounce_timer nl = None" "nl_xfrm_fd nl < 0"
      "rc < 0 \<and> nl_sync_fd nl < 0 \<and> nl_async_fd nl < 0 \<or> rc = 0 \<and> 0 \<le> nl_sync_fd nl \<and> 0 \<le> nl_async_fd nl"
    using init closed by (auto simp: netlink_init_def Let_def split: if_splits)
  have ctx1: "reactor_up b ctx1 = reactor_up b ctx" "service_up b ctx1 = service_up b ctx" "api_up b ctx1 = api_up b ctx"
      "same_books ctx ctx1" "sw_nl (ic_svc ctx1) = nl" "ic_reactor ctx1 = ic_reactor ctx" for b
    by (simp_all add: ctx1_def up_defs same_books_def) (simp add: cleaned_def)
  have down: "lawful 3 S ctx (map_option (Pair (-1)) (cleanup_netlink c))"
    if c: "nl_debounce_timer (sw_nl (ic_svc c)) = None" "same_books ctx c" "\<And>b. reactor_up b c = reactor_up b ctx"
       "\<And>b. service_up b c = service_up b ctx" "\<And>b. api_up b c = api_up b ctx" for c
  proof -
    obtain c' where "cleanup_netlink c = Some c'" "same_books c c'" "netlink_up False c'"
      "\<And>b. reactor_up b c' = reactor_up b c" "\<And>b. service_up b c' = service_up b c" "\<And>b. api_up b c' = api_up b c"
      using cleanup_netlink_down [OF c(1)] by blast
    with c(2-5) show ?thesis
      using assms(1,2) by (simp add: lawful_Some phases_up_def same_books_def)
  qed
  consider "rc < 0" | (nothing) "rc = 0" "ic_reactor ctx = None" | (registers) r where "rc = 0" "ic_reactor ctx = Some r"
    using nl(3) by fastforce
  then show ?thesis
  proof cases
    case 1
    then show ?thesis
      using init nl assms(1,2) ctx1 by (simp add: atpd_init_phase_netlink_def Let_def lawful_Some phases_up_def netlink_up_def ctx1_def [symmetric])
  next
    case nothing
    then show ?thesis
      using init down [OF _ ctx1(4,1-3)] nl(1) ctx1(5,6)
      by (simp add: atpd_init_phase_netlink_def Let_def ctx1_def [symmetric])
  next
    case registers
    obtain fd r1 nl1 fds1 where x: "netlink_xfrm_init True (ie_xfrm_sock env) (ie_xfrm_add env) (r, nl\<lparr>nl_debounce_reactor := True\<rparr>)
        = (fd, (r1, nl1), fds1)"
      by (metis prod.collapse)
    define ctx2 where "ctx2 = ic_emit [I_close fds1] (put_nl (r1, nl1) ctx1)"
    have x': "same_timers r r1" "nl_debounce_timer nl1 = None" "nl_sync_fd nl1 = nl_sync_fd nl" "nl_async_fd nl1 = nl_async_fd nl"
        "0 \<le> fd \<longrightarrow> 0 \<le> nl_xfrm_fd nl1"
      using xfrm_init_cases [OF x] nl(1,2) by simp_all
    have step: "atpd_init_phase_netlink env ctx = (if fd < 0 then map_option (Pair (-1)) (cleanup_netlink ctx2) else Some (0, ctx2))"
      using init registers ctx1(6) nl(2) netlink_set_reactor_closed [of "(r, nl)" "ie_nl_add env"] x
      by (simp add: atpd_init_phase_netlink_def Let_def ctx1_def [symmetric] ctx2_def)
    define c1 where "c1 = ctx1\<lparr>ic_svc := (ic_svc ctx1)\<lparr>sw_nl := nl1\<rparr>\<rparr>"
    have same: "same_timers (reactor_of c1) r1"
      using x'(1) registers ctx1(6) by (simp add: c1_def reactor_of_def)
    have c1: "reactor_up b c1 = reactor_up b ctx1" "service_up b c1 = service_up b ctx1" "api_up b c1 = api_up b ctx1" for b
      by (simp_all add: c1_def up_defs)
    have ctx2: "reactor_up b ctx2 = reactor_up b ctx" "service_up b ctx2 = service_up b ctx" "api_up b ctx2 = api_up b ctx"
        "same_books ctx ctx2" "sw_nl (ic_svc ctx2) = nl1" for b
      using reactor_up_put [OF same, of b] service_up_put [OF same, of b] ctx1 c1
      by (simp_all add: ctx2_def put_nl_def c1_def [symmetric] same_books_def) (simp_all add: c1_def cleaned_def)
    show ?thesis
    proof (cases "fd < 0")
      case True
      then show ?thesis
        using step down [OF _ ctx2(4,1-3)] x'(2) ctx2(5) by simp
    next
      case False
      then show ?thesis
        using step ctx2 x' nl(3) registers assms(1) by (auto simp: lawful_Some phases_up_def netlink_up_def Let_def)
    qed
  qed
qed

subsection \<open>The supervisor\<close>

lemma service_init_idle:
  assumes "service_init calloc_ok cfg = (rc, c)"
  shows "sv_retry_timer c = None \<and> sv_health_timer c = None \<and> sv_monitor_timer c = None \<and> sv_child_pid c \<le> 0
    \<and> \<not> sv_reactor c \<and> (rc = 0 \<or> rc < 0)"
  using assms
  by (auto simp: service_init_def Let_def ctx_zero_def init_values_def init_breaker_def service_set_native_probe_config_def
      split: option.splits if_splits)

lemma cancel_timer_in_loop: "reactor_cancel_timer h r = Some (rc, r') \<Longrightarrow> rx_in_loop r' = rx_in_loop r"
  by (auto simp: reactor_cancel_timer_def Let_def timer_list_insert_def timer_list_remove_def reactor_wakeup_def
      split: option.splits if_splits)

lemma stop_sync_idle:
  assumes "sv_retry_timer (sw_ctx u) = None" "sv_health_timer (sw_ctx u) = None" "sv_child_pid (sw_ctx u) \<le> 0"
    "rx_timers_wf r" "\<And>h. sv_reactor (sw_ctx u) \<Longrightarrow> sv_monitor_timer (sw_ctx u) = Some h \<Longrightarrow> armed r h \<noteq> None"
  shows "\<exists>rc r' u'. service_stop_sync (r, u) = Some (rc, r', u') \<and> rx_timers_wf r' \<and> rx_in_loop r' = rx_in_loop r
    \<and> sw_nl u' = sw_nl u \<and> sw_vpn u' = sw_vpn u"
proof (cases "sv_reactor (sw_ctx u) \<and> sv_monitor_timer (sw_ctx u) \<noteq> None")
  case True
  then obtain h where h: "sv_monitor_timer (sw_ctx u) = Some h" "armed r h \<noteq> None"
    using assms(5) by auto
  obtain r' where r': "reactor_cancel_timer (Some h) r = Some (0, r')" "rx_timers_wf r'"
    using cancel_timer_armed [OF assms(4) h(2)] by blast
  then show ?thesis
    using True h(1) assms(1-3) cancel_timer_in_loop [OF r'(1)]
    by (simp add: service_stop_sync_def cancel_all_def svc_cancel_def stop_child_def mark_stopped_def
        service_unlink_pid_def forget_child_def emit_def split: if_splits)
next
  case False
  then show ?thesis
    using assms(1-4)
    by (auto simp: service_stop_sync_def cancel_all_def svc_cancel_def stop_child_def mark_stopped_def
        service_unlink_pid_def forget_child_def emit_def)
qed

lemma destroy_service_down:
  assumes "idle_service ctx" "reactor_up b ctx"
  obtains ctx' where "destroy_service ctx = Some ctx'" "same_books ctx ctx'" "service_up False ctx'" "reactor_up b ctx'"
    "\<And>b. netlink_up b ctx' = netlink_up b ctx" "\<And>b. api_up b ctx' = api_up b ctx"
proof -
  have "rx_timers_wf (reactor_of ctx)"
    using assms(2) by (auto simp: reactor_up_def reactor_of_def reactor_zero_def rx_timers_wf_def all_timers_def split: option.splits)
  moreover have "armed (reactor_of ctx) h \<noteq> None" if "sv_monitor_timer (sw_ctx (ic_svc ctx)) = Some h" for h
    using assms(1) that by (auto simp: idle_service_def Let_def reactor_of_def)
  ultimately obtain rc r u where out: "service_stop_sync (reactor_of ctx, ic_svc ctx) = Some (rc, r, u)"
    and r: "rx_timers_wf r" "rx_in_loop r = rx_in_loop (reactor_of ctx)" and u: "sw_nl u = sw_nl (ic_svc ctx)" "sw_vpn u = sw_vpn (ic_svc ctx)"
    using stop_sync_idle [of "ic_svc ctx" "reactor_of ctx"] assms(1) by (auto simp: idle_service_def Let_def)
  show ?thesis
  proof (rule that [of "put_reactor r (ctx\<lparr>ic_svc := u, ic_service := False\<rparr>)"])
    show "reactor_up b (put_reactor r (ctx\<lparr>ic_svc := u, ic_service := False\<rparr>))"
      using assms(2) r by (auto simp: reactor_up_def reactor_of_def split: option.splits)
  qed (simp_all add: destroy_service_def out same_books_def cleaned_def up_defs u)
qed

lemma set_reactor_idle:
  assumes "rx_timers_wf r" "sv_monitor_timer (sw_ctx u) = None" "sv_retry_timer (sw_ctx u) = None" "sv_health_timer (sw_ctx u) = None"
    "sv_child_pid (sw_ctx u) \<le> 0"
  obtains rc r' u' where "service_set_reactor True (r, u) = Some (rc, r', u')" "rc = 0 \<or> rc < 0" "rx_timers_wf r'"
    "rx_in_loop r' = rx_in_loop r" "sw_nl u' = sw_nl u" "sw_vpn u' = sw_vpn u" "sv_retry_timer (sw_ctx u') = None"
    "sv_health_timer (sw_ctx u') = None" "sv_child_pid (sw_ctx u') \<le> 0"
    "\<forall>h. sv_monitor_timer (sw_ctx u') = Some h \<longrightarrow> armed r' h \<noteq> None"
proof -
  obtain h r' where add: "reactor_add_timer (os_alloc (os_now u)) (os_mono (os_now u)) 100 1000 (Some Fn_service_monitor_cb) (Some SVC) r
      = (h, r')"
    by fastforce
  have now: "os_now (upd_ctx f u) = os_now u" for f
    by (simp add: os_now_def)
  have r': "rx_timers_wf r'" "\<forall>i. h = Some i \<longrightarrow> armed r' i \<noteq> None"
    using add add_timer_wf [OF assms(1)] add_timer_armed [OF assms(1)] add_timer_fail [of _ _ _ _ _ _ r r'] assms(1)
    by (cases h; auto)+
  moreover have "rx_in_loop r' = rx_in_loop r"
    using add by (auto simp: reactor_add_timer_def Let_def timer_list_insert_def reactor_wakeup_def split: if_splits)
  ultimately show ?thesis
    by - (rule that [of "if h = None then -1 else 0" r' "upd_ctx (\<lambda>c. c\<lparr>sv_monitor_timer := h\<rparr>) (tick (upd_ctx (\<lambda>c. c\<lparr>sv_reactor := True\<rparr>) u))"],
        use assms add now in \<open>simp_all add: service_set_reactor_def svc_cancel_def svc_add_timer_def tick_def os_now_def Let_def\<close>)
qed

lemma service_lawful:
  assumes "phases_up S ctx" "4 \<notin> S" "5 \<notin> S"
  shows "lawful 4 S ctx (atpd_init_phase_service env ctx)"
proof (cases "ie_malloc env")
  case False
  then show ?thesis
    using assms by (simp add: atpd_init_phase_service_def lawful_Some phases_up_def up_defs same_books_def cleaned_def)
next
  case malloc: True
  obtain rc c where init: "service_init (ie_calloc env) (ic_config ctx) = (rc, c)"
    by fastforce
  define ctx1 where "ctx1 = ctx\<lparr>ic_svc := (ic_svc ctx)\<lparr>sw_ctx := c\<rparr>, ic_service := True, ic_service_api := False\<rparr>"
  have idle: "idle_service ctx1" and rc: "rc = 0 \<or> rc < 0"
    using service_init_idle [OF init] by (simp_all add: ctx1_def idle_service_def Let_def)
  have ctx1: "reactor_up b ctx1 = reactor_up b ctx" "netlink_up b ctx1 = netlink_up b ctx" "same_books ctx ctx1" for b
    by (simp_all add: ctx1_def up_defs same_books_def cleaned_def)
  have api1: "api_up False ctx1"
    using assms(1,3) by (simp add: ctx1_def phases_up_def api_up_def)
  have down: "lawful 4 S ctx (map_option (Pair (-1)) (destroy_service c))"
    if c: "idle_service c" "reactor_up (2 \<in> S) c" "netlink_up (3 \<in> S) c" "api_up False c" "same_books ctx c" for c
  proof -
    obtain c' where "destroy_service c = Some c'" "same_books c c'" "service_up False c'" "reactor_up (2 \<in> S) c'"
      "\<And>b. netlink_up b c' = netlink_up b c" "\<And>b. api_up b c' = api_up b c"
      using destroy_service_down [OF c(1,2)] by blast
    with c(3-5) show ?thesis
      using assms by (simp add: lawful_Some phases_up_def same_books_def)
  qed
  have up1: "reactor_up (2 \<in> S) ctx1" "netlink_up (3 \<in> S) ctx1"
    using assms(1) ctx1 by (simp_all add: phases_up_def)
  show ?thesis
  proof (cases "rc < 0 \<or> ic_reactor ctx1 = None")
    case True
    then have "atpd_init_phase_service env ctx = map_option (Pair (-1)) (destroy_service ctx1)"
      using malloc init by (auto simp: atpd_init_phase_service_def Let_def ctx1_def)
    then show ?thesis
      using down [OF idle up1 api1 ctx1(3)] by simp
  next
    case False
    then obtain r where r: "ic_reactor ctx1 = Some r"
      by auto
    have wf: "rx_timers_wf r"
      using up1(1) r by (simp add: reactor_up_def)
    have fresh: "sv_monitor_timer (sw_ctx (ic_svc ctx1)) = None" "sv_retry_timer (sw_ctx (ic_svc ctx1)) = None"
        "sv_health_timer (sw_ctx (ic_svc ctx1)) = None" "sv_child_pid (sw_ctx (ic_svc ctx1)) \<le> 0"
      using service_init_idle [OF init] by (simp_all add: ctx1_def)
    obtain rc2 r1 u1 where set: "service_set_reactor True (r, ic_svc ctx1) = Some (rc2, r1, u1)" "rc2 = 0 \<or> rc2 < 0"
        "rx_timers_wf r1" "rx_in_loop r1 = rx_in_loop r"
      and u1: "sw_nl u1 = sw_nl (ic_svc ctx1)" "sw_vpn u1 = sw_vpn (ic_svc ctx1)" "sv_retry_timer (sw_ctx u1) = None"
        "sv_health_timer (sw_ctx u1) = None" "sv_child_pid (sw_ctx u1) \<le> 0" "\<forall>h. sv_monitor_timer (sw_ctx u1) = Some h \<longrightarrow> armed r1 h \<noteq> None"
      by (rule set_reactor_idle [OF wf fresh])
    define ctx2 where "ctx2 = put_reactor r1 (ctx1\<lparr>ic_svc := u1\<rparr>)"
    have step: "atpd_init_phase_service env ctx = (if rc2 < 0 then map_option (Pair (-1)) (destroy_service ctx2) else Some (0, ctx2))"
      using False malloc init r set(1) by (simp add: atpd_init_phase_service_def Let_def ctx1_def ctx2_def)
    have ctx2: "idle_service ctx2" "reactor_up (2 \<in> S) ctx2" "netlink_up (3 \<in> S) ctx2" "api_up False ctx2" "same_books ctx ctx2" "ic_service ctx2"
      using up1 api1 ctx1(3) u1 set(3,4) r
      by (auto simp: ctx2_def up_defs same_books_def cleaned_def) (simp_all add: ctx1_def)
    show ?thesis
    proof (cases "rc2 < 0")
      case True
      then show ?thesis
        using step down [OF ctx2(1-5)] by simp
    next
      case False
      then show ?thesis
        using step ctx2 set(2) assms(3) by (simp add: lawful_Some phases_up_def service_up_def)
    qed
  qed
qed

subsection \<open>The native API\<close>

lemma api_cleanup_parts:
  assumes "api_cleanup a r = (a', r', fds)"
  shows "\<not> ap_initialized a' \<and> same_timers r r'"
  using assms same_timers_remove_fd by (auto simp: api_cleanup_def api_zero_def split: if_splits)

lemma api_start_parts:
  assumes "api_start_with_reactor env a r = (rc, a', r', fds)"
  shows "same_timers r r' \<and> (rc = 0 \<and> ap_initialized a' \<and> ap_worker_started a' \<or> rc < 0)"
proof -
  have fail: "start_fail c q = (rc', c', q', fs) \<Longrightarrow> same_timers q q'" and neg: "start_fail c q = (rc', c', q', fs) \<Longrightarrow> rc' < 0" for c q rc' c' q' fs
    using same_timers_remove_fd by (auto simp: start_fail_def)
  show ?thesis
  proof (cases "\<not> ap_initialized a \<or> ap_worker_started a \<or> as_pipe env = None \<or> as_eventfd env < 0")
    case True
    then show ?thesis
      using assms by (auto simp: api_start_with_reactor_def Let_def dest: fail neg split: if_splits option.splits)
  next
    case False
    then obtain rd wr where pipe: "as_pipe env = Some (rd, wr)"
      by auto
    obtain rc1 r1 calls where add: "reactor_add_fd (as_alloc env) (as_ctl_ok env) rd REACTOR_EVENT_READ (Some Fn_api_result_cb) (Some 0) r
        = (rc1, r1, calls)"
      by (metis prod_cases3)
    have r1: "same_timers r r1"
      by (rule same_timers_add_fd [OF add])
    have clean: "api_cleanup c r1 = (c', q', fs) \<Longrightarrow> same_timers r q'" for c c' q' fs
      using api_cleanup_parts [of c r1] same_timers_trans [OF r1] by blast
    show ?thesis
      using assms False pipe add r1
      by (auto simp: api_start_with_reactor_def Let_def dest: clean neg same_timers_trans [OF r1 fail] split: if_splits prod.splits)
  qed
qed

lemma cleanup_api_ctx_down:
  "same_books ctx (cleanup_api_ctx ctx) \<and> reactor_up b (cleanup_api_ctx ctx) = reactor_up b ctx
    \<and> netlink_up b (cleanup_api_ctx ctx) = netlink_up b ctx \<and> service_up b (cleanup_api_ctx ctx) = service_up b ctx
    \<and> api_up False (cleanup_api_ctx ctx) = (ctx_vpn_mode_callback (sw_vpn (ic_svc ctx)) = None \<and> \<not> ic_service_api ctx)"
proof -
  obtain a r fds where out: "api_cleanup (ic_api ctx) (reactor_of ctx) = (a, r, fds)"
    by (metis prod_cases3)
  define c where "c = ctx\<lparr>ic_api := a\<rparr>"
  have same: "same_timers (reactor_of c) r"
    using api_cleanup_parts [OF out] by (simp add: c_def reactor_of_def)
  have "reactor_up b c = reactor_up b ctx" "netlink_up b c = netlink_up b ctx" "service_up b c = service_up b ctx"
    by (simp_all add: c_def up_defs)
  then show ?thesis
    using reactor_up_put [OF same, of b] service_up_put [OF same, of b] api_cleanup_parts [OF out]
    by (simp add: cleanup_api_ctx_def out c_def [symmetric] same_books_def) (simp add: c_def api_up_def cleaned_def)
qed

lemma set_vpn_mode_callback_up [simp]:
  "reactor_up b (set_vpn_mode_callback cb ud ctx) = reactor_up b ctx" "netlink_up b (set_vpn_mode_callback cb ud ctx) = netlink_up b ctx"
  "service_up b (set_vpn_mode_callback cb ud ctx) = service_up b ctx" "ic_api (set_vpn_mode_callback cb ud ctx) = ic_api ctx"
  "ic_reactor (set_vpn_mode_callback cb ud ctx) = ic_reactor ctx" "ic_service_api (set_vpn_mode_callback cb ud ctx) = ic_service_api ctx"
  "ctx_vpn_mode_callback (sw_vpn (ic_svc (set_vpn_mode_callback cb ud ctx))) = cb" "same_books c (set_vpn_mode_callback cb ud ctx) = same_books c ctx"
  by (simp_all add: set_vpn_mode_callback_def atpd_set_vpn_mode_callback_def up_defs same_books_def cleaned_def)

lemma api_lawful:
  assumes "phases_up S ctx" "5 \<notin> S"
  shows "lawful 5 S ctx (atpd_init_phase_api env ctx)"
proof -
  obtain rc a where init: "api_init (fst (ie_locks env)) (snd (ie_locks env)) (ic_config ctx) = (rc, a)"
    by fastforce
  have rc: "rc = 0 \<or> rc < 0"
    using init by (auto simp: api_init_def split: if_splits)
  have down: "lawful 5 S ctx (Some (-1, cleanup_api_ctx c))"
    if "reactor_up (2 \<in> S) c" "netlink_up (3 \<in> S) c" "service_up (4 \<in> S) c" "ctx_vpn_mode_callback (sw_vpn (ic_svc c)) = None"
      "\<not> ic_service_api c" "same_books ctx c" for c
    using that cleanup_api_ctx_down [of c] assms(2) by (simp add: lawful_Some phases_up_def same_books_def)
  define ctx1 where "ctx1 = ctx\<lparr>ic_api := a\<rparr>"
  have ctx1: "reactor_up (2 \<in> S) ctx1" "netlink_up (3 \<in> S) ctx1" "service_up (4 \<in> S) ctx1"
      "ctx_vpn_mode_callback (sw_vpn (ic_svc ctx1)) = None" "\<not> ic_service_api ctx1" "same_books ctx ctx1"
    using assms by (simp_all add: ctx1_def phases_up_def up_defs same_books_def cleaned_def)
  define ctx2 where "ctx2 = set_vpn_mode_callback (Some VPN_MODE_CB) (Some API_PTR) ctx1"
  consider (fails) "rc < 0" | (nothing) "rc = 0" "ic_reactor ctx1 = None" | (starts) r where "rc = 0" "ic_reactor ctx1 = Some r"
    using rc by fastforce
  then show ?thesis
  proof cases
    case fails
    then show ?thesis
      using init down [OF ctx1] by (simp add: atpd_init_phase_api_def ctx1_def)
  next
    case nothing
    then show ?thesis
      using init down [of "set_vpn_mode_callback None None ctx2"] ctx1
      by (simp add: atpd_init_phase_api_def Let_def ctx2_def) (simp add: ctx1_def)
  next
    case starts
    obtain rc2 a2 r2 fds where st: "api_start_with_reactor (ie_api_start env) (ic_api ctx1) r = (rc2, a2, r2, fds)"
      by (metis prod_cases4)
    define c2 where "c2 = ctx2\<lparr>ic_api := a2\<rparr>"
    define ctx3 where "ctx3 = ic_emit [I_close fds] (put_reactor r2 c2)"
    have c2: "reactor_up (2 \<in> S) c2" "netlink_up (3 \<in> S) c2" "service_up (4 \<in> S) c2" "\<not> ic_service_api c2" "same_books ctx c2" "ic_api c2 = a2"
      using ctx1 by (simp_all add: c2_def ctx2_def up_defs set_vpn_mode_callback_def same_books_def cleaned_def)
    have same: "same_timers (reactor_of c2) r2"
      using api_start_parts [OF st] starts by (simp add: c2_def ctx2_def reactor_of_def)
    have ctx3: "reactor_up (2 \<in> S) ctx3" "netlink_up (3 \<in> S) ctx3" "service_up (4 \<in> S) ctx3" "\<not> ic_service_api ctx3"
        "same_books ctx ctx3" "ic_api ctx3 = a2"
      using c2 reactor_up_put [OF same] service_up_put [OF same] by (simp_all add: ctx3_def same_books_def)
    have step: "atpd_init_phase_api env ctx =
        (if rc2 < 0 then Some (-1, cleanup_api_ctx (set_vpn_mode_callback None None ctx3)) else Some (0, ctx3\<lparr>ic_service_api := ic_service ctx3\<rparr>))"
      using init starts st by (simp add: atpd_init_phase_api_def Let_def ctx1_def ctx2_def c2_def ctx3_def)
    show ?thesis
    proof (cases "rc2 < 0")
      case True
      then show ?thesis
        using step down [of "set_vpn_mode_callback None None ctx3"] ctx3 by simp
    next
      case False
      then show ?thesis
        using step ctx3 api_start_parts [OF st] by (simp add: lawful_Some phases_up_def up_defs same_books_def cleaned_def)
    qed
  qed
qed

subsection \<open>Taking a phase down\<close>

lemma cleanup_reactor_down:
  assumes "phases_up S ctx" "S \<subseteq> {..2}"
  obtains ctx' where "cleanup_reactor ctx = Some ctx'" "phases_up (S - {2}) ctx'" "same_books ctx ctx'"
proof -
  have "3 \<notin> S" "4 \<notin> S" "5 \<notin> S"
    using assms(2) by auto
  moreover have "concat (map cleaned_by (case x of None \<Rightarrow> [] | Some (_, fds) \<Rightarrow> [I_close fds])) = []" for x :: "(free_call list \<times> fd list) option"
    by (cases x) auto
  moreover have "cleaned (ctx\<lparr>ic_reactor := None\<rparr>) = cleaned ctx"
    by (simp add: cleaned_def)
  ultimately show ?thesis
    using assms(1) that
    by (cases "ic_reactor ctx") (simp_all add: cleanup_reactor_def phases_up_def same_books_def, simp_all add: up_defs)
qed

lemma cleanup_netlink_law:
  assumes "phases_up S ctx"
  obtains ctx' where "cleanup_netlink ctx = Some ctx'" "phases_up (S - {3}) ctx'" "same_books ctx ctx'"
proof -
  have "nl_debounce_timer (sw_nl (ic_svc ctx)) = None"
    using assms by (simp add: phases_up_def netlink_up_def Let_def)
  then obtain ctx' where "cleanup_netlink ctx = Some ctx'" "same_books ctx ctx'" "netlink_up False ctx'"
    "\<And>b. reactor_up b ctx' = reactor_up b ctx" "\<And>b. service_up b ctx' = service_up b ctx" "\<And>b. api_up b ctx' = api_up b ctx"
    using cleanup_netlink_down by blast
  then show ?thesis
    using assms that by (simp add: phases_up_def)
qed

lemma cleanup_service_law:
  assumes "phases_up S ctx" "4 \<in> S"
  obtains ctx' where "cleanup_service ctx = Some ctx'" "phases_up (S - {4}) ctx'" "same_books ctx ctx'"
proof -
  have "idle_service ctx" "reactor_up (2 \<in> S) ctx" "ic_service ctx"
    using assms by (simp_all add: phases_up_def service_up_def)
  then obtain ctx' where "destroy_service ctx = Some ctx'" "same_books ctx ctx'" "service_up False ctx'" "reactor_up (2 \<in> S) ctx'"
    "\<And>b. netlink_up b ctx' = netlink_up b ctx" "\<And>b. api_up b ctx' = api_up b ctx"
    using destroy_service_down by blast
  then show ?thesis
    using assms that \<open>ic_service ctx\<close> by (simp add: phases_up_def cleanup_service_def)
qed

lemma cleanup_api_law:
  assumes "phases_up S ctx"
  obtains ctx' where "cleanup_api ctx = Some ctx'" "phases_up (S - {5}) ctx'" "same_books ctx ctx'"
proof -
  define c where "c = set_vpn_mode_callback None None (ctx\<lparr>ic_service_api := False\<rparr>)"
  have "reactor_up b c = reactor_up b ctx" "netlink_up b c = netlink_up b ctx" "service_up b c = service_up b ctx" for b
    by (simp_all add: c_def up_defs set_vpn_mode_callback_def)
  moreover have "same_books ctx c" "ctx_vpn_mode_callback (sw_vpn (ic_svc c)) = None" "\<not> ic_service_api c"
    by (simp_all add: c_def) (simp add: same_books_def cleaned_def)
  moreover have "cleanup_api ctx = Some (cleanup_api_ctx c)"
    by (simp add: cleanup_api_def c_def)
  ultimately show ?thesis
    using assms cleanup_api_ctx_down [of c] by (intro that [of "cleanup_api_ctx c"]) (simp_all add: phases_up_def same_books_def)
qed

lemma phase_index_cases:
  fixes i :: nat
  assumes "i < 7"
  obtains "i = 0" | "i = 1" | "i = 2" | "i = 3" | "i = 4" | "i = 5" | "i = 6"
  using assms by linarith

lemma phases_length [simp]: "length (init_phases env) = 7"
  by (simp add: init_phases_def)

lemma phases_nth:
  "init_phases env ! 0 = \<lparr>ph_phase = INIT_PHASE_CONFIG, ph_name = ''config'', ph_handler = atpd_init_phase_config env, ph_cleanup = None, ph_required = True\<rparr>"
  "init_phases env ! 1 = \<lparr>ph_phase = INIT_PHASE_LOGGER, ph_name = ''logger'', ph_handler = atpd_init_phase_logger env, ph_cleanup = None, ph_required = True\<rparr>"
  "init_phases env ! 2 = \<lparr>ph_phase = INIT_PHASE_REACTOR, ph_name = ''reactor'', ph_handler = atpd_init_phase_reactor env, ph_cleanup = Some cleanup_reactor, ph_required = True\<rparr>"
  "init_phases env ! 3 = \<lparr>ph_phase = INIT_PHASE_NETLINK, ph_name = ''netlink'', ph_handler = atpd_init_phase_netlink env, ph_cleanup = Some cleanup_netlink, ph_required = True\<rparr>"
  "init_phases env ! 4 = \<lparr>ph_phase = INIT_PHASE_SERVICE, ph_name = ''service'', ph_handler = atpd_init_phase_service env, ph_cleanup = Some cleanup_service, ph_required = True\<rparr>"
  "init_phases env ! 5 = \<lparr>ph_phase = INIT_PHASE_API, ph_name = ''api'', ph_handler = atpd_init_phase_api env, ph_cleanup = Some cleanup_api, ph_required = False\<rparr>"
  "init_phases env ! 6 = \<lparr>ph_phase = INIT_PHASE_READY, ph_name = ''ready'', ph_handler = atpd_init_phase_ready, ph_cleanup = None, ph_required = True\<rparr>"
  by (simp_all add: init_phases_def)

lemma handlers_lawful:
  assumes "i < 7" "S \<subseteq> {..<i}" "phases_up S ctx"
  shows "lawful i S ctx (ph_handler (init_phases env ! i) ctx)"
proof -
  have out: "j \<notin> S" if "i \<le> j" for j
    using assms(2) that by auto
  show ?thesis
    using assms(1)
  proof (cases rule: phase_index_cases)
    case 7
    then show ?thesis
      using assms(3) by (simp add: phases_nth atpd_init_phase_ready_def lawful_Some phases_up_def same_books_def)
  qed (use assms(3) out in \<open>simp_all add: phases_nth config_lawful phases_nth [simplified] logger_lawful [simplified] reactor_lawful netlink_lawful service_lawful api_lawful\<close>)
qed

lemma cleanups_lawful:
  assumes "i < 7" "i \<in> S" "S \<subseteq> {..i}" "phases_up S ctx"
  shows "case ph_cleanup (init_phases env ! i) of
      None \<Rightarrow> phases_up (S - {i}) ctx
    | Some f \<Rightarrow> \<exists>ctx'. f ctx = Some ctx' \<and> phases_up (S - {i}) ctx' \<and> same_books ctx ctx'"
  using assms(1)
proof (cases rule: phase_index_cases)
  case 3
  then show ?thesis
    using cleanup_reactor_down [of S ctx] assms by (auto simp: phases_nth)
next
  case 4
  then show ?thesis
    using cleanup_netlink_law [OF assms(4)] by (auto simp: phases_nth)
next
  case 5
  then show ?thesis
    using cleanup_service_law [OF assms(4)] assms(2) by (auto simp: phases_nth)
next
  case 6
  then show ?thesis
    using cleanup_api_law [OF assms(4)] by (auto simp: phases_nth)
qed (use assms(4) in \<open>simp_all add: phases_nth phases_nth [simplified] phases_up_def\<close>)

interpretation daemon_phases: init_table "init_phases env" phases_up for env
proof
  show "phase_no (ph_phase (init_phases env ! i)) = i" if "i < length (init_phases env)" for i
  proof -
    have "i < 7"
      using that by simp
    then show ?thesis
      by (cases rule: phase_index_cases) (simp_all add: phases_nth phases_nth [simplified])
  qed
qed (use handlers_lawful cleanups_lawful in \<open>auto simp: lawful_def\<close>)

text \<open>C36: initialization is all or nothing.  From a daemon in which nothing is up, the initialization
  always returns.  If it succeeds, every phase is up, with at most the native API missing, and the
  two masks say exactly which.  If it fails, then at a required phase, and the completed phases that
  have a cleanup have been cleaned up in reverse order: the reactor, the netlink sockets, the
  supervisor and the native API are gone, no observer is registered, and no phase is marked
  completed.\<close>

theorem init_all_or_nothing:
  assumes "phases_up {} ctx"
  shows "\<exists>rc ctx'. atpd_init_run (init_phases env) ctx = Some (rc, ctx') \<and>
    (if rc = 0
     then phases_up (bits (ic_completed_phases ctx')) ctx' \<and> cleaned ctx' = cleaned ctx
       \<and> bits (ic_degraded_phases ctx') \<subseteq> {phase_no INIT_PHASE_API}
       \<and> bits (ic_completed_phases ctx') = {..<INIT_PHASE_MAX} - bits (ic_degraded_phases ctx')
     else phases_up {} ctx' \<and> ic_completed_phases ctx' = 0
       \<and> (\<exists>n<INIT_PHASE_MAX. \<exists>S\<subseteq>{..<n}. n \<noteq> phase_no INIT_PHASE_API \<and> (\<forall>j<n. j \<in> S \<or> j = phase_no INIT_PHASE_API)
            \<and> cleaned ctx' = cleaned ctx @ undone (init_phases env) S n))"
proof -
  have required: "i < 7 \<Longrightarrow> \<not> ph_required (init_phases env ! i) \<longleftrightarrow> i = 5" for i
    by (cases rule: phase_index_cases [of i]) (simp_all add: phases_nth phases_nth [simplified])
  obtain rc ctx' where run: "atpd_init_run (init_phases env) ctx = Some (rc, ctx')" and
    out: "if rc = 0
     then phases_up (bits (ic_completed_phases ctx')) ctx' \<and> cleaned ctx' = cleaned ctx
       \<and> bits (ic_completed_phases ctx') \<union> bits (ic_degraded_phases ctx') = {..<7}
       \<and> bits (ic_completed_phases ctx') \<inter> bits (ic_degraded_phases ctx') = {}
       \<and> (\<forall>j\<in>bits (ic_degraded_phases ctx'). \<not> ph_required (init_phases env ! j))
     else phases_up {} ctx' \<and> ic_completed_phases ctx' = 0
       \<and> (\<exists>n<7. \<exists>S\<subseteq>{..<n}. ph_required (init_phases env ! n) \<and> (\<forall>j<n. j \<in> S \<or> \<not> ph_required (init_phases env ! j))
            \<and> cleaned ctx' = cleaned ctx @ undone (init_phases env) S n)"
    using daemon_phases.run_all_or_nothing [OF assms, of env] unfolding phases_length by blast
  show ?thesis
  proof (cases "rc = 0")
    case True
    then have sets: "bits (ic_completed_phases ctx') \<union> bits (ic_degraded_phases ctx') = {..<7}"
        "bits (ic_completed_phases ctx') \<inter> bits (ic_degraded_phases ctx') = {}"
        "\<forall>j\<in>bits (ic_degraded_phases ctx'). \<not> ph_required (init_phases env ! j)"
      using out by simp_all
    have "bits (ic_degraded_phases ctx') \<subseteq> {5}"
    proof
      fix j assume j: "j \<in> bits (ic_degraded_phases ctx')"
      then have "j < 7"
        using sets(1) by (metis UnI2 lessThan_iff)
      then show "j \<in> {5}"
        using required sets(3) j by blast
    qed
    moreover have "bits (ic_completed_phases ctx') = {..<7} - bits (ic_degraded_phases ctx')"
      using sets(1,2) by blast
    ultimately show ?thesis
      using run out True by (auto simp: INIT_PHASE_MAX_def)
  next
    case False
    then obtain n S where n: "n < 7" "S \<subseteq> {..<n}" "ph_required (init_phases env ! n)"
        "\<forall>j<n. j \<in> S \<or> \<not> ph_required (init_phases env ! j)" "cleaned ctx' = cleaned ctx @ undone (init_phases env) S n"
      using out by auto
    have "n \<noteq> 5" "\<forall>j<n. j \<in> S \<or> j = 5"
      using required n(1,3,4) less_trans by blast+
    then show ?thesis
      using run out False n by (intro exI [of _ rc] exI [of _ ctx']) (auto simp: INIT_PHASE_MAX_def)
  qed
qed

text \<open>A daemon without memory for the supervisor: netlink and the reactor are taken down again.\<close>

definition fresh_daemon :: atpd_init_context_t where
  "fresh_daemon = \<lparr>ic_config = config_set_defaults \<lparr>ce_app_dir = ''/data'', ce_net_admin = True, ce_json = (\<lambda>_. Json_absent)\<rparr>,
     ic_config_loaded = True, ic_reactor = None, ic_service = False, ic_api = api_zero, ic_opts = options_zero,
     ic_completed_phases = 0, ic_degraded_phases = 0, ic_service_api = False,
     ic_svc = \<lparr>sw_ctx = ctx_zero, sw_stops = (\<lambda>_. None), sw_next = 1, sw_nl = nl_zero, sw_vpn = g_context,
       sw_os = (\<lambda>_. sample_os), sw_trace = []\<rparr>, ic_trace = []\<rparr>"

definition tight_system :: init_env where
  "tight_system = \<lparr>ie_readable = (\<lambda>_. False), ie_conf = \<lparr>ce_app_dir = ''/data'', ce_net_admin = True, ce_json = (\<lambda>_. Json_absent)\<rparr>,
     ie_file = (\<lambda>_. None),
     ie_create = \<lparr>ce_alloc = True, ce_epoll_fd = 3, ce_event_fd = 4, ce_signal_fd = 5, ce_add_signal = (True, True),
       ce_add_event = (True, True), ce_now = 1000\<rparr>,
     ie_nl_sync = (6, True), ie_nl_async = (7, True), ie_nl_add = (True, True), ie_xfrm_sock = (8, True), ie_xfrm_add = (True, True),
     ie_malloc = False, ie_calloc = True, ie_locks = (True, True),
     ie_api_start = \<lparr>as_pipe = None, as_eventfd = -1, as_alloc = True, as_ctl_ok = True, as_mask_ok = True, as_thread_ok = True,
       as_restore_ok = True\<rparr>\<rparr>"

theorem init_all_or_nothing_witness:
  "\<exists>rc ctx'. atpd_init_run (init_phases tight_system) fresh_daemon = Some (rc, ctx')
     \<and> (if rc = 0 then phases_up (bits (ic_completed_phases ctx')) ctx' else phases_up {} ctx' \<and> ic_completed_phases ctx' = 0)"
proof -
  have "phases_up {} fresh_daemon"
    by (simp add: fresh_daemon_def phases_up_def up_defs api_zero_def nl_zero_def g_context_def)
  from init_all_or_nothing [OF this, of tight_system] show ?thesis
    by (auto split: if_splits)
qed

end
