(* ===== verification/Daemon_Props.thy ===== *)
theory Daemon_Props
  imports Daemon Atpd_Init_Props Uds_Props Config_Props
begin

text \<open>
  Two properties of the whole daemon: a reload of the configuration is a transaction, and the
  process that starts the daemon is told exactly once how it went.
\<close>

unbundle bit_operations_syntax

lemmas daemon_views = dm_r_def put_r_def dm_runtime_def put_runtime_def svc_of_def put_svc_def uds_of_def put_uds_def
  put_sessions_def set_reactor_def dm_emit_def

subsection \<open>Reloading\<close>

lemma apply_config_outcome:
  assumes "rx_timers_wf r" "\<And>h. sv_health_timer (sw_ctx u) = Some h \<Longrightarrow> armed r h \<noteq> None"
  obtains rc r' u' where "service_apply_config cfg (r, u) = Some (rc, r', u')" "sw_vpn u' = sw_vpn u"
    "rc = 0 \<and> (\<exists>t. sw_ctx u' = (apply_values cfg (sw_ctx u))\<lparr>sv_health_timer := t\<rparr>)
     \<or> rc < 0 \<and> sw_ctx u' = sw_ctx u \<and> os_alloc (os_now u) \<noteq> (True, True)"
proof (cases "or_default (health_check_interval_ms (cfg_service cfg)) 5000 \<noteq> sv_health_check_interval_ms (sw_ctx u)
    \<and> sv_reactor (sw_ctx u) \<and> sv_state (sw_ctx u) = SERVICE_RUNNING")
  case False
  then show ?thesis
    by (intro that [of 0 r "upd_ctx (apply_values cfg) u"])
       (auto simp: service_apply_config_def Let_def intro!: exI [of _ "sv_health_timer (sw_ctx u)"] simp: apply_values_def)
next
  case True
  define iv where "iv = (word_of_int (or_default (health_check_interval_ms (cfg_service cfg)) 5000) :: u64)"
  obtain t r1 where add: "reactor_add_timer (os_alloc (os_now u)) (os_mono (os_now u)) iv iv (Some Fn_service_health_check_cb) (Some SVC) r
      = (t, r1)"
    by fastforce
  show ?thesis
  proof (cases t)
    case None
    have "os_alloc (os_now u) \<noteq> (True, True)"
      using add None by (auto simp: reactor_add_timer_def Let_def)
    then show ?thesis
      using True add None
      by (intro that [of "-1" r1 "tick u"]) (auto simp: service_apply_config_def Let_def svc_add_timer_def iv_def tick_def)
  next
    case (Some i)
    have r1: "rx_timers_wf r1" "armed r1 = (armed r)(i \<mapsto> (Some Fn_service_health_check_cb, Some SVC, iv))"
      using add Some add_timer_wf [OF assms(1)] add_timer_armed [OF assms(1)] by auto
    show ?thesis
    proof (cases "sv_health_timer (sw_ctx u)")
      case None
      then show ?thesis
        using True add Some
        by (intro that [of 0 r1 "upd_ctx (\<lambda>c. (apply_values cfg c)\<lparr>sv_health_timer := Some i\<rparr>) (tick u)"])
           (auto simp: service_apply_config_def Let_def svc_add_timer_def iv_def tick_def)
    next
      case (Some h)
      have "armed r1 h \<noteq> None"
        using assms(2) [OF Some] r1(2) by simp
      then obtain r2 where "reactor_cancel_timer (Some h) r1 = Some (0, r2)"
        using cancel_timer_armed [OF r1(1)] by blast
      then show ?thesis
        using True add \<open>t = Some i\<close> Some
        by (intro that [of 0 r2 "upd_ctx (\<lambda>c. (apply_values cfg c)\<lparr>sv_health_timer := Some i\<rparr>) (tick u)"])
           (auto simp: service_apply_config_def Let_def svc_add_timer_def iv_def tick_def)
    qed
  qed
qed

text \<open>The configuration a reload would install: a valid one that needs no restart.\<close>

definition reload_candidate :: "idle_env \<Rightarrow> daemon \<Rightarrow> atp_config_t option" where
  "reload_candidate env d =
     (case config_prepare_reload (id_conf env) (id_exists env) (dm_config_path d) (id_file env) (dm_config d) of
        (rc, candidate) \<Rightarrow>
          (if rc = ATP_OK \<and> fst (config_classify_reload (dm_config d) candidate 512) AND CONFIG_RELOAD_CHANGE_REQUIRES_RESTART = 0
           then Some candidate else None))"

lemma reload_return_running:
  assumes "ctx_runtime_state (dm_runtime d) = RT_RELOADING"
  shows "reload_return_to_running_or_shutdown d = put_runtime ((dm_runtime d)\<lparr>ctx_runtime_state := RT_RUNNING\<rparr>) d"
  using assms
  by (simp add: reload_return_to_running_or_shutdown_def runtime_to_def atpd_runtime_state_transition_def runtime_state_of_int_def
      ST_RUNNING_def)

lemma to_reloading:
  assumes "ctx_runtime_state (dm_runtime d) = RT_RUNNING"
  shows "runtime_to ST_RELOADING d = (0, put_runtime ((dm_runtime d)\<lparr>ctx_runtime_state := RT_RELOADING\<rparr>) d)"
  using assms
  by (simp add: runtime_to_def atpd_runtime_state_transition_def runtime_state_of_int_def ST_RELOADING_def)

definition reloaded :: "idle_env \<Rightarrow> daemon \<Rightarrow> daemon \<Rightarrow> bool" where
  "reloaded env d d' \<longleftrightarrow> ctx_runtime_state (dm_runtime d') = RT_RUNNING \<and> \<not> dm_reload_requested d' \<and> \<not> dm_shutdown_requested d'
     \<and> (case reload_candidate env d of
          None \<Rightarrow> dm_config d' = dm_config d \<and> sw_ctx (dm_svc d') = sw_ctx (dm_svc d)
        | Some cfg \<Rightarrow>
            dm_config d' = cfg \<and> (\<exists>t. sw_ctx (dm_svc d') = (apply_values cfg (sw_ctx (dm_svc d)))\<lparr>sv_health_timer := t\<rparr>)
            \<or> os_alloc (os_now (dm_svc d)) \<noteq> (True, True) \<and> dm_config d' = dm_config d \<and> sw_ctx (dm_svc d') = sw_ctx (dm_svc d))"

lemma process_reload_reloaded:
  assumes "\<not> dm_shutdown_requested d" "ctx_runtime_state (dm_runtime d) = RT_RUNNING" "dm_service d" "rx_timers_wf (dm_r d)"
    "\<And>h. sv_health_timer (sw_ctx (dm_svc d)) = Some h \<Longrightarrow> armed (dm_r d) h \<noteq> None"
  shows "\<exists>d'. process_reload env d = Some d' \<and> reloaded env d d' \<and> dm_status_requested d' = dm_status_requested d"
proof -
  define d1 where "d1 = put_runtime ((dm_runtime d)\<lparr>ctx_runtime_state := RT_RELOADING\<rparr>) (d\<lparr>dm_reload_requested := False\<rparr>)"
  obtain rc cand where prep: "config_prepare_reload (id_conf env) (id_exists env) (dm_config_path d) (id_file env) (dm_config d) = (rc, cand)"
    by fastforce
  obtain changes fields where cls: "config_classify_reload (dm_config d) cand 512 = (changes, fields)"
    by fastforce
  have d1: "dm_config d1 = dm_config d" "dm_config_path d1 = dm_config_path d" "dm_service d1" "svc_of d1 = (dm_r d, dm_svc d1)"
      "ctx_runtime_state (dm_runtime d1) = RT_RELOADING" "sw_ctx (dm_svc d1) = sw_ctx (dm_svc d)" "os_now (dm_svc d1) = os_now (dm_svc d)"
      "\<not> dm_shutdown_requested d1" "\<not> dm_reload_requested d1" "dm_status_requested d1 = dm_status_requested d" "dm_r d1 = dm_r d"
    using assms(1,3) by (simp_all add: d1_def daemon_views os_now_def)
  have start: "process_reload env d = (if rc \<noteq> ATP_OK then Some (reload_return_to_running_or_shutdown d1) else apply_reload cand d1)"
    using assms(1,2) prep to_reloading [of "d\<lparr>dm_reload_requested := False\<rparr>"]
    by (simp add: process_reload_def Let_def atpd_runtime_can_reload_def d1_def dm_runtime_def put_runtime_def)
  have same: "reloaded env d (reload_return_to_running_or_shutdown c) \<and> dm_status_requested (reload_return_to_running_or_shutdown c) = dm_status_requested d"
    if "ctx_runtime_state (dm_runtime c) = RT_RELOADING" "\<not> dm_shutdown_requested c" "\<not> dm_reload_requested c"
      "dm_status_requested c = dm_status_requested d"
      "case reload_candidate env d of
          None \<Rightarrow> dm_config c = dm_config d \<and> sw_ctx (dm_svc c) = sw_ctx (dm_svc d)
        | Some cfg \<Rightarrow>
            dm_config c = cfg \<and> (\<exists>t. sw_ctx (dm_svc c) = (apply_values cfg (sw_ctx (dm_svc d)))\<lparr>sv_health_timer := t\<rparr>)
            \<or> os_alloc (os_now (dm_svc d)) \<noteq> (True, True) \<and> dm_config c = dm_config d \<and> sw_ctx (dm_svc c) = sw_ctx (dm_svc d)" for c
    using that reload_return_running [OF that(1)]
    by (simp add: reloaded_def dm_runtime_def put_runtime_def split: option.splits)
  show ?thesis
  proof (cases "rc = ATP_OK \<and> changes AND CONFIG_RELOAD_CHANGE_REQUIRES_RESTART = 0")
    case False
    then have "reload_candidate env d = None"
      by (auto simp: reload_candidate_def prep cls)
    moreover have "process_reload env d = Some (reload_return_to_running_or_shutdown d1)"
      using start False cls d1(1) by (auto simp: apply_reload_def)
    ultimately show ?thesis
      using same [of d1] d1 by simp
  next
    case True
    then have cand: "reload_candidate env d = Some cand"
      by (simp add: reload_candidate_def prep cls)
    have live: "sv_health_timer (sw_ctx (dm_svc d1)) = Some h \<Longrightarrow> armed (dm_r d) h \<noteq> None" for h
      using assms(5) d1(6) by simp
    obtain arc r' u' where app: "service_apply_config cand (dm_r d, dm_svc d1) = Some (arc, r', u')"
      and vpn: "sw_vpn u' = sw_vpn (dm_svc d1)"
      and out: "arc = 0 \<and> (\<exists>t. sw_ctx u' = (apply_values cand (sw_ctx (dm_svc d1)))\<lparr>sv_health_timer := t\<rparr>)
         \<or> arc < 0 \<and> sw_ctx u' = sw_ctx (dm_svc d1) \<and> os_alloc (os_now (dm_svc d1)) \<noteq> (True, True)"
      by (rule apply_config_outcome [OF assms(4) live])
    define d2 where "d2 = put_svc (r', u') d1"
    have d2: "dm_svc d2 = u'" "dm_config d2 = dm_config d" "\<not> dm_shutdown_requested d2" "\<not> dm_reload_requested d2"
        "dm_status_requested d2 = dm_status_requested d" "ctx_runtime_state (dm_runtime d2) = RT_RELOADING"
      using d1 vpn by (simp_all add: d2_def daemon_views)
    have step: "process_reload env d = Some (reload_return_to_running_or_shutdown
        (if arc < 0 then d2 else dm_emit [D_timezone] (d2\<lparr>dm_config := cand\<rparr>)))"
      using start True cls d1(1,3,4) app by (simp add: apply_reload_def d2_def)
    show ?thesis
    proof (cases "arc < 0")
      case True
      then show ?thesis
        using step same [of d2] d2 out d1(6,7) cand by simp
    next
      case False
      then show ?thesis
        using step same [of "dm_emit [D_timezone] (d2\<lparr>dm_config := cand\<rparr>)"] d2 out d1(6) cand
        by (simp add: dm_emit_def dm_runtime_def)
    qed
  qed
qed

text \<open>C35: a reload is a transaction.  When the idle callback processes a reload request of a running
  daemon, it returns and the daemon is running again.  If the file at the configuration path gives a
  valid configuration that differs from the current one only in settings that need no restart, then
  exactly this configuration is installed, in the daemon and in the supervisor, unless there was no
  memory for the new health timer; in every other case the daemon and the supervisor keep theirs.\<close>

theorem reload_transactional:
  assumes "atpd_session_gc_process (ud_sessions (dm_uds d)) = Some s" "dm_reload_requested d" "\<not> dm_shutdown_requested d"
    "ctx_runtime_state (dm_runtime d) = RT_RUNNING" "dm_service d" "rx_timers_wf (sw_reactor s)"
    "\<And>h. sv_health_timer (sw_ctx (dm_svc d)) = Some h \<Longrightarrow> armed (sw_reactor s) h \<noteq> None"
  shows "\<exists>d'. on_idle env d = Some d' \<and> reloaded env d d'"
proof -
  define d1 where "d1 = put_sessions s d"
  have d1: "\<not> dm_shutdown_requested d1" "ctx_runtime_state (dm_runtime d1) = RT_RUNNING" "dm_service d1" "dm_reload_requested d1"
      "dm_r d1 = sw_reactor s" "dm_svc d1 = dm_svc d" "dm_config d1 = dm_config d" "dm_config_path d1 = dm_config_path d"
    using assms by (simp_all add: d1_def daemon_views)
  obtain d2 where d2: "process_reload env d1 = Some d2" "reloaded env d1 d2"
    using process_reload_reloaded [OF d1(1-3), of env] assms(6,7) d1(5,6) by auto
  have "reload_candidate env d1 = reload_candidate env d"
    by (simp add: reload_candidate_def d1(7,8))
  then have same: "reloaded env d1 = reloaded env d"
    by (intro ext) (cases "reload_candidate env d"; simp add: reloaded_def d1(6,7))
  have quiet: "\<not> dm_shutdown_requested d2"
    using d2(2) by (simp add: reloaded_def)
  define d3 where "d3 = (if dm_status_requested d2 then dm_emit [D_status True] (d2\<lparr>dm_status_requested := False\<rparr>) else d2)"
  have "on_idle env d = Some d3"
    using assms(1) d1(4) d2(1) quiet by (simp add: on_idle_def d1_def [symmetric] d3_def dm_emit_def)
  moreover have "reloaded env d d3"
    using d2(2) unfolding same by (simp add: d3_def reloaded_def dm_emit_def dm_runtime_def split: option.splits)
  ultimately show ?thesis
    by blast
qed

text \<open>A running daemon, told to reload a file that gives its configuration with the other display
  setting.\<close>

definition running_daemon :: daemon where
  "running_daemon =
     \<lparr>dm_config = upd_core (\<lambda>c. c\<lparr>ui_emoji_enabled := \<not> ui_emoji_enabled c\<rparr>) port_cfg, dm_api = api_zero,
      dm_config_path = ''/data/atp.conf'', dm_reactor = True, dm_service = True, dm_shutdown_requested = False,
      dm_reload_requested = True, dm_status_requested = False, dm_pid_fd = 3, dm_notify_fd = -1, dm_notified = True,
      dm_uds = empty_uds, dm_svc = (ic_svc fresh_daemon)\<lparr>sw_vpn := g_context\<lparr>ctx_runtime_state := RT_RUNNING\<rparr>\<rparr>, dm_trace = []\<rparr>"

definition port_idle :: idle_env where
  "port_idle = \<lparr>id_conf = plain_env, id_exists = True, id_file = Some port_file\<rparr>"

lemma other_display: "upd_core (\<lambda>c. c\<lparr>ui_emoji_enabled := \<not> ui_emoji_enabled c\<rparr>) cfg \<noteq> cfg"
  by (simp add: cfg_eq_iff core_eq_iff)

lemma port_candidate: "reload_candidate port_idle running_daemon = Some port_cfg"
proof -
  let ?cur = "upd_core (\<lambda>c. c\<lparr>ui_emoji_enabled := \<not> ui_emoji_enabled c\<rparr>) port_cfg"
  have "config_build plain_env (Some port_file) = Inr port_cfg"
    using port_file_loads [of ?cur] other_display by (simp add: config_load_def split: sum.splits)
  moreover have "True \<notin> set (map fst (restart_checks ?cur port_cfg))"
    unfolding restart_none by (simp add: take_hot_def take_static_def cfg_eq_iff core_eq_iff service_eq_iff)
  then have "fst (config_classify_reload ?cur port_cfg 512) AND CONFIG_RELOAD_CHANGE_REQUIRES_RESTART = 0"
    by (simp add: classify_flags CONFIG_RELOAD_CHANGE_REQUIRES_RESTART_def)
  ultimately show ?thesis
    by (simp add: reload_candidate_def running_daemon_def port_idle_def config_prepare_reload_def)
qed

theorem reload_transactional_witness:
  "\<exists>d'. on_idle port_idle running_daemon = Some d' \<and> dm_config d' = port_cfg \<and> dm_config running_daemon \<noteq> port_cfg"
proof -
  let ?s = "ud_sessions empty_uds"
  have "atpd_session_gc_process (ud_sessions (dm_uds running_daemon)) = Some ?s"
    by (simp add: running_daemon_def empty_uds_def atpd_session_gc_process_def)
  moreover have "dm_reload_requested running_daemon" "\<not> dm_shutdown_requested running_daemon"
      "ctx_runtime_state (dm_runtime running_daemon) = RT_RUNNING" "dm_service running_daemon"
      "sv_health_timer (sw_ctx (dm_svc running_daemon)) = None"
    by (simp_all add: running_daemon_def dm_runtime_def fresh_daemon_def ctx_zero_def)
  moreover have "os_alloc (os_now (dm_svc running_daemon)) = (True, True)" "dm_config running_daemon \<noteq> port_cfg"
    using other_display by (simp_all add: running_daemon_def fresh_daemon_def os_now_def sample_os_def)
  moreover have "rx_timers_wf (sw_reactor ?s)"
    by (simp add: empty_uds_def reactor_zero_def rx_timers_wf_def all_timers_def)
  ultimately show ?thesis
    using reload_transactional [of running_daemon ?s port_idle] by (auto simp: reloaded_def port_candidate)
qed

subsection \<open>Telling the parent\<close>

text \<open>What the process that started the daemon is told, and when: the notifications among the events,
  with the entry of the main loop.\<close>

fun startup_event :: "daemon_event \<Rightarrow> bool" where
  "startup_event (D_notify s) = True"
| "startup_event D_loop = True"
| "startup_event _ = False"

definition told :: "daemon \<Rightarrow> bool \<times> fd \<times> daemon_event list" where
  "told d = (dm_notified d, dm_notify_fd d, filter startup_event (dm_trace d))"

fun tell :: "bool \<Rightarrow> int \<Rightarrow> bool \<times> fd \<times> daemon_event list \<Rightarrow> bool \<times> fd \<times> daemon_event list" where
  "tell written result (notified, fd, es) =
     (if notified \<or> fd < 0 then (notified, fd, es)
      else (True, -1, if written then es @ [D_notify (if result = 0 then 0 else 1)] else es))"

lemma told_notify [simp]: "told (notify_startup written result d) = tell written result (told d)"
  by (simp add: notify_startup_def told_def dm_emit_def)

lemma told_close [simp]: "filter startup_event (map D_close fds) = []"
  by (induction fds) auto

lemma told_updates [simp]:
  "told (put_r r d) = told d" "told (put_runtime c d) = told d" "told (put_svc w d) = told d" "told (put_uds w1 d) = told d"
  "told (put_sessions s d) = told d" "told (dm_emit es d) = (fst (told d), fst (snd (told d)), snd (snd (told d)) @ filter startup_event es)"
  "told (d\<lparr>dm_config := cfg\<rparr>) = told d" "told (d\<lparr>dm_api := api\<rparr>) = told d" "told (d\<lparr>dm_reactor := b\<rparr>) = told d"
  "told (d\<lparr>dm_service := b\<rparr>) = told d" "told (d\<lparr>dm_shutdown_requested := b\<rparr>) = told d" "told (d\<lparr>dm_reload_requested := b\<rparr>) = told d"
  "told (d\<lparr>dm_status_requested := b\<rparr>) = told d" "told (d\<lparr>dm_pid_fd := fd\<rparr>) = told d" "told (d\<lparr>dm_svc := u\<rparr>) = told d"
  by (simp_all add: told_def daemon_views)

lemma told_runtime_to [simp]: "told (snd (runtime_to s d)) = told d"
  by (simp add: runtime_to_def split: prod.splits)

lemma told_runtime: "runtime_to s d = (rc, d') \<Longrightarrow> told d' = told d"
  using told_runtime_to [of s d] by simp

lemma told_reload_return [simp]: "told (reload_return_to_running_or_shutdown d) = told d"
  by (auto simp: reload_return_to_running_or_shutdown_def Let_def split: prod.splits dest: told_runtime)

lemma told_on_signal: "on_signal sig d = Some d' \<Longrightarrow> told d' = told d"
  by (auto simp: on_signal_def Let_def split: if_splits)

lemma told_apply_reload: "apply_reload cfg d = Some d' \<Longrightarrow> told d' = told d"
  by (auto simp: apply_reload_def split: prod.splits if_splits option.splits)

lemma told_process_reload: "process_reload env d = Some d' \<Longrightarrow> told d' = told d"
  by (auto simp: process_reload_def Let_def split: prod.splits if_splits dest!: told_apply_reload told_runtime)

lemma told_on_idle: "on_idle env d = Some d' \<Longrightarrow> told d' = told d"
  by (auto simp: on_idle_def Let_def bind_eq_Some_conv split: if_splits dest!: told_process_reload)

lemma told_callback: "daemon_callback c d = Some d' \<Longrightarrow> told d' = told d"
  by (cases c) (auto simp: with_uds_def dest: told_on_signal told_on_idle)

lemma told_callbacks: "run_callbacks cs d = Some d' \<Longrightarrow> told d' = told d"
  by (induction cs arbitrary: d) (auto simp: bind_eq_Some_conv dest: told_callback)

lemma told_watch_signals: "watch_signals env ss d = (ok, d') \<Longrightarrow> told d' = told d"
  by (induction ss arbitrary: d) (auto simp: Let_def split: prod.splits if_splits)

lemma told_attach_netlink: "attach_netlink env d = (ok, d') \<Longrightarrow> told d' = told d"
  by (auto simp: attach_netlink_def Let_def split: prod.splits if_splits)

lemma told_start_service:
  assumes "start_service env d = Some (ready, d')"
  shows "if ready then told d' = tell (le_written env) 0 (told d)
    else told d' = told d \<or> told d' = tell (le_written env) 1 (told d)"
  using assms by (auto simp: start_service_def Let_def split: prod.splits if_splits option.splits)

lemma told_setup_loop:
  assumes "setup_loop env d = Some (ready, d')"
  shows "if ready then told d' = tell (le_written env) 0 (told d)
    else told d' = told d \<or> told d' = tell (le_written env) 1 (told d)"
  using assms
  by (auto simp: setup_loop_def Let_def split: prod.splits if_splits
      dest!: told_watch_signals told_attach_netlink told_start_service)

lemma told_destroy_service: "destroy_daemon_service d = Some d' \<Longrightarrow> told d' = told d"
  by (auto simp: destroy_daemon_service_def split: if_splits)

lemma told_release [simp]: "told (release_api d) = told d" "told (release_reactor d) = told d"
  by (auto simp: release_api_def release_reactor_def split: prod.splits option.splits)

lemma told_release_netlink: "release_netlink d = Some d' \<Longrightarrow> told d' = told d"
  by (auto simp: release_netlink_def)

lemma told_loop_release: "loop_release env d = Some d' \<Longrightarrow> told d' = told d"
  by (auto simp: loop_release_def Let_def bind_eq_Some_conv dest!: told_destroy_service told_release_netlink)

lemma told_loop_cleanup:
  assumes "loop_cleanup env result d = Some (result', d')"
  shows "told d' = tell (le_written env) result' (told d) \<and> (result \<noteq> 0 \<longrightarrow> result' \<noteq> 0)"
proof -
  obtain d1 where d1: "loop_end env result d1 = (result', d')" "told d1 = told d"
    using assms by (auto simp: loop_cleanup_def dest!: told_loop_release)
  then show ?thesis
    using told_runtime_to [of ST_STOPPED d1] by (cases "runtime_to ST_STOPPED d1") (auto simp: loop_end_def Let_def split: if_splits)
qed

lemma told_run_event_loop:
  assumes "run_event_loop env d = Some (result, d')" "told d = (False, fd, [])" "0 \<le> fd" "le_written env"
  shows "told d' = (True, -1, [D_notify 0, D_loop]) \<or> told d' = (True, -1, [D_notify 1]) \<and> result \<noteq> 0"
proof -
  obtain ready d1 where up: "setup_loop env d = Some (ready, d1)"
    using assms(1) by (auto simp: run_event_loop_def bind_eq_Some_conv)
  show ?thesis
  proof (cases ready)
    case True
    then obtain d2 where d2: "run_callbacks (le_callbacks env) (dm_emit [D_loop] d1) = Some d2"
        "loop_cleanup env (le_run_result env) d2 = Some (result, d')"
      using assms(1) up by (auto simp: run_event_loop_def bind_eq_Some_conv)
    then show ?thesis
      using told_setup_loop [OF up] True told_callbacks [OF d2(1)] told_loop_cleanup [OF d2(2)] assms(2-4) by simp
  next
    case False
    then have "loop_cleanup env (-1) d1 = Some (result, d')"
      using assms(1) up by (auto simp: run_event_loop_def)
    then show ?thesis
      using told_setup_loop [OF up] False told_loop_cleanup [of env "-1" d1 result d'] assms(2-4) by auto
  qed
qed

lemma told_start_daemon:
  assumes "start_daemon env opts d = Some (ret, d')" "told d = (False, fd, [])" "0 \<le> fd" "st_written env" "le_written (st_loop env)"
  shows "told d' = (True, -1, [D_notify 0, D_loop]) \<or> told d' = (True, -1, [D_notify 1]) \<and> ret \<noteq> 0"
proof -
  have loop: "told d' = (True, -1, [D_notify 0, D_loop]) \<or> told d' = (True, -1, [D_notify 1]) \<and> result \<noteq> 0"
    if "run_event_loop (st_loop env) c = Some (result, d')" "told c = told d" for c result
    using told_run_event_loop [OF that(1)] that(2) assms(2,3,5) by simp
  obtain rc c where ctx: "atpd_context_init (st_now env) (dm_runtime d) = (rc, c)"
    by fastforce
  obtain rc2 d2 where d2: "runtime_to ST_INITIALIZING (put_runtime (atpd_set_vpn_teardown_callback (Some DRAIN_CB)
      (dm_runtime (put_runtime c d))) (put_runtime c d)) = (rc2, d2)" "told d2 = told d"
    by (metis surj_pair told_runtime told_updates(2))
  show ?thesis
  proof (cases "rc = 0 \<and> rc2 = 0")
    case False
    then show ?thesis
      using assms ctx d2 by (auto simp: start_daemon_def Let_def split: if_splits)
  next
    case True
    then obtain rc3 ictx where ictx: "atpd_init_run (init_phases (st_init env)) (init_context opts d2) = Some (rc3, ictx)"
      using assms(1) ctx d2(1) by (auto simp: start_daemon_def Let_def split: option.splits)
    show ?thesis
    proof (cases "rc3 = 0")
      case False
      then show ?thesis
        using assms ctx d2 True ictx by (auto simp: start_daemon_def Let_def after_init_def)
    next
      case r3: True
      let ?d5 = "snd (runtime_to ST_RUNNING ((put_r (reactor_of ictx) (after_init ictx d2))
          \<lparr>dm_service := ic_service ictx, dm_reactor := (ic_reactor ictx \<noteq> None)\<rparr>))"
      obtain result where "run_event_loop (st_loop env) ?d5 = Some (result, d')" "ret = (if result = 0 then 0 else 1)"
        using assms(1) ctx d2(1) True ictx r3 by (auto simp: start_daemon_def Let_def)
      moreover have "told ?d5 = told d"
        by (simp add: after_init_def d2(2))
      ultimately show ?thesis
        using loop by fastforce
    qed
  qed
qed

text \<open>When the start ends, the process that started the daemon is told exactly once how the start went, and it is told
  the truth: whatever fails on the way (the PID file, the context, an init phase, a signal, the
  command socket, the service), one notification is written and the pipe is closed; it reports
  success exactly when the daemon entered its main loop, and the daemon that reports a failure exits
  with one.  The waiting process, which gets this message, returns success in exactly this case.\<close>

theorem startup_reported_once:
  assumes "start_with_pid_file env opts pp d = Some (ret, d')" "\<not> dm_notified d" "0 \<le> dm_notify_fd d"
    "\<forall>e \<in> set (dm_trace d). \<not> startup_event e" "st_written env" "le_written (st_loop env)" "0 < p"
  shows "dm_notified d' \<and> dm_notify_fd d' = -1
    \<and> (\<exists>s. [e \<leftarrow> dm_trace d'. \<exists>s. e = D_notify s] = [D_notify s] \<and> (s = 0 \<longleftrightarrow> D_loop \<in> set (dm_trace d'))
        \<and> (s \<noteq> 0 \<longrightarrow> ret \<noteq> 0)
        \<and> await_message [M_message s p] = Some (if D_loop \<in> set (dm_trace d') then (DAEMON_PARENT_SUCCESS, p) else (DAEMON_PARENT_FAILURE, 0)))"
proof -
  have start: "told d = (False, dm_notify_fd d, [])"
    using assms(2,4) by (simp add: told_def)
  have cases: "told d' = (True, -1, [D_notify 0, D_loop]) \<or> told d' = (True, -1, [D_notify 1]) \<and> ret \<noteq> 0"
    using assms(1,3,5,6) start
    by (auto simp: start_with_pid_file_def Let_def split: prod.splits if_splits dest!: told_start_daemon)
  define es where "es = snd (snd (told d'))"
  have "[e \<leftarrow> dm_trace d'. \<exists>s. e = D_notify s] = [e \<leftarrow> es. \<exists>s. e = D_notify s]" "D_loop \<in> set (dm_trace d') \<longleftrightarrow> D_loop \<in> set es"
    by (auto simp: es_def told_def intro!: filter_cong)
  moreover have "dm_notified d'" "dm_notify_fd d' = -1"
    using cases by (auto simp: told_def)
  moreover have "es = [D_notify 0, D_loop] \<or> es = [D_notify 1] \<and> ret \<noteq> 0"
    using cases unfolding es_def by auto
  ultimately show ?thesis
    using assms(7) by (elim disjE) simp_all
qed

text \<open>A second daemon: the first one holds the lock on the PID file.\<close>

definition idle_query :: query_env where
  "idle_query = \<lparr>qe_socket = (\<lambda>_. -1), qe_connect = (\<lambda>_. False), qe_sent = 0, qe_recv = []\<rparr>"

definition second_start :: start_env where
  "second_start = \<lparr>st_calloc = True, st_probe = True,
     st_check = \<lparr>ck_exec_ok = True, ck_alloc_ok = True, ck_pipe_ok = True, ck_nonblock_ok = True, ck_fork = 41, ck_start = 0,
       ck_rounds = [], ck_rest = []\<rparr>,
     st_daemonize = \<lparr>dz_pipe = Some (8, 9), dz_fork = 0, dz_read = [], dz_setsid_ok = True, dz_fork2 = 0, dz_written = True\<rparr>,
     st_alive = True, st_exe = (\<lambda>_. Inl ENOENT), st_query = idle_query, st_pid = sample_pid_env\<lparr>pe_lock_ok := False\<rparr>,
     st_now = \<lparr>tv_sec = 1, tv_nsec = 0\<rparr>, st_init = tight_system,
     st_loop = \<lparr>le_watch = (\<lambda>_. \<lparr>we_sigaddset_ok = True, we_new_fd = 6, we_alloc = True, we_ctl_ok = True, we_sigprocmask_ok = True\<rparr>),
       le_nl_add = (True, True),
       le_uds = \<lparr>ui_path = \<lparr>pa_lstat = Inl ENOENT, pa_probe = 7, pa_connect = None, pa_unlink = None\<rparr>, ui_socket = 7, ui_bind_ok = True,
         ui_chmod_ok = True, ui_listen_ok = True, ui_alloc = True, ui_ctl_ok = True, ui_timer_alloc = (True, True), ui_now = 0\<rparr>,
       le_ready_rounds = 0, le_refresh = ((True, True), 0), le_written = True, le_callbacks = [], le_run_result = 0,
       le_drain_alloc = True\<rparr>,
     st_written = True\<rparr>"

definition second_daemon :: daemon where
  "second_daemon = running_daemon\<lparr>dm_notify_fd := 9, dm_notified := False\<rparr>"

lemma second_start_refused:
  "write_pid_file (st_pid second_start) ''atpd.pid'' = (-1, -1, [P_open 5, P_lock False, P_close 5])"
proof -
  have "get_process_starttime (\<lambda>_. pe_stat (st_pid second_start)) p = Some 777" "pe_open (st_pid second_start) = 5"
      "\<not> pe_lock_ok (st_pid second_start)" for p
    using sample_pid_start by (simp_all add: second_start_def) (simp add: sample_pid_env_def)
  then show ?thesis
    by (simp add: write_pid_file_def SAFE_PATH_MAX_def PATH_MAX_def c_strrchr_def)
qed

theorem startup_reported_once_witness:
  "\<exists>d'. start_with_pid_file second_start options_zero ''atpd.pid'' second_daemon = Some (1, d')
     \<and> [e \<leftarrow> dm_trace d'. \<exists>s. e = D_notify s] = [D_notify 1] \<and> D_loop \<notin> set (dm_trace d')"
proof -
  have written: "st_written second_start" "le_written (st_loop second_start)"
    by (simp_all add: second_start_def)
  obtain d' where d': "start_with_pid_file second_start options_zero ''atpd.pid'' second_daemon = Some (1, d')"
      "D_notify 1 \<in> set (dm_trace d')"
    by (simp add: start_with_pid_file_def second_start_refused written notify_startup_def second_daemon_def dm_emit_def)
  moreover have "\<not> dm_notified second_daemon" "0 \<le> dm_notify_fd second_daemon"
      "\<forall>e \<in> set (dm_trace second_daemon). \<not> startup_event e"
    by (simp_all add: second_daemon_def running_daemon_def)
  ultimately obtain s where s: "[e \<leftarrow> dm_trace d'. \<exists>s. e = D_notify s] = [D_notify s]" "s = 0 \<longleftrightarrow> D_loop \<in> set (dm_trace d')"
    using startup_reported_once [OF d'(1) _ _ _ written, of 1] by auto
  moreover have "D_notify 1 \<in> set [e \<leftarrow> dm_trace d'. \<exists>s. e = D_notify s]"
    using d'(2) by simp
  ultimately have "s = 1"
    unfolding s(1) by simp
  then show ?thesis
    using d'(1) s by auto
qed

end
