(* ===== verification/Sys_Utils.thy ===== *)
theory Sys_Utils
  imports Complex_Main Utils Service_Spawn "HOL-Library.Signed_Division"
begin

text \<open>
  The rest of \<open>src/utils.c\<close> but the time zone: running a command with a time limit, files, the
  search for programs and processes, and the figures of a process from \<open>/proc\<close>.  Floating point
  numbers are rationals: rounding is left out.
\<close>

subsection \<open>Running a command\<close>

text \<open>One round of the loop: the answer of \<open>waitpid\<close>, the clock, and \<open>poll\<close> with the reads that
  follow it.  A read gives at most as many bytes as it asks for.\<close>

datatype poll_answer = P_failed | P_nothing | P_ready "(errno + string) list"

record exec_round =
  er_wait :: wait_answer
  er_now :: u64
  er_poll :: poll_answer

record exec_env =
  ex_pipe :: "(fd \<times> fd) option"
  ex_fork :: pid
  ex_start :: u64
  ex_rounds :: "exec_round list"

datatype exec_event = X_close fd | X_kill pid | X_await pid

record exec_state =
  xs_out :: string
  xs_truncated :: bool
  xs_child_done :: bool
  xs_pipe_done :: bool
  xs_status :: exit_status
  xs_events :: "exec_event list"

definition exec_zero :: exec_state where
  "exec_zero = \<lparr>xs_out = [], xs_truncated = False, xs_child_done = False, xs_pipe_done = False, xs_status = Exited 0,
     xs_events = []\<rparr>"

definition xs_emit :: "exec_event list \<Rightarrow> exec_state \<Rightarrow> exec_state" where
  "xs_emit es st = st\<lparr>xs_events := xs_events st @ es\<rparr>"

text \<open>What is left of the child when \<open>dup2\<close> or \<open>execvp\<close> fails: its exit status.\<close>

definition exec_child :: "bool \<Rightarrow> bool \<Rightarrow> int option" where
  "exec_child dup_ok exec_ok = (if \<not> dup_ok then Some 126 else if exec_ok then None else Some 127)"

text \<open>The buffer has \<open>osz\<close> bytes; 0 stands for no buffer.\<close>

fun exec_reads :: "nat \<Rightarrow> fd \<Rightarrow> (errno + string) list \<Rightarrow> exec_state \<Rightarrow> exec_state option" where
  "exec_reads osz fd [] st = None"
| "exec_reads osz fd (Inr bs # as) st =
     (if bs = [] then Some (xs_emit [X_close fd] (st\<lparr>xs_pipe_done := True\<rparr>))
      else if length (xs_out st) < osz - 1
      then exec_reads osz fd as (st\<lparr>xs_out := xs_out st @ take (osz - 1 - length (xs_out st)) bs\<rparr>)
      else exec_reads osz fd as (st\<lparr>xs_truncated := True\<rparr>))"
| "exec_reads osz fd (Inl e # as) st =
     (if e = EINTR then exec_reads osz fd as st
      else if e = EAGAIN then Some st
      else Some (xs_emit [X_close fd] (st\<lparr>xs_pipe_done := True\<rparr>)))"

definition exec_wait :: "pid \<Rightarrow> wait_answer \<Rightarrow> exec_state \<Rightarrow> exec_state" where
  "exec_wait p a st = (case a of
       W_pid q s \<Rightarrow> (if q = p then st\<lparr>xs_child_done := True, xs_status := s\<rparr> else st)
     | W_err e \<Rightarrow> (if e \<noteq> EINTR then st\<lparr>xs_child_done := True\<rparr> else st)
     | W_nothing \<Rightarrow> st)"

definition exec_finish :: "exec_state \<Rightarrow> int \<times> string \<times> exec_event list" where
  "exec_finish st =
     (case xs_status st of
        Exited rc \<Rightarrow> (if xs_child_done st then rc else -1, trim (xs_out st), xs_events st)
      | Signaled _ \<Rightarrow> (-1, trim (xs_out st), xs_events st))"

definition exec_timeout :: "pid \<Rightarrow> fd \<Rightarrow> exec_state \<Rightarrow> int \<times> string \<times> exec_event list" where
  "exec_timeout p fd st =
     (124, xs_out st, xs_events st @ (if xs_child_done st then [] else [X_kill p, X_await p]) @ [X_close fd])"

fun exec_loop :: "nat \<Rightarrow> pid \<Rightarrow> fd \<Rightarrow> u64 \<Rightarrow> exec_round list \<Rightarrow> exec_state \<Rightarrow> (int \<times> string \<times> exec_event list) option" where
  "exec_loop osz p fd deadline [] st = (if xs_child_done st \<and> xs_pipe_done st then Some (exec_finish st) else None)"
| "exec_loop osz p fd deadline (x # xs) st =
     (if xs_child_done st \<and> xs_pipe_done st then Some (exec_finish st)
      else
        (let st1 = exec_wait p (er_wait x) st in
         if deadline \<le> er_now x then Some (exec_timeout p fd st1)
         else case er_poll x of
           P_failed \<Rightarrow> Some (exec_finish st1)
         | P_nothing \<Rightarrow> exec_loop osz p fd deadline xs st1
         | P_ready as \<Rightarrow> Option.bind (exec_reads osz fd as st1) (exec_loop osz p fd deadline xs)))"

definition exec_deadline :: "int \<Rightarrow> u64 \<Rightarrow> u64" where
  "exec_deadline timeout_sec start = start + word_of_int (if timeout_sec < 0 then 0 else timeout_sec) * 1000"

text \<open>The return value, the contents of the buffer and the calls that have an effect; \<open>None\<close>: the
  command is still running when the rounds end.\<close>

definition exec_cmd_argv :: "exec_env \<Rightarrow> nat \<Rightarrow> int \<Rightarrow> (int \<times> string \<times> exec_event list) option" where
  "exec_cmd_argv env osz timeout_sec =
     (case ex_pipe env of
        None \<Rightarrow> Some (-1, [], [])
      | Some (rd, wr) \<Rightarrow>
          (if ex_fork env < 0 then Some (-1, [], [X_close rd, X_close wr])
           else exec_loop osz (ex_fork env) rd (exec_deadline timeout_sec (ex_start env)) (ex_rounds env)
                  (xs_emit [X_close wr] exec_zero)))"

subsection \<open>Files\<close>

definition file_exists :: "(string \<Rightarrow> bool) \<Rightarrow> string \<Rightarrow> bool" where
  "file_exists exists path = exists path"

text \<open>A file is its contents (\<open>None\<close>: it cannot be opened); \<open>io_error\<close>: reading it fails.\<close>

definition read_file :: "string option \<Rightarrow> bool \<Rightarrow> nat \<Rightarrow> (int \<times> string) option" where
  "read_file file io_error buf_size =
     (if buf_size < 2 then None
      else case file of
        None \<Rightarrow> None
      | Some contents \<Rightarrow>
          (let got = take (buf_size - 1) contents in
           if io_error then None
           else Some (int (length got), if got \<noteq> [] \<and> last got = CHR 0x0A then butlast got else got)))"

definition write_file :: "bool \<Rightarrow> bool \<Rightarrow> bool \<Rightarrow> int" where
  "write_file open_ok print_ok close_ok = (if open_ok \<and> print_ok \<and> close_ok then 0 else -1)"

subsection \<open>Finding programs and processes\<close>

text \<open>\<open>link\<close>: what \<open>/proc/self/exe\<close> points to.\<close>

definition module_root :: "string \<Rightarrow> string option" where
  "module_root exe =
     (case c_strrchr (CHR ''/'') exe of
        None \<Rightarrow> None
      | Some (dir, _) \<Rightarrow>
          (if dir = [] then None
           else case c_strrchr (CHR ''/'') dir of
             None \<Rightarrow> Some dir
           | Some (parent, name) \<Rightarrow> Some (if name = ''bin'' \<and> parent \<noteq> [] then parent else dir)))"

definition get_app_dir :: "string option \<Rightarrow> (string \<Rightarrow> bool) \<Rightarrow> nat \<Rightarrow> string" where
  "get_app_dir link exists osz =
     (case Option.bind link (\<lambda>exe. module_root (take (PATH_MAX - 1) exe)) of
        Some dir \<Rightarrow> c_trunc osz dir
      | None \<Rightarrow> c_trunc osz (if exists ATP_DEFAULT_DIR then ATP_DEFAULT_DIR else ''.''))"

definition sys_paths :: "string list" where
  "sys_paths = [''/system/bin'', ''/system/xbin'', ''/vendor/bin'', ''/usr/local/bin'', ''/usr/bin'', ''/bin'']"

definition path_dirs :: "string option \<Rightarrow> string list" where
  "path_dirs path_env = (case path_env of None \<Rightarrow> [] | Some p \<Rightarrow> c_tokens (CHR '':'') (take (PATH_MAX * 2 - 1) p))"

definition command_candidates :: "string \<Rightarrow> string option \<Rightarrow> string \<Rightarrow> string list" where
  "command_candidates app_dir path_env name =
     map (\<lambda>d. d @ ''/'' @ name)
       ([app_dir @ ''/bin'', app_dir, ATP_DEFAULT_DIR @ ''/bin'', ATP_DEFAULT_DIR] @ path_dirs path_env @ sys_paths)"

definition find_command_path :: "string \<Rightarrow> string option \<Rightarrow> (string \<Rightarrow> bool) \<Rightarrow> string \<Rightarrow> nat \<Rightarrow> string option" where
  "find_command_path app_dir path_env executable name out_size =
     (if name = [] \<or> out_size = 0 then None
      else find executable (map (c_trunc out_size) (command_candidates app_dir path_env name)))"

definition entry_pid :: "string \<Rightarrow> pid option" where
  "entry_pid d_name =
     (if d_name = [] \<or> \<not> c_isdigit (hd d_name) then None
      else case c_strtol d_name of (p, _, rest) \<Rightarrow> (if rest \<noteq> [] \<or> p \<le> 0 \<or> INT_MAX < p then None else Some p))"

text \<open>The contents of \<open>comm\<close> and the target of \<open>exe\<close> of each process.\<close>

definition pid_has_name :: "(pid \<Rightarrow> string option) \<Rightarrow> (pid \<Rightarrow> string option) \<Rightarrow> string \<Rightarrow> pid \<Rightarrow> bool" where
  "pid_has_name comm exe name p \<longleftrightarrow>
     (case Option.bind (comm p) (c_fgets 256) of Some (line, _) \<Rightarrow> trim line = name | None \<Rightarrow> False)
     \<or> (case exe p of Some target \<Rightarrow> target \<noteq> [] \<and> c_basename (take 255 target) = name | None \<Rightarrow> False)"

definition get_pid_by_name :: "string list option \<Rightarrow> (pid \<Rightarrow> string option) \<Rightarrow> (pid \<Rightarrow> string option) \<Rightarrow> string \<Rightarrow> pid" where
  "get_pid_by_name entries comm exe name = (case entries of
       None \<Rightarrow> -1
     | Some ds \<Rightarrow> (case find (pid_has_name comm exe name) (List.map_filter entry_pid ds) of Some p \<Rightarrow> p | None \<Rightarrow> -1))"

subsection \<open>Figures of a process\<close>

text \<open>The lines of a file, as \<open>fgets\<close> cuts them for a buffer of 256 bytes.\<close>

function fgets_lines :: "string \<Rightarrow> string list" where
  "fgets_lines s = (case c_fgets 256 s of None \<Rightarrow> [] | Some (line, rest) \<Rightarrow> line # fgets_lines rest)"
  by auto
termination
  by (relation "measure length") (auto simp: c_fgets_def Let_def split: if_splits intro!: diff_less)

declare fgets_lines.simps [simp del]

text \<open>A number after a label (\<open>sscanf\<close>): \<open>None\<close> when there is none.\<close>

definition labelled :: "string \<Rightarrow> string \<Rightarrow> int option" where
  "labelled label line =
     (let s = dropWhile c_isspace (drop (length label) line)
      in case c_strtol s of (v, _, rest) \<Rightarrow> (if rest = s then None else Some v))"

definition status_figure :: "string option \<Rightarrow> string \<Rightarrow> int" where
  "status_figure file label = (case file of
       None \<Rightarrow> 0
     | Some contents \<Rightarrow>
         (case find (\<lambda>l. starts_with l label) (fgets_lines contents) of
            None \<Rightarrow> 0
          | Some line \<Rightarrow> (case labelled label line of Some v \<Rightarrow> v | None \<Rightarrow> 0)))"

definition get_process_memory_kb :: "(pid \<Rightarrow> string option) \<Rightarrow> pid \<Rightarrow> int" where
  "get_process_memory_kb status p = status_figure (status p) ''VmRSS:''"

definition get_process_threads :: "(pid \<Rightarrow> string option) \<Rightarrow> pid \<Rightarrow> int" where
  "get_process_threads status p = status_figure (status p) ''Threads:''"

text \<open>The entries of \<open>/proc/<pid>/fd\<close> with what they point to.\<close>

definition shown_fds :: "(string \<times> string option) list option \<Rightarrow> (string \<times> string option) list" where
  "shown_fds entries = (case entries of None \<Rightarrow> [] | Some es \<Rightarrow> [e \<leftarrow> es. fst e = [] \<or> hd (fst e) \<noteq> CHR ''.''])"

definition get_process_fd_count :: "(string \<times> string option) list option \<Rightarrow> nat" where
  "get_process_fd_count entries = length (shown_fds entries)"

definition get_process_socket_count :: "(string \<times> string option) list option \<Rightarrow> nat" where
  "get_process_socket_count entries =
     length [e \<leftarrow> shown_fds entries. case snd e of None \<Rightarrow> False | Some t \<Rightarrow> starts_with (take 255 t) ''socket:['']"

fun scan_ids :: "string list \<Rightarrow> int option \<times> int option \<Rightarrow> int option \<times> int option" where
  "scan_ids [] ids = ids"
| "scan_ids (l # ls) (uid, gid) =
     scan_ids ls (if starts_with l ''Uid:'' then (labelled ''Uid:'' l, gid)
                  else if starts_with l ''Gid:'' then (uid, labelled ''Gid:'' l) else (uid, gid))"

definition get_process_user_group :: "string option \<Rightarrow> nat \<Rightarrow> (string \<times> string) option" where
  "get_process_user_group file osz =
     (if osz = 0 then None
      else case file of
        None \<Rightarrow> None
      | Some contents \<Rightarrow>
          (case scan_ids (fgets_lines contents) (None, None) of
             (Some u, Some g) \<Rightarrow> Some (c_trunc osz (show_nat (nat (u mod 2 ^ 32))), c_trunc osz (show_nat (nat (g mod 2 ^ 32))))
           | _ \<Rightarrow> None))"

definition CPU_CACHE_MAX :: nat where "CPU_CACHE_MAX = 64"

record cpu_cache_entry =
  ce_pid :: pid
  ce_starttime_ticks :: u64
  ce_last_total :: rat
  ce_last_time_ms :: u64

definition cpu_share :: "rat \<Rightarrow> u64 \<Rightarrow> cpu_cache_entry \<Rightarrow> rat" where
  "cpu_share ticks_total now e =
     (if 0 < ce_last_time_ms e \<and> ce_last_time_ms e < now
      then
        (let elapsed = of_nat (unat (now - ce_last_time_ms e)) / 1000; share = (ticks_total - ce_last_total e) / elapsed * 100
         in if 0 < elapsed then (if share < 0 then 0 else if 100 < share then 100 else share) else 0)
      else 0)"

fun cpu_update :: "pid \<Rightarrow> u64 \<Rightarrow> rat \<Rightarrow> u64 \<Rightarrow> cpu_cache_entry list \<Rightarrow> (rat \<times> cpu_cache_entry list) option" where
  "cpu_update p st ticks_total now [] = None"
| "cpu_update p st ticks_total now (e # es) =
     (if ce_pid e = p then
        Some (if ce_starttime_ticks e \<noteq> st then 0 else cpu_share ticks_total now e,
              e\<lparr>ce_starttime_ticks := st, ce_last_total := ticks_total, ce_last_time_ms := now\<rparr> # es)
      else map_option (\<lambda>(share, es'). (share, e # es')) (cpu_update p st ticks_total now es))"

definition get_process_cpu_percent :: "int \<Rightarrow> (pid \<Rightarrow> string option) \<Rightarrow> u64 \<Rightarrow> pid \<Rightarrow> cpu_cache_entry list
    \<Rightarrow> rat \<times> cpu_cache_entry list" where
  "get_process_cpu_percent ticks_per_sec stat now p cache =
     (if ticks_per_sec \<le> 0 then (0, cache)
      else case read_proc_stat (stat p) of
        None \<Rightarrow> (0, cache)
      | Some (utime, stime, starttime) \<Rightarrow>
          (let ticks_total = of_nat (unat (utime + stime)) / of_int ticks_per_sec in
           case cpu_update p starttime ticks_total now cache of
             Some r \<Rightarrow> r
           | None \<Rightarrow>
               (0, if length cache < CPU_CACHE_MAX
                   then cache @ [\<lparr>ce_pid = p, ce_starttime_ticks = starttime, ce_last_total = ticks_total, ce_last_time_ms = now\<rparr>]
                   else cache)))"

text \<open>\<open>uptime\<close>: the first number of \<open>/proc/uptime\<close>.  The conversion to \<open>int\<close> cuts the fraction.\<close>

definition get_process_uptime_sec :: "int \<Rightarrow> (pid \<Rightarrow> string option) \<Rightarrow> rat option \<Rightarrow> pid \<Rightarrow> int" where
  "get_process_uptime_sec ticks_per_sec stat uptime p =
     (if ticks_per_sec \<le> 0 then 0
      else case get_process_starttime stat p of
        None \<Rightarrow> 0
      | Some st \<Rightarrow>
          (if st = 0 then 0
           else case uptime of
             None \<Rightarrow> 0
           | Some up \<Rightarrow>
               (let d = up - of_nat (unat st) / of_int ticks_per_sec; elapsed = (if d < 0 then - \<lfloor>- d\<rfloor> else \<lfloor>d\<rfloor>)
                in if elapsed < 0 then 0 else elapsed)))"

subsection \<open>Versions and durations\<close>

definition version_in :: "string \<Rightarrow> string" where
  "version_in output =
     (case c_strstr output ''version '' of
        Some (_, m) \<Rightarrow> takeWhile (\<lambda>c. c \<noteq> CHR 0x0A) (takeWhile (\<lambda>c. c \<noteq> CHR '' '') (drop 8 m))
      | None \<Rightarrow> (case c_strrchr (CHR '' '') output of Some (_, v) \<Rightarrow> v | None \<Rightarrow> output))"

text \<open>The cache has the path and the version; \<open>run\<close> is the outcome of the command.\<close>

definition get_binary_version :: "string \<Rightarrow> int \<times> string \<Rightarrow> nat \<Rightarrow> string \<times> string \<Rightarrow> (int \<times> string) \<times> string \<times> string" where
  "get_binary_version bin_path run osz cache =
     (if bin_path = [] \<or> osz = 0 then ((-1, c_trunc osz ''unknown''), cache)
      else if fst cache \<noteq> [] \<and> fst cache = bin_path \<and> snd cache \<noteq> [] then ((0, c_trunc osz (snd cache)), cache)
      else if fst run = 0 \<and> snd run \<noteq> []
      then (let v = version_in (trim (snd run)) in ((0, c_trunc osz v), c_trunc PATH_MAX bin_path, c_trunc 64 v))
      else ((-1, c_trunc osz ''unknown''), cache))"

definition show_02d :: "int \<Rightarrow> string" where
  "show_02d n = (let s = show_int n in if length s < 2 then CHR ''0'' # s else s)"

definition format_uptime :: "int \<Rightarrow> nat \<Rightarrow> string" where
  "format_uptime seconds osz =
     (let hours = seconds sdiv 3600; mins = (seconds smod 3600) sdiv 60; secs = seconds smod 60 in
      c_trunc osz
        (if 0 < hours then show_int hours @ ''h'' @ show_02d mins @ ''m'' @ show_02d secs @ ''s''
         else if 0 < mins then show_int mins @ ''m'' @ show_02d secs @ ''s''
         else show_int secs @ ''s''))"

subsection \<open>Properties\<close>





























text \<open>A child that closes its output and goes on: the pipe is closed, polled and closed again.\<close>

theorem exec_closes_twice:
  "exec_cmd_argv \<lparr>ex_pipe = Some (5, 6), ex_fork = 77, ex_start = 1000,
     ex_rounds = [\<lparr>er_wait = W_nothing, er_now = 1000, er_poll = P_ready [Inr []]\<rparr>,
       \<lparr>er_wait = W_pid 77 (Exited 0), er_now = 1100, er_poll = P_ready [Inl EBADF]\<rparr>]\<rparr> 5 1
   = Some (0, [], [X_close 6, X_close 5, X_close 5])"
  by (simp add: exec_cmd_argv_def exec_deadline_def exec_wait_def exec_zero_def xs_emit_def exec_finish_def trim_def)

text \<open>The shares of the processor lie between 0 and 100 and at most 64 processes are remembered,
  each once.\<close>

lemma cpu_share_bounds: "0 \<le> cpu_share ticks_total now e \<and> cpu_share ticks_total now e \<le> 100"
  by (auto simp: cpu_share_def Let_def)

lemma cpu_update_bounds:
  assumes "cpu_update p st ticks_total now es = Some (share, es')"
  shows "0 \<le> share \<and> share \<le> 100 \<and> map ce_pid es' = map ce_pid es"
  using assms cpu_share_bounds
  by (induction es arbitrary: es') (auto split: if_splits)

lemma cpu_update_new: "cpu_update p st ticks_total now es = None \<longleftrightarrow> p \<notin> ce_pid ` set es"
  by (induction es) auto

theorem cpu_percent_bounds:
  assumes "get_process_cpu_percent ticks stat now p cache = (share, cache')" "distinct (map ce_pid cache)" "length cache \<le> CPU_CACHE_MAX"
  shows "0 \<le> share \<and> share \<le> 100 \<and> distinct (map ce_pid cache') \<and> length cache' \<le> CPU_CACHE_MAX"
proof (cases "0 < ticks \<and> read_proc_stat (stat p) \<noteq> None")
  case True
  then obtain ut st start where stat: "read_proc_stat (stat p) = Some (ut, st, start)"
    by auto
  define spent :: rat where "spent = of_nat (unat (ut + st)) / of_int ticks"
  show ?thesis
  proof (cases "cpu_update p start spent now cache")
    case None
    then show ?thesis
      using assms True stat cpu_update_new [of p start spent now cache]
      by (auto simp: get_process_cpu_percent_def Let_def spent_def split: if_splits)
  next
    case (Some r)
    then have upd: "cpu_update p start spent now cache = Some (share, cache')"
      using assms(1) True stat by (simp add: get_process_cpu_percent_def Let_def spent_def)
    then have "map ce_pid cache' = map ce_pid cache"
      using cpu_update_bounds by blast
    then have "distinct (map ce_pid cache') \<and> length cache' = length cache"
      using assms(2) map_eq_imp_length_eq by metis
    then show ?thesis
      using cpu_update_bounds [OF upd] assms(3) by simp
  qed
next
  case False
  then have "get_process_cpu_percent ticks stat now p cache = (0, cache)"
    by (cases "read_proc_stat (stat p)") (auto simp: get_process_cpu_percent_def)
  then show ?thesis
    using assms by simp
qed

end
