(* ===== verification/Timezone.thy ===== *)
theory Timezone
  imports Sys_Utils Singbox_Api
begin

text \<open>
  The time zone (end of \<open>src/utils.c\<close>): detecting the zone of the device, extracting its data from
  Android's container of all zones, and the fallbacks.  A file is its contents; a program run by
  \<open>popen\<close> is its output, \<open>None\<close> when it cannot be started.  The mutex makes each call one step.
\<close>

definition TZ_NAME_MAX :: nat where "TZ_NAME_MAX = 64"
definition TZ_PATH_MAX :: nat where "TZ_PATH_MAX = 256"

text \<open>\<open>strncpy\<close> into a buffer of \<open>n\<close> bytes that keeps its terminator, and \<open>strncasecmp\<close>.\<close>

definition c_strncpy :: "nat \<Rightarrow> string \<Rightarrow> string" where
  "c_strncpy n s = take (n - 1) s"

definition c_casepre :: "string \<Rightarrow> string \<Rightarrow> bool" where
  "c_casepre s pre \<longleftrightarrow> map c_tolower (take (length pre) s) = map c_tolower pre"

subsection \<open>Tables\<close>

definition k_android_tzdata_paths :: "string list" where
  "k_android_tzdata_paths =
     [''/apex/com.android.tzdata/etc/tz/tzdata'', ''/apex/com.android.runtime/etc/tz/tzdata'',
      ''/system/usr/share/zoneinfo/tzdata'', ''/data/misc/zoneinfo/current/tzdata'', ''/system/etc/tzdata'', ''/vendor/etc/tzdata'']"

definition k_tz_fallbacks :: "(string \<times> string) list" where
  "k_tz_fallbacks =
     [(''Asia/Shanghai'', ''CST-8''), (''Asia/Chongqing'', ''CST-8''), (''Asia/Harbin'', ''CST-8''), (''Asia/Urumqi'', ''XJT-6''),
      (''Asia/Hong_Kong'', ''HKT-8''), (''Asia/Macau'', ''CST-8''), (''Asia/Taipei'', ''CST-8''), (''Asia/Tokyo'', ''JST-9''),
      (''Asia/Seoul'', ''KST-9''), (''Asia/Singapore'', ''SGT-8''), (''Asia/Kolkata'', ''IST-5:30''), (''Asia/Calcutta'', ''IST-5:30''),
      (''Asia/Bangkok'', ''ICT-7''), (''Asia/Jakarta'', ''WIB-7''), (''Asia/Dubai'', ''GST-4''),
      (''Europe/London'', ''GMT0BST,M3.5.0/1,M10.5.0''), (''Europe/Paris'', ''CET-1CEST,M3.5.0,M10.5.0/3''),
      (''Europe/Berlin'', ''CET-1CEST,M3.5.0,M10.5.0/3''), (''Europe/Moscow'', ''MSK-3''),
      (''America/New_York'', ''EST5EDT,M3.2.0,M11.1.0''), (''America/Chicago'', ''CST6CDT,M3.2.0,M11.1.0''),
      (''America/Denver'', ''MST7MDT,M3.2.0,M11.1.0''), (''America/Los_Angeles'', ''PST8PDT,M3.2.0,M11.1.0''),
      (''Australia/Sydney'', ''AEST-10AEDT,M10.1.0,M4.1.0/3''), (''UTC'', ''UTC0''), (''GMT'', ''GMT0'')]"

definition lookup_posix_fallback :: "string \<Rightarrow> string option" where
  "lookup_posix_fallback name = (if name = [] then None else map_of k_tz_fallbacks name)"

subsection \<open>Zone data\<close>

text \<open>The index of the last newline among the first \<open>n\<close> bytes.\<close>

fun newline_before :: "string \<Rightarrow> nat \<Rightarrow> nat option" where
  "newline_before buf 0 = None"
| "newline_before buf (Suc n) = (if buf ! n = CHR 0x0A then Some n else newline_before buf n)"

text \<open>\<open>None\<close>: -1, and the output is left alone.\<close>

definition extract_posix_tz_from_tzif :: "string \<Rightarrow> nat \<Rightarrow> string option" where
  "extract_posix_tz_from_tzif buf out_size =
     (let n = length buf in
      if n < 8 \<or> out_size = 0 then None
      else if take 5 buf \<noteq> ''TZif2'' \<and> take 5 buf \<noteq> ''TZif3'' then None
      else if buf ! (n - 1) \<noteq> CHR 0x0A then None
      else case newline_before buf (n - 1) of
        None \<Rightarrow> None
      | Some idx \<Rightarrow>
          (let tz_len = n - 1 - (idx + 1) in
           if tz_len = 0 \<or> out_size \<le> tz_len then None else Some (take tz_len (drop (idx + 1) buf))))"

definition ntohl :: "string \<Rightarrow> u32" where
  "ntohl bs = of_nat (foldl (\<lambda>n c. 256 * n + of_char c) 0 bs)"

definition sizeof_tzdata_hdr :: nat where "sizeof_tzdata_hdr = 24"
definition sizeof_tzdata_idx_entry :: nat where "sizeof_tzdata_idx_entry = 52"

text \<open>\<open>fread\<close> of \<open>n\<close> bytes at a position, \<open>None\<close> when there are fewer.\<close>

definition c_fread :: "string \<Rightarrow> nat \<Rightarrow> nat \<Rightarrow> string option" where
  "c_fread file pos n = (let bs = take n (drop pos file) in if length bs = n then Some bs else None)"

fun find_entry :: "string \<Rightarrow> string \<Rightarrow> nat \<Rightarrow> nat \<Rightarrow> (u32 \<times> u32) option" where
  "find_entry file tz_name 0 pos = None"
| "find_entry file tz_name (Suc n) pos =
     (case c_fread file pos sizeof_tzdata_idx_entry of
        None \<Rightarrow> None
      | Some e \<Rightarrow>
          (if c_str (take 39 e) = tz_name then Some (ntohl (take 4 (drop 40 e)), ntohl (take 4 (drop 44 e)))
           else find_entry file tz_name n (pos + sizeof_tzdata_idx_entry)))"

text \<open>The payload of a zone: the part of the function that reads.\<close>

definition read_tzif :: "bool \<Rightarrow> string \<Rightarrow> string \<Rightarrow> string option" where
  "read_tzif malloc_ok file tz_name = do {
     hdr \<leftarrow> c_fread file 0 sizeof_tzdata_hdr;
     if take 6 hdr \<noteq> ''tzdata'' then None
     else do {
       let index_offset = ntohl (take 4 (drop 12 hdr));
       let data_offset = ntohl (take 4 (drop 16 hdr));
       if data_offset \<le> index_offset \<or> unat index_offset < sizeof_tzdata_hdr then None
       else do {
         let num_entries = unat (data_offset - index_offset) div sizeof_tzdata_idx_entry;
         if num_entries = 0 \<or> 4096 < num_entries then None
         else do {
           (start_offset, len) \<leftarrow> find_entry file tz_name num_entries (unat index_offset);
           if len < 4 \<or> 1024 * 1024 < len then None
           else if \<not> malloc_ok then None
           else do {
             buf \<leftarrow> c_fread file (unat (data_offset + start_offset)) (unat len);
             if take 4 buf \<noteq> ''TZif'' then None else Some buf
           }
         }
       }
     }
   }"

text \<open>The answers for one container, and what is written.\<close>

record tz_out_env =
  to_malloc :: bool
  to_open :: bool
  to_written :: bool
  to_rename :: bool

datatype tz_event = Z_write string string | Z_rename string string | Z_unlink string | Z_setenv string | Z_tzset

text \<open>The result code, the POSIX string (\<open>posix\<close> is what the buffer held before) and the events.\<close>

definition extract_tzif_from_tzdata_file :: "tz_out_env \<Rightarrow> pid \<Rightarrow> string option \<Rightarrow> string \<Rightarrow> string \<Rightarrow> string \<Rightarrow> nat
    \<Rightarrow> int \<times> string \<times> tz_event list" where
  "extract_tzif_from_tzdata_file env p file tz_name out_file posix posix_size =
     (case Option.bind file (\<lambda>f. read_tzif (to_malloc env) f tz_name) of
        None \<Rightarrow> (-1, posix, [])
      | Some buf \<Rightarrow>
          (let posix' = (case extract_posix_tz_from_tzif buf posix_size of None \<Rightarrow> posix | Some tz \<Rightarrow> c_str tz);
               tmp = c_trunc TZ_PATH_MAX (out_file @ ''.tmp.'' @ show_int p)
           in if \<not> to_open env then (-1, posix', [])
              else if \<not> to_written env then (-1, posix', [Z_write tmp buf, Z_unlink tmp])
              else if \<not> to_rename env then (-1, posix', [Z_write tmp buf, Z_unlink tmp])
              else (0, posix', [Z_write tmp buf, Z_rename tmp out_file])))"

record tz_env =
  te_readable :: "string \<Rightarrow> bool"
  te_writable :: "string \<Rightarrow> bool"
  te_file :: "string \<Rightarrow> string option"
  te_out :: "string \<Rightarrow> tz_out_env"
  te_pid :: pid
  te_property :: "string \<Rightarrow> string option"
  te_popen :: "string \<Rightarrow> string option"
  te_exe :: "string option"
  te_exists :: "string \<Rightarrow> bool"
  te_mkdir :: "string \<Rightarrow> errno option"
  te_isdir :: "string \<Rightarrow> bool"

fun extract_each :: "tz_env \<Rightarrow> string list \<Rightarrow> string \<Rightarrow> string \<Rightarrow> string \<Rightarrow> int \<times> string \<times> tz_event list" where
  "extract_each env [] tz_name out_file posix = (-1, posix, [])"
| "extract_each env (path # paths) tz_name out_file posix =
     (if te_readable env path then
        (case extract_tzif_from_tzdata_file (te_out env path) (te_pid env) (te_file env path) tz_name out_file posix 64 of
           (rc, posix', es) \<Rightarrow>
             (if rc = 0 then (0, posix', es)
              else case extract_each env paths tz_name out_file posix' of (rc2, posix2, es2) \<Rightarrow> (rc2, posix2, es @ es2)))
      else extract_each env paths tz_name out_file posix)"

definition extract_android_tzdata :: "tz_env \<Rightarrow> string \<Rightarrow> string \<Rightarrow> int \<times> string \<times> tz_event list" where
  "extract_android_tzdata env tz_name out_file = extract_each env k_android_tzdata_paths tz_name out_file []"

subsection \<open>Detecting the zone\<close>

text \<open>The first line a program prints, trimmed; empty when it prints none.\<close>

definition first_line :: "nat \<Rightarrow> string \<Rightarrow> string" where
  "first_line n out = (case c_fgets n out of None \<Rightarrow> [] | Some (line, _) \<Rightarrow> trim (c_str line))"

definition popen_either :: "tz_env \<Rightarrow> string \<Rightarrow> string \<Rightarrow> string option" where
  "popen_either env cmd1 cmd2 = (case te_popen env cmd1 of None \<Rightarrow> te_popen env cmd2 | Some out \<Rightarrow> Some out)"

text \<open>\<open>te_property\<close> has the Android properties; it is empty on other systems.\<close>

definition get_android_prop :: "tz_env \<Rightarrow> string \<Rightarrow> nat \<Rightarrow> string option" where
  "get_android_prop env key n =
     (let direct = (case te_property env key of None \<Rightarrow> [] | Some v \<Rightarrow> trim (c_strncpy n v)) in
      if n = 0 then None
      else if direct \<noteq> [] then Some direct
      else case popen_either env (c_trunc 128 (''/system/bin/getprop '' @ key)) (c_trunc 128 (''getprop '' @ key)) of
        None \<Rightarrow> None
      | Some out \<Rightarrow> (let v = first_line n out in if v = [] then None else Some v))"

definition zone_of_locale :: "string \<Rightarrow> string option" where
  "zone_of_locale loc =
     (if c_casepre loc ''zh'' then Some ''Asia/Shanghai''
      else if c_casepre loc ''ja'' then Some ''Asia/Tokyo''
      else if c_casepre loc ''ko'' then Some ''Asia/Seoul''
      else None)"

definition detect_device_timezone :: "tz_env \<Rightarrow> nat \<Rightarrow> string option" where
  "detect_device_timezone env n =
     (if n = 0 then None
      else case get_android_prop env ''persist.sys.timezone'' n of
        Some z \<Rightarrow> Some z
      | None \<Rightarrow>
          (case get_android_prop env ''persist.sys.timezone.default'' n of
             Some z \<Rightarrow> Some z
           | None \<Rightarrow>
               (case get_android_prop env ''ro.product.locale'' 32 of
                  None \<Rightarrow> None
                | Some loc \<Rightarrow> map_option (c_strncpy n) (zone_of_locale loc))))"

text \<open>The value of a digit, whatever character it is (\<open>char\<close> is unsigned on the device).\<close>

definition char_digit :: "char \<Rightarrow> int" where
  "char_digit c = int (of_char c) - 48"

definition posix_of_offset :: "string \<Rightarrow> string option" where
  "posix_of_offset out =
     (if length out \<noteq> 5 \<or> (hd out \<noteq> CHR ''+'' \<and> hd out \<noteq> CHR ''-'') then None
      else
        (let hours = char_digit (out ! 1) * 10 + char_digit (out ! 2);
             mins = char_digit (out ! 3) * 10 + char_digit (out ! 4);
             posix_sign = (if hd out = CHR ''+'' then CHR ''-'' else CHR ''+'')
         in Some (if mins = 0 then ''UTC'' @ [posix_sign] @ show_int hours
                  else ''UTC'' @ [posix_sign] @ show_int hours @ '':'' @ show_02d mins)))"

definition derive_posix_tz_from_date :: "tz_env \<Rightarrow> nat \<Rightarrow> string option" where
  "derive_posix_tz_from_date env n =
     (if n < 16 then None
      else Option.bind (popen_either env ''/system/bin/date +%z'' ''date +%z'')
             (\<lambda>out. map_option (c_trunc n) (posix_of_offset (first_line 32 out))))"

definition resolve_localtime_target_path :: "tz_env \<Rightarrow> nat \<Rightarrow> string" where
  "resolve_localtime_target_path env n =
     (let app_dir = get_app_dir (te_exe env) (te_exists env) PATH_MAX;
          run_dir = c_trunc (PATH_MAX + 16) (app_dir @ ''/run'')
      in if fst (mkdir_recursive (te_mkdir env) (te_isdir env) run_dir) = MkOk \<and> te_writable env run_dir
         then c_trunc n (run_dir @ ''/localtime'')
         else if te_writable env ''/data/local/tmp'' then c_trunc n ''/data/local/tmp/atpd_localtime''
         else c_trunc n ''/tmp/atpd_localtime'')"

subsection \<open>Initialization\<close>

record tz_state =
  tz_name :: string
  tz_localtime_file :: string
  tz_initialized :: bool
  tz_variable :: "string option"
  tz_events :: "tz_event list"

definition tz_emit :: "tz_event list \<Rightarrow> tz_state \<Rightarrow> tz_state" where
  "tz_emit es s = s\<lparr>tz_events := tz_events s @ es\<rparr>"

text \<open>\<open>setenv\<close> with \<open>tzset\<close>, and the end of every branch.\<close>

definition tz_settle :: "string option \<Rightarrow> tz_state \<Rightarrow> tz_state" where
  "tz_settle var s =
     (case var of
        None \<Rightarrow> (tz_emit [Z_tzset] s)\<lparr>tz_initialized := True\<rparr>
      | Some v \<Rightarrow> (tz_emit [Z_setenv v, Z_tzset] s)\<lparr>tz_variable := Some v, tz_initialized := True\<rparr>)"

definition explicit_tz :: "string \<Rightarrow> bool" where
  "explicit_tz v \<longleftrightarrow> v \<noteq> []
     \<and> (hd v = CHR ''/'' \<or> hd v = CHR '':'' \<or> CHR ''-'' \<in> set v \<or> CHR ''+'' \<in> set v \<or> CHR ''0'' \<in> set v)"

text \<open>From the detected zone on.\<close>

definition install_zone :: "tz_env \<Rightarrow> string \<Rightarrow> tz_state \<Rightarrow> tz_state" where
  "install_zone env detected s =
     (let s1 = s\<lparr>tz_name := c_strncpy TZ_NAME_MAX detected\<rparr>;
          s2 = (if tz_localtime_file s1 = []
                then s1\<lparr>tz_localtime_file := resolve_localtime_target_path env TZ_PATH_MAX\<rparr> else s1)
      in case extract_android_tzdata env detected (tz_localtime_file s2) of
           (rc, posix, es) \<Rightarrow>
             (let s3 = tz_emit es s2 in
              if rc = 0 \<and> te_readable env (tz_localtime_file s3) then tz_settle (Some (tz_localtime_file s3)) s3
              else case (if posix \<noteq> [] then Some posix else lookup_posix_fallback detected) of
                Some v \<Rightarrow> tz_settle (Some v) s3
              | None \<Rightarrow>
                  (case derive_posix_tz_from_date env 32 of
                     Some v \<Rightarrow> tz_settle (Some v) s3
                   | None \<Rightarrow> tz_settle (Some ''CST-8'') s3)))"

definition timezone_unset :: "tz_env \<Rightarrow> tz_state \<Rightarrow> tz_state" where
  "timezone_unset env s =
     (if te_readable env ''/etc/localtime''
      then tz_settle None (if tz_name s = [] then s\<lparr>tz_name := ''Localtime''\<rparr> else s)
      else case detect_device_timezone env TZ_NAME_MAX of
        Some z \<Rightarrow> install_zone env z s
      | None \<Rightarrow>
          (case derive_posix_tz_from_date env 32 of
             Some v \<Rightarrow> (tz_settle (Some v) s)\<lparr>tz_name := c_strncpy TZ_NAME_MAX v\<rparr>
           | None \<Rightarrow> install_zone env ''Asia/Shanghai'' s))"

definition atp_timezone_init :: "tz_env \<Rightarrow> tz_state \<Rightarrow> tz_state" where
  "atp_timezone_init env s =
     (case tz_variable s of
        Some v \<Rightarrow>
          (if explicit_tz v then tz_settle None (s\<lparr>tz_name := c_strncpy TZ_NAME_MAX v\<rparr>) else timezone_unset env s)
      | None \<Rightarrow> timezone_unset env s)"

definition atp_timezone_get_name :: "tz_env \<Rightarrow> nat \<Rightarrow> tz_state \<Rightarrow> string \<times> tz_state" where
  "atp_timezone_get_name env n s =
     (let s1 = (if tz_initialized s then s else atp_timezone_init env s)
      in (c_strncpy n (if tz_name s1 = [] then ''UTC'' else tz_name s1), s1))"

text \<open>\<open>gmtoff\<close>: the field of \<open>localtime_r\<close>, which may fail.\<close>

definition atp_timezone_get_offset_sec :: "tz_env \<Rightarrow> int option \<Rightarrow> tz_state \<Rightarrow> int \<times> tz_state" where
  "atp_timezone_get_offset_sec env gmtoff s =
     (let s1 = (if tz_initialized s then s else atp_timezone_init env s)
      in (case gmtoff of None \<Rightarrow> 0 | Some off \<Rightarrow> off, s1))"

subsection \<open>The container\<close>

text \<open>The format of Android's container, as a writer: a header, an index of names with offset and
  length, and the payloads.\<close>

definition htonl :: "nat \<Rightarrow> string" where
  "htonl n = [char_of (n div 2 ^ 24 mod 256), char_of (n div 2 ^ 16 mod 256), char_of (n div 2 ^ 8 mod 256), char_of (n mod 256)]"

definition index_entry :: "string \<Rightarrow> nat \<Rightarrow> nat \<Rightarrow> string" where
  "index_entry name off len = name @ replicate (40 - length name) (CHR 0x00) @ htonl off @ htonl len @ replicate 4 (CHR 0x00)"

fun tzdata_index :: "(string \<times> string) list \<Rightarrow> nat \<Rightarrow> string" where
  "tzdata_index [] off = []"
| "tzdata_index ((name, p) # zs) off = index_entry name off (length p) @ tzdata_index zs (off + length p)"

definition payloads :: "(string \<times> string) list \<Rightarrow> string" where
  "payloads zs = concat (map snd zs)"

definition tzdata_container :: "string \<Rightarrow> nat \<Rightarrow> (string \<times> string) list \<Rightarrow> string" where
  "tzdata_container version zonetab zs =
     ''tzdata'' @ version @ htonl 24 @ htonl (24 + 52 * length zs) @ htonl zonetab @ tzdata_index zs 0 @ payloads zs"

definition zones_ok :: "(string \<times> string) list \<Rightarrow> bool" where
  "zones_ok zs \<longleftrightarrow> zs \<noteq> [] \<and> length zs \<le> 4096 \<and> 24 + 52 * length zs + length (payloads zs) < 2 ^ 32
     \<and> (\<forall>(name, p) \<in> set zs. length name < 40 \<and> CHR 0x00 \<notin> set name \<and> take 4 p = ''TZif'' \<and> length p \<le> 1024 * 1024)"

lemma length_htonl [simp]: "length (htonl n) = 4"
  by (simp add: htonl_def)

lemma bytes_of_nat:
  fixes n :: nat
  assumes "n < 2 ^ 32"
  shows "256 * (256 * (256 * (n div 2 ^ 24 mod 256) + n div 2 ^ 16 mod 256) + n div 2 ^ 8 mod 256) + n mod 256 = n"
proof -
  have div: "n div 2 ^ 16 = n div 256 div 256" "n div 2 ^ 24 = n div 256 div 256 div 256" "n div 2 ^ 8 = n div 256"
    by (simp_all add: div_mult2_eq [symmetric])
  have "n div 2 ^ 24 < 256"
    using assms by (simp add: less_mult_imp_div_less)
  then have "256 * (n div 2 ^ 24 mod 256) + n div 2 ^ 16 mod 256 = n div 2 ^ 16"
    unfolding div by simp
  then show ?thesis
    unfolding div by simp
qed

lemma ntohl_htonl [simp]: "n < 2 ^ 32 \<Longrightarrow> ntohl (htonl n) = of_nat n"
  using bytes_of_nat [of n] by (simp add: ntohl_def htonl_def)

lemma length_index_entry [simp]: "length name < 40 \<Longrightarrow> length (index_entry name off len) = 52"
  by (simp add: index_entry_def)

lemma length_tzdata_index: "\<forall>(name, p) \<in> set zs. length name < 40 \<Longrightarrow> length (tzdata_index zs off) = 52 * length zs"
  by (induction zs arbitrary: off) auto

text \<open>Offset and length of the first entry with a name.\<close>

fun entry_of :: "(string \<times> string) list \<Rightarrow> nat \<Rightarrow> string \<Rightarrow> (nat \<times> nat) option" where
  "entry_of [] off n = None"
| "entry_of ((name, p) # zs) off n = (if name = n then Some (off, length p) else entry_of zs (off + length p) n)"

lemma entry_of_payload:
  "(case entry_of zs off n of
      None \<Rightarrow> map_of zs n = None
    | Some (o', len) \<Rightarrow> \<exists>p. map_of zs n = Some p \<and> len = length p \<and> off \<le> o' \<and> o' - off + len \<le> length (payloads zs)
        \<and> take len (drop (o' - off) (payloads zs)) = p)"
proof (induction zs arbitrary: off)
  case (Cons z zs)
  obtain name p where z: "z = (name, p)"
    by fastforce
  show ?case
  proof (cases "name = n")
    case False
    then show ?thesis
      using Cons.IH [of "off + length p"] z by (auto simp: payloads_def split: option.splits)
  qed (simp add: z payloads_def)
qed simp

lemma c_str_padded: "length name < 40 \<Longrightarrow> CHR 0x00 \<notin> set name \<Longrightarrow> c_str (take 39 (name @ replicate (40 - length name) (CHR 0x00) @ rest)) = name"
  by (cases "39 - length name") (auto simp: c_str_def takeWhile_append takeWhile_eq_all_conv)

lemma find_entry_index:
  assumes "drop pos file = tzdata_index zs off @ rest" "\<forall>(name, p) \<in> set zs. length name < 40 \<and> CHR 0x00 \<notin> set name"
    "off + length (payloads zs) < 2 ^ 32"
  shows "find_entry file n (length zs) pos = map_option (\<lambda>(o', len). (of_nat o', of_nat len)) (entry_of zs off n)"
  using assms
proof (induction zs arbitrary: pos off)
  case (Cons z zs)
  obtain name p where z: "z = (name, p)" "length name < 40" "CHR 0x00 \<notin> set name"
    using Cons.prems(2) by (cases z) auto
  define e where "e = index_entry name off (length p)"
  have len: "length e = 52"
    by (simp add: e_def z(2))
  have "drop pos file = e @ tzdata_index zs (off + length p) @ rest"
    using Cons.prems(1) by (simp add: z(1) e_def)
  then have "c_fread file pos 52 = Some e" "drop (pos + 52) file = tzdata_index zs (off + length p) @ rest"
    using len by (simp_all add: c_fread_def add.commute [of pos] flip: drop_drop)
  moreover have "c_str (take 39 e) = name"
    using c_str_padded [OF z(2,3)] by (simp add: e_def index_entry_def)
  moreover have "take 4 (drop 40 e) = htonl off" "take 4 (drop 44 e) = htonl (length p)"
    using z(2) by (simp_all add: e_def index_entry_def)
  moreover have "off < 2 ^ 32" "length p < 2 ^ 32" "off + length p + length (payloads zs) < 2 ^ 32"
    using Cons.prems(3) by (simp_all add: z(1) payloads_def)
  ultimately show ?case
    using Cons.IH [of "pos + 52" "off + length p"] Cons.prems(2) by (simp add: z(1) sizeof_tzdata_idx_entry_def)
qed simp

lemma unat_u32: "n < 2 ^ 32 \<Longrightarrow> unat (of_nat n :: u32) = n"
  by (simp add: unat_of_nat)

lemma read_container:
  assumes "zones_ok zs" "length version = 6"
  shows "read_tzif True (tzdata_container version zonetab zs @ rest) n = map_of zs n"
proof -
  define f where "f = tzdata_container version zonetab zs @ rest"
  define k where "k = length zs"
  define d :: u32 where "d = of_nat (24 + 52 * k)"
  have k: "0 < k" "k \<le> 4096" "24 + 52 * k + length (payloads zs) < 2 ^ 32"
    using assms(1) by (auto simp: zones_ok_def k_def)
  have named: "\<forall>(name, p) \<in> set zs. length name < 40 \<and> CHR 0x00 \<notin> set name" "\<forall>(name, p) \<in> set zs. length name < 40"
    using assms(1) by (auto simp: zones_ok_def)
  define hdr where "hdr = ''tzdata'' @ version @ htonl 24 @ htonl (24 + 52 * k) @ htonl zonetab"
  have hdr: "length hdr = 24" "take 6 hdr = ''tzdata''" "take 4 (drop 12 hdr) = htonl 24" "take 4 (drop 16 hdr) = htonl (24 + 52 * k)"
    using assms(2) by (simp_all add: hdr_def)
  have f: "f = hdr @ tzdata_index zs 0 @ payloads zs @ rest"
    by (simp add: f_def hdr_def tzdata_container_def k_def)
  have fread: "c_fread f 0 24 = Some hdr"
    using hdr(1) by (simp add: f c_fread_def)
  have "drop 24 f = tzdata_index zs 0 @ payloads zs @ rest"
    using hdr(1) by (simp add: f)
  then have found: "find_entry f n k 24 = map_option (\<lambda>(o', len). (of_nat o', of_nat len)) (entry_of zs 0 n)"
    unfolding k_def by (rule find_entry_index) (use named k(3) in auto)
  have data: "drop (24 + 52 * k) f = payloads zs @ rest"
    using hdr(1) length_tzdata_index [OF named(2), of 0] by (simp add: f k_def)
  have nd: "unat d = 24 + 52 * k"
    unfolding d_def by (rule unat_u32) (use k in simp)
  have "unat (d - 24) = 52 * k" "\<not> d \<le> 24"
    using nd k(1) by (simp_all add: word_le_nat_alt unat_sub_if')
  moreover have "ntohl (htonl (24 + 52 * k)) = d" "ntohl (htonl 24) = 24"
    using k unfolding d_def by (simp_all del: of_nat_add of_nat_mult)
  ultimately have nums: "unat (d - 24) = 52 * k" "\<not> d \<le> 24" "ntohl (htonl (24 + 52 * k)) = d" "ntohl (htonl 24) = 24"
    by simp_all
  have read: "read_tzif True f n = Option.bind (entry_of zs 0 n) (\<lambda>(o', len).
      if (of_nat len :: u32) < 4 \<or> 1024 * 1024 < (of_nat len :: u32) then None
      else Option.bind (c_fread f (unat (d + of_nat o')) (unat (of_nat len :: u32))) (\<lambda>buf. if take 4 buf \<noteq> ''TZif'' then None else Some buf))"
    using fread hdr nums found k(1,2)
    by (cases "entry_of zs 0 n") (auto simp: read_tzif_def sizeof_tzdata_hdr_def sizeof_tzdata_idx_entry_def)
  show ?thesis
  proof (cases "entry_of zs 0 n")
    case None
    then show ?thesis
      using read entry_of_payload [where zs = zs and off = 0 and n = n] by (simp add: f_def)
  next
    case (Some e)
    obtain o' len where o: "e = (o', len)"
      by fastforce
    have "\<exists>p. map_of zs n = Some p \<and> len = length p \<and> o' + len \<le> length (payloads zs) \<and> take len (drop o' (payloads zs)) = p"
      using entry_of_payload [where zs = zs and off = 0 and n = n] by (simp add: Some o)
    then obtain p where e: "e = (o', length p)" "map_of zs n = Some p" "o' + length p \<le> length (payloads zs)"
        "take (length p) (drop o' (payloads zs)) = p"
      unfolding o by blast
    have p: "take 4 p = ''TZif''" "length p \<le> 1024 * 1024"
      using assms(1) map_of_SomeD [OF e(2)] by (auto simp: zones_ok_def)
    have four: "4 \<le> length p"
      using arg_cong [OF p(1), of length] by simp
    have words: "unat (of_nat (length p) :: u32) = length p" "unat (of_nat o' :: u32) = o'"
      using p(2) e(3) k(3) by (auto intro: unat_u32)
    have "unat (d + of_nat o') = 24 + 52 * k + o'"
      using nd words(2) e(3) k(3) by (simp add: unat_word_ariths)
    moreover have "c_fread f (24 + 52 * k + o') (length p) = Some p"
      using data e(3,4) by (simp add: c_fread_def add.commute [of _ o'] flip: drop_drop)
    moreover have "\<not> (of_nat (length p) :: u32) < 4" "\<not> 1024 * 1024 < (of_nat (length p) :: u32)"
      using p(2) four words(1) by (simp_all add: word_less_nat_alt)
    ultimately show ?thesis
      using read Some e(1,2) p(1) words(1) by (simp add: f_def)
  qed
qed

lemma newline_before_last:
  assumes "CHR 0x0A \<notin> set t"
  shows "newline_before (a @ CHR 0x0A # t @ rest) (length a + 1 + length t) = Some (length a)"
  using assms
proof (induction t arbitrary: rest rule: rev_induct)
  case (snoc c t)
  have "newline_before (a @ CHR 0x0A # (t @ [c]) @ rest) (Suc (length a + 1 + length t))
      = newline_before (a @ CHR 0x0A # t @ c # rest) (length a + 1 + length t)"
    using snoc.prems by (auto simp: nth_append)
  then show ?case
    using snoc.IH [of "c # rest"] snoc.prems by simp
qed (simp add: nth_append)

text \<open>The footer of a zone: its last line.\<close>

lemma posix_footer:
  assumes "prefix ''TZif2'' a \<or> prefix ''TZif3'' a" "CHR 0x0A \<notin> set t" "t \<noteq> []" "length t < out_size"
  shows "extract_posix_tz_from_tzif (a @ CHR 0x0A # t @ [CHR 0x0A]) out_size = Some t"
proof -
  let ?b = "a @ CHR 0x0A # t @ [CHR 0x0A]"
  have "5 \<le> length a" "take 5 ?b = ''TZif2'' \<or> take 5 ?b = ''TZif3''"
    using assms(1) by (auto simp: prefix_def)
  moreover have "length ?b - 1 = length a + 1 + length t"
    by simp
  moreover have "?b ! (length a + 1 + length t) = CHR 0x0A"
    by (simp add: nth_append)
  moreover have "0 < length t"
    using assms(3) by simp
  ultimately show ?thesis
    using newline_before_last [OF assms(2), of a "[CHR 0x0A]"] assms(4)
    by (auto simp: extract_posix_tz_from_tzif_def Let_def)
qed

lemma temporary_path:
  "c_trunc TZ_PATH_MAX (out @ ''.tmp.'' @ show_int p) = out \<longleftrightarrow> length out = TZ_PATH_MAX - 1"
proof
  assume "length out = TZ_PATH_MAX - 1"
  then show "c_trunc TZ_PATH_MAX (out @ ''.tmp.'' @ show_int p) = out"
    by (simp add: c_trunc_def)
next
  assume eq: "c_trunc TZ_PATH_MAX (out @ ''.tmp.'' @ show_int p) = out"
  have "length (c_trunc TZ_PATH_MAX (out @ ''.tmp.'' @ show_int p)) = min (TZ_PATH_MAX - 1) (length out + 5 + length (show_int p))"
    by (simp add: c_trunc_def add.commute)
  with eq show "length out = TZ_PATH_MAX - 1"
    by simp
qed

text \<open>C40: the data of a zone is taken from the container exactly.  For every container in Android's
  format, whatever follows it, the extraction of a zone writes the payload of the first entry with
  this name to a temporary file and renames that to the target; if the rename or the write fails
  it removes the temporary file, and if the zone is missing or the temporary file cannot be
  opened it does nothing; it succeeds exactly when the container has the zone and the system
  grants memory and the file operations.  A failure leaves the target alone, for the temporary
  path differs from it, unless the target is as long as the path buffer holds (255 characters):
  then the truncated temporary path is the target itself.  A footer of the payload is handed out as
  the POSIX string, which a missing zone leaves as it was.\<close>

theorem tzdata_extract_exact:
  assumes "zones_ok zs" "length version = 6" "to_malloc env"
  shows "let (rc, posix', es) = extract_tzif_from_tzdata_file env p (Some (tzdata_container version zonetab zs @ rest)) n out posix 64;
             tmp = c_trunc TZ_PATH_MAX (out @ ''.tmp.'' @ show_int p)
         in rc = (if map_of zs n \<noteq> None \<and> to_open env \<and> to_written env \<and> to_rename env then 0 else -1)
          \<and> es = (case map_of zs n of
                None \<Rightarrow> []
              | Some data \<Rightarrow> if \<not> to_open env then []
                  else [Z_write tmp data, if to_written env \<and> to_rename env then Z_rename tmp out else Z_unlink tmp])
          \<and> (tmp = out \<longleftrightarrow> length out = TZ_PATH_MAX - 1)
          \<and> (map_of zs n = None \<longrightarrow> posix' = posix)
          \<and> (\<forall>a t. map_of zs n = Some (a @ CHR 0x0A # t @ [CHR 0x0A]) \<and> (prefix ''TZif2'' a \<or> prefix ''TZif3'' a)
               \<and> CHR 0x0A \<notin> set t \<and> CHR 0x00 \<notin> set t \<and> t \<noteq> [] \<and> length t < 64 \<longrightarrow> posix' = t)"
proof -
  let ?f = "tzdata_container version zonetab zs @ rest"
  have read: "read_tzif (to_malloc env) ?f n = map_of zs n"
    using read_container [OF assms(1,2)] assms(3) by simp
  have foot: "extract_posix_tz_from_tzif (a @ CHR 0x0A # t @ [CHR 0x0A]) 64 = Some t" "c_str t = t"
    if "prefix ''TZif2'' a \<or> prefix ''TZif3'' a" "CHR 0x0A \<notin> set t" "CHR 0x00 \<notin> set t" "t \<noteq> []" "length t < 64" for a t
    using posix_footer [OF that(1,2,4,5)] that(3) by (auto simp: c_str_def takeWhile_eq_all_conv)
  show ?thesis
  proof (cases "map_of zs n")
    case (Some data)
    then show ?thesis
      using foot temporary_path [of out p, simplified] by (auto simp: extract_tzif_from_tzdata_file_def read Let_def)
  qed (use temporary_path [of out p, simplified] in \<open>simp add: extract_tzif_from_tzdata_file_def read\<close>)
qed

definition two_zones :: "(string \<times> string) list" where
  "two_zones = [(''UTC'', ''TZif2'' @ [CHR 0x0A] @ ''UTC0'' @ [CHR 0x0A]), (''Asia/Tokyo'', ''TZif2'' @ [CHR 0x0A] @ ''JST-9'' @ [CHR 0x0A])]"

definition all_granted :: tz_out_env where
  "all_granted = \<lparr>to_malloc = True, to_open = True, to_written = True, to_rename = True\<rparr>"

theorem tzdata_extract_exact_witness:
  "fst (extract_tzif_from_tzdata_file all_granted 7 (Some (tzdata_container ''2024a0'' 0 two_zones)) ''Asia/Tokyo'' ''/tmp/x'' [] 64) = 0
   \<and> fst (snd (extract_tzif_from_tzdata_file all_granted 7 (Some (tzdata_container ''2024a0'' 0 two_zones)) ''Asia/Tokyo'' ''/tmp/x'' [] 64))
     = ''JST-9''
   \<and> snd (snd (extract_tzif_from_tzdata_file all_granted 7 (Some (tzdata_container ''2024a0'' 0 two_zones)) ''Asia/Tokyo'' ''/tmp/x'' [] 64))
     = [Z_write ''/tmp/x.tmp.7'' (''TZif2'' @ CHR 0x0A # ''JST-9'' @ [CHR 0x0A]), Z_rename ''/tmp/x.tmp.7'' ''/tmp/x'']"
proof -
  have ok: "zones_ok two_zones"
    by (simp add: zones_ok_def two_zones_def payloads_def)
  have data: "map_of two_zones ''Asia/Tokyo'' = Some (''TZif2'' @ CHR 0x0A # ''JST-9'' @ [CHR 0x0A])"
    by (simp add: two_zones_def)
  have all: "to_malloc all_granted" "to_open all_granted" "to_written all_granted" "to_rename all_granted"
    by (simp_all add: all_granted_def)
  obtain rc posix es where run: "extract_tzif_from_tzdata_file all_granted 7 (Some (tzdata_container ''2024a0'' 0 two_zones @ []))
      ''Asia/Tokyo'' ''/tmp/x'' [] 64 = (rc, posix, es)"
    by (rule prod_cases3)
  have version: "length ''2024a0'' = 6"
    by simp
  note exact = tzdata_extract_exact [OF ok version all(1), of 7 0 "[]" "''Asia/Tokyo''" "''/tmp/x''" "[]", unfolded run Let_def prod.case]
  have "rc = 0"
    using exact [THEN conjunct1] all(2-4) data by simp
  moreover have "posix = ''JST-9''"
    using exact [THEN conjunct2, THEN conjunct2, THEN conjunct2, THEN conjunct2, rule_format, of "''TZif2''" "''JST-9''"] data by simp
  moreover have "es = [Z_write ''/tmp/x.tmp.7'' (''TZif2'' @ CHR 0x0A # ''JST-9'' @ [CHR 0x0A]), Z_rename ''/tmp/x.tmp.7'' ''/tmp/x'']"
    using exact [THEN conjunct2, THEN conjunct1] all(2-4) data
    by (simp add: c_trunc_def TZ_PATH_MAX_def show_int_def show_nat.simps digit_char_def)
  ultimately show ?thesis
    using run by simp
qed

text \<open>The variable that the first call sets counts as set by the user in the second one: after a
  reload the name of the zone is the path of the extracted file.\<close>

theorem timezone_name_lost:
  assumes "tz_variable s = None" "\<not> te_readable env ''/etc/localtime''" "detect_device_timezone env TZ_NAME_MAX = Some z"
    "extract_android_tzdata env z (tz_localtime_file s) = (0, posix, es)" "te_readable env (tz_localtime_file s)"
    "tz_localtime_file s = CHR ''/'' # path"
  shows "tz_name (atp_timezone_init env s) = c_strncpy TZ_NAME_MAX z
    \<and> tz_name (atp_timezone_init env (atp_timezone_init env s)) = c_strncpy TZ_NAME_MAX (tz_localtime_file s)"
proof -
  have "tz_name (atp_timezone_init env s) = c_strncpy TZ_NAME_MAX z"
      "tz_variable (atp_timezone_init env s) = Some (tz_localtime_file s)"
    using assms by (simp_all add: atp_timezone_init_def timezone_unset_def install_zone_def Let_def tz_settle_def tz_emit_def)
  then show ?thesis
    using assms(6) by (simp add: atp_timezone_init_def [of env "atp_timezone_init env s"] explicit_tz_def tz_settle_def tz_emit_def)
qed

end
