(* ===== verification/Spec2Isabelle.thy ===== *)
theory Spec2Isabelle
  imports Atpd_Error Atpd_Context Reactor_Loop Session_Closing Service_Props Config_Props Pid_File Api_Props Uds_Props
    Cli Async_Validate Daemon_Props Timezone
begin

text \<open>
  Verification of \<open>atpd\<close>, the supervisor daemon of the ATP transparent proxy.

  \<^bold>\<open>The program.\<close>  \<open>atpd\<close> is an event loop (\<open>src/reactor.c\<close>) with the components that
  register with it: the supervisor of the proxy process \<open>sing-box\<close> (\<open>src/service.c\<close>,
  \<open>src/service_credentials.c\<close>), the observer of network interfaces and IPsec associations
  (\<open>src/netlink.c\<close>), forwarding sessions that move bytes between two sockets through a pipe
  (\<open>src/session.c\<close>, \<open>src/splice.c\<close>), the socket that answers the commands of the user
  (\<open>src/uds.c\<close>) and the background check of the proxy's configuration
  (\<open>src/async_validate.c\<close>).  A second thread (\<open>src/api.c\<close>) polls the proxy's own interface
  through the client \<open>src/singbox_api.c\<close> and switches its mode when a VPN comes and goes.  The
  runtime context (\<open>src/atpd_context.c\<close>) holds the daemon's lifecycle and the VPN observation
  the others publish and read; the error ring (\<open>src/atpd_error.c\<close>) keeps the last errors;
  \<open>src/config.c\<close> and \<open>src/config_validator.c\<close> load the configuration; \<open>src/utils.c\<close> has the
  helpers on strings, paths and \<open>/proc\<close>, runs commands and sets the time zone.  \<open>src/cli.c\<close> reads the command line,
  \<open>src/atpd_init.c\<close> brings the components up in phases, and \<open>src/main.c\<close> composes them: the
  commands, the PID file, the transition into the background, the loop and reloading.

  \<^bold>\<open>How code is modelled.\<close>  A structure is a record with the source's fields, an operation
  one definition on explicit states in the order of the code, with a branch for every early
  return.  Machine integers are words where they can wrap (\<open>u32\<close>, \<open>u64\<close>) and integers
  where the code keeps them in range.  A C string is its characters before the NUL,
  \<open>c_trunc n\<close> is what \<open>snprintf\<close> leaves in a buffer of \<open>n\<close> bytes.  What the kernel and
  the C library answer are arguments: lists of answers for loops (the model's \<open>None\<close> is then
  "still waiting for an answer"), a stream of views of the system for the supervisor.  An
  operation whose result is \<open>None\<close> although it has its answers would use freed memory;
  theorems that an operation returns \<open>Some\<close> are memory safety.  Allocations can fail wherever
  the code checks them.  Log lines are left out unless they carry data.

  \<^bold>\<open>Theories.\<close>
  \<^item> \<open>Atpd_Prelude\<close>: types, system constants and list lemmas that all components share.
  \<^item> \<open>C_Strings\<close>: the functions of the C library the sources use on strings
    (\<open>strtoull\<close>, \<open>strtol\<close>, \<open>strstr\<close>, \<open>strtok_r\<close>, \<open>fgets\<close>, ...), with their laws.
  \<^item> \<open>Atpd_Error\<close>: the ring of 128 errors.  It refines the list of all recorded errors.
  \<^item> \<open>Atpd_Context\<close>: lifecycle and VPN state with the observers' calls as events.
  \<^item> \<open>Reactor\<close>: handler table, epoll set, timers, signals; ownership of \<open>free_cb\<close>.
  \<^item> \<open>Reactor_Loop\<close>: timer expiry, dispatch and the loop.  The locale \<open>timer_callbacks\<close> is
    the interface between the loop and its clients: a client that keeps an invariant over the
    armed timers gets a safe timer pass.
  \<^item> \<open>Splice\<close>: the stateful pump of \<open>src/splice.c\<close> over explicit byte queues.
  \<^item> \<open>Session\<close>, \<open>Session_Pump\<close>, \<open>Session_Closing\<close>: sessions in a store with reference
    counts, registry and garbage queue; the pump; closing is final.
  \<^item> \<open>Utils\<close>: process identity, recursive \<open>mkdir\<close>, string helpers.
  \<^item> \<open>Sys_Utils\<close>: running a command with a limit of time and output, files, the search for
    programs and processes, the figures of a process; \<open>Timezone\<close>: the zone of the device and
    its data.
  \<^item> \<open>Service_Credentials\<close>: user and group of the child.
  \<^item> \<open>Netlink\<close>: the network observer.
  \<^item> \<open>Atp_Config\<close>: the configuration record.
  \<^item> \<open>Service_Spawn\<close>, \<open>Service\<close>: the supervisor, the child side of the fork first, then the
    state machine; \<open>Service_Inv\<close> proves that its timer slots, the debounce slot of the
    network observer and the stop records agree with what the reactor has armed, and
    interprets \<open>timer_callbacks\<close>; \<open>Service_Props\<close> has the properties of whole runs.

  \<^item> \<open>Config\<close>: the schema of the settings, the line parser, the settings taken from the proxy's
    own configuration, loading, and the classification of a reload; \<open>Config_Props\<close>: loading is
    all or nothing and strict, the classification is exact.
  \<^item> \<open>Pid_File\<close>: paths, the PID file with the identity of the daemon, \<open>stop\<close> and \<open>reload\<close>.
  \<^item> \<open>Singbox_Api\<close>: varints, frames, chunked answers and the calls of the client;
    \<open>Singbox_Api_Props\<close>: what is sent is well formed, what is received is read back.
  \<^item> \<open>Api\<close>: the poller's two threads as an interleaving of their critical sections;
    \<open>Api_Props\<close>: no request of the VPN observer is lost, the mode is restored.
  \<^item> \<open>Uds\<close>: the command socket and its clients; \<open>Uds_Props\<close>: they are used and closed safely.
  \<^item> \<open>Cli\<close>: the command line, with \<open>getopt_long\<close> of the C library.
  \<^item> \<open>Async_Validate\<close>: the background check and its contract of a single cleanup.
  \<^item> \<open>Atpd_Init\<close>: the init phases over the components above; \<open>Atpd_Init_Props\<close>: the locale
    \<open>init_table\<close> states what a phase and its cleanup owe each other, its interpretation
    \<open>daemon_phases\<close> that the phases of the daemon do, and so the run is all or nothing.
  \<^item> \<open>Daemon\<close>: \<open>src/main.c\<close>; \<open>Daemon_Props\<close>: reloading is a transaction, and the process that
    starts the daemon is told the truth, once.

  \<^bold>\<open>Fuel and bounds.\<close>  Loops over kernel answers recurse on the list of answers;
  \<open>splice_call_returns\<close> states how many are enough.  The polling loops of the supervisor have
  their own bounds from the source.

  \<^bold>\<open>Not modelled.\<close>  Logging (\<open>src/logger.c\<close>), terminal output (\<open>src/ui.c\<close>,
  \<open>src/status.c\<close>, \<open>src/status_render.c\<close>) and version strings are output only; so are the usage
  texts of \<open>src/cli.c\<close>.  \<open>src/yyjson.c\<close> is a vendored library: the values it finds are an
  argument of \<open>Config\<close>.
\<close>

end
